(* ===== verification/Yuzu_Prelude.thy ===== *)
theory Yuzu_Prelude
  imports Main "HOL-Library.Word" "HOL-Library.Monad_Syntax"
begin

text \<open>
  Shared vocabulary of the development: the fixed-width integer types of
  \<^verbatim>\<open>common/common_types.h\<close>, the treatment of assertions, and the word and list lemmas that
  the component theories use.

  A function of the emulator that can hit an \<open>ASSERT\<close> (which logs and then crashes the
  process, \<^verbatim>\<open>common/assert.h\<close>) or that would run into undefined behaviour is modelled in the
  option monad: \<open>None\<close> means that execution does not come back. A theorem that says that
  such a function is equal to \<open>Some r\<close> therefore includes that no assertion fires.
\<close>

unbundle bit_operations_syntax

declare map_of_append [simp del]

type_synonym u8 = "8 word"
type_synonym u16 = "16 word"
type_synonym u32 = "32 word"
type_synonym u64 = "64 word"

type_synonym VAddr = u64
type_synonym PAddr = u64
type_synonym GPUVAddr = u64

text \<open>A host pointer (\<open>u8*\<close>) is the number of its address; \<open>nullptr\<close> is 0.\<close>

type_synonym host_ptr = u64

definition ASSERT :: "bool \<Rightarrow> unit option" where
  "ASSERT b = (if b then Some () else None)"

lemma ASSERT_True [simp]: "ASSERT True = Some ()"
  by (simp add: ASSERT_def)

lemma ASSERT_False [simp]: "ASSERT False = None"
  by (simp add: ASSERT_def)

lemma ASSERT_bind_eq_Some [simp]:
  "(ASSERT b \<bind> f = Some r) \<longleftrightarrow> b \<and> f () = Some r"
  by (simp add: ASSERT_def)

lemma ASSERT_bindI: "b \<Longrightarrow> f () = r \<Longrightarrow> ASSERT b \<bind> f = r"
  by (simp add: ASSERT_def)

subsection \<open>Words read as natural numbers\<close>

named_theorems u64_nat \<open>rewrite comparisons of 64-bit words to comparisons of naturals\<close>

lemmas word_nat_order [u64_nat] = word_le_nat_alt word_less_nat_alt

lemma unat_add_bounded:
  fixes x y :: "'a::len word"
  assumes "unat x + unat y < 2 ^ LENGTH('a)"
  shows "unat (x + y) = unat x + unat y"
  using assms by (simp add: unat_add_lem)

lemma unat_add_u64:
  fixes x y :: u64
  assumes "unat x + unat y < 18446744073709551616"
  shows "unat (x + y) = unat x + unat y"
  using assms unat_add_bounded [of x y] by simp

lemma unat_sub_u64:
  fixes x y :: u64
  assumes "unat y \<le> unat x"
  shows "unat (x - y) = unat x - unat y"
  using assms by (simp add: unat_sub word_le_nat_alt)

lemma unat_bound_u64: "unat (x :: u64) < 18446744073709551616"
  using unsigned_less [of x] by simp

lemma unat_of_nat_u64: "x < 18446744073709551616 \<Longrightarrow> unat (of_nat x :: u64) = x"
  by (simp add: unat_of_nat)

lemma unat_bound_u32: "unat (x :: u32) < 4294967296"
  using unsigned_less [of x] by simp

lemma unat_u32_u64: "unat (ucast (x :: u32) :: u64) = unat x"
  using unat_bound_u32 [of x] by (simp add: unsigned_ucast_eq take_bit_nat_eq_self_iff)

lemma unat_add_u32:
  fixes x y :: u32
  assumes "unat x + unat y < 4294967296"
  shows "unat (x + y) = unat x + unat y"
  using assms unat_add_bounded [of x y] by simp

lemma word_eq_unatI: "unat x = unat y \<Longrightarrow> x = y"
  by (simp add: word_unat_eq_iff)

lemma unat_and_mask:
  fixes x :: "'a::len word"
  shows "unat (x AND mask n) = unat x mod 2 ^ n"
  by (simp only: take_bit_eq_mask [symmetric] unsigned_take_bit_eq)
    (simp add: take_bit_eq_mod)

lemma and_mask_eq_0_iff:
  fixes x :: "'a::len word"
  shows "x AND mask n = 0 \<longleftrightarrow> 2 ^ n dvd unat x"
proof -
  have "x AND mask n = 0 \<longleftrightarrow> unat (x AND mask n) = 0"
    by (rule unat_eq_0 [symmetric])
  also have "\<dots> \<longleftrightarrow> 2 ^ n dvd unat x"
    unfolding unat_and_mask by (rule mod_eq_0_iff_dvd)
  finally show ?thesis .
qed

lemma unat_drop_bit:
  fixes x :: "'a::len word"
  shows "unat (drop_bit n x) = unat x div 2 ^ n"
proof -
  have "unat (drop_bit n x) = drop_bit n (take_bit (LENGTH('a)) (unat x))"
    by (rule unsigned_drop_bit_eq)
  moreover have "take_bit (LENGTH('a)) (unat x) = unat x"
    by (simp add: take_bit_nat_eq_self_iff)
  ultimately show ?thesis by (simp only: drop_bit_eq_div)
qed

subsection \<open>Lists\<close>

lemma filter_eq_Nil_iff: "filter P xs = [] \<longleftrightarrow> (\<forall>x\<in>set xs. \<not> P x)"
  by (induction xs) auto

lemma find_eq_filter_hd:
  "List.find P xs = (case filter P xs of [] \<Rightarrow> None | x # _ \<Rightarrow> Some x)"
  by (induction xs) auto

end
