(* ===== verification/Bit_Field.thy ===== *)
theory Bit_Field
  imports Yuzu_Prelude
begin

text \<open>
  \<^verbatim>\<open>BitField<Position, Bits, T>\<close> of \<^verbatim>\<open>common/bit_field.h\<close>: a field of \<open>bits\<close> bits at
  \<open>position\<close> inside a storage word. The storage word is the machine word \<open>'a word\<close>; the
  static assertions of the template are \<open>0 < bits\<close> and \<open>bits + position \<le> LENGTH('a)\<close>.
\<close>

definition bf_mask :: "nat \<Rightarrow> nat \<Rightarrow> 'a::len word" where
  "bf_mask position bits = push_bit position (drop_bit (LENGTH('a) - bits) (NOT 0))"

definition FormatValue :: "nat \<Rightarrow> nat \<Rightarrow> 'a::len word \<Rightarrow> 'a word" where
  "FormatValue position bits v = push_bit position v AND bf_mask position bits"

definition ExtractValue :: "nat \<Rightarrow> nat \<Rightarrow> 'a::len word \<Rightarrow> 'a word" where
  "ExtractValue position bits storage = drop_bit position (storage AND bf_mask position bits)"

text \<open>The signed reading shifts the field to the top and back with an arithmetic shift.\<close>

definition ExtractSigned :: "nat \<Rightarrow> nat \<Rightarrow> 'a::len word \<Rightarrow> 'a word" where
  "ExtractSigned position bits storage =
     (let shift = LENGTH('a) - bits
      in signed_drop_bit shift (push_bit (shift - position) storage))"

definition Assign :: "nat \<Rightarrow> nat \<Rightarrow> 'a::len word \<Rightarrow> 'a word \<Rightarrow> 'a word" where
  "Assign position bits storage v =
     (storage AND NOT (bf_mask position bits)) OR FormatValue position bits v"

lemma bit_bf_mask:
  assumes "bits \<le> LENGTH('a)"
  shows "bit (bf_mask position bits :: 'a::len word) n \<longleftrightarrow>
           n < LENGTH('a) \<and> position \<le> n \<and> n < position + bits"
  using assms
  by (auto simp: bf_mask_def bit_push_bit_iff bit_drop_bit_eq bit_minus_1_iff bit_mask_iff
      dest: bit_imp_le_length)

lemma bit_FormatValue:
  fixes v :: "'a::len word"
  assumes "bits \<le> LENGTH('a)"
  shows "bit (FormatValue position bits v) n \<longleftrightarrow>
           n < LENGTH('a) \<and> position \<le> n \<and> n < position + bits \<and> bit v (n - position)"
  using assms by (auto simp: FormatValue_def bit_and_iff bit_push_bit_iff bit_bf_mask)

lemma bit_ExtractValue:
  fixes s :: "'a::len word"
  assumes "bits \<le> LENGTH('a)"
  shows "bit (ExtractValue position bits s) n \<longleftrightarrow> n < bits \<and> bit s (position + n)"
  using assms
  by (auto simp: ExtractValue_def bit_drop_bit_eq bit_and_iff bit_bf_mask dest: bit_imp_le_length)

lemma bit_Assign:
  fixes s v :: "'a::len word"
  assumes "bits \<le> LENGTH('a)"
  shows "bit (Assign position bits s v) n \<longleftrightarrow>
           n < LENGTH('a) \<and>
           (if position \<le> n \<and> n < position + bits then bit v (n - position) else bit s n)"
  using assms
  by (auto simp: Assign_def bit_or_iff bit_and_iff bit_not_iff bit_bf_mask bit_FormatValue
      dest: bit_imp_le_length)

lemma ExtractValue_Assign:
  fixes s v :: "'a::len word"
  assumes "bits + position \<le> LENGTH('a)"
  shows "ExtractValue position bits (Assign position bits s v) = take_bit bits v"
proof (rule bit_word_eqI)
  fix n
  assume "n < LENGTH('a)"
  show "bit (ExtractValue position bits (Assign position bits s v)) n \<longleftrightarrow> bit (take_bit bits v) n"
    using assms by (auto simp: bit_ExtractValue bit_Assign bit_take_bit_iff)
qed

lemma ExtractValue_Assign_other:
  fixes s v :: "'a::len word"
  assumes "bits \<le> LENGTH('a)" and "bits' \<le> LENGTH('a)"
    and "position + bits \<le> position' \<or> position' + bits' \<le> position"
  shows "ExtractValue position' bits' (Assign position bits s v) = ExtractValue position' bits' s"
proof (rule bit_word_eqI)
  fix n
  assume "n < LENGTH('a)"
  show "bit (ExtractValue position' bits' (Assign position bits s v)) n \<longleftrightarrow>
        bit (ExtractValue position' bits' s) n"
    using assms by (auto simp: bit_ExtractValue bit_Assign dest: bit_imp_le_length)
qed



end
