(* ===== verification/Std_Map.thy ===== *)
theory Std_Map
  imports Yuzu_Prelude
begin

text \<open>
  The part of \<^verbatim>\<open>std::map<u64, V>\<close> that the memory managers use. A map is the list of its
  entries in the order of their keys. An iterator is the key of the entry it points at, or
  \<open>End\<close>: the keys of a \<^verbatim>\<open>std::map\<close> never change and its iterators stay valid while other
  entries come and go, so the key identifies the position. \<open>None\<close> is the result of a use the
  library leaves undefined (dereferencing or advancing the end iterator, going back from the
  first entry).
\<close>

type_synonym 'v std_map = "(u64 \<times> 'v) list"

datatype iter = At u64 | End

definition map_ok :: "'v std_map \<Rightarrow> bool" where
  "map_ok m \<longleftrightarrow> sorted_wrt (<) (map fst m)"

definition map_begin :: "'v std_map \<Rightarrow> iter" where
  "map_begin m = (case m of [] \<Rightarrow> End | p # _ \<Rightarrow> At (fst p))"

definition upper_bound :: "'v std_map \<Rightarrow> u64 \<Rightarrow> iter" where
  "upper_bound m k = map_begin (filter (\<lambda>p. k < fst p) m)"

definition lower_bound :: "'v std_map \<Rightarrow> u64 \<Rightarrow> iter" where
  "lower_bound m k = map_begin (filter (\<lambda>p. k \<le> fst p) m)"

definition iter_next :: "'v std_map \<Rightarrow> iter \<Rightarrow> iter option" where
  "iter_next m i = (case i of At k \<Rightarrow> Some (upper_bound m k) | End \<Rightarrow> None)"

definition iter_prev :: "'v std_map \<Rightarrow> iter \<Rightarrow> u64 option" where
  "iter_prev m i =
     (let ps = (case i of At k \<Rightarrow> filter (\<lambda>p. fst p < k) m | End \<Rightarrow> m)
      in if ps = [] then None else Some (fst (last ps)))"

definition deref :: "'v std_map \<Rightarrow> iter \<Rightarrow> 'v option" where
  "deref m i = (case i of At k \<Rightarrow> map_of m k | End \<Rightarrow> None)"

text \<open>Writing through a reference to the entry of key \<open>k\<close>.\<close>

definition put :: "'v std_map \<Rightarrow> u64 \<Rightarrow> 'v \<Rightarrow> 'v std_map" where
  "put m k v = map (\<lambda>p. if fst p = k then (k, v) else p) m"

text \<open>\<^verbatim>\<open>emplace\<close> leaves the map alone when the key is present.\<close>

fun emplace :: "u64 \<Rightarrow> 'v \<Rightarrow> 'v std_map \<Rightarrow> 'v std_map" where
  "emplace k v [] = [(k, v)]"
| "emplace k v (p # m) =
     (if k < fst p then (k, v) # p # m
      else if k = fst p then p # m
      else p # emplace k v m)"

definition erase :: "'v std_map \<Rightarrow> u64 \<Rightarrow> 'v std_map" where
  "erase m k = filter (\<lambda>p. fst p \<noteq> k) m"

text \<open>The entries of the iterator range \<open>[i, j)\<close>.\<close>

definition entries_between :: "'v std_map \<Rightarrow> iter \<Rightarrow> iter \<Rightarrow> 'v std_map" where
  "entries_between m i j =
     filter (\<lambda>p. (case i of At k \<Rightarrow> k \<le> fst p | End \<Rightarrow> False) \<and>
                 (case j of At k \<Rightarrow> fst p < k | End \<Rightarrow> True)) m"

subsection \<open>The operations at a known position\<close>

lemma map_ok_Nil [simp]: "map_ok []"
  by (simp add: map_ok_def)

lemma map_ok_append:
  "map_ok (xs @ ys) \<longleftrightarrow> map_ok xs \<and> map_ok ys \<and> (\<forall>p\<in>set xs. \<forall>q\<in>set ys. fst p < fst q)"
  by (auto simp: map_ok_def sorted_wrt_append)

lemma map_ok_Cons:
  "map_ok (p # m) \<longleftrightarrow> map_ok m \<and> (\<forall>q\<in>set m. fst p < fst q)"
  by (auto simp: map_ok_def)

lemmas map_ok_simps = map_ok_append map_ok_Cons

lemma map_of_at:
  assumes "map_ok (pre @ (k, v) # post)"
  shows "map_of (pre @ (k, v) # post) k = Some v"
proof -
  have "k \<notin> fst ` set pre"
    using assms by (auto simp: map_ok_simps)
  then have "map_of pre k = None"
    by (simp add: map_of_eq_None_iff)
  then show ?thesis by (simp add: map_of_append map_add_def)
qed

lemma filter_above_at:
  assumes "map_ok (pre @ (k, v) # post)"
  shows "filter (\<lambda>p. k < fst p) (pre @ (k, v) # post) = post"
proof -
  have "filter (\<lambda>p. k < fst p) pre = []"
    using assms by (auto simp: filter_eq_Nil_iff map_ok_simps)
  moreover have "filter (\<lambda>p. k < fst p) post = post"
    using assms by (auto simp: filter_id_conv map_ok_simps)
  ultimately show ?thesis by simp
qed

lemma filter_below_at:
  assumes "map_ok (pre @ (k, v) # post)"
  shows "filter (\<lambda>p. fst p < k) (pre @ (k, v) # post) = pre"
proof -
  have "filter (\<lambda>p. fst p < k) post = []"
    using assms by (auto simp: filter_eq_Nil_iff map_ok_simps)
  moreover have "filter (\<lambda>p. fst p < k) pre = pre"
    using assms by (auto simp: filter_id_conv map_ok_simps)
  ultimately show ?thesis by simp
qed

lemma upper_bound_at:
  "map_ok (pre @ (k, v) # post) \<Longrightarrow> upper_bound (pre @ (k, v) # post) k = map_begin post"
  unfolding upper_bound_def by (simp only: filter_above_at)

lemma iter_prev_at:
  "map_ok (pre @ (k, v) # post) \<Longrightarrow>
     iter_prev (pre @ (k, v) # post) (At k) = (if pre = [] then None else Some (fst (last pre)))"
  unfolding iter_prev_def by (simp only: filter_below_at Let_def iter.case)

lemma put_at:
  assumes "map_ok (pre @ (k, v) # post)"
  shows "put (pre @ (k, v) # post) k w = pre @ (k, w) # post"
proof -
  have "map (\<lambda>p. if fst p = k then (k, w) else p) pre = pre"
    using assms by (intro map_idI) (auto simp: map_ok_simps)
  moreover have "map (\<lambda>p. if fst p = k then (k, w) else p) post = post"
    using assms by (intro map_idI) (auto simp: map_ok_simps)
  ultimately show ?thesis by (simp add: put_def)
qed

lemma erase_at:
  assumes "map_ok (pre @ (k, v) # post)"
  shows "erase (pre @ (k, v) # post) k = pre @ post"
proof -
  have "filter (\<lambda>p. fst p \<noteq> k) pre = pre" and "filter (\<lambda>p. fst p \<noteq> k) post = post"
    using assms by (auto simp: filter_id_conv map_ok_simps)
  then show ?thesis by (simp add: erase_def)
qed

lemma emplace_skip:
  "(\<forall>p\<in>set pre. fst p < k) \<Longrightarrow> emplace k v (pre @ m) = pre @ emplace k v m"
  by (induction pre) auto

lemma emplace_front:
  "(\<forall>p\<in>set m. k < fst p) \<Longrightarrow> emplace k v m = (k, v) # m"
  by (cases m) auto

lemma map_begin_eq [simp]:
  "map_begin [] = End" "map_begin (p # m) = At (fst p)"
  by (simp_all add: map_begin_def)

lemma map_begin_at_iff:
  assumes "map_ok (pre @ (k, v) # post)"
  shows "map_begin (pre @ (k, v) # post) = At k \<longleftrightarrow> pre = []"
  using assms by (cases pre) (auto simp: map_ok_simps)

lemma deref_At [simp]: "deref m (At k) = map_of m k"
  by (simp add: deref_def)

lemma map_of_split:
  assumes "map_ok m" and "map_of m k = Some v"
  obtains pre post where "m = pre @ (k, v) # post"
  using assms(2) by (meson map_of_SomeD split_list)

end
