(* ===== verification/Vma_Space.thy ===== *)
theory Vma_Space
  imports Std_Map
begin

text \<open>
  Both \<^verbatim>\<open>Kernel::VMManager\<close> and \<^verbatim>\<open>Tegra::MemoryManager\<close> keep an address space as a
  \<^verbatim>\<open>std::map\<close> of areas that tile it, and share, word for word, the code that finds, splits and
  merges areas and that walks a range of them. This theory holds that shared code once,
  parametrised by the area type and by what differs between the two classes, the abstract
  reading of such a map (\<open>content\<close>: what each address is), and the locale \<open>vma_area\<close> of
  the laws an area type must satisfy. \<open>Vm_Manager\<close> and \<open>Gpu_Memory\<close> interpret it.
\<close>

subsection \<open>The shared operations\<close>

text \<open>\<^verbatim>\<open>std::prev(vma_map.upper_bound(target))\<close>.\<close>

definition find_area :: "'v std_map \<Rightarrow> u64 \<Rightarrow> u64 option" where
  "find_area m a = iter_prev m (upper_bound m a)"

text \<open>
  \<^verbatim>\<open>SplitVMA\<close>: \<open>vb\<close> and \<open>vz\<close> read the base and the size of an area, \<open>setz\<close> sets its
  size, \<open>rest n\<close> is the copy that starts \<open>n\<close> bytes in, \<open>cm\<close> is \<^verbatim>\<open>CanBeMergedWith\<close>. The
  second component of the result is the iterator to the right part.
\<close>

definition split_area ::
  "('v \<Rightarrow> u64) \<Rightarrow> ('v \<Rightarrow> u64) \<Rightarrow> (u64 \<Rightarrow> 'v \<Rightarrow> 'v) \<Rightarrow> (u64 \<Rightarrow> 'v \<Rightarrow> 'v) \<Rightarrow>
   ('v \<Rightarrow> 'v \<Rightarrow> bool option) \<Rightarrow> 'v std_map \<Rightarrow> u64 \<Rightarrow> u64 \<Rightarrow> ('v std_map \<times> u64) option" where
  "split_area vb vz setz rest cm m k n = do {
     old \<leftarrow> map_of m k;
     ASSERT (n < vz old);
     ASSERT (0 < n);
     let left = setz n old;
     let right = rest n old;
     mergeable \<leftarrow> cm left right;
     ASSERT mergeable;
     Some (emplace (vb right) right (put m k left), vb right)
   }"

text \<open>\<^verbatim>\<open>MergeAdjacent\<close>: first with the right neighbour, then with the left one.\<close>

definition merge_adjacent ::
  "('v \<Rightarrow> u64) \<Rightarrow> (u64 \<Rightarrow> 'v \<Rightarrow> 'v) \<Rightarrow> ('v \<Rightarrow> 'v \<Rightarrow> bool option) \<Rightarrow>
   'v std_map \<Rightarrow> u64 \<Rightarrow> ('v std_map \<times> u64) option" where
  "merge_adjacent vz setz cm m k = do {
     v \<leftarrow> map_of m k;
     m1 \<leftarrow> (case upper_bound m k of
              End \<Rightarrow> Some m
            | At kn \<Rightarrow> do {
                w \<leftarrow> map_of m kn;
                mergeable \<leftarrow> cm v w;
                Some (if mergeable then erase (put m k (setz (vz v + vz w) v)) kn else m)
              });
     if map_begin m1 = At k then Some (m1, k)
     else do {
       kp \<leftarrow> iter_prev m1 (At k);
       p \<leftarrow> map_of m1 kp;
       v1 \<leftarrow> map_of m1 k;
       mergeable \<leftarrow> cm p v1;
       Some (if mergeable then (erase (put m1 kp (setz (vz p + vz v1) p)) k, kp) else (m1, k))
     }
   }"

text \<open>
  The loop of \<^verbatim>\<open>UnmapRange\<close> and \<^verbatim>\<open>ReprotectRange\<close>:
  \<^verbatim>\<open>while (vma != end && vma->second.base < target_end) vma = std::next(step(vma));\<close>
  where \<open>mp\<close> reads the map out of the state.
\<close>

partial_function (option) range_loop ::
  "('s \<Rightarrow> 'v std_map) \<Rightarrow> ('v \<Rightarrow> u64) \<Rightarrow> ('s \<Rightarrow> u64 \<Rightarrow> ('s \<times> u64) option) \<Rightarrow>
   u64 \<Rightarrow> 's \<Rightarrow> iter \<Rightarrow> 's option" where
  "range_loop mp vb step target_end s it =
     (case it of
        End \<Rightarrow> Some s
      | At k \<Rightarrow>
          Option.bind (map_of (mp s) k) (\<lambda>v.
            if vb v < target_end
            then Option.bind (step s k) (\<lambda>sk.
                   Option.bind (iter_next (mp (fst sk)) (At (snd sk))) (\<lambda>it'.
                     range_loop mp vb step target_end (fst sk) it'))
            else Some s))"

subsection \<open>What a map of areas means\<close>

text \<open>The areas of the map tile \<open>[lo, hi)\<close>: no gap, no overlap, no empty area.\<close>

fun tiles :: "('v \<Rightarrow> u64) \<Rightarrow> ('v \<Rightarrow> u64) \<Rightarrow> nat \<Rightarrow> 'v std_map \<Rightarrow> nat \<Rightarrow> bool" where
  "tiles vb vz lo [] hi = (lo = hi)"
| "tiles vb vz lo (p # m) hi =
     (unat (fst p) = lo \<and> vb (snd p) = fst p \<and> 0 < unat (vz (snd p)) \<and>
      tiles vb vz (lo + unat (vz (snd p))) m hi)"

text \<open>What the address \<open>a\<close> is: the reading of its area at its offset in the area.\<close>

fun content :: "('v \<Rightarrow> u64) \<Rightarrow> ('v \<Rightarrow> nat \<Rightarrow> 'c) \<Rightarrow> 'v std_map \<Rightarrow> nat \<Rightarrow> 'c option" where
  "content vz cell [] a = None"
| "content vz cell (p # m) a =
     (if unat (fst p) \<le> a \<and> a < unat (fst p) + unat (vz (snd p))
      then Some (cell (snd p) (a - unat (fst p)))
      else content vz cell m a)"

lemma tiles_append:
  "tiles vb vz lo (xs @ ys) hi \<longleftrightarrow> (\<exists>mid. tiles vb vz lo xs mid \<and> tiles vb vz mid ys hi)"
  by (induction xs arbitrary: lo) auto

lemma tiles_le: "tiles vb vz lo m hi \<Longrightarrow> lo \<le> hi"
  by (induction m arbitrary: lo) fastforce+

lemma tiles_keys:
  assumes "tiles vb vz lo m hi" and "p \<in> set m"
  shows "lo \<le> unat (fst p)" and "unat (fst p) + unat (vz (snd p)) \<le> hi"
    and "vb (snd p) = fst p" and "0 < unat (vz (snd p))"
  using assms by (induction m arbitrary: lo) (fastforce dest: tiles_le)+

lemma tiles_map_ok: "tiles vb vz lo m hi \<Longrightarrow> map_ok m"
proof (induction m arbitrary: lo)
  case Nil
  show ?case by simp
next
  case (Cons p m)
  then have rest: "tiles vb vz (lo + unat (vz (snd p))) m hi" by simp
  have "fst p < fst q" if "q \<in> set m" for q
    using tiles_keys(1) [OF rest that] Cons.prems by (simp add: word_less_nat_alt)
  with Cons.IH [OF rest] show ?case by (simp add: map_ok_Cons)
qed

lemma content_append:
  "content vz cell (xs @ ys) a =
     (case content vz cell xs a of None \<Rightarrow> content vz cell ys a | Some c \<Rightarrow> Some c)"
  by (induction xs) auto

lemma content_outside:
  assumes "tiles vb vz lo m hi" and "a < lo \<or> hi \<le> a"
  shows "content vz cell m a = None"
  using assms by (induction m arbitrary: lo) (fastforce dest: tiles_le)+

lemma content_inside:
  assumes "tiles vb vz lo m hi" and "lo \<le> a" and "a < hi"
  shows "content vz cell m a \<noteq> None"
  using assms by (induction m arbitrary: lo) auto

lemma tiles_end_unique: "tiles vb vz lo m hi \<Longrightarrow> tiles vb vz lo m hi' \<Longrightarrow> hi = hi'"
  by (induction m arbitrary: lo) auto

text \<open>Replacing a stretch of the map by another that tiles the same addresses.\<close>

lemma content_replace:
  assumes "\<And>a. content vz cell ys a = content vz cell ys' a"
  shows "content vz cell (xs @ ys @ zs) a = content vz cell (xs @ ys' @ zs) a"
  using assms by (simp add: content_append split: option.split)

lemma tiles_replace:
  assumes "\<And>l h. tiles vb vz l ys h \<Longrightarrow> tiles vb vz l ys' h"
    and "tiles vb vz lo (xs @ ys @ zs) hi"
  shows "tiles vb vz lo (xs @ ys' @ zs) hi"
  using assms by (auto simp: tiles_append)

text \<open>The area that \<open>find_area\<close> finds is the one that holds the address.\<close>

lemma find_area_at:
  assumes t: "tiles vb vz lo m hi" and a: "lo \<le> unat a" "unat a < hi"
  obtains pre k v post where "m = pre @ (k, v) # post" and "find_area m a = Some k"
    and "unat k \<le> unat a" and "unat a < unat k + unat (vz v)"
proof -
  have "\<exists>pre k v post. m = pre @ (k, v) # post \<and> unat k \<le> unat a \<and> unat a < unat k + unat (vz v)"
    using t a
  proof (induction m arbitrary: lo)
    case Nil
    then show ?case by simp
  next
    case (Cons p m)
    show ?case
    proof (cases "unat a < unat (fst p) + unat (vz (snd p))")
      case True
      with Cons.prems show ?thesis
        by (intro exI [of _ "[]"] exI [of _ "fst p"] exI [of _ "snd p"] exI [of _ m]) simp
    next
      case False
      with Cons.prems have "\<exists>pre k v post. m = pre @ (k, v) # post \<and> unat k \<le> unat a \<and>
          unat a < unat k + unat (vz v)"
        by (intro Cons.IH [of "lo + unat (vz (snd p))"]) auto
      then obtain pre k v post where "m = pre @ (k, v) # post" "unat k \<le> unat a"
        "unat a < unat k + unat (vz v)" by blast
      then show ?thesis
        by (intro exI [of _ "p # pre"] exI [of _ k] exI [of _ v] exI [of _ post]) simp
    qed
  qed
  then obtain pre k v post where m: "m = pre @ (k, v) # post"
    and k: "unat k \<le> unat a" "unat a < unat k + unat (vz v)" by blast
  have ok: "map_ok (pre @ (k, v) # post)" using t m tiles_map_ok by metis
  from t m obtain mid where pre: "tiles vb vz lo pre mid" and here: "tiles vb vz mid ((k, v) # post) hi"
    by (auto simp: tiles_append)
  have "\<not> a < fst p" if "p \<in> set pre" for p
    using ok that k(1) by (auto simp: map_ok_simps word_less_nat_alt)
  then have "filter (\<lambda>p. a < fst p) pre = []" by (simp add: filter_eq_Nil_iff)
  moreover have "\<not> a < k" using k(1) by (simp add: word_less_nat_alt)
  moreover have "a < fst p" if "p \<in> set post" for p
  proof -
    have "mid + unat (vz v) \<le> unat (fst p)"
      using here that by (auto intro: tiles_keys(1))
    with here k show ?thesis by (simp add: word_less_nat_alt)
  qed
  then have "filter (\<lambda>p. a < fst p) post = post" by (simp add: filter_id_conv)
  ultimately have ub: "upper_bound (pre @ (k, v) # post) a = map_begin post"
    by (simp add: upper_bound_def)
  have "find_area (pre @ (k, v) # post) a = Some k"
  proof (cases post)
    case Nil
    then show ?thesis using ub by (simp add: find_area_def iter_prev_def)
  next
    case (Cons q post')
    have "map_ok ((pre @ [(k, v)]) @ (fst q, snd q) # post')" using ok Cons by simp
    from iter_prev_at [OF this] show ?thesis
      using ub by (simp add: find_area_def Cons)
  qed
  with m k show thesis using that by simp
qed

lemma area_unique:
  assumes t: "tiles vb vz lo m hi" and m: "m = pre @ (k, v) # post" and m': "m = pre' @ (k', v') # post'"
    and a: "unat k \<le> a" "a < unat k + unat (vz v)" "unat k' \<le> a" "a < unat k' + unat (vz v')"
  shows "k' = k \<and> v' = v"
proof -
  have tpre: "tiles vb vz lo pre (unat k)" and tpost: "tiles vb vz (unat k + unat (vz v)) post hi"
    using t by (auto simp: m tiles_append)
  have "(k', v') \<in> set (pre @ (k, v) # post)" using m m' by (metis in_set_conv_decomp)
  moreover have "(k', v') \<notin> set pre" using tiles_keys(2) [OF tpre, of "(k', v')"] a by auto
  moreover have "(k', v') \<notin> set post" using tiles_keys(1) [OF tpost, of "(k', v')"] a by auto
  ultimately show ?thesis by simp
qed

lemma tiles_start_unique: "tiles vb vz lo m hi \<Longrightarrow> tiles vb vz lo' m hi \<Longrightarrow> lo = lo'"
  by (cases m) auto

lemma tiles_prefix:
  assumes "tiles vb vz lo (xs @ ys) hi" and "tiles vb vz x ys hi"
  shows "tiles vb vz lo xs x"
proof -
  from assms(1) obtain y where "tiles vb vz lo xs y" "tiles vb vz y ys hi"
    by (auto simp: tiles_append)
  with assms(2) show ?thesis by (auto dest: tiles_start_unique)
qed

text \<open>The abstract effect of an operation on a range: \<open>g\<close> on every address of \<open>[lo, hi)\<close>.\<close>

definition overlay :: "nat \<Rightarrow> nat \<Rightarrow> ('c \<Rightarrow> 'c) \<Rightarrow> (nat \<Rightarrow> 'c option) \<Rightarrow> nat \<Rightarrow> 'c option" where
  "overlay lo hi g c a = (if lo \<le> a \<and> a < hi then map_option g (c a) else c a)"

lemma overlay_empty [simp]: "overlay lo lo g c = c"
  by (auto simp: overlay_def fun_eq_iff)

lemma overlay_extend:
  "lo \<le> mid \<Longrightarrow> mid \<le> hi \<Longrightarrow> overlay mid hi g (overlay lo mid g c) = overlay lo hi g c"
  by (auto simp: overlay_def fun_eq_iff)

lemma overlay_fixed:
  assumes "\<And>a. mid \<le> a \<Longrightarrow> a < hi \<Longrightarrow> map_option g (c a) = c a" and "lo \<le> mid" and "mid \<le> hi"
  shows "overlay lo hi g c = overlay lo mid g c"
  using assms by (auto simp: overlay_def fun_eq_iff)

subsection \<open>The laws of an area type, and what follows from them\<close>

text \<open>
  The specification of \<open>merge_adjacent\<close> at a known position: the area of key \<open>k\<close> sits
  between \<open>pre\<close> and \<open>post\<close>.
\<close>

definition merge_right ::
  "('v \<Rightarrow> u64) \<Rightarrow> (u64 \<Rightarrow> 'v \<Rightarrow> 'v) \<Rightarrow> ('v \<Rightarrow> 'v \<Rightarrow> bool option) \<Rightarrow>
   'v \<Rightarrow> 'v std_map \<Rightarrow> 'v \<times> 'v std_map" where
  "merge_right vz setz cm v post =
     (case post of
        [] \<Rightarrow> (v, [])
      | p # post' \<Rightarrow>
          if cm v (snd p) = Some True then (setz (vz v + vz (snd p)) v, post') else (v, post))"

definition merge_left ::
  "('v \<Rightarrow> u64) \<Rightarrow> (u64 \<Rightarrow> 'v \<Rightarrow> 'v) \<Rightarrow> ('v \<Rightarrow> 'v \<Rightarrow> bool option) \<Rightarrow>
   'v std_map \<Rightarrow> u64 \<Rightarrow> 'v \<Rightarrow> 'v std_map \<times> u64 \<times> 'v" where
  "merge_left vz setz cm pre k v =
     (if pre \<noteq> [] \<and> cm (snd (last pre)) v = Some True
      then (butlast pre, fst (last pre), setz (vz (snd (last pre)) + vz v) (snd (last pre)))
      else (pre, k, v))"

definition merge_spec ::
  "('v \<Rightarrow> u64) \<Rightarrow> (u64 \<Rightarrow> 'v \<Rightarrow> 'v) \<Rightarrow> ('v \<Rightarrow> 'v \<Rightarrow> bool option) \<Rightarrow>
   'v std_map \<Rightarrow> u64 \<Rightarrow> 'v \<Rightarrow> 'v std_map \<Rightarrow> 'v std_map \<times> u64 \<times> 'v \<times> 'v std_map" where
  "merge_spec vz setz cm pre k v post =
     (let (v1, post1) = merge_right vz setz cm v post;
          (pre', k', v') = merge_left vz setz cm pre k v1
      in (pre', k', v', post1))"

text \<open>
  The specification of the range loop: \<open>pre\<close> is done, \<open>mid\<close> is what is left of the
  range, \<open>tail\<close> lies behind it; every step changes the first area of \<open>mid\<close> by \<open>f\<close> and
  merges the result with its neighbours, one of which may be the next area of the range.
\<close>

fun walk ::
  "('v \<Rightarrow> u64) \<Rightarrow> (u64 \<Rightarrow> 'v \<Rightarrow> 'v) \<Rightarrow> ('v \<Rightarrow> 'v \<Rightarrow> bool option) \<Rightarrow> ('v \<Rightarrow> 'v) \<Rightarrow>
   'v std_map \<Rightarrow> 'v std_map \<Rightarrow> 'v std_map \<Rightarrow> 'v std_map" where
  "walk vz setz cm f pre [] tail = pre @ tail"
| "walk vz setz cm f pre [p] tail =
     (let (v1, tail1) = merge_right vz setz cm (f (snd p)) tail;
          (pre', k', v') = merge_left vz setz cm pre (fst p) v1
      in pre' @ (k', v') # tail1)"
| "walk vz setz cm f pre (p # q # mid) tail =
     (if cm (f (snd p)) (snd q) = Some True
      then (let v1 = setz (vz (f (snd p)) + vz (snd q)) (f (snd p));
                (pre', k', v') = merge_left vz setz cm pre (fst p) v1
            in walk vz setz cm f (pre' @ [(k', v')]) mid tail)
      else (let (pre', k', v') = merge_left vz setz cm pre (fst p) (f (snd p))
            in walk vz setz cm f (pre' @ [(k', v')]) (q # mid) tail))"

text \<open>No two neighbouring areas could still be merged.\<close>

fun separated :: "('v \<Rightarrow> 'v \<Rightarrow> bool option) \<Rightarrow> 'v std_map \<Rightarrow> bool" where
  "separated cm (p # q # m) = (cm (snd p) (snd q) \<noteq> Some True \<and> separated cm (q # m))"
| "separated cm m = True"

lemma separated_append:
  "separated cm (xs @ ys) \<longleftrightarrow>
     separated cm xs \<and> separated cm ys \<and>
     (xs \<noteq> [] \<longrightarrow> ys \<noteq> [] \<longrightarrow> cm (snd (last xs)) (snd (hd ys)) \<noteq> Some True)"
proof (induction xs)
  case Nil
  then show ?case by simp
next
  case (Cons p xs)
  then show ?case by (cases xs; cases ys) auto
qed

text \<open>No two neighbouring areas are both of a kind \<open>F\<close> (free, in the applications).\<close>

fun apart :: "('v \<Rightarrow> bool) \<Rightarrow> 'v std_map \<Rightarrow> bool" where
  "apart F (p # q # m) = (\<not> (F (snd p) \<and> F (snd q)) \<and> apart F (q # m))"
| "apart F m = True"

lemma apart_append:
  "apart F (xs @ ys) \<longleftrightarrow>
     apart F xs \<and> apart F ys \<and>
     (xs \<noteq> [] \<longrightarrow> ys \<noteq> [] \<longrightarrow> \<not> (F (snd (last xs)) \<and> F (snd (hd ys))))"
proof (induction xs)
  case Nil
  then show ?case by simp
next
  case (Cons p xs)
  then show ?case by (cases xs; cases ys) auto
qed

lemma apart_Cons: "apart F (p # m) \<longleftrightarrow> apart F m \<and> (m \<noteq> [] \<longrightarrow> \<not> (F (snd p) \<and> F (snd (hd m))))"
  by (cases m) auto

text \<open>
  In a map whose areas of kind \<open>F\<close> are apart, a stretch of addresses that are all in areas of
  kind \<open>F\<close> lies in one area.
\<close>

definition kind_at :: "('v \<Rightarrow> u64) \<Rightarrow> ('v \<Rightarrow> bool) \<Rightarrow> 'v std_map \<Rightarrow> nat \<Rightarrow> bool" where
  "kind_at vz F m a \<longleftrightarrow> content vz (\<lambda>v i. F v) m a = Some True"

lemma kind_at_here:
  assumes "tiles vb vz lo (pre @ (k, v) # post) hi" and "unat k \<le> a" and "a < unat k + unat (vz v)"
  shows "kind_at vz F (pre @ (k, v) # post) a \<longleftrightarrow> F v"
proof -
  have "tiles vb vz lo pre (unat k)" using assms(1) by (auto simp: tiles_append)
  then have "content vz (\<lambda>v i. F v) pre a = None" using assms(2) by (intro content_outside) auto
  with assms(2,3) show ?thesis by (simp add: kind_at_def content_append)
qed

lemma apart_run:
  assumes t: "tiles vb vz lo (pre @ (k, v) # post) hi" and ap: "apart F (pre @ (k, v) # post)"
    and b: "unat k \<le> b" "b < unat k + unat (vz v)" and e: "b < e" "e \<le> hi"
    and all: "\<And>a. b \<le> a \<Longrightarrow> a < e \<Longrightarrow> kind_at vz F (pre @ (k, v) # post) a"
  shows "e \<le> unat k + unat (vz v)"
proof (rule ccontr)
  assume "\<not> e \<le> unat k + unat (vz v)"
  then have lt: "unat k + unat (vz v) < e" by simp
  have "tiles vb vz (unat k + unat (vz v)) post hi" using t by (auto simp: tiles_append)
  then obtain kn w post' where post: "post = (kn, w) # post'" "unat kn = unat k + unat (vz v)"
    "0 < unat (vz w)"
    using lt e by (cases post) auto
  have "F v" using kind_at_here [OF t b] all [of b] e b by simp
  moreover have "kind_at vz F (pre @ (k, v) # post) (unat kn)" using all [of "unat kn"] post lt b by simp
  then have "F w"
    using kind_at_here [of vb vz lo "pre @ [(k, v)]" kn w post' hi "unat kn" F] t post by simp
  ultimately show False using ap post by (simp add: apart_append)
qed

locale vma_area =
  fixes vb :: "'v \<Rightarrow> u64" and vz :: "'v \<Rightarrow> u64"
    and setz :: "u64 \<Rightarrow> 'v \<Rightarrow> 'v" and rest :: "u64 \<Rightarrow> 'v \<Rightarrow> 'v"
    and cm :: "'v \<Rightarrow> 'v \<Rightarrow> bool option"
    and cell :: "'v \<Rightarrow> nat \<Rightarrow> 'c"
  assumes vb_setz: "vb (setz n v) = vb v"
    and vz_setz: "vz (setz n v) = n"
    and cell_setz: "cell (setz n v) i = cell v i"
    and vb_rest: "vb (rest n v) = vb v + n"
    and vz_rest: "vz (rest n v) = vz v - n"
    and cell_rest: "cell (rest n v) i = cell v (unat n + i)"
    and cm_adjacent: "vb v + vz v = vb w \<Longrightarrow> \<exists>b. cm v w = Some b"
    and cm_cell: "cm v w = Some True \<Longrightarrow> cell w i = cell v (unat (vz v) + i)"
    and cm_split: "cm (setz n v) (rest n v) = Some True"
    and cm_setz: "cm v (setz n w) = cm v w"
    and cm_merged: "cm v w = Some True \<Longrightarrow> cm (setz (vz v + vz w) v) x = cm w x"
begin

lemmas area_simps = vb_setz vz_setz cell_setz vb_rest vz_rest cell_rest

lemma split_area_at:
  assumes t: "tiles vb vz lo (pre @ (k, v) # post) hi" and hi: "hi < 18446744073709551616"
    and n: "0 < n" "n < vz v"
  shows "split_area vb vz setz rest cm (pre @ (k, v) # post) k n =
           Some (pre @ (k, setz n v) # (k + n, rest n v) # post, k + n)"
    and "tiles vb vz lo (pre @ (k, setz n v) # (k + n, rest n v) # post) hi"
    and "content vz cell (pre @ (k, setz n v) # (k + n, rest n v) # post) =
           content vz cell (pre @ (k, v) # post)"
proof -
  let ?m = "pre @ (k, v) # post"
  have ok: "map_ok ?m" using t by (rule tiles_map_ok)
  have v: "vb v = k" "unat k + unat (vz v) \<le> hi"
    using tiles_keys [OF t, of "(k, v)"] by auto
  have n': "0 < unat n" "unat n < unat (vz v)"
    using n by (simp_all add: word_less_nat_alt)
  have kn: "unat (k + n) = unat k + unat n"
    using v hi n' by (intro unat_add_u64) linarith
  have zn: "unat (vz v - n) = unat (vz v) - unat n"
    using n' by (intro unat_sub_u64) linarith
  have post: "k + n < fst p" if "p \<in> set post" for p
  proof -
    from t obtain mid where "tiles vb vz mid ((k, v) # post) hi" by (auto simp: tiles_append)
    then have "unat k + unat (vz v) \<le> unat (fst p)" using that by (auto intro: tiles_keys(1))
    with n' kn show ?thesis by (simp add: word_less_nat_alt)
  qed
  have k: "k < k + n" using kn n' by (simp add: word_less_nat_alt)
  have pre: "fst p < k + n" if "p \<in> set pre" for p
    using ok that k by (auto simp: map_ok_simps)
  have "emplace (k + n) (rest n v) (pre @ (k, setz n v) # post) =
          pre @ (k, setz n v) # (k + n, rest n v) # post"
    using pre post k emplace_skip [of "pre @ [(k, setz n v)]" "k + n" "rest n v" post]
    by (simp add: emplace_front)
  then show "split_area vb vz setz rest cm ?m k n =
      Some (pre @ (k, setz n v) # (k + n, rest n v) # post, k + n)"
    using n v by (simp add: split_area_def map_of_at [OF ok] put_at [OF ok] cm_split vb_rest)
  have "tiles vb vz l [(k, setz n v), (k + n, rest n v)] h" if "tiles vb vz l [(k, v)] h" for l h
    using that n' kn zn by (simp add: area_simps)
  from tiles_replace [of vb vz "[(k, v)]", OF this, where xs = pre and zs = post] t
  show "tiles vb vz lo (pre @ (k, setz n v) # (k + n, rest n v) # post) hi" by simp
  have "content vz cell [(k, setz n v), (k + n, rest n v)] a = content vz cell [(k, v)] a" for a
    using n' kn zn by (auto simp: area_simps)
  from content_replace [OF this, where xs = pre and zs = post]
  show "content vz cell (pre @ (k, setz n v) # (k + n, rest n v) # post) = content vz cell ?m"
    by auto
qed

text \<open>One merge of two neighbours.\<close>

lemma merge_pair:
  assumes cm: "cm v w = Some True"
    and t: "tiles vb vz lo (pre @ (k, v) # (kn, w) # post) hi" and hi: "hi < 18446744073709551616"
  shows "tiles vb vz lo (pre @ (k, setz (vz v + vz w) v) # post) hi"
    and "content vz cell (pre @ (k, setz (vz v + vz w) v) # post) =
         content vz cell (pre @ (k, v) # (kn, w) # post)"
proof -
  have "unat kn + unat (vz w) \<le> hi"
    using tiles_keys [OF t, of "(kn, w)"] by simp
  moreover have kn: "unat kn = unat k + unat (vz v)"
    using t by (auto simp: tiles_append)
  ultimately have z: "unat (vz v + vz w) = unat (vz v) + unat (vz w)"
    using hi by (intro unat_add_u64) linarith
  have "tiles vb vz l [(k, setz (vz v + vz w) v)] h" if "tiles vb vz l [(k, v), (kn, w)] h" for l h
    using that z by (auto simp: area_simps)
  from tiles_replace [of vb vz "[(k, v), (kn, w)]", OF this, where xs = pre and zs = post] t
  show "tiles vb vz lo (pre @ (k, setz (vz v + vz w) v) # post) hi" by simp
  have "content vz cell [(k, setz (vz v + vz w) v)] a = content vz cell [(k, v), (kn, w)] a" for a
    using z kn cm_cell [OF cm] by (auto simp: area_simps)
  from content_replace [OF this, where xs = pre and zs = post]
  show "content vz cell (pre @ (k, setz (vz v + vz w) v) # post) =
        content vz cell (pre @ (k, v) # (kn, w) # post)"
    by auto
qed

lemma cm_neighbours:
  assumes t: "tiles vb vz lo (pre @ (k, v) # (kn, w) # post) hi" and hi: "hi < 18446744073709551616"
  shows "\<exists>b. cm v w = Some b"
proof (rule cm_adjacent)
  have vw: "vb v = k" "vb w = kn" "unat kn = unat k + unat (vz v)"
    using t by (auto simp: tiles_append)
  have "unat kn \<le> hi"
    using tiles_keys [OF t, of "(kn, w)"] by simp
  then have "unat (k + vz v) = unat kn"
    using vw hi by (subst unat_add_u64) linarith+
  then have "k + vz v = kn" by (rule word_eq_unatI)
  then show "vb v + vz v = vb w" using vw by simp
qed

lemma merge_right_at:
  assumes t: "tiles vb vz lo (pre @ (k, v) # post) hi" and hi: "hi < 18446744073709551616"
    and mr: "merge_right vz setz cm v post = (v1, post1)"
  shows "tiles vb vz lo (pre @ (k, v1) # post1) hi"
    and "content vz cell (pre @ (k, v1) # post1) = content vz cell (pre @ (k, v) # post)"
    and "cm p v1 = cm p v"
    and "(case upper_bound (pre @ (k, v) # post) k of
            End \<Rightarrow> Some (pre @ (k, v) # post)
          | At kn \<Rightarrow> do {
              w \<leftarrow> map_of (pre @ (k, v) # post) kn;
              mergeable \<leftarrow> cm v w;
              Some (if mergeable then erase (put (pre @ (k, v) # post) k (setz (vz v + vz w) v)) kn
                    else pre @ (k, v) # post)
            }) = Some (pre @ (k, v1) # post1)"
proof -
  let ?m = "pre @ (k, v) # post"
  have ok: "map_ok ?m" using t by (rule tiles_map_ok)
  have "tiles vb vz lo (pre @ (k, v1) # post1) hi \<and>
        content vz cell (pre @ (k, v1) # post1) = content vz cell ?m \<and> cm p v1 = cm p v \<and>
        (case upper_bound ?m k of
            End \<Rightarrow> Some ?m
          | At kn \<Rightarrow> do {
              w \<leftarrow> map_of ?m kn;
              mergeable \<leftarrow> cm v w;
              Some (if mergeable then erase (put ?m k (setz (vz v + vz w) v)) kn else ?m)
            }) = Some (pre @ (k, v1) # post1)"
  proof (cases post)
    case Nil
    then have "v1 = v" "post1 = []" using mr by (simp_all add: merge_right_def)
    with t Nil show ?thesis by (simp add: upper_bound_at [OF ok [unfolded Nil]])
  next
    case (Cons q post')
    obtain kn w where q: "q = (kn, w)" by (cases q)
    have t': "tiles vb vz lo (pre @ (k, v) # (kn, w) # post') hi" using t Cons q by simp
    have look: "map_of ?m kn = Some w"
      using map_of_at [of "pre @ [(k, v)]" kn w post'] ok Cons q by simp
    have ub: "upper_bound ?m k = At kn" using upper_bound_at [OF ok] Cons q by simp
    obtain b where b: "cm v w = Some b" using cm_neighbours [OF t' hi] by blast
    show ?thesis
    proof (cases b)
      case True
      with b have cmv: "cm v w = Some True" by simp
      then have r: "v1 = setz (vz v + vz w) v" "post1 = post'"
        using mr Cons q by (simp_all add: merge_right_def)
      have "map_ok (pre @ (k, v1) # (kn, w) # post')"
        using ok Cons q by (simp add: map_ok_simps)
      then have "erase (put ?m k v1) kn = pre @ (k, v1) # post'"
        using erase_at [of "pre @ [(k, v1)]" kn w post'] put_at [OF ok] Cons q by simp
      then show ?thesis
        using merge_pair [OF cmv t' hi] r cmv look ub Cons q by (simp add: cm_setz)
    next
      case False
      with b have "v1 = v" "post1 = post" using mr Cons q by (simp_all add: merge_right_def)
      with t b False look ub show ?thesis by simp
    qed
  qed
  then show "tiles vb vz lo (pre @ (k, v1) # post1) hi"
    and "content vz cell (pre @ (k, v1) # post1) = content vz cell (pre @ (k, v) # post)"
    and "cm p v1 = cm p v"
    and "(case upper_bound ?m k of
            End \<Rightarrow> Some ?m
          | At kn \<Rightarrow> do {
              w \<leftarrow> map_of ?m kn;
              mergeable \<leftarrow> cm v w;
              Some (if mergeable then erase (put ?m k (setz (vz v + vz w) v)) kn else ?m)
            }) = Some (pre @ (k, v1) # post1)"
    by blast+
qed

lemma merge_adjacent_at:
  assumes t: "tiles vb vz lo (pre @ (k, v) # post) hi" and hi: "hi < 18446744073709551616"
    and spec: "merge_spec vz setz cm pre k v post = (pre', k', v', post')"
  shows "merge_adjacent vz setz cm (pre @ (k, v) # post) k = Some (pre' @ (k', v') # post', k')"
    and "tiles vb vz lo (pre' @ (k', v') # post') hi"
    and "content vz cell (pre' @ (k', v') # post') = content vz cell (pre @ (k, v) # post)"
proof -
  let ?m = "pre @ (k, v) # post"
  obtain v1 post1 where mr: "merge_right vz setz cm v post = (v1, post1)" by force
  note right = merge_right_at [OF t hi mr]
  let ?m1 = "pre @ (k, v1) # post1"
  have ok: "map_ok ?m" and ok1: "map_ok ?m1"
    using t right(1) by (auto intro: tiles_map_ok)
  have unfold: "merge_adjacent vz setz cm ?m k =
     (if map_begin ?m1 = At k then Some (?m1, k)
      else do {
       kp \<leftarrow> iter_prev ?m1 (At k);
       p \<leftarrow> map_of ?m1 kp;
       v1 \<leftarrow> map_of ?m1 k;
       mergeable \<leftarrow> cm p v1;
       Some (if mergeable then (erase (put ?m1 kp (setz (vz p + vz v1) p)) k, kp) else (?m1, k))
     })"
    by (simp add: merge_adjacent_def map_of_at [OF ok] right(4))
  have "merge_adjacent vz setz cm ?m k = Some (pre' @ (k', v') # post', k') \<and>
        tiles vb vz lo (pre' @ (k', v') # post') hi \<and>
        content vz cell (pre' @ (k', v') # post') = content vz cell ?m"
  proof (cases pre rule: rev_cases)
    case Nil
    then have "(pre', k', v', post') = ([], k, v1, post1)"
      using spec mr by (simp add: merge_spec_def merge_left_def)
    with Nil right unfold show ?thesis by simp
  next
    case (snoc pr q)
    obtain kp p where q: "q = (kp, p)" by (cases q)
    have t1: "tiles vb vz lo (pr @ (kp, p) # (k, v1) # post1) hi" using right(1) snoc q by simp
    have okp: "map_ok (pr @ (kp, p) # (k, v1) # post1)" using ok1 snoc q by simp
    obtain b where b: "cm p v1 = Some b" using cm_neighbours [OF t1 hi] by blast
    have nb: "map_begin ?m1 \<noteq> At k" using map_begin_at_iff [OF ok1] snoc by simp
    have step: "merge_adjacent vz setz cm ?m k =
       Some (if b then (erase (put ?m1 kp (setz (vz p + vz v1) p)) k, kp) else (?m1, k))"
      using unfold nb b iter_prev_at [OF ok1] map_of_at [OF ok1] map_of_at [OF okp] snoc q by simp
    show ?thesis
    proof (cases b)
      case True
      with b have cmp: "cm p v1 = Some True" by simp
      then have s: "(pre', k', v', post') = (pr, kp, setz (vz p + vz v1) p, post1)"
        using spec mr snoc q right(3) by (simp add: merge_spec_def merge_left_def)
      have "map_ok ((pr @ [(kp, setz (vz p + vz v1) p)]) @ (k, v1) # post1)"
        using okp by (simp add: map_ok_simps)
      then have "erase (put ?m1 kp (setz (vz p + vz v1) p)) k =
                 pr @ (kp, setz (vz p + vz v1) p) # post1"
        using put_at [OF okp] erase_at [of "pr @ [(kp, setz (vz p + vz v1) p)]" k v1 post1] snoc q
        by simp
      then show ?thesis
        using step True s merge_pair [OF cmp t1 hi] right snoc q by simp
    next
      case False
      with b have "(pre', k', v', post') = (pre, k, v1, post1)"
        using spec mr snoc q right(3) by (simp add: merge_spec_def merge_left_def)
      with False step right show ?thesis by simp
    qed
  qed
  then show "merge_adjacent vz setz cm ?m k = Some (pre' @ (k', v') # post', k')"
    and "tiles vb vz lo (pre' @ (k', v') # post') hi"
    and "content vz cell (pre' @ (k', v') # post') = content vz cell ?m"
    by blast+
qed

text \<open>What holds of all areas and is kept by merging two of them is kept by \<open>merge_spec\<close>.\<close>

lemma merge_spec_keeps:
  assumes t: "tiles vb vz lo (pre @ (k, v) # post) hi" and hi: "hi < 18446744073709551616"
    and ok: "\<forall>p\<in>set (pre @ (k, v) # post). Q (snd p)"
    and merge: "\<And>v w. Q v \<Longrightarrow> Q w \<Longrightarrow> cm v w = Some True \<Longrightarrow>
      unat (vz v) + unat (vz w) < 18446744073709551616 \<Longrightarrow> Q (setz (vz v + vz w) v)"
    and spec: "merge_spec vz setz cm pre k v post = (pre', k', v', post')"
  shows "\<forall>p\<in>set (pre' @ (k', v') # post'). Q (snd p)"
proof -
  obtain v1 post1 where mr: "merge_right vz setz cm v post = (v1, post1)" by force
  with spec have ml: "merge_left vz setz cm pre k v1 = (pre', k', v')" and p1: "post' = post1"
    by (auto simp: merge_spec_def split: prod.splits)
  note t1 = merge_right_at(1) [OF t hi mr]
  have "Q v1 \<and> set post1 \<subseteq> set post"
  proof (cases post)
    case (Cons q post'')
    then have "unat (vz v) + unat (vz (snd q)) < 18446744073709551616"
      using tiles_keys(2) [OF t, of q] t hi by (auto simp: tiles_append)
    then show ?thesis using mr ok Cons merge [of v "snd q"]
      by (auto simp: merge_right_def split: if_splits)
  qed (use mr ok in \<open>auto simp: merge_right_def\<close>)
  moreover have "Q v' \<and> set pre' \<subseteq> set pre" if "Q v1"
  proof (cases pre rule: rev_cases)
    case (snoc pr q)
    then have "unat (vz (snd q)) + unat (vz v1) < 18446744073709551616"
      using tiles_keys(2) [OF t1, of "(k, v1)"] t1 hi by (auto simp: tiles_append)
    then show ?thesis using ml ok snoc that merge [of "snd q" v1]
      by (auto simp: merge_left_def split: if_splits)
  qed (use ml that in \<open>auto simp: merge_left_def\<close>)
  ultimately show ?thesis using ok p1 by auto
qed

text \<open>The area that a merge results in covers the area it started from.\<close>

lemma merge_spec_covers:
  assumes t: "tiles vb vz lo (pre @ (k, v) # post) hi" and hi: "hi < 18446744073709551616"
    and spec: "merge_spec vz setz cm pre k v post = (pre', k', v', post')"
  shows "unat k' \<le> unat k" and "unat k + unat (vz v) \<le> unat k' + unat (vz v')"
proof -
  obtain v1 post1 where mr: "merge_right vz setz cm v post = (v1, post1)" by force
  with spec have ml: "merge_left vz setz cm pre k v1 = (pre', k', v')"
    by (auto simp: merge_spec_def split: prod.splits)
  have "unat (vz v) \<le> unat (vz v1)"
  proof (cases post)
    case (Cons q post'')
    then have "unat (vz v + vz (snd q)) = unat (vz v) + unat (vz (snd q))"
      using tiles_keys(2) [OF t, of q] t hi by (intro unat_add_u64) (auto simp: tiles_append)
    with mr Cons show ?thesis by (auto simp: merge_right_def vz_setz split: if_splits)
  qed (use mr in \<open>simp add: merge_right_def\<close>)
  moreover have "unat k' \<le> unat k \<and> unat k + unat (vz v1) \<le> unat k' + unat (vz v')"
  proof (cases pre rule: rev_cases)
    case (snoc pr q)
    note t1 = merge_right_at(1) [OF t hi mr]
    have "unat k = unat (fst q) + unat (vz (snd q))" using t1 snoc by (auto simp: tiles_append)
    moreover from this have "unat (vz (snd q) + vz v1) = unat (vz (snd q)) + unat (vz v1)"
      using tiles_keys(2) [OF t1, of "(k, v1)"] hi by (intro unat_add_u64) auto
    ultimately show ?thesis using ml snoc by (auto simp: merge_left_def vz_setz split: if_splits)
  qed (use ml in \<open>simp add: merge_left_def\<close>)
  ultimately show "unat k' \<le> unat k" and "unat k + unat (vz v) \<le> unat k' + unat (vz v')" by auto
qed

end

text \<open>
  An operation that a range loop applies to every area: \<open>f\<close> on the area is \<open>g\<close> on what
  each of its addresses is.
\<close>

locale vma_change = vma_area +
  fixes f :: "'a \<Rightarrow> 'a" and g :: "'b \<Rightarrow> 'b"
  assumes vb_f: "vb (f v) = vb v"
    and vz_f: "vz (f v) = vz v"
    and cell_f: "cell (f v) i = g (cell v i)"
    and g_idem: "g (g c) = g c"
begin

lemma change_at:
  assumes t: "tiles vb vz lo (pre @ (k, v) # post) hi"
  shows "tiles vb vz lo (pre @ (k, f v) # post) hi"
    and "content vz cell (pre @ (k, f v) # post) =
         overlay (unat k) (unat k + unat (vz v)) g (content vz cell (pre @ (k, v) # post))"
proof -
  show "tiles vb vz lo (pre @ (k, f v) # post) hi"
    using t by (auto simp: tiles_append vb_f vz_f)
  have pre: "tiles vb vz lo pre (unat k)" and post: "tiles vb vz (unat k + unat (vz v)) post hi"
    using t by (auto simp: tiles_append)
  show "content vz cell (pre @ (k, f v) # post) =
        overlay (unat k) (unat k + unat (vz v)) g (content vz cell (pre @ (k, v) # post))"
    using content_outside [OF pre, of _ cell]
    by (auto simp: fun_eq_iff overlay_def content_append vz_f cell_f split: option.split)
qed

lemma step_at:
  assumes t: "tiles vb vz lo (pre @ (k, v) # post) hi" and hi: "hi < 18446744073709551616"
    and spec: "merge_spec vz setz cm pre k (f v) post = (pre', k', v', post')"
  shows "tiles vb vz lo (pre' @ (k', v') # post') hi"
    and "content vz cell (pre' @ (k', v') # post') =
         overlay (unat k) (unat k + unat (vz v)) g (content vz cell (pre @ (k, v) # post))"
  using merge_adjacent_at [OF change_at(1) [OF t] hi spec] change_at(2) [OF t] by simp_all

text \<open>The absorbing and the plain step of \<open>walk\<close> are steps of \<open>merge_spec\<close>.\<close>

lemma merge_spec_absorb:
  assumes "cm v w = Some True"
    and "merge_left vz setz cm pre k (setz (vz v + vz w) v) = (pre', k', v')"
  shows "merge_spec vz setz cm pre k v ((kq, w) # post) = (pre', k', v', post)"
  using assms by (simp add: merge_spec_def merge_right_def)

lemma merge_spec_plain:
  assumes "cm v w \<noteq> Some True" and "merge_left vz setz cm pre k v = (pre', k', v')"
  shows "merge_spec vz setz cm pre k v ((kq, w) # post) = (pre', k', v', (kq, w) # post)"
  using assms by (simp add: merge_spec_def merge_right_def)

lemma absorbed_fixed:
  assumes cm: "cm (f v) w = Some True" and t: "tiles vb vz lo (pre @ (k, v) # (kq, w) # post) hi"
    and a: "unat kq \<le> a" "a < unat kq + unat (vz w)"
  shows "map_option g (content vz cell (pre @ (k, v) # (kq, w) # post) a) =
         content vz cell (pre @ (k, v) # (kq, w) # post) a"
proof -
  have pre: "tiles vb vz lo pre (unat k)" and kq: "unat kq = unat k + unat (vz v)"
    using t by (auto simp: tiles_append)
  have "content vz cell (pre @ (k, v) # (kq, w) # post) a = Some (cell w (a - unat kq))"
    using a kq content_outside [OF pre, of a cell] by (simp add: content_append)
  moreover have "g (cell w (a - unat kq)) = cell w (a - unat kq)"
    using cm_cell [OF cm] by (simp add: cell_f g_idem)
  ultimately show ?thesis by simp
qed

lemma walk_correct:
  assumes "tiles vb vz lo pre start" and "tiles vb vz start mid stop" and "tiles vb vz stop tail hi"
    and hi: "hi < 18446744073709551616"
  shows "tiles vb vz lo (walk vz setz cm f pre mid tail) hi \<and>
         content vz cell (walk vz setz cm f pre mid tail) =
           overlay start stop g (content vz cell (pre @ mid @ tail))"
  using assms(1-3)
proof (induction mid arbitrary: pre start rule: induct_list012)
  case 1
  then show ?case by (auto simp: tiles_append)
next
  case (2 p)
  obtain k v where p: "p = (k, v)" by (cases p)
  have t: "tiles vb vz lo (pre @ (k, v) # tail) hi" and b: "unat k = start" "start + unat (vz v) = stop"
    using "2.prems" p by (auto simp: tiles_append)
  obtain v1 tail1 where mr: "merge_right vz setz cm (f v) tail = (v1, tail1)" by force
  obtain pre' k' v' where ml: "merge_left vz setz cm pre k v1 = (pre', k', v')"
    by (metis prod_cases3)
  have "merge_spec vz setz cm pre k (f v) tail = (pre', k', v', tail1)"
    by (simp add: merge_spec_def mr ml)
  from step_at [OF t hi this] show ?case
    using b by (simp add: p mr ml)
next
  case (3 p q mid)
  obtain k v where p: "p = (k, v)" by (cases p)
  obtain kq w where q: "q = (kq, w)" by (cases q)
  let ?m = "pre @ (k, v) # (kq, w) # mid @ tail"
  have t: "tiles vb vz lo ?m hi" and b: "unat k = start" "unat kq = start + unat (vz v)"
    and rest: "tiles vb vz (unat kq + unat (vz w)) mid stop"
    using "3.prems" p q by (auto simp: tiles_append)
  have le: "unat kq + unat (vz w) \<le> stop" using rest by (rule tiles_le)
  show ?case
  proof (cases "cm (f v) w = Some True")
    case True
    obtain pre' k' v' where
      ml: "merge_left vz setz cm pre k (setz (vz (f v) + vz w) (f v)) = (pre', k', v')"
      by (metis prod_cases3)
    note spec = merge_spec_absorb [OF True ml]
    note st = step_at [OF t hi spec]
    have "tiles vb vz (unat kq + unat (vz w)) (mid @ tail) hi"
      using rest "3.prems"(3) by (auto simp: tiles_append)
    then have pre2: "tiles vb vz lo (pre' @ [(k', v')]) (unat kq + unat (vz w))"
      using st(1) tiles_prefix [of vb vz lo "pre' @ [(k', v')]" "mid @ tail" hi] by simp
    have "content vz cell (pre' @ (k', v') # mid @ tail) =
          overlay start (unat kq + unat (vz w)) g (content vz cell ?m)"
      using st(2) b overlay_fixed [where lo = start and mid = "unat kq" and hi = "unat kq + unat (vz w)"
          and g = g and c = "content vz cell ?m"] absorbed_fixed [OF True t] by simp
    then show ?thesis
      using "3.IH"(1) [OF pre2 rest "3.prems"(3)] True ml le b
      by (simp add: p q overlay_extend)
  next
    case False
    obtain pre' k' v' where ml: "merge_left vz setz cm pre k (f v) = (pre', k', v')"
      by (metis prod_cases3)
    note spec = merge_spec_plain [OF False ml]
    note st = step_at [OF t hi spec]
    have tq: "tiles vb vz (unat kq) (q # mid) stop" using "3.prems"(2) p b by simp
    have "tiles vb vz (unat kq) ((kq, w) # mid @ tail) hi"
      using tq "3.prems"(3) q by (auto simp: tiles_append)
    then have pre2: "tiles vb vz lo (pre' @ [(k', v')]) (unat kq)"
      using st(1) tiles_prefix [of vb vz lo "pre' @ [(k', v')]" "(kq, w) # mid @ tail" hi] by simp
    show ?thesis
      using "3.IH"(2) [OF pre2 tq "3.prems"(3)] False ml le b st(2)
      by (simp add: p q overlay_extend)
  qed
qed

text \<open>The loop of the source computes \<open>walk\<close>, if its step computes \<open>merge_spec\<close>.\<close>

lemma range_loop_step:
  "map_of (mp s) k = Some v \<Longrightarrow> vb v < target_end \<Longrightarrow> step s k = Some (s', k') \<Longrightarrow>
   range_loop mp vb step target_end s (At k) =
     range_loop mp vb step target_end s' (upper_bound (mp s') k')"
  by (subst range_loop.simps) (simp add: iter_next_def)

lemma range_loop_stop:
  assumes "tiles vb vz x tail hi" and "unat target_end \<le> x" and "mp s = pre @ tail"
    and "map_ok (pre @ tail)"
  shows "range_loop mp vb step target_end s (map_begin tail) = Some s"
proof (cases tail)
  case Nil
  then show ?thesis by (simp add: range_loop.simps)
next
  case (Cons q tail')
  obtain k v where q: "q = (k, v)" by (cases q)
  have "map_of (mp s) k = Some v" using assms(3,4) Cons q map_of_at by simp
  moreover have "\<not> vb v < target_end"
    using assms(1,2) Cons q by (simp add: word_less_nat_alt)
  ultimately show ?thesis by (simp add: Cons q range_loop.simps)
qed

text \<open>
  \<open>step_ok\<close>: on an area of the kind \<open>Q\<close>, in a state that satisfies \<open>P\<close>, the step changes
  the area by \<open>f\<close>, merges it with its neighbours and keeps \<open>P\<close>.
\<close>

definition step_ok ::
  "('s \<Rightarrow> 'a std_map) \<Rightarrow> ('s \<Rightarrow> u64 \<Rightarrow> ('s \<times> u64) option) \<Rightarrow> ('s \<Rightarrow> bool) \<Rightarrow> ('a \<Rightarrow> bool) \<Rightarrow>
   nat \<Rightarrow> nat \<Rightarrow> bool" where
  "step_ok mp step P Q lo hi \<longleftrightarrow>
     (\<forall>s pre k v post pre' k' v' post'. P s \<longrightarrow> Q v \<longrightarrow> mp s = pre @ (k, v) # post \<longrightarrow>
        tiles vb vz lo (mp s) hi \<longrightarrow> merge_spec vz setz cm pre k (f v) post = (pre', k', v', post') \<longrightarrow>
        (\<exists>s'. step s k = Some (s', k') \<and> mp s' = pre' @ (k', v') # post' \<and> P s'))"

lemma range_loop_one:
  assumes step: "step_ok mp step P Q lo hi" and hi: "hi < 18446744073709551616"
    and s: "P s" "Q v" "mp s = pre @ (k, v) # post" and t: "tiles vb vz lo (pre @ (k, v) # post) hi"
    and lt: "unat k < unat target_end"
    and spec: "merge_spec vz setz cm pre k (f v) post = (pre', k', v', post')"
  obtains s' where "mp s' = pre' @ (k', v') # post'" and "P s'"
    and "tiles vb vz lo (pre' @ (k', v') # post') hi"
    and "range_loop mp vb step target_end s (At k) =
         range_loop mp vb step target_end s' (map_begin post')"
proof -
  obtain s' where s': "step s k = Some (s', k')" "mp s' = pre' @ (k', v') # post'" "P s'"
    using step [unfolded step_ok_def, rule_format, OF s _ spec] s(3) t by auto
  note t' = step_at(1) [OF t hi spec]
  have "vb v = k" using tiles_keys(3) [OF t, of "(k, v)"] by simp
  then have "range_loop mp vb step target_end s (At k) =
      range_loop mp vb step target_end s' (map_begin post')"
    using range_loop_step [where mp = mp and s = s and k = k and step = step, OF _ _ s'(1)] s(3)
      map_of_at [OF tiles_map_ok [OF t]] lt s'(2) upper_bound_at [OF tiles_map_ok [OF t']]
    by (simp add: word_less_nat_alt)
  with that s' t' show thesis by blast
qed

lemma range_loop_walk:
  assumes step: "step_ok mp step P Q lo hi"
    and hi: "hi < 18446744073709551616" and te: "unat target_end = stop"
  shows "P s \<Longrightarrow> mp s = pre @ mid @ tail \<Longrightarrow> tiles vb vz lo pre start \<Longrightarrow>
    tiles vb vz start mid stop \<Longrightarrow> tiles vb vz stop tail hi \<Longrightarrow> (\<And>p. p \<in> set mid \<Longrightarrow> Q (snd p)) \<Longrightarrow>
    \<exists>s'. range_loop mp vb step target_end s (map_begin (mid @ tail)) = Some s' \<and>
         mp s' = walk vz setz cm f pre mid tail \<and> P s'"
proof (induction mid arbitrary: s pre start tail rule: induct_list012)
  case 1
  have "tiles vb vz lo (pre @ tail) hi" using "1.prems" by (auto simp: tiles_append)
  then have "map_ok (pre @ tail)" by (rule tiles_map_ok)
  with range_loop_stop [OF "1.prems"(5), of target_end mp s pre step] "1.prems" te show ?case by simp
next
  case (2 p)
  obtain k v where p: "p = (k, v)" by (cases p)
  have t: "tiles vb vz lo (pre @ (k, v) # tail) hi" and lt: "unat k < unat target_end"
    using "2.prems" p te by (auto simp: tiles_append)
  obtain v1 tail1 where mr: "merge_right vz setz cm (f v) tail = (v1, tail1)" by force
  obtain pre' k' v' where ml: "merge_left vz setz cm pre k v1 = (pre', k', v')"
    by (metis prod_cases3)
  have spec: "merge_spec vz setz cm pre k (f v) tail = (pre', k', v', tail1)"
    by (simp add: merge_spec_def mr ml)
  have m: "mp s = pre @ (k, v) # tail" and Q: "Q v" using "2.prems"(2,6) p by auto
  obtain s' where s': "mp s' = pre' @ (k', v') # tail1" "P s'"
    "tiles vb vz lo (pre' @ (k', v') # tail1) hi" "range_loop mp vb step target_end s (At k) =
         range_loop mp vb step target_end s' (map_begin tail1)"
    by (rule range_loop_one [OF step hi "2.prems"(1) Q m t lt spec])
  obtain x where "tiles vb vz x tail1 hi" "stop \<le> x"
    using mr "2.prems"(5) by (cases tail) (auto simp: merge_right_def split: if_splits)
  with range_loop_stop [of x tail1 hi target_end mp s' "pre' @ [(k', v')]" step]
    tiles_map_ok [OF s'(3)] s'(1) te
  have "range_loop mp vb step target_end s' (map_begin tail1) = Some s'" by simp
  then show ?case using s' by (simp add: p mr ml)
next
  case (3 p q mid)
  obtain k v where p: "p = (k, v)" by (cases p)
  obtain kq w where q: "q = (kq, w)" by (cases q)
  let ?m = "pre @ (k, v) # (kq, w) # mid @ tail"
  have t: "tiles vb vz lo ?m hi" and b: "unat k = start" "unat kq = start + unat (vz v)"
    and rest: "tiles vb vz (unat kq + unat (vz w)) mid stop" and tq: "tiles vb vz (unat kq) (q # mid) stop"
    using "3.prems" p q by (auto simp: tiles_append)
  have lt: "unat k < unat target_end" using tiles_le [OF tq] "3.prems"(4) p b te by simp
  have m: "mp s = ?m" and Q: "Q v" using "3.prems"(2) "3.prems"(6) [of p] p q by auto
  note one = range_loop_one [OF step hi "3.prems"(1) Q m t lt]
  show ?case
  proof (cases "cm (f v) w = Some True")
    case True
    obtain pre' k' v' where
      ml: "merge_left vz setz cm pre k (setz (vz (f v) + vz w) (f v)) = (pre', k', v')"
      by (metis prod_cases3)
    obtain s' where s': "mp s' = pre' @ (k', v') # mid @ tail" "P s'"
      "tiles vb vz lo (pre' @ (k', v') # mid @ tail) hi" "range_loop mp vb step target_end s (At k) =
       range_loop mp vb step target_end s' (map_begin (mid @ tail))"
      by (rule one [OF merge_spec_absorb [OF True ml]])
    have "tiles vb vz (unat kq + unat (vz w)) (mid @ tail) hi"
      using rest "3.prems"(5) by (auto simp: tiles_append)
    then have pre2: "tiles vb vz lo (pre' @ [(k', v')]) (unat kq + unat (vz w))"
      using s'(3) tiles_prefix [of vb vz lo "pre' @ [(k', v')]" "mid @ tail" hi] by simp
    have m2: "mp s' = (pre' @ [(k', v')]) @ mid @ tail" using s'(1) by simp
    have "\<exists>s''. range_loop mp vb step target_end s' (map_begin (mid @ tail)) = Some s'' \<and>
         mp s'' = walk vz setz cm f (pre' @ [(k', v')]) mid tail \<and> P s''"
      by (rule "3.IH"(1) [OF s'(2) m2 pre2 rest "3.prems"(5)]) (use "3.prems"(6) in simp)
    with s'(4) True ml show ?thesis by (simp add: p q)
  next
    case False
    obtain pre' k' v' where ml: "merge_left vz setz cm pre k (f v) = (pre', k', v')"
      by (metis prod_cases3)
    obtain s' where s': "mp s' = pre' @ (k', v') # (kq, w) # mid @ tail"
      "P s'" "tiles vb vz lo (pre' @ (k', v') # (kq, w) # mid @ tail) hi"
      "range_loop mp vb step target_end s (At k) =
       range_loop mp vb step target_end s' (map_begin ((kq, w) # mid @ tail))"
      by (rule one [OF merge_spec_plain [OF False ml]])
    have "tiles vb vz (unat kq) ((kq, w) # mid @ tail) hi"
      using tq "3.prems"(5) q by (auto simp: tiles_append)
    then have pre2: "tiles vb vz lo (pre' @ [(k', v')]) (unat kq)"
      using s'(3) tiles_prefix [of vb vz lo "pre' @ [(k', v')]" "(kq, w) # mid @ tail" hi] by simp
    have m2: "mp s' = (pre' @ [(k', v')]) @ (q # mid) @ tail" using s'(1) q by simp
    have "\<exists>s''. range_loop mp vb step target_end s' (map_begin ((q # mid) @ tail)) = Some s'' \<and>
         mp s'' = walk vz setz cm f (pre' @ [(k', v')]) (q # mid) tail \<and> P s''"
      by (rule "3.IH"(2) [OF s'(2) m2 pre2 tq "3.prems"(5)]) (use "3.prems"(6) in simp)
    with s'(4) False ml show ?thesis by (simp add: p q)
  qed
qed

subsubsection \<open>No mergeable neighbours remain\<close>

lemma merge_left_separated:
  assumes "separated cm pre" and ml: "merge_left vz setz cm pre k v = (pre', k', v')"
  shows "separated cm (pre' @ [(k', v')])" and "cm v' x = cm v x"
proof -
  have "separated cm (pre' @ [(k', v')]) \<and> cm v' x = cm v x"
  proof (cases "pre \<noteq> [] \<and> cm (snd (last pre)) v = Some True")
    case True
    then obtain pr kp p where pre: "pre = pr @ [(kp, p)]" by (cases pre rule: rev_cases) auto
    with True ml have "pre' = pr" "v' = setz (vz p + vz v) p"
      by (simp_all add: merge_left_def)
    with assms(1) pre True show ?thesis
      by (simp add: separated_append cm_setz cm_merged)
  next
    case False
    with ml have "pre' = pre" "v' = v" "k' = k" by (auto simp: merge_left_def)
    with assms(1) False show ?thesis by (auto simp: separated_append)
  qed
  then show "separated cm (pre' @ [(k', v')])" and "cm v' x = cm v x" by blast+
qed

lemma merge_right_separated:
  assumes "separated cm post" and "merge_right vz setz cm v post = (v1, post1)"
  shows "separated cm ((k, v1) # post1)"
proof (cases post)
  case Nil
  then show ?thesis using assms by (simp add: merge_right_def)
next
  case (Cons q post')
  then show ?thesis using assms
    by (cases post') (auto simp: merge_right_def cm_merged split: if_splits)
qed

lemma merge_spec_separated:
  assumes "separated cm pre" and "separated cm post"
    and "merge_spec vz setz cm pre k v post = (pre', k', v', post')"
  shows "separated cm (pre' @ (k', v') # post')"
proof -
  obtain v1 post1 where mr: "merge_right vz setz cm v post = (v1, post1)" by force
  with assms(3) have ml: "merge_left vz setz cm pre k v1 = (pre', k', v')" and "post' = post1"
    by (auto simp: merge_spec_def split: prod.splits)
  have "separated cm ((k, v1) # post')"
    using merge_right_separated [OF assms(2) mr] \<open>post' = post1\<close> by simp
  with merge_left_separated [OF assms(1) ml] show ?thesis
    using separated_append [of cm "pre' @ [(k', v')]" post'] by (cases post') auto
qed

lemma walk_separated:
  assumes "separated cm pre" and "separated cm mid" and "separated cm tail" and "mid \<noteq> []"
    and "\<And>p q. p \<in> set mid \<Longrightarrow> q \<in> set mid \<Longrightarrow> cm (f (snd p)) (snd q) \<noteq> Some True"
  shows "separated cm (walk vz setz cm f pre mid tail)"
  using assms
proof (induction mid arbitrary: pre rule: induct_list012)
  case 1
  then show ?case by simp
next
  case (2 p)
  obtain v1 tail1 where mr: "merge_right vz setz cm (f (snd p)) tail = (v1, tail1)" by force
  obtain pre' k' v' where ml: "merge_left vz setz cm pre (fst p) v1 = (pre', k', v')"
    by (metis prod_cases3)
  have "merge_spec vz setz cm pre (fst p) (f (snd p)) tail = (pre', k', v', tail1)"
    by (simp add: merge_spec_def mr ml)
  from merge_spec_separated [OF "2.prems"(1,3) this] show ?case by (simp add: mr ml)
next
  case (3 p q mid)
  have no: "cm (f (snd p)) (snd q) \<noteq> Some True" using "3.prems"(5) by simp
  obtain pre' k' v' where ml: "merge_left vz setz cm pre (fst p) (f (snd p)) = (pre', k', v')"
    by (metis prod_cases3)
  have "separated cm (pre' @ [(k', v')])" by (rule merge_left_separated(1) [OF "3.prems"(1) ml])
  moreover have "separated cm (q # mid)" using "3.prems"(2) by simp
  ultimately have "separated cm (walk vz setz cm f (pre' @ [(k', v')]) (q # mid) tail)"
    using "3.prems" by (intro "3.IH"(2)) auto
  then show ?case using no ml by simp
qed

end

text \<open>
  A kind of areas that always merge with their neighbours of the same kind (free areas): they
  stay apart.
\<close>

locale vma_kind = vma_area +
  fixes F :: "'a \<Rightarrow> bool"
  assumes F_setz: "F (setz n v) \<longleftrightarrow> F v"
    and F_cm: "F v \<Longrightarrow> F w \<Longrightarrow> cm v w \<noteq> None \<Longrightarrow> cm v w = Some True"
    and F_eq: "cm v w = Some True \<Longrightarrow> F v \<longleftrightarrow> F w"
begin

lemma merge_left_apart:
  assumes "apart F pre" and t: "tiles vb vz lo (pre @ (k, v) # post) hi" and hi: "hi < 18446744073709551616"
    and ml: "merge_left vz setz cm pre k v = (pre', k', v')"
  shows "apart F (pre' @ [(k', v')])" and "F v' \<longleftrightarrow> F v"
proof -
  have "apart F (pre' @ [(k', v')]) \<and> (F v' \<longleftrightarrow> F v)"
  proof (cases pre rule: rev_cases)
    case Nil
    with ml show ?thesis by (auto simp: merge_left_def)
  next
    case (snoc pr q)
    obtain kp p where q: "q = (kp, p)" by (cases q)
    have "cm p v \<noteq> None" using cm_neighbours [of lo pr kp p k v post hi] t hi snoc q by auto
    then show ?thesis
      using assms(1) ml snoc q F_cm [of p v] F_eq [of p v]
      by (auto simp: merge_left_def apart_append F_setz split: if_splits)
  qed
  then show "apart F (pre' @ [(k', v')])" and "F v' \<longleftrightarrow> F v" by blast+
qed

lemma merge_right_apart:
  assumes "apart F post" and t: "tiles vb vz lo (pre @ (k, v) # post) hi" and hi: "hi < 18446744073709551616"
    and mr: "merge_right vz setz cm v post = (v1, post1)"
  shows "apart F ((k, v1) # post1)" and "F v1 \<longleftrightarrow> F v"
proof -
  have "apart F ((k, v1) # post1) \<and> (F v1 \<longleftrightarrow> F v)"
  proof (cases post)
    case Nil
    with mr show ?thesis by (auto simp: merge_right_def)
  next
    case (Cons q post')
    obtain kn w where q: "q = (kn, w)" by (cases q)
    have "cm v w \<noteq> None" using cm_neighbours [of lo pre k v kn w post' hi] t hi Cons q by auto
    then show ?thesis
      using assms(1) mr Cons q F_cm [of v w] F_eq [of v w]
      by (auto simp: merge_right_def apart_Cons F_setz split: if_splits)
  qed
  then show "apart F ((k, v1) # post1)" and "F v1 \<longleftrightarrow> F v" by blast+
qed

lemma merge_spec_apart:
  assumes "apart F pre" and "apart F post"
    and t: "tiles vb vz lo (pre @ (k, v) # post) hi" and hi: "hi < 18446744073709551616"
    and spec: "merge_spec vz setz cm pre k v post = (pre', k', v', post')"
  shows "apart F (pre' @ (k', v') # post')"
proof -
  obtain v1 post1 where mr: "merge_right vz setz cm v post = (v1, post1)" by force
  with spec have ml: "merge_left vz setz cm pre k v1 = (pre', k', v')" and p1: "post' = post1"
    by (auto simp: merge_spec_def split: prod.splits)
  note left = merge_left_apart [OF assms(1) merge_right_at(1) [OF t hi mr] hi ml]
  note right = merge_right_apart [OF assms(2) t hi mr]
  show ?thesis
    using left right p1 apart_append [of F "pre' @ [(k', v')]" post']
    by (auto simp: apart_Cons)
qed

end

locale vma_kind_change = vma_change vb vz setz rest cm cell f g + vma_kind vb vz setz rest cm cell F
  for vb :: "'a \<Rightarrow> u64" and vz :: "'a \<Rightarrow> u64" and setz :: "u64 \<Rightarrow> 'a \<Rightarrow> 'a"
    and rest :: "u64 \<Rightarrow> 'a \<Rightarrow> 'a" and cm :: "'a \<Rightarrow> 'a \<Rightarrow> bool option" and cell :: "'a \<Rightarrow> nat \<Rightarrow> 'b"
    and f :: "'a \<Rightarrow> 'a" and g :: "'b \<Rightarrow> 'b" and F :: "'a \<Rightarrow> bool"
begin

lemma walk_apart:
  assumes hi: "hi < 18446744073709551616"
  shows "tiles vb vz lo (pre @ mid @ tail) hi \<Longrightarrow> apart F pre \<Longrightarrow> apart F tail \<Longrightarrow>
    (\<And>p. p \<in> set mid \<Longrightarrow> \<not> F (snd p)) \<Longrightarrow> mid \<noteq> [] \<Longrightarrow>
    apart F (walk vz setz cm f pre mid tail)"
proof (induction mid arbitrary: pre rule: induct_list012)
  case 1
  then show ?case by simp
next
  case (2 p)
  obtain k v where p: "p = (k, v)" by (cases p)
  obtain v1 tail1 where mr: "merge_right vz setz cm (f v) tail = (v1, tail1)" by force
  obtain pre' k' v' where ml: "merge_left vz setz cm pre k v1 = (pre', k', v')"
    by (metis prod_cases3)
  have spec: "merge_spec vz setz cm pre k (f v) tail = (pre', k', v', tail1)"
    by (simp add: merge_spec_def mr ml)
  have t: "tiles vb vz lo (pre @ (k, f v) # tail) hi" using change_at(1) "2.prems"(1) p by simp
  from merge_spec_apart [OF "2.prems"(2,3) t hi spec] show ?case by (simp add: p mr ml)
next
  case (3 p q mid)
  obtain k v where p: "p = (k, v)" by (cases p)
  obtain kq w where q: "q = (kq, w)" by (cases q)
  have t: "tiles vb vz lo (pre @ (k, f v) # (kq, w) # mid @ tail) hi"
    using change_at(1) [of lo pre k v "(kq, w) # mid @ tail" hi] "3.prems"(1) p q by simp
  show ?case
  proof (cases "cm (f v) w = Some True")
    case True
    let ?v1 = "setz (vz (f v) + vz w) (f v)"
    obtain pre' k' v' where ml: "merge_left vz setz cm pre k ?v1 = (pre', k', v')"
      by (metis prod_cases3)
    have t1: "tiles vb vz lo (pre @ (k, ?v1) # mid @ tail) hi" by (rule merge_pair(1) [OF True t hi])
    have t2: "tiles vb vz lo ((pre' @ [(k', v')]) @ mid @ tail) hi"
      using merge_adjacent_at(2) [OF t hi merge_spec_absorb [OF True ml]] by simp
    note left = merge_left_apart [OF "3.prems"(2) t1 hi ml]
    show ?thesis
    proof (cases "mid = []")
      case False
      then show ?thesis
        using "3.IH"(1) [OF t2 left(1) "3.prems"(3)] "3.prems"(4) True ml by (simp add: p q)
    next
      case empty: True
      have "\<not> F v'" using left(2) F_setz F_eq [OF True] "3.prems"(4) [of q] q by simp
      then show ?thesis
        using empty True ml left(1) "3.prems"(3) apart_append [of F "pre' @ [(k', v')]" tail]
        by (simp add: p q)
    qed
  next
    case False
    obtain pre' k' v' where ml: "merge_left vz setz cm pre k (f v) = (pre', k', v')"
      by (metis prod_cases3)
    have t2: "tiles vb vz lo ((pre' @ [(k', v')]) @ (q # mid) @ tail) hi"
      using merge_adjacent_at(2) [OF t hi merge_spec_plain [OF False ml]] q by simp
    note left = merge_left_apart [OF "3.prems"(2) t hi ml]
    show ?thesis
      using "3.IH"(2) [OF t2 left(1) "3.prems"(3)] "3.prems"(4) False ml by (simp add: p q)
  qed
qed

end

text \<open>
  A change into such a kind (unmapping): the whole range ends up inside one area.
\<close>

locale vma_absorb = vma_kind_change +
  assumes F_f: "F (f v)"
begin

lemma merge_left_F:
  assumes "F v" and t: "tiles vb vz lo (pre @ (k, v) # post) hi" and hi: "hi < 18446744073709551616"
    and ml: "merge_left vz setz cm pre k v = (pre', k', v')"
  shows "F v'" and "unat k' \<le> unat k"
    and "unat k' + unat (vz v') = unat k + unat (vz v)"
    and "pre \<noteq> [] \<Longrightarrow> F (snd (last pre)) \<Longrightarrow> k' = fst (last pre)"
proof -
  have "F v' \<and> unat k' \<le> unat k \<and> unat k' + unat (vz v') = unat k + unat (vz v) \<and>
        (pre \<noteq> [] \<longrightarrow> F (snd (last pre)) \<longrightarrow> k' = fst (last pre))"
  proof (cases pre rule: rev_cases)
    case Nil
    with assms(1) ml show ?thesis by (auto simp: merge_left_def)
  next
    case (snoc pr q)
    obtain kp p where q: "q = (kp, p)" by (cases q)
    have t': "tiles vb vz lo (pr @ (kp, p) # (k, v) # post) hi" using t snoc q by simp
    have kp: "unat k = unat kp + unat (vz p)" using t' by (auto simp: tiles_append)
    have z: "unat (vz p + vz v) = unat (vz p) + unat (vz v)"
      using tiles_keys(2) [OF t', of "(k, v)"] kp hi by (intro unat_add_u64) auto
    have def: "cm p v \<noteq> None" using cm_neighbours [OF t' hi] by auto
    show ?thesis
    proof (cases "cm p v = Some True")
      case True
      then have "k' = kp" "v' = setz (vz p + vz v) p"
        using ml snoc q by (simp_all add: merge_left_def)
      moreover have "F p" using F_eq [OF True] assms(1) by simp
      ultimately show ?thesis using kp z snoc q by (simp add: vz_setz F_setz)
    next
      case False
      then have "k' = k" "v' = v" using ml snoc q by (simp_all add: merge_left_def)
      then show ?thesis using assms(1) False F_cm [OF _ assms(1) def] snoc q by auto
    qed
  qed
  then show "F v'" and "unat k' \<le> unat k" and "unat k' + unat (vz v') = unat k + unat (vz v)"
    and "pre \<noteq> [] \<Longrightarrow> F (snd (last pre)) \<Longrightarrow> k' = fst (last pre)"
    by blast+
qed

text \<open>After the walk one area covers the whole range.\<close>

lemma walk_covers:
  assumes hi: "hi < 18446744073709551616"
  shows "tiles vb vz lo pre start \<Longrightarrow> tiles vb vz start mid stop \<Longrightarrow> tiles vb vz stop tail hi \<Longrightarrow>
    (mid \<noteq> [] \<and> start \<le> s0) \<or> (pre \<noteq> [] \<and> F (snd (last pre)) \<and> unat (fst (last pre)) \<le> s0) \<Longrightarrow>
    \<exists>xs k v ys. walk vz setz cm f pre mid tail = xs @ (k, v) # ys \<and>
      unat k \<le> s0 \<and> stop \<le> unat k + unat (vz v)"
proof (induction mid arbitrary: pre start rule: induct_list012)
  case 1
  then obtain pr kp p where pre: "pre = pr @ [(kp, p)]" by (cases pre rule: rev_cases) auto
  with 1 have "unat kp \<le> s0" "stop = unat kp + unat (vz p)" by (auto simp: tiles_append)
  with pre show ?case by force
next
  case (2 p)
  obtain k v where p: "p = (k, v)" by (cases p)
  have t: "tiles vb vz lo (pre @ (k, f v) # tail) hi" and b: "unat k = start" "stop = start + unat (vz v)"
    using "2.prems" p by (auto simp: tiles_append vb_f vz_f)
  obtain v1 tail1 where mr: "merge_right vz setz cm (f v) tail = (v1, tail1)" by force
  obtain pre' k' v' where ml: "merge_left vz setz cm pre k v1 = (pre', k', v')"
    by (metis prod_cases3)
  note right = merge_right_at [OF t hi mr]
  have v1: "F v1" using mr F_f F_setz by (cases tail) (auto simp: merge_right_def split: if_splits)
  have "stop \<le> unat k + unat (vz v1)"
  proof -
    have t1: "tiles vb vz (unat k + unat (vz v1)) tail1 hi"
      using right(1) by (auto simp: tiles_append)
    show ?thesis
    proof (cases "tail1 = tail")
      case True
      then show ?thesis using t1 "2.prems"(3) by (auto dest: tiles_start_unique)
    next
      case False
      then obtain q where "tail = q # tail1"
        using mr by (cases tail) (auto simp: merge_right_def split: if_splits)
      then have "tiles vb vz (stop + unat (vz (snd q))) tail1 hi" using "2.prems"(3) by simp
      with t1 have "unat k + unat (vz v1) = stop + unat (vz (snd q))" by (rule tiles_start_unique)
      then show ?thesis by simp
    qed
  qed
  with merge_left_F [OF v1 right(1) hi ml] "2.prems"(4) b
  have "unat k' \<le> s0" "stop \<le> unat k' + unat (vz v')" by auto
  then show ?case using mr ml by (auto simp: p)
next
  case (3 p q mid)
  obtain k v where p: "p = (k, v)" by (cases p)
  obtain kq w where q: "q = (kq, w)" by (cases q)
  let ?m = "pre @ (k, f v) # (kq, w) # mid @ tail"
  have t: "tiles vb vz lo ?m hi" and b: "unat k = start" "unat kq = start + unat (vz v)"
    and rest: "tiles vb vz (unat kq + unat (vz w)) mid stop" and tq: "tiles vb vz (unat kq) (q # mid) stop"
    using "3.prems" p q by (auto simp: tiles_append vb_f vz_f)
  show ?case
  proof (cases "cm (f v) w = Some True")
    case True
    let ?v1 = "setz (vz (f v) + vz w) (f v)"
    obtain pre' k' v' where ml: "merge_left vz setz cm pre k ?v1 = (pre', k', v')"
      by (metis prod_cases3)
    have t1: "tiles vb vz lo (pre @ (k, ?v1) # mid @ tail) hi" by (rule merge_pair(1) [OF True t hi])
    note left = merge_left_F [OF F_setz [THEN iffD2, OF F_f] t1 hi ml]
    have "unat k' \<le> s0" using left(2,4) "3.prems"(4) b by auto
    moreover have "tiles vb vz lo (pre' @ [(k', v')]) (unat kq + unat (vz w))"
    proof (rule tiles_prefix [of vb vz lo _ "mid @ tail" hi])
      show "tiles vb vz (unat kq + unat (vz w)) (mid @ tail) hi"
        using rest "3.prems"(3) by (auto simp: tiles_append)
      show "tiles vb vz lo ((pre' @ [(k', v')]) @ mid @ tail) hi"
        using merge_adjacent_at(2) [OF t hi merge_spec_absorb [OF True ml]] by simp
    qed
    ultimately show ?thesis
      using "3.IH"(1) [OF _ rest "3.prems"(3)] left(1) True ml by (simp add: p q)
  next
    case False
    obtain pre' k' v' where ml: "merge_left vz setz cm pre k (f v) = (pre', k', v')"
      by (metis prod_cases3)
    note left = merge_left_F [OF F_f t hi ml]
    have "unat k' \<le> s0" using left(2,4) "3.prems"(4) b by auto
    moreover have "tiles vb vz lo (pre' @ [(k', v')]) (unat kq)"
    proof (rule tiles_prefix [of vb vz lo _ "(kq, w) # mid @ tail" hi])
      show "tiles vb vz (unat kq) ((kq, w) # mid @ tail) hi"
        using tq "3.prems"(3) q by (auto simp: tiles_append)
      show "tiles vb vz lo ((pre' @ [(k', v')]) @ (kq, w) # mid @ tail) hi"
        using merge_adjacent_at(2) [OF t hi merge_spec_plain [OF False ml]] by simp
    qed
    ultimately show ?thesis
      using "3.IH"(2) [OF _ tq "3.prems"(3)] left(1) False ml by (simp add: p q)
  qed
qed

end

end
