(* ===== verification/Page_Table.thy ===== *)
theory Page_Table
  imports Yuzu_Prelude
begin

text \<open>
  \<^verbatim>\<open>Common::PageTable\<close> (\<^verbatim>\<open>common/page_table.h\<close>, \<^verbatim>\<open>common/page_table.cpp\<close>) and the
  functions of \<^verbatim>\<open>core/memory.cpp\<close> that write it. A \<^verbatim>\<open>std::vector\<close> of \<open>pt_entries\<close>
  elements is a function from indices; \<^verbatim>\<open>std::fill\<close> on a range of it is \<open>fill_range\<close>. The
  interval map \<open>special_regions\<close> is a library container that the emulator only writes, so the
  model keeps the sequence of the writes made to it.

  The calls these functions make to the GPU and to the CPU cores are recorded, in order, in the
  \<open>sys_calls\<close> of the \<open>System\<close> record.
\<close>

datatype PageType =
  PT_Unmapped | PT_Memory | PT_RasterizerCachedMemory | PT_Special | PT_Allocated

datatype SpecialRegionType = DebugHook | IODevice

text \<open>A \<open>MemoryHookPointer\<close> is the identity of the hook object, \<open>None\<close> for a null pointer.\<close>

type_synonym MemoryHookPointer = "nat option"

datatype special_write =
    SR_clear
  | SR_add u64 u64 SpecialRegionType MemoryHookPointer
  | SR_erase u64 u64
  | SR_subtract u64 u64 SpecialRegionType MemoryHookPointer

record PageTable =
  pt_page_bits :: nat
  pt_entries :: nat
  pt_pointers :: "nat \<Rightarrow> host_ptr"
  pt_attributes :: "nat \<Rightarrow> PageType"
  pt_backing_addr :: "nat \<Rightarrow> u64"
  pt_special :: "special_write list"

datatype sys_call =
    Gpu_FlushAndInvalidateRegion u64 u64
  | Arm_MapBackingMemory nat VAddr u64 host_ptr u8
  | Arm_UnmapMemory nat VAddr u64
  | Sys_InvalidateCpuInstructionCaches

record System =
  sys_powered_on :: bool
  sys_calls :: "sys_call list"

definition sys_log :: "sys_call list \<Rightarrow> System \<Rightarrow> System" where
  "sys_log cs sys = sys\<lparr>sys_calls := sys_calls sys @ cs\<rparr>"

definition PAGE_BITS :: nat where "PAGE_BITS = 12"
definition PAGE_SIZE :: u64 where "PAGE_SIZE = 0x1000"
definition PAGE_MASK :: u64 where "PAGE_MASK = 0xFFF"

definition PageTable_create :: "nat \<Rightarrow> PageTable" where
  "PageTable_create page_size_in_bits =
     \<lparr>pt_page_bits = page_size_in_bits, pt_entries = 0, pt_pointers = (\<lambda>_. 0),
      pt_attributes = (\<lambda>_. PT_Unmapped), pt_backing_addr = (\<lambda>_. 0), pt_special = []\<rparr>"

text \<open>\<^verbatim>\<open>std::vector::resize\<close> keeps the old elements and value-initialises the new ones.\<close>

definition resize_vector :: "nat \<Rightarrow> nat \<Rightarrow> 'a \<Rightarrow> (nat \<Rightarrow> 'a) \<Rightarrow> nat \<Rightarrow> 'a" where
  "resize_vector old new z xs = (\<lambda>i. if i < old \<and> i < new then xs i else z)"

definition PageTable_Resize :: "nat \<Rightarrow> PageTable \<Rightarrow> PageTable" where
  "PageTable_Resize width pt =
     (let n = 2 ^ (width - pt_page_bits pt)
      in pt\<lparr>pt_pointers := resize_vector (pt_entries pt) n 0 (pt_pointers pt),
            pt_attributes := resize_vector (pt_entries pt) n PT_Unmapped (pt_attributes pt),
            pt_backing_addr := resize_vector (pt_entries pt) n 0 (pt_backing_addr pt),
            pt_entries := n\<rparr>)"

definition fill_range :: "(nat \<Rightarrow> 'a) \<Rightarrow> u64 \<Rightarrow> u64 \<Rightarrow> 'a \<Rightarrow> nat \<Rightarrow> 'a" where
  "fill_range xs b e x = (\<lambda>i. if unat b \<le> i \<and> i < unat e then x else xs i)"

text \<open>The loop of \<open>MapPages\<close> that gives each page its pointer.\<close>

function map_pages_loop ::
  "(nat \<Rightarrow> host_ptr) \<Rightarrow> u64 \<Rightarrow> u64 \<Rightarrow> host_ptr \<Rightarrow> nat \<Rightarrow> host_ptr" where
  "map_pages_loop ps b e memory =
     (if b \<noteq> e then map_pages_loop (ps(unat b := memory)) (b + 1) e (memory + PAGE_SIZE) else ps)"
  by pat_completeness auto
termination
proof (relation "measure (\<lambda>(ps, b, e, memory). unat (e - b))")
  show "wf (measure (\<lambda>(ps :: nat \<Rightarrow> host_ptr, b :: u64, e, memory :: host_ptr). unat (e - b)))"
    by simp
next
  fix ps :: "nat \<Rightarrow> host_ptr" and b e :: u64 and memory :: host_ptr
  assume "b \<noteq> e"
  then have "e - b \<noteq> 0" by simp
  then have "unat (e - b - 1) < unat (e - b)"
    by (metis measure_unat)
  then show "((ps(unat b := memory), b + 1, e, memory + PAGE_SIZE), ps, b, e, memory)
      \<in> measure (\<lambda>(ps, b, e, memory). unat (e - b))"
    by (simp add: diff_diff_eq)
qed

declare map_pages_loop.simps [simp del]

definition MapPages ::
  "System \<Rightarrow> PageTable \<Rightarrow> VAddr \<Rightarrow> u64 \<Rightarrow> host_ptr \<Rightarrow> PageType \<Rightarrow> (System \<times> PageTable) option" where
  "MapPages sys pt b n memory ty = do {
     let sys = (if sys_powered_on sys
                then sys_log [Gpu_FlushAndInvalidateRegion (push_bit PAGE_BITS b) (n * PAGE_SIZE)] sys
                else sys);
     let e = b + n;
     ASSERT (unat e \<le> pt_entries pt);
     let pt = pt\<lparr>pt_attributes := fill_range (pt_attributes pt) b e ty\<rparr>;
     Some (sys,
       if memory = 0
       then pt\<lparr>pt_pointers := fill_range (pt_pointers pt) b e memory\<rparr>
       else pt\<lparr>pt_pointers := map_pages_loop (pt_pointers pt) b e memory\<rparr>)
   }"

definition MapMemoryRegion ::
  "System \<Rightarrow> PageTable \<Rightarrow> VAddr \<Rightarrow> u64 \<Rightarrow> host_ptr \<Rightarrow> (System \<times> PageTable) option" where
  "MapMemoryRegion sys pt b n target = do {
     ASSERT (n AND PAGE_MASK = 0);
     ASSERT (b AND PAGE_MASK = 0);
     MapPages sys pt (b div PAGE_SIZE) (n div PAGE_SIZE) target PT_Memory
   }"

definition special_write :: "special_write \<Rightarrow> PageTable \<Rightarrow> PageTable" where
  "special_write w pt = pt\<lparr>pt_special := pt_special pt @ [w]\<rparr>"

definition MapIoRegion ::
  "System \<Rightarrow> PageTable \<Rightarrow> VAddr \<Rightarrow> u64 \<Rightarrow> MemoryHookPointer \<Rightarrow> (System \<times> PageTable) option" where
  "MapIoRegion sys pt b n mmio_handler = do {
     ASSERT (n AND PAGE_MASK = 0);
     ASSERT (b AND PAGE_MASK = 0);
     (sys, pt) \<leftarrow> MapPages sys pt (b div PAGE_SIZE) (n div PAGE_SIZE) 0 PT_Special;
     Some (sys, special_write (SR_add b (b + n - 1) IODevice mmio_handler) pt)
   }"

definition UnmapRegion :: "System \<Rightarrow> PageTable \<Rightarrow> VAddr \<Rightarrow> u64 \<Rightarrow> (System \<times> PageTable) option" where
  "UnmapRegion sys pt b n = do {
     ASSERT (n AND PAGE_MASK = 0);
     ASSERT (b AND PAGE_MASK = 0);
     (sys, pt) \<leftarrow> MapPages sys pt (b div PAGE_SIZE) (n div PAGE_SIZE) 0 PT_Unmapped;
     Some (sys, special_write (SR_erase b (b + n - 1)) pt)
   }"

definition AddDebugHook :: "PageTable \<Rightarrow> VAddr \<Rightarrow> u64 \<Rightarrow> MemoryHookPointer \<Rightarrow> PageTable" where
  "AddDebugHook pt b n hook = special_write (SR_add b (b + n - 1) DebugHook hook) pt"

definition RemoveDebugHook :: "PageTable \<Rightarrow> VAddr \<Rightarrow> u64 \<Rightarrow> MemoryHookPointer \<Rightarrow> PageTable" where
  "RemoveDebugHook pt b n hook = special_write (SR_subtract b (b + n - 1) DebugHook hook) pt"

subsection \<open>What the loop computes\<close>

lemma map_pages_loop_closed:
  assumes "unat b \<le> unat e"
  shows "map_pages_loop ps b e memory =
         (\<lambda>i. if unat b \<le> i \<and> i < unat e then memory + of_nat (i - unat b) * PAGE_SIZE else ps i)"
  using assms
proof (induction ps b e memory rule: map_pages_loop.induct)
  case (1 ps b e memory)
  show ?case
  proof (cases "b = e")
    case True
    then show ?thesis by (auto simp: map_pages_loop.simps fun_eq_iff)
  next
    case False
    then have lt: "unat b < unat e" using "1.prems" by (simp add: word_unat_eq_iff)
    then have b1: "unat (b + 1) = unat b + 1"
      using unat_bound_u64 [of e] unat_add_u64 [of b 1] by simp
    have "map_pages_loop ps b e memory = map_pages_loop (ps(unat b := memory)) (b + 1) e (memory + PAGE_SIZE)"
      using False by (simp add: map_pages_loop.simps)
    also have "\<dots> = (\<lambda>i. if unat (b + 1) \<le> i \<and> i < unat e
                   then memory + PAGE_SIZE + of_nat (i - unat (b + 1)) * PAGE_SIZE
                   else (ps(unat b := memory)) i)"
      by (rule "1.IH" [OF False]) (use lt b1 in simp)
    also have "\<dots> = (\<lambda>i. if unat b \<le> i \<and> i < unat e
                   then memory + of_nat (i - unat b) * PAGE_SIZE else ps i)"
    proof
      fix i
      show "(if unat (b + 1) \<le> i \<and> i < unat e
             then memory + PAGE_SIZE + of_nat (i - unat (b + 1)) * PAGE_SIZE
             else (ps(unat b := memory)) i) =
            (if unat b \<le> i \<and> i < unat e then memory + of_nat (i - unat b) * PAGE_SIZE else ps i)"
      proof (cases "unat b < i")
        case True
        then have "i - unat b = Suc (i - unat (b + 1))" using b1 by simp
        then have "memory + PAGE_SIZE + of_nat (i - unat (b + 1)) * PAGE_SIZE =
                   memory + of_nat (i - unat b) * PAGE_SIZE" by (simp add: algebra_simps)
        with True b1 show ?thesis by simp
      qed (use lt b1 in auto)
    qed
    finally show ?thesis .
  qed
qed

lemma PAGE_MASK_dvd: "x AND PAGE_MASK = 0 \<longleftrightarrow> 4096 dvd unat x"
  using and_mask_eq_0_iff [of x 12] by (simp add: PAGE_MASK_def mask_eq_exp_minus_1)

lemma unat_div_PAGE_SIZE: "unat (x div PAGE_SIZE) = unat x div 4096"
  by (simp add: PAGE_SIZE_def unat_div)

lemma page_count:
  assumes "4096 dvd unat b" and "unat b + unat n < 18446744073709551616"
  shows "unat (b div PAGE_SIZE + n div PAGE_SIZE) = unat b div 4096 + unat n div 4096"
  using assms by (subst unat_add_u64) (auto simp: unat_div_PAGE_SIZE)

text \<open>The effect of \<open>MapPages\<close> on a range that lies inside the table.\<close>

definition mapped_pointers :: "(nat \<Rightarrow> host_ptr) \<Rightarrow> nat \<Rightarrow> nat \<Rightarrow> host_ptr \<Rightarrow> nat \<Rightarrow> host_ptr" where
  "mapped_pointers ps b e memory =
     (\<lambda>i. if b \<le> i \<and> i < e
          then (if memory = 0 then 0 else memory + of_nat (i - b) * PAGE_SIZE) else ps i)"

definition mapped_types :: "(nat \<Rightarrow> PageType) \<Rightarrow> nat \<Rightarrow> nat \<Rightarrow> PageType \<Rightarrow> nat \<Rightarrow> PageType" where
  "mapped_types ts b e ty = (\<lambda>i. if b \<le> i \<and> i < e then ty else ts i)"

lemma MapPages_inside:
  assumes "unat b + unat n \<le> pt_entries pt" and "unat b + unat n < 18446744073709551616"
  shows "\<exists>sys'. MapPages sys pt b n memory ty = Some (sys',
           pt\<lparr>pt_attributes := mapped_types (pt_attributes pt) (unat b) (unat b + unat n) ty,
              pt_pointers := mapped_pointers (pt_pointers pt) (unat b) (unat b + unat n) memory\<rparr>)"
proof -
  have e: "unat (b + n) = unat b + unat n" using assms(2) by (rule unat_add_u64)
  have "fill_range (pt_attributes pt) b (b + n) ty =
        mapped_types (pt_attributes pt) (unat b) (unat b + unat n) ty"
    by (simp add: fill_range_def mapped_types_def e)
  moreover have "(if memory = 0 then fill_range (pt_pointers pt) b (b + n) memory
                  else map_pages_loop (pt_pointers pt) b (b + n) memory) =
        mapped_pointers (pt_pointers pt) (unat b) (unat b + unat n) memory"
    by (simp add: fill_range_def mapped_pointers_def map_pages_loop_closed e fun_eq_iff)
  ultimately show ?thesis
    using assms(1) by (auto simp: MapPages_def Let_def e split: if_splits)
qed

text \<open>A page-aligned range of bytes that fits into the table.\<close>

definition page_range :: "PageTable \<Rightarrow> VAddr \<Rightarrow> u64 \<Rightarrow> bool" where
  "page_range pt b n \<longleftrightarrow>
     4096 dvd unat b \<and> 4096 dvd unat n \<and> unat b + unat n \<le> 4096 * pt_entries pt \<and>
     unat b + unat n < 18446744073709551616"

definition with_pages ::
  "PageTable \<Rightarrow> VAddr \<Rightarrow> u64 \<Rightarrow> host_ptr \<Rightarrow> PageType \<Rightarrow> special_write list \<Rightarrow> PageTable" where
  "with_pages pt b n memory ty ws =
     (let lo = unat b div 4096; hi = (unat b + unat n) div 4096
      in pt\<lparr>pt_attributes := mapped_types (pt_attributes pt) lo hi ty,
            pt_pointers := mapped_pointers (pt_pointers pt) lo hi memory,
            pt_special := pt_special pt @ ws\<rparr>)"

lemma MapPages_page_range:
  assumes "page_range pt b n"
  shows "\<exists>sys'. MapPages sys pt (b div PAGE_SIZE) (n div PAGE_SIZE) memory ty =
           Some (sys', with_pages pt b n memory ty [])"
proof -
  have dv: "unat b div 4096 + unat n div 4096 = (unat b + unat n) div 4096"
    using assms by (auto simp: page_range_def)
  have "(unat b + unat n) div 4096 \<le> pt_entries pt"
    using assms div_le_mono [of "unat b + unat n" "4096 * pt_entries pt" 4096]
    by (simp add: page_range_def)
  moreover have "(unat b + unat n) div 4096 < 18446744073709551616"
    using assms by (intro le_less_trans [OF div_le_dividend]) (simp add: page_range_def)
  ultimately show ?thesis
    using MapPages_inside [of "b div PAGE_SIZE" "n div PAGE_SIZE" pt sys memory ty]
    by (simp add: unat_div_PAGE_SIZE dv with_pages_def Let_def)
qed

lemma region_maps:
  assumes "page_range pt b n"
  shows "\<exists>sys'. MapMemoryRegion sys pt b n memory = Some (sys', with_pages pt b n memory PT_Memory [])"
    and "\<exists>sys'. MapIoRegion sys pt b n h =
           Some (sys', with_pages pt b n 0 PT_Special [SR_add b (b + n - 1) IODevice h])"
    and "\<exists>sys'. UnmapRegion sys pt b n =
           Some (sys', with_pages pt b n 0 PT_Unmapped [SR_erase b (b + n - 1)])"
proof -
  have al: "n AND PAGE_MASK = 0" "b AND PAGE_MASK = 0"
    using assms by (simp_all add: PAGE_MASK_dvd page_range_def)
  note mp = MapPages_page_range [OF assms, of sys]
  show "\<exists>sys'. MapMemoryRegion sys pt b n memory = Some (sys', with_pages pt b n memory PT_Memory [])"
    using al mp [of memory PT_Memory] by (simp add: MapMemoryRegion_def)
  show "\<exists>sys'. MapIoRegion sys pt b n h =
           Some (sys', with_pages pt b n 0 PT_Special [SR_add b (b + n - 1) IODevice h])"
    using al mp [of 0 PT_Special]
    by (auto simp: MapIoRegion_def special_write_def with_pages_def Let_def)
  show "\<exists>sys'. UnmapRegion sys pt b n =
           Some (sys', with_pages pt b n 0 PT_Unmapped [SR_erase b (b + n - 1)])"
    using al mp [of 0 PT_Unmapped]
    by (auto simp: UnmapRegion_def special_write_def with_pages_def Let_def)
qed

end
