(* ===== verification/Host_Memory.thy ===== *)
theory Host_Memory
  imports Page_Table
begin

text \<open>
  The host's memory and the loop that the block operations of \<^verbatim>\<open>core/memory.cpp\<close> and of
  \<^verbatim>\<open>video_core/memory_manager.cpp\<close> share. Host memory is a function from host addresses to
  bytes; \<^verbatim>\<open>std::memcpy\<close> reads a list of bytes and writes it. What the GPU does to host memory
  when it is told to flush or to invalidate a region is a parameter (\<open>gpu_cache\<close>).
\<close>

type_synonym host_mem = "host_ptr \<Rightarrow> u8"

definition host_read :: "host_mem \<Rightarrow> host_ptr \<Rightarrow> nat \<Rightarrow> u8 list" where
  "host_read h p n = map (\<lambda>i. h (p + of_nat i)) [0..<n]"

definition host_write :: "host_ptr \<Rightarrow> u8 list \<Rightarrow> host_mem \<Rightarrow> host_mem" where
  "host_write p bs h = (\<lambda>q. if unat (q - p) < length bs then bs ! unat (q - p) else h q)"

record gpu_cache =
  flush_region :: "host_ptr \<Rightarrow> u64 \<Rightarrow> host_mem \<Rightarrow> host_mem"
  invalidate_region :: "host_ptr \<Rightarrow> u64 \<Rightarrow> host_mem \<Rightarrow> host_mem"

text \<open>Values of a fixed width are stored with the least significant byte first.\<close>

fun le_value :: "u8 list \<Rightarrow> 'a::len word" where
  "le_value [] = 0"
| "le_value (b # bs) = ucast b OR push_bit 8 (le_value bs)"

definition le_bytes :: "nat \<Rightarrow> 'a::len word \<Rightarrow> u8 list" where
  "le_bytes n w = map (\<lambda>i. ucast (drop_bit (8 * i) w)) [0..<n]"

text \<open>
  The loop over the pages of a block. \<open>body\<close> gets the page index, the offset in the page, the
  number of bytes done before (by which the source advances its buffer pointer and the other
  address) and the number of bytes to do in this page.
\<close>

partial_function (option) block_loop ::
  "u64 \<Rightarrow> (u64 \<Rightarrow> u64 \<Rightarrow> u64 \<Rightarrow> u64 \<Rightarrow> 's \<Rightarrow> 's option) \<Rightarrow> u64 \<Rightarrow> u64 \<Rightarrow> u64 \<Rightarrow> u64 \<Rightarrow> 's \<Rightarrow> 's option"
  where
  "block_loop psize body page_index page_offset done_size remaining_size s =
     (if remaining_size > 0
      then Option.bind (body page_index page_offset done_size
                          (min (psize - page_offset) remaining_size) s)
             (\<lambda>s'. block_loop psize body (page_index + 1) 0
                     (done_size + min (psize - page_offset) remaining_size)
                     (remaining_size - min (psize - page_offset) remaining_size) s')
      else Some s)"

subsection \<open>Reading and writing host memory\<close>

lemma length_host_read [simp]: "length (host_read h p n) = n"
  by (simp add: host_read_def)

lemma length_le_bytes [simp]: "length (le_bytes n w) = n"
  by (simp add: le_bytes_def)

lemma host_write_at:
  "i < length bs \<Longrightarrow> i < 18446744073709551616 \<Longrightarrow> host_write p bs h (p + of_nat i) = bs ! i"
  by (simp add: host_write_def unat_of_nat)

lemma host_read_write:
  assumes "length bs < 18446744073709551616"
  shows "host_read (host_write p bs h) p (length bs) = bs"
  using assms by (auto simp: host_read_def host_write_at intro: nth_equalityI)

lemma bit_le_value:
  "bit (le_value bs :: 'a::len word) n \<longleftrightarrow>
     n < LENGTH('a) \<and> n div 8 < length bs \<and> bit (bs ! (n div 8)) (n mod 8)"
proof (induction bs arbitrary: n)
  case Nil
  show ?case by simp
next
  case (Cons b bs)
  have "n div 8 < length (b # bs) \<and> bit ((b # bs) ! (n div 8)) (n mod 8) \<longleftrightarrow>
      n < 8 \<and> bit b n \<or> 8 \<le> n \<and> (n - 8) div 8 < length bs \<and> bit (bs ! ((n - 8) div 8)) ((n - 8) mod 8)"
  proof (cases "n < 8")
    case False
    then have "n div 8 = Suc ((n - 8) div 8)" "n mod 8 = (n - 8) mod 8"
      by (simp_all add: le_div_geq le_mod_geq)
    with False show ?thesis by simp
  qed simp
  then show ?case
    using Cons.IH [of "n - 8"] bit_imp_le_length [of b n]
    by (auto simp: bit_or_iff bit_ucast_iff bit_push_bit_iff)
qed

lemma le_value_bytes:
  assumes "LENGTH('a) = 8 * n"
  shows "le_value (le_bytes n w) = (w :: 'a::len word)"
proof (rule bit_word_eqI)
  fix i
  assume i: "i < LENGTH('a)"
  then have lt: "i div 8 < n" using assms by (simp add: less_mult_imp_div_less mult.commute)
  moreover have "8 * (i div 8) + i mod 8 = i" by (rule mult_div_mod_eq)
  moreover have "i mod 8 < 8" by simp
  ultimately show "bit (le_value (le_bytes n w) :: 'a word) i \<longleftrightarrow> bit w i"
    using i by (simp add: bit_le_value le_bytes_def bit_ucast_iff bit_drop_bit_eq)
qed

subsection \<open>The loop over the pages of a block\<close>

text \<open>
  The rule for the loop: \<open>Inv n s\<close> says that the first \<open>n\<close> of the \<open>N\<close> bytes from the
  address \<open>A\<close> on are done. It is enough that the body takes this on by any chunk that lies
  inside one page.
\<close>

lemma block_loop_done [simp]: "block_loop psize body idx off d 0 s = Some s"
  by (subst block_loop.simps) simp

lemma block_loop_inv:
  assumes psize: "unat psize = P" "1 < P" and fits: "A + N < 18446744073709551616"
    and body: "\<And>idx off d c s. Inv (unat d) s \<Longrightarrow> unat off + unat c \<le> P \<Longrightarrow> 0 < unat c \<Longrightarrow>
      unat idx * P + unat off = A + unat d \<Longrightarrow> unat d + unat c \<le> N \<Longrightarrow>
      \<exists>s'. body idx off d c s = Some s' \<and> Inv (unat d + unat c) s'"
  shows "Inv (unat d) s \<Longrightarrow> unat off < P \<Longrightarrow> unat idx * P + unat off = A + unat d \<Longrightarrow>
    unat d + unat rem = N \<Longrightarrow> \<exists>s'. block_loop psize body idx off d rem s = Some s' \<and> Inv N s'"
proof (induction "unat rem" arbitrary: idx off d rem s rule: less_induct)
  case less
  show ?case
  proof (cases "rem = 0")
    case True
    then show ?thesis using less.prems by simp
  next
    case False
    define c where "c = min (psize - off) rem"
    have po: "unat (psize - off) = P - unat off" using psize less.prems(2) by (simp add: unat_sub_u64)
    have c: "unat c = min (P - unat off) (unat rem)"
      by (auto simp: c_def min_def word_le_nat_alt po)
    have c0: "0 < unat c" using c False less.prems(2) by (simp add: unat_gt_0)
    have le: "unat off + unat c \<le> P" "unat d + unat c \<le> N" using c less.prems(2,4) by simp_all
    obtain s' where s': "body idx off d c s = Some s'" "Inv (unat d + unat c) s'"
      using body [OF less.prems(1) le(1) c0 less.prems(3) le(2)] by blast
    have d': "unat (d + c) = unat d + unat c"
      using less.prems(4) c fits by (intro unat_add_u64) simp
    have rem': "unat (rem - c) = unat rem - unat c" using c by (simp add: unat_sub_u64)
    have step: "block_loop psize body idx off d rem s = block_loop psize body (idx + 1) 0 (d + c) (rem - c) s'"
      using False s'(1) by (subst block_loop.simps) (simp add: c_def word_neq_0_conv)
    show ?thesis
    proof (cases "rem - c = 0")
      case True
      then have "rem = c" by simp
      with s'(2) step less.prems(4) show ?thesis by simp
    next
      case False
      then have rem0: "unat (rem - c) \<noteq> 0" by (simp add: unat_eq_0)
      then have full: "unat c = P - unat off" using c rem' by linarith
      have "unat idx < 18446744073709551615"
      proof -
        have "unat idx * 2 \<le> unat idx * P" using psize(2) by (intro mult_le_mono2) simp
        also have "\<dots> < 18446744073709551616" using less.prems(3,4) fits by linarith
        finally show ?thesis by simp
      qed
      then have idx': "unat (idx + 1) = unat idx + 1" by (simp add: unat_add_u64)
      have "unat (idx + 1) * P + unat (0 :: u64) = A + unat (d + c)"
        using less.prems(2,3) full by (simp add: idx' d')
      from less.hyps [OF _ _ _ this] show ?thesis
        using step s'(2) d' rem' c c0 psize(2) less.prems(4) False
        by (auto simp: unat_gt_0)
    qed
  qed
qed

end
