(* ===== verification/Result_Code.thy ===== *)
theory Result_Code
  imports Bit_Field
begin

text \<open>
  \<^verbatim>\<open>core/hle/result.h\<close> and \<^verbatim>\<open>core/hle/kernel/errors.h\<close>: result codes and the results of
  fallible kernel operations. A \<open>ResultCode\<close> is its raw 32-bit value; \<^verbatim>\<open>ResultVal<T>\<close> is a
  sum, \<open>Inl\<close> of an error code or \<open>Inr\<close> of the value.
\<close>

type_synonym ResultCode = u32
type_synonym 'a ResultVal = "ResultCode + 'a"

definition ErrorModule_Kernel :: u32 where "ErrorModule_Kernel = 1"

definition MakeResultCode :: "u32 \<Rightarrow> u32 \<Rightarrow> ResultCode" where
  "MakeResultCode module description = FormatValue 0 9 module OR FormatValue 9 13 description"

definition result_module :: "ResultCode \<Rightarrow> u32" where
  "result_module c = ExtractValue 0 9 c"

definition result_description :: "ResultCode \<Rightarrow> u32" where
  "result_description c = ExtractValue 9 13 c"

definition IsSuccess :: "ResultCode \<Rightarrow> bool" where "IsSuccess c \<longleftrightarrow> c = 0"
definition IsError :: "ResultCode \<Rightarrow> bool" where "IsError c \<longleftrightarrow> c \<noteq> 0"

definition RESULT_SUCCESS :: ResultCode where "RESULT_SUCCESS = 0"

definition ERR_MAX_CONNECTIONS_REACHED :: ResultCode where
  "ERR_MAX_CONNECTIONS_REACHED = MakeResultCode ErrorModule_Kernel 7"
definition ERR_INVALID_CAPABILITY_DESCRIPTOR :: ResultCode where
  "ERR_INVALID_CAPABILITY_DESCRIPTOR = MakeResultCode ErrorModule_Kernel 14"
definition ERR_INVALID_SIZE :: ResultCode where
  "ERR_INVALID_SIZE = MakeResultCode ErrorModule_Kernel 101"
definition ERR_INVALID_ADDRESS :: ResultCode where
  "ERR_INVALID_ADDRESS = MakeResultCode ErrorModule_Kernel 102"
definition ERR_OUT_OF_MEMORY :: ResultCode where
  "ERR_OUT_OF_MEMORY = MakeResultCode ErrorModule_Kernel 104"
definition ERR_HANDLE_TABLE_FULL :: ResultCode where
  "ERR_HANDLE_TABLE_FULL = MakeResultCode ErrorModule_Kernel 105"
definition ERR_INVALID_ADDRESS_STATE :: ResultCode where
  "ERR_INVALID_ADDRESS_STATE = MakeResultCode ErrorModule_Kernel 106"
definition ERR_INVALID_MEMORY_PERMISSIONS :: ResultCode where
  "ERR_INVALID_MEMORY_PERMISSIONS = MakeResultCode ErrorModule_Kernel 108"
definition ERR_INVALID_MEMORY_RANGE :: ResultCode where
  "ERR_INVALID_MEMORY_RANGE = MakeResultCode ErrorModule_Kernel 110"
definition ERR_INVALID_PROCESSOR_ID :: ResultCode where
  "ERR_INVALID_PROCESSOR_ID = MakeResultCode ErrorModule_Kernel 113"
definition ERR_INVALID_THREAD_PRIORITY :: ResultCode where
  "ERR_INVALID_THREAD_PRIORITY = MakeResultCode ErrorModule_Kernel 112"
definition ERR_INVALID_HANDLE :: ResultCode where
  "ERR_INVALID_HANDLE = MakeResultCode ErrorModule_Kernel 114"
definition ERR_INVALID_POINTER :: ResultCode where
  "ERR_INVALID_POINTER = MakeResultCode ErrorModule_Kernel 115"
definition ERR_INVALID_COMBINATION :: ResultCode where
  "ERR_INVALID_COMBINATION = MakeResultCode ErrorModule_Kernel 116"
definition RESULT_TIMEOUT :: ResultCode where
  "RESULT_TIMEOUT = MakeResultCode ErrorModule_Kernel 117"
definition ERR_SYNCHRONIZATION_CANCELED :: ResultCode where
  "ERR_SYNCHRONIZATION_CANCELED = MakeResultCode ErrorModule_Kernel 118"
definition ERR_OUT_OF_RANGE :: ResultCode where
  "ERR_OUT_OF_RANGE = MakeResultCode ErrorModule_Kernel 119"
definition ERR_INVALID_ENUM_VALUE :: ResultCode where
  "ERR_INVALID_ENUM_VALUE = MakeResultCode ErrorModule_Kernel 120"
definition ERR_NOT_FOUND :: ResultCode where
  "ERR_NOT_FOUND = MakeResultCode ErrorModule_Kernel 121"
definition ERR_BUSY :: ResultCode where
  "ERR_BUSY = MakeResultCode ErrorModule_Kernel 122"
definition ERR_SESSION_CLOSED_BY_REMOTE :: ResultCode where
  "ERR_SESSION_CLOSED_BY_REMOTE = MakeResultCode ErrorModule_Kernel 123"
definition ERR_INVALID_STATE :: ResultCode where
  "ERR_INVALID_STATE = MakeResultCode ErrorModule_Kernel 125"
definition ERR_RESERVED_VALUE :: ResultCode where
  "ERR_RESERVED_VALUE = MakeResultCode ErrorModule_Kernel 126"
definition ERR_RESOURCE_LIMIT_EXCEEDED :: ResultCode where
  "ERR_RESOURCE_LIMIT_EXCEEDED = MakeResultCode ErrorModule_Kernel 132"

lemmas result_code_defs =
  RESULT_SUCCESS_def ERR_MAX_CONNECTIONS_REACHED_def ERR_INVALID_CAPABILITY_DESCRIPTOR_def
  ERR_INVALID_SIZE_def ERR_INVALID_ADDRESS_def ERR_OUT_OF_MEMORY_def ERR_HANDLE_TABLE_FULL_def
  ERR_INVALID_ADDRESS_STATE_def ERR_INVALID_MEMORY_PERMISSIONS_def ERR_INVALID_MEMORY_RANGE_def
  ERR_INVALID_PROCESSOR_ID_def ERR_INVALID_THREAD_PRIORITY_def ERR_INVALID_HANDLE_def
  ERR_INVALID_POINTER_def ERR_INVALID_COMBINATION_def RESULT_TIMEOUT_def
  ERR_SYNCHRONIZATION_CANCELED_def ERR_OUT_OF_RANGE_def ERR_INVALID_ENUM_VALUE_def
  ERR_NOT_FOUND_def ERR_BUSY_def ERR_SESSION_CLOSED_BY_REMOTE_def ERR_INVALID_STATE_def
  ERR_RESERVED_VALUE_def ERR_RESOURCE_LIMIT_EXCEEDED_def ErrorModule_Kernel_def
  MakeResultCode_def FormatValue_def bf_mask_def

lemma MakeResultCode_fields:
  "result_module (MakeResultCode m d) = take_bit 9 m"
  "result_description (MakeResultCode m d) = take_bit 13 d"
  by (rule bit_word_eqI,
      auto simp: result_module_def result_description_def MakeResultCode_def bit_ExtractValue
        bit_or_iff bit_FormatValue bit_take_bit_iff dest: bit_imp_le_length)+

lemma kernel_error_nonzero:
  "IsError (MakeResultCode ErrorModule_Kernel d)"
proof -
  have "result_module (MakeResultCode ErrorModule_Kernel d) = 1"
    by (simp add: MakeResultCode_fields ErrorModule_Kernel_def)
  then show ?thesis by (auto simp: IsError_def result_module_def ExtractValue_def)
qed

end
