(* ===== verification/Vm_Area.thy ===== *)
theory Vm_Area
  imports Vma_Space Page_Table Result_Code
begin

text \<open>
  The data of \<^verbatim>\<open>core/hle/kernel/vm_manager.h\<close>: permissions, attributes and memory states, the
  \<open>VirtualMemoryArea\<close> and its \<open>CanBeMergedWith\<close>; what an address of an area means
  (\<open>vm_cell\<close>); and the proof that areas satisfy the laws of \<open>vma_area\<close>.
\<close>

subsection \<open>Flags\<close>

text \<open>\<open>VMAPermission\<close> is an enum over u8.\<close>

type_synonym VMAPermission = u8

definition Perm_None :: VMAPermission where "Perm_None = 0"
definition Perm_Read :: VMAPermission where "Perm_Read = 1"
definition Perm_Write :: VMAPermission where "Perm_Write = 2"
definition Perm_Execute :: VMAPermission where "Perm_Execute = 4"
definition Perm_ReadWrite :: VMAPermission where "Perm_ReadWrite = Perm_Read OR Perm_Write"
definition Perm_ReadExecute :: VMAPermission where "Perm_ReadExecute = Perm_Read OR Perm_Execute"
definition Perm_WriteExecute :: VMAPermission where "Perm_WriteExecute = Perm_Write OR Perm_Execute"
definition Perm_ReadWriteExecute :: VMAPermission where
  "Perm_ReadWriteExecute = Perm_Read OR Perm_Write OR Perm_Execute"
definition Perm_All :: VMAPermission where "Perm_All = 0xFF"

lemmas perm_defs = Perm_None_def Perm_Read_def Perm_Write_def Perm_Execute_def Perm_ReadWrite_def
  Perm_ReadExecute_def Perm_WriteExecute_def Perm_ReadWriteExecute_def Perm_All_def

type_synonym MemoryAttribute = u32

definition Attr_Mask :: MemoryAttribute where "Attr_Mask = 0xFF"
definition Attr_None :: MemoryAttribute where "Attr_None = 0"
definition Attr_Locked :: MemoryAttribute where "Attr_Locked = 1"
definition Attr_LockedForIPC :: MemoryAttribute where "Attr_LockedForIPC = 2"
definition Attr_DeviceMapped :: MemoryAttribute where "Attr_DeviceMapped = 4"
definition Attr_Uncached :: MemoryAttribute where "Attr_Uncached = 8"

lemmas attr_defs = Attr_Mask_def Attr_None_def Attr_Locked_def Attr_LockedForIPC_def
  Attr_DeviceMapped_def Attr_Uncached_def

definition ToSvcMemoryAttribute :: "MemoryAttribute \<Rightarrow> u32" where
  "ToSvcMemoryAttribute a = a AND Attr_Mask"

type_synonym MemoryState = u32

definition State_Mask :: MemoryState where "State_Mask = 0xFF"
definition FlagProtect :: MemoryState where "FlagProtect = push_bit 8 1"
definition FlagDebug :: MemoryState where "FlagDebug = push_bit 9 1"
definition FlagIPC0 :: MemoryState where "FlagIPC0 = push_bit 10 1"
definition FlagIPC3 :: MemoryState where "FlagIPC3 = push_bit 11 1"
definition FlagIPC1 :: MemoryState where "FlagIPC1 = push_bit 12 1"
definition FlagMapped :: MemoryState where "FlagMapped = push_bit 13 1"
definition FlagCode :: MemoryState where "FlagCode = push_bit 14 1"
definition FlagAlias :: MemoryState where "FlagAlias = push_bit 15 1"
definition FlagModule :: MemoryState where "FlagModule = push_bit 16 1"
definition FlagTransfer :: MemoryState where "FlagTransfer = push_bit 17 1"
definition FlagQueryPhysicalAddressAllowed :: MemoryState where
  "FlagQueryPhysicalAddressAllowed = push_bit 18 1"
definition FlagSharedDevice :: MemoryState where "FlagSharedDevice = push_bit 19 1"
definition FlagSharedDeviceAligned :: MemoryState where "FlagSharedDeviceAligned = push_bit 20 1"
definition FlagIPCBuffer :: MemoryState where "FlagIPCBuffer = push_bit 21 1"
definition FlagMemoryPoolAllocated :: MemoryState where "FlagMemoryPoolAllocated = push_bit 22 1"
definition FlagMapProcess :: MemoryState where "FlagMapProcess = push_bit 23 1"
definition FlagUncached :: MemoryState where "FlagUncached = push_bit 24 1"
definition FlagCodeMemory :: MemoryState where "FlagCodeMemory = push_bit 25 1"
definition State_All :: MemoryState where "State_All = 0xFFFFFFFF"
definition IPCFlags :: MemoryState where "IPCFlags = FlagIPC0 OR FlagIPC3 OR FlagIPC1"
definition CodeFlags :: MemoryState where
  "CodeFlags = FlagDebug OR IPCFlags OR FlagMapped OR FlagCode OR FlagQueryPhysicalAddressAllowed OR
               FlagSharedDevice OR FlagSharedDeviceAligned OR FlagMemoryPoolAllocated"
definition DataFlags :: MemoryState where
  "DataFlags = FlagProtect OR IPCFlags OR FlagMapped OR FlagAlias OR FlagTransfer OR
               FlagQueryPhysicalAddressAllowed OR FlagSharedDevice OR FlagSharedDeviceAligned OR
               FlagMemoryPoolAllocated OR FlagIPCBuffer OR FlagUncached"
definition State_Unmapped :: MemoryState where "State_Unmapped = 0"
definition State_Io :: MemoryState where "State_Io = 1 OR FlagMapped"
definition State_Normal :: MemoryState where
  "State_Normal = 2 OR FlagMapped OR FlagQueryPhysicalAddressAllowed"
definition State_Code :: MemoryState where "State_Code = 3 OR CodeFlags OR FlagMapProcess"
definition State_CodeData :: MemoryState where
  "State_CodeData = 4 OR DataFlags OR FlagMapProcess OR FlagCodeMemory"
definition State_Heap :: MemoryState where "State_Heap = 5 OR DataFlags OR FlagCodeMemory"
definition State_Shared :: MemoryState where
  "State_Shared = 6 OR FlagMapped OR FlagMemoryPoolAllocated"
definition State_ModuleCode :: MemoryState where
  "State_ModuleCode = 8 OR CodeFlags OR FlagModule OR FlagMapProcess"
definition State_ModuleCodeData :: MemoryState where
  "State_ModuleCodeData = 9 OR DataFlags OR FlagModule OR FlagMapProcess OR FlagCodeMemory"
definition State_IpcBuffer0 :: MemoryState where
  "State_IpcBuffer0 = 0xA OR FlagMapped OR FlagQueryPhysicalAddressAllowed OR FlagMemoryPoolAllocated
     OR IPCFlags OR FlagSharedDevice OR FlagSharedDeviceAligned"
definition State_Stack :: MemoryState where
  "State_Stack = 0xB OR FlagMapped OR IPCFlags OR FlagQueryPhysicalAddressAllowed OR
     FlagSharedDevice OR FlagSharedDeviceAligned OR FlagMemoryPoolAllocated"
definition State_ThreadLocal :: MemoryState where
  "State_ThreadLocal = 0xC OR FlagMapped OR FlagMemoryPoolAllocated"
definition State_TransferMemoryIsolated :: MemoryState where
  "State_TransferMemoryIsolated = 0xD OR IPCFlags OR FlagMapped OR FlagQueryPhysicalAddressAllowed OR
     FlagSharedDevice OR FlagSharedDeviceAligned OR FlagMemoryPoolAllocated OR FlagUncached"
definition State_TransferMemory :: MemoryState where
  "State_TransferMemory = 0xE OR FlagIPC3 OR FlagIPC1 OR FlagMapped OR
     FlagQueryPhysicalAddressAllowed OR FlagSharedDevice OR FlagSharedDeviceAligned OR
     FlagMemoryPoolAllocated"
definition State_ProcessMemory :: MemoryState where
  "State_ProcessMemory = 0xF OR FlagIPC3 OR FlagIPC1 OR FlagMapped OR FlagMemoryPoolAllocated"
definition State_Inaccessible :: MemoryState where "State_Inaccessible = 0x10"
definition State_IpcBuffer1 :: MemoryState where
  "State_IpcBuffer1 = 0x11 OR FlagIPC3 OR FlagIPC1 OR FlagMapped OR FlagQueryPhysicalAddressAllowed OR
     FlagSharedDevice OR FlagSharedDeviceAligned OR FlagMemoryPoolAllocated"
definition State_IpcBuffer3 :: MemoryState where
  "State_IpcBuffer3 = 0x12 OR FlagIPC3 OR FlagMapped OR FlagQueryPhysicalAddressAllowed OR
     FlagSharedDeviceAligned OR FlagMemoryPoolAllocated"
definition State_KernelStack :: MemoryState where "State_KernelStack = 0x13 OR FlagMapped"

lemmas state_flag_defs = FlagProtect_def FlagDebug_def FlagIPC0_def FlagIPC3_def FlagIPC1_def
  FlagMapped_def FlagCode_def FlagAlias_def FlagModule_def FlagTransfer_def
  FlagQueryPhysicalAddressAllowed_def FlagSharedDevice_def FlagSharedDeviceAligned_def
  FlagIPCBuffer_def FlagMemoryPoolAllocated_def FlagMapProcess_def FlagUncached_def
  FlagCodeMemory_def IPCFlags_def CodeFlags_def DataFlags_def State_All_def State_Mask_def

definition ToSvcMemoryState :: "MemoryState \<Rightarrow> u32" where
  "ToSvcMemoryState s = s AND State_Mask"

subsection \<open>Areas\<close>

datatype VMAType = VMA_Free | VMA_AllocatedMemoryBlock | VMA_BackingMemory | VMA_MMIO

text \<open>
  A \<^verbatim>\<open>std::shared_ptr\<close> to a memory block is the identity of the block, \<open>None\<close> for the null
  pointer.
\<close>

record VirtualMemoryArea =
  vma_base :: VAddr
  vma_size :: u64
  vma_type :: VMAType
  vma_permissions :: VMAPermission
  vma_state :: MemoryState
  vma_attribute :: MemoryAttribute
  vma_backing_block :: "nat option"
  vma_offset :: u64
  vma_backing_memory :: host_ptr
  vma_paddr :: PAddr
  vma_mmio_handler :: MemoryHookPointer

definition initial_vma :: VirtualMemoryArea where
  "initial_vma = \<lparr>vma_base = 0, vma_size = 0, vma_type = VMA_Free, vma_permissions = Perm_None,
     vma_state = State_Unmapped, vma_attribute = Attr_None, vma_backing_block = None,
     vma_offset = 0, vma_backing_memory = 0, vma_paddr = 0, vma_mmio_handler = None\<rparr>"

definition EndAddress :: "VirtualMemoryArea \<Rightarrow> VAddr" where
  "EndAddress v = vma_base v + vma_size v - 1"

definition CanBeMergedWith :: "VirtualMemoryArea \<Rightarrow> VirtualMemoryArea \<Rightarrow> bool option" where
  "CanBeMergedWith v next = do {
     ASSERT (vma_base v + vma_size v = vma_base next);
     Some (if vma_permissions v \<noteq> vma_permissions next \<or> vma_state v \<noteq> vma_state next \<or>
              vma_attribute v \<noteq> vma_attribute next \<or> vma_type v \<noteq> vma_type next
           then False
           else if vma_type v = VMA_AllocatedMemoryBlock \<and>
              (vma_backing_block v \<noteq> vma_backing_block next \<or>
               vma_offset v + vma_size v \<noteq> vma_offset next)
           then False
           else if vma_type v = VMA_BackingMemory \<and>
              vma_backing_memory v + vma_size v \<noteq> vma_backing_memory next
           then False
           else if vma_type v = VMA_MMIO \<and> vma_paddr v + vma_size v \<noteq> vma_paddr next
           then False
           else True)
   }"

text \<open>The right part of \<open>SplitVMA\<close>: a copy that starts \<open>n\<close> bytes into the area.\<close>

definition split_rest :: "u64 \<Rightarrow> VirtualMemoryArea \<Rightarrow> VirtualMemoryArea" where
  "split_rest n v =
     (let w = v\<lparr>vma_base := vma_base v + n, vma_size := vma_size v - n\<rparr>
      in case vma_type w of
           VMA_Free \<Rightarrow> w
         | VMA_AllocatedMemoryBlock \<Rightarrow> w\<lparr>vma_offset := vma_offset w + n\<rparr>
         | VMA_BackingMemory \<Rightarrow> w\<lparr>vma_backing_memory := vma_backing_memory w + n\<rparr>
         | VMA_MMIO \<Rightarrow> w\<lparr>vma_paddr := vma_paddr w + n\<rparr>)"

definition set_vma_size :: "u64 \<Rightarrow> VirtualMemoryArea \<Rightarrow> VirtualMemoryArea" where
  "set_vma_size n v = v\<lparr>vma_size := n\<rparr>"

subsection \<open>What an address of an area is\<close>

datatype backing = NoBacking | BlockAt "nat option" u64 | HostAt host_ptr | PhysAt PAddr

record vm_cell =
  c_type :: VMAType
  c_permissions :: VMAPermission
  c_state :: MemoryState
  c_attribute :: MemoryAttribute
  c_backing :: backing

definition vma_cell :: "VirtualMemoryArea \<Rightarrow> nat \<Rightarrow> vm_cell" where
  "vma_cell v i =
     \<lparr>c_type = vma_type v, c_permissions = vma_permissions v, c_state = vma_state v,
      c_attribute = vma_attribute v,
      c_backing = (case vma_type v of
         VMA_Free \<Rightarrow> NoBacking
       | VMA_AllocatedMemoryBlock \<Rightarrow> BlockAt (vma_backing_block v) (vma_offset v + of_nat i)
       | VMA_BackingMemory \<Rightarrow> HostAt (vma_backing_memory v + of_nat i)
       | VMA_MMIO \<Rightarrow> PhysAt (vma_paddr v + of_nat i))\<rparr>"

definition free_cell :: vm_cell where
  "free_cell = \<lparr>c_type = VMA_Free, c_permissions = Perm_None, c_state = State_Unmapped,
     c_attribute = Attr_None, c_backing = NoBacking\<rparr>"

interpretation kvma: vma_area vma_base vma_size set_vma_size split_rest CanBeMergedWith vma_cell
proof unfold_locales
  fix v w x :: VirtualMemoryArea and n :: u64 and i :: nat
  show "vma_base (set_vma_size n v) = vma_base v" and "vma_size (set_vma_size n v) = n"
    and "vma_cell (set_vma_size n v) i = vma_cell v i"
    by (simp_all add: set_vma_size_def vma_cell_def split: VMAType.split)
  show "vma_base (split_rest n v) = vma_base v + n" and "vma_size (split_rest n v) = vma_size v - n"
    by (simp_all add: split_rest_def Let_def split: VMAType.split)
  show "vma_cell (split_rest n v) i = vma_cell v (unat n + i)"
    by (simp add: split_rest_def vma_cell_def Let_def add.assoc split: VMAType.split)
  show "\<exists>b. CanBeMergedWith v w = Some b" if "vma_base v + vma_size v = vma_base w"
    using that by (simp add: CanBeMergedWith_def)
  show "vma_cell w i = vma_cell v (unat (vma_size v) + i)" if "CanBeMergedWith v w = Some True"
    using that
    by (auto simp: CanBeMergedWith_def vma_cell_def add.assoc [symmetric] split: VMAType.split if_splits)
  show "CanBeMergedWith (set_vma_size n v) (split_rest n v) = Some True"
    by (simp add: CanBeMergedWith_def set_vma_size_def split_rest_def Let_def split: VMAType.split)
  show "CanBeMergedWith v (set_vma_size n w) = CanBeMergedWith v w"
    by (simp add: CanBeMergedWith_def set_vma_size_def cong: if_cong)
  show "CanBeMergedWith (set_vma_size (vma_size v + vma_size w) v) x = CanBeMergedWith w x"
    if "CanBeMergedWith v w = Some True"
    using that
    by (auto simp: CanBeMergedWith_def set_vma_size_def add.assoc [symmetric] split: if_splits)
qed

text \<open>The change \<open>Unmap\<close> makes to an area.\<close>

definition unmapped_vma :: "VirtualMemoryArea \<Rightarrow> VirtualMemoryArea" where
  "unmapped_vma v = v\<lparr>vma_type := VMA_Free, vma_permissions := Perm_None,
     vma_state := State_Unmapped, vma_attribute := Attr_None, vma_backing_block := None,
     vma_offset := 0, vma_backing_memory := 0, vma_paddr := 0\<rparr>"

definition freed :: "VirtualMemoryArea \<Rightarrow> bool" where
  "freed v \<longleftrightarrow> vma_type v = VMA_Free \<and> vma_permissions v = Perm_None \<and>
     vma_state v = State_Unmapped \<and> vma_attribute v = Attr_None"

definition reprotected_vma :: "VMAPermission \<Rightarrow> VirtualMemoryArea \<Rightarrow> VirtualMemoryArea" where
  "reprotected_vma p v = v\<lparr>vma_permissions := p\<rparr>"

interpretation kunmap: vma_absorb vma_base vma_size set_vma_size split_rest CanBeMergedWith vma_cell
  unmapped_vma "\<lambda>_. free_cell" freed
  by unfold_locales
    (auto simp: unmapped_vma_def vma_cell_def free_cell_def freed_def set_vma_size_def
      CanBeMergedWith_def split: if_splits)

interpretation kprot: vma_kind_change vma_base vma_size set_vma_size split_rest CanBeMergedWith
  vma_cell "reprotected_vma p" "\<lambda>c. c\<lparr>c_permissions := p\<rparr>" freed for p
  by unfold_locales (simp_all add: reprotected_vma_def vma_cell_def split: VMAType.split)

end
