(* ===== verification/Vm_Manager.thy ===== *)
theory Vm_Manager
  imports Vm_Area
begin

text \<open>
  \<^verbatim>\<open>Kernel::VMManager\<close> (\<^verbatim>\<open>core/hle/kernel/vm_manager.h\<close>, \<^verbatim>\<open>vm_manager.cpp\<close>): its state and
  every operation, in the order of the source. Operations that change the manager take it as an
  argument and return it; \<open>None\<close> is a failed assertion or undefined behaviour, an \<open>Inl\<close> is an
  error code that the caller gets back.

  The host memory blocks that areas are backed by (\<^verbatim>\<open>std::shared_ptr<std::vector<u8>>\<close>) are
  named by numbers; \<open>vm_blocks\<close> holds the data pointer and the size of each.
\<close>

record MemoryBlock =
  blk_data :: host_ptr
  blk_size :: u64

datatype ProgramAddressSpaceType = Is32Bit | Is36Bit | Is32BitNoMap | Is39Bit

record VMManager =
  vma_map :: "VirtualMemoryArea std_map"
  vm_page_table :: PageTable
  address_space_width :: nat
  address_space_base :: VAddr
  address_space_end :: VAddr
  aslr_region_base :: VAddr
  aslr_region_end :: VAddr
  code_region_base :: VAddr
  code_region_end :: VAddr
  heap_region_base :: VAddr
  heap_region_end :: VAddr
  map_region_base :: VAddr
  map_region_end :: VAddr
  new_map_region_base :: VAddr
  new_map_region_end :: VAddr
  tls_io_region_base :: VAddr
  tls_io_region_end :: VAddr
  heap_memory :: "nat option"
  heap_end :: VAddr
  vm_blocks :: "nat \<Rightarrow> MemoryBlock"
  vm_system :: System

subsection \<open>Memory regions\<close>

definition IsInsideAddressRange :: "VAddr \<Rightarrow> u64 \<Rightarrow> VAddr \<Rightarrow> VAddr \<Rightarrow> bool" where
  "IsInsideAddressRange address n range_begin range_end =
     (let end_address = address + n - 1
      in range_begin \<le> address \<and> end_address \<le> range_end - 1)"

definition GetTotalMemoryUsage :: "VMManager \<Rightarrow> u64" where
  "GetTotalMemoryUsage s = 0xF8000000"

definition GetAddressSpaceSize :: "VMManager \<Rightarrow> u64" where
  "GetAddressSpaceSize s = address_space_end s - address_space_base s"

definition IsWithinAddressSpace :: "VMManager \<Rightarrow> VAddr \<Rightarrow> u64 \<Rightarrow> bool" where
  "IsWithinAddressSpace s address n =
     IsInsideAddressRange address n (address_space_base s) (address_space_end s)"

definition GetASLRRegionSize :: "VMManager \<Rightarrow> u64" where
  "GetASLRRegionSize s = aslr_region_end s - aslr_region_base s"

definition IsWithinASLRRegion :: "VMManager \<Rightarrow> VAddr \<Rightarrow> u64 \<Rightarrow> bool" where
  "IsWithinASLRRegion s b n =
     (let range_end = b + n; aslr_start = aslr_region_base s; aslr_end = aslr_region_end s
      in if aslr_start > b \<or> b > range_end \<or> range_end - 1 > aslr_end - 1 then False
         else if range_end > heap_region_base s \<and> heap_region_end s > b then False
         else if range_end > map_region_base s \<and> map_region_end s > b then False
         else True)"

definition GetCodeRegionSize :: "VMManager \<Rightarrow> u64" where
  "GetCodeRegionSize s = code_region_end s - code_region_base s"

definition IsWithinCodeRegion :: "VMManager \<Rightarrow> VAddr \<Rightarrow> u64 \<Rightarrow> bool" where
  "IsWithinCodeRegion s address n =
     IsInsideAddressRange address n (code_region_base s) (code_region_end s)"

definition GetHeapRegionSize :: "VMManager \<Rightarrow> u64" where
  "GetHeapRegionSize s = heap_region_end s - heap_region_base s"

definition GetCurrentHeapSize :: "VMManager \<Rightarrow> u64" where
  "GetCurrentHeapSize s = heap_end s - heap_region_base s"

definition IsWithinHeapRegion :: "VMManager \<Rightarrow> VAddr \<Rightarrow> u64 \<Rightarrow> bool" where
  "IsWithinHeapRegion s address n =
     IsInsideAddressRange address n (heap_region_base s) (heap_region_end s)"

definition GetMapRegionSize :: "VMManager \<Rightarrow> u64" where
  "GetMapRegionSize s = map_region_end s - map_region_base s"

definition IsWithinMapRegion :: "VMManager \<Rightarrow> VAddr \<Rightarrow> u64 \<Rightarrow> bool" where
  "IsWithinMapRegion s address n =
     IsInsideAddressRange address n (map_region_base s) (map_region_end s)"

definition GetNewMapRegionSize :: "VMManager \<Rightarrow> u64" where
  "GetNewMapRegionSize s = new_map_region_end s - new_map_region_base s"

definition IsWithinNewMapRegion :: "VMManager \<Rightarrow> VAddr \<Rightarrow> u64 \<Rightarrow> bool" where
  "IsWithinNewMapRegion s address n =
     IsInsideAddressRange address n (new_map_region_base s) (new_map_region_end s)"

definition GetTLSIORegionSize :: "VMManager \<Rightarrow> u64" where
  "GetTLSIORegionSize s = tls_io_region_end s - tls_io_region_base s"

definition IsWithinTLSIORegion :: "VMManager \<Rightarrow> VAddr \<Rightarrow> u64 \<Rightarrow> bool" where
  "IsWithinTLSIORegion s address n =
     IsInsideAddressRange address n (tls_io_region_base s) (tls_io_region_end s)"

text \<open>
  The switch of \<open>InitializeMemoryRegionRanges\<close>: width, code base and end, ASLR base and end,
  and the sizes of the map, heap, new map and TLS IO regions.
\<close>

record region_ranges =
  rr_width :: nat
  rr_code_base :: u64
  rr_code_end :: u64
  rr_aslr_base :: u64
  rr_aslr_end :: u64
  rr_map_size :: u64
  rr_heap_size :: u64
  rr_new_map_size :: u64
  rr_tls_io_size :: u64

definition region_ranges_of :: "ProgramAddressSpaceType \<Rightarrow> region_ranges" where
  "region_ranges_of ty =
     (case ty of
        Is36Bit \<Rightarrow>
          \<lparr>rr_width = 36, rr_code_base = 0x8000000, rr_code_end = 0x8000000 + 0x78000000,
           rr_aslr_base = 0x8000000, rr_aslr_end = 0x8000000 + 0xFF8000000,
           rr_map_size = 0x180000000, rr_heap_size = 0x180000000, rr_new_map_size = 0,
           rr_tls_io_size = 0\<rparr>
      | Is39Bit \<Rightarrow>
          \<lparr>rr_width = 39, rr_code_base = 0x8000000, rr_code_end = 0x8000000 + 0x80000000,
           rr_aslr_base = 0x8000000, rr_aslr_end = 0x8000000 + 0x7FF8000000,
           rr_map_size = 0x1000000000, rr_heap_size = 0x180000000, rr_new_map_size = 0x80000000,
           rr_tls_io_size = 0x1000000000\<rparr>
      | _ \<Rightarrow>
          \<lparr>rr_width = 32, rr_code_base = 0x200000, rr_code_end = 0x200000 + 0x3FE00000,
           rr_aslr_base = 0x200000, rr_aslr_end = 0x200000 + 0xFFE00000,
           rr_map_size = (if ty = Is32Bit then 0x40000000 else 0),
           rr_heap_size = (if ty = Is32Bit then 0x40000000 else 0x80000000),
           rr_new_map_size = 0, rr_tls_io_size = 0\<rparr>)"

definition InitializeMemoryRegionRanges :: "ProgramAddressSpaceType \<Rightarrow> VMManager \<Rightarrow> VMManager" where
  "InitializeMemoryRegionRanges ty s =
     (let r = region_ranges_of ty;
          map_base = rr_code_end r;
          map_end = map_base + rr_map_size r;
          heap_base = map_end;
          heap_e = heap_base + rr_heap_size r;
          new_map_base = heap_e;
          new_map_end = new_map_base + rr_new_map_size r;
          tls_base = new_map_end;
          tls_end = tls_base + rr_tls_io_size r;
          as_end = push_bit (rr_width r) 1
      in s\<lparr>address_space_width := rr_width r, address_space_base := 0, address_space_end := as_end,
           code_region_base := rr_code_base r, code_region_end := rr_code_end r,
           aslr_region_base := rr_aslr_base r, aslr_region_end := rr_aslr_end r,
           map_region_base := map_base, map_region_end := map_end,
           heap_region_base := heap_base, heap_region_end := heap_e, heap_end := heap_base,
           new_map_region_base := (if rr_new_map_size r = 0 then 0 else new_map_base),
           new_map_region_end := (if rr_new_map_size r = 0 then as_end else new_map_end),
           tls_io_region_base := tls_base, tls_io_region_end := tls_end\<rparr>)"

subsection \<open>Finding, splitting and merging areas\<close>

definition FindVMA :: "VMManager \<Rightarrow> VAddr \<Rightarrow> iter option" where
  "FindVMA s target =
     (if target \<ge> address_space_end s then Some End
      else map_option At (find_area (vma_map s) target))"

definition IsValidHandle :: "iter \<Rightarrow> bool" where
  "IsValidHandle it \<longleftrightarrow> it \<noteq> End"

definition SplitVMA :: "VMManager \<Rightarrow> u64 \<Rightarrow> u64 \<Rightarrow> (VMManager \<times> u64) option" where
  "SplitVMA s k offset_in_vma = do {
     (m, k') \<leftarrow> split_area vma_base vma_size set_vma_size split_rest CanBeMergedWith
                  (vma_map s) k offset_in_vma;
     Some (s\<lparr>vma_map := m\<rparr>, k')
   }"

definition MergeAdjacent :: "VMManager \<Rightarrow> u64 \<Rightarrow> (VMManager \<times> u64) option" where
  "MergeAdjacent s k = do {
     (m, k') \<leftarrow> merge_adjacent vma_size set_vma_size CanBeMergedWith (vma_map s) k;
     Some (s\<lparr>vma_map := m\<rparr>, k')
   }"

definition UpdatePageTableForVMA :: "VMManager \<Rightarrow> VirtualMemoryArea \<Rightarrow> VMManager option" where
  "UpdatePageTableForVMA s vma = do {
     (sys, pt) \<leftarrow>
       (case vma_type vma of
          VMA_Free \<Rightarrow> UnmapRegion (vm_system s) (vm_page_table s) (vma_base vma) (vma_size vma)
        | VMA_AllocatedMemoryBlock \<Rightarrow> do {
            block \<leftarrow> vma_backing_block vma;
            MapMemoryRegion (vm_system s) (vm_page_table s) (vma_base vma) (vma_size vma)
              (blk_data (vm_blocks s block) + vma_offset vma)
          }
        | VMA_BackingMemory \<Rightarrow>
            MapMemoryRegion (vm_system s) (vm_page_table s) (vma_base vma) (vma_size vma)
              (vma_backing_memory vma)
        | VMA_MMIO \<Rightarrow>
            MapIoRegion (vm_system s) (vm_page_table s) (vma_base vma) (vma_size vma)
              (vma_mmio_handler vma));
     Some (s\<lparr>vm_system := sys, vm_page_table := pt\<rparr>)
   }"

definition CarveVMA :: "VMManager \<Rightarrow> VAddr \<Rightarrow> u64 \<Rightarrow> (VMManager \<times> u64 ResultVal) option" where
  "CarveVMA s b n = do {
     ASSERT (n AND PAGE_MASK = 0);
     ASSERT (b AND PAGE_MASK = 0);
     it \<leftarrow> FindVMA s b;
     case it of
       End \<Rightarrow> Some (s, Inl ERR_INVALID_ADDRESS)
     | At k \<Rightarrow> do {
         vma \<leftarrow> map_of (vma_map s) k;
         if vma_type vma \<noteq> VMA_Free then Some (s, Inl ERR_INVALID_ADDRESS_STATE)
         else do {
           let start_in_vma = b - vma_base vma;
           let end_in_vma = start_in_vma + n;
           if end_in_vma > vma_size vma then Some (s, Inl ERR_INVALID_ADDRESS_STATE)
           else do {
             s \<leftarrow> (if end_in_vma \<noteq> vma_size vma
                   then map_option fst (SplitVMA s k end_in_vma) else Some s);
             (s, k) \<leftarrow> (if start_in_vma \<noteq> 0 then SplitVMA s k start_in_vma else Some (s, k));
             Some (s, Inr k)
           }
         }
       }
   }"

definition CarveVMARange :: "VMManager \<Rightarrow> VAddr \<Rightarrow> u64 \<Rightarrow> (VMManager \<times> u64 ResultVal) option" where
  "CarveVMARange s target n = do {
     ASSERT (n AND PAGE_MASK = 0);
     ASSERT (target AND PAGE_MASK = 0);
     let target_end = target + n;
     ASSERT (target_end \<ge> target);
     ASSERT (target_end \<le> address_space_end s);
     ASSERT (n > 0);
     begin_it \<leftarrow> FindVMA s target;
     let i_end = lower_bound (vma_map s) target_end;
     if \<exists>p \<in> set (entries_between (vma_map s) begin_it i_end). vma_type (snd p) = VMA_Free
     then Some (s, Inl ERR_INVALID_ADDRESS_STATE)
     else case begin_it of
       End \<Rightarrow> None
     | At k \<Rightarrow> do {
         begin_vma \<leftarrow> map_of (vma_map s) k;
         (s, k) \<leftarrow> (if target \<noteq> vma_base begin_vma
                   then SplitVMA s k (target - vma_base begin_vma) else Some (s, k));
         end_it \<leftarrow> FindVMA s target_end;
         s \<leftarrow> (case end_it of
                 End \<Rightarrow> Some s
               | At ke \<Rightarrow> do {
                   end_vma \<leftarrow> map_of (vma_map s) ke;
                   if target_end \<noteq> vma_base end_vma
                   then map_option fst (SplitVMA s ke (target_end - vma_base end_vma))
                   else Some s
                 });
         Some (s, Inr k)
       }
   }"

subsection \<open>Mapping\<close>

text \<open>All four cores are told of a new mapping.\<close>

definition arm_map :: "VAddr \<Rightarrow> u64 \<Rightarrow> host_ptr \<Rightarrow> sys_call list" where
  "arm_map target n memory =
     map (\<lambda>core. Arm_MapBackingMemory core target n memory Perm_ReadWriteExecute) [0, 1, 2, 3]"

definition MapMemoryBlock ::
  "VMManager \<Rightarrow> VAddr \<Rightarrow> nat option \<Rightarrow> u64 \<Rightarrow> u64 \<Rightarrow> MemoryState \<Rightarrow>
   (VMManager \<times> u64 ResultVal) option" where
  "MapMemoryBlock s target block offset n state = do {
     ASSERT (block \<noteq> None);
     blk \<leftarrow> block;
     ASSERT (offset + n \<le> blk_size (vm_blocks s blk));
     (s, r) \<leftarrow> CarveVMA s target n;
     case r of
       Inl e \<Rightarrow> Some (s, Inl e)
     | Inr k \<Rightarrow> do {
         vma \<leftarrow> map_of (vma_map s) k;
         ASSERT (vma_size vma = n);
         let s = s\<lparr>vm_system :=
           sys_log (arm_map target n (blk_data (vm_blocks s blk) + offset)) (vm_system s)\<rparr>;
         let vma = vma\<lparr>vma_type := VMA_AllocatedMemoryBlock, vma_permissions := Perm_ReadWrite,
                       vma_state := state, vma_backing_block := block, vma_offset := offset\<rparr>;
         let s = s\<lparr>vma_map := put (vma_map s) k vma\<rparr>;
         s \<leftarrow> UpdatePageTableForVMA s vma;
         (s, k) \<leftarrow> MergeAdjacent s k;
         Some (s, Inr k)
       }
   }"

definition MapBackingMemory ::
  "VMManager \<Rightarrow> VAddr \<Rightarrow> host_ptr \<Rightarrow> u64 \<Rightarrow> MemoryState \<Rightarrow> (VMManager \<times> u64 ResultVal) option" where
  "MapBackingMemory s target memory n state = do {
     ASSERT (memory \<noteq> 0);
     (s, r) \<leftarrow> CarveVMA s target n;
     case r of
       Inl e \<Rightarrow> Some (s, Inl e)
     | Inr k \<Rightarrow> do {
         vma \<leftarrow> map_of (vma_map s) k;
         ASSERT (vma_size vma = n);
         let s = s\<lparr>vm_system := sys_log (arm_map target n memory) (vm_system s)\<rparr>;
         let vma = vma\<lparr>vma_type := VMA_BackingMemory, vma_permissions := Perm_ReadWrite,
                       vma_state := state, vma_backing_memory := memory\<rparr>;
         let s = s\<lparr>vma_map := put (vma_map s) k vma\<rparr>;
         s \<leftarrow> UpdatePageTableForVMA s vma;
         (s, k) \<leftarrow> MergeAdjacent s k;
         Some (s, Inr k)
       }
   }"

definition FindFreeRegion :: "VMManager \<Rightarrow> u64 \<Rightarrow> VAddr ResultVal" where
  "FindFreeRegion s n =
     (let b = aslr_region_base s
      in case List.find (\<lambda>p. vma_type (snd p) = VMA_Free \<and>
                (let vma_end = vma_base (snd p) + vma_size (snd p)
                 in vma_end > b \<and> vma_end \<ge> b + n)) (vma_map s) of
           None \<Rightarrow> Inl (-1)
         | Some p \<Rightarrow> Inr (max b (vma_base (snd p))))"

definition MapMMIO ::
  "VMManager \<Rightarrow> VAddr \<Rightarrow> PAddr \<Rightarrow> u64 \<Rightarrow> MemoryState \<Rightarrow> MemoryHookPointer \<Rightarrow>
   (VMManager \<times> u64 ResultVal) option" where
  "MapMMIO s target paddr n state mmio_handler = do {
     (s, r) \<leftarrow> CarveVMA s target n;
     case r of
       Inl e \<Rightarrow> Some (s, Inl e)
     | Inr k \<Rightarrow> do {
         vma \<leftarrow> map_of (vma_map s) k;
         ASSERT (vma_size vma = n);
         let vma = vma\<lparr>vma_type := VMA_MMIO, vma_permissions := Perm_ReadWrite, vma_state := state,
                       vma_paddr := paddr, vma_mmio_handler := mmio_handler\<rparr>;
         let s = s\<lparr>vma_map := put (vma_map s) k vma\<rparr>;
         s \<leftarrow> UpdatePageTableForVMA s vma;
         (s, k) \<leftarrow> MergeAdjacent s k;
         Some (s, Inr k)
       }
   }"

subsection \<open>Unmapping and protection\<close>

definition Unmap :: "VMManager \<Rightarrow> u64 \<Rightarrow> (VMManager \<times> u64) option" where
  "Unmap s k = do {
     vma \<leftarrow> map_of (vma_map s) k;
     let vma = unmapped_vma vma;
     let s = s\<lparr>vma_map := put (vma_map s) k vma\<rparr>;
     s \<leftarrow> UpdatePageTableForVMA s vma;
     MergeAdjacent s k
   }"

definition UnmapRange :: "VMManager \<Rightarrow> VAddr \<Rightarrow> u64 \<Rightarrow> (VMManager \<times> ResultCode) option" where
  "UnmapRange s target n = do {
     (s, r) \<leftarrow> CarveVMARange s target n;
     case r of
       Inl e \<Rightarrow> Some (s, e)
     | Inr k \<Rightarrow> do {
         s \<leftarrow> range_loop vma_map vma_base Unmap (target + n) s (At k);
         it \<leftarrow> FindVMA s target;
         vma \<leftarrow> deref (vma_map s) it;
         ASSERT (vma_size vma \<ge> n);
         let s = s\<lparr>vm_system :=
           sys_log (map (\<lambda>core. Arm_UnmapMemory core target n) [0, 1, 2, 3]) (vm_system s)\<rparr>;
         Some (s, RESULT_SUCCESS)
       }
   }"

definition Reprotect :: "VMManager \<Rightarrow> u64 \<Rightarrow> VMAPermission \<Rightarrow> (VMManager \<times> u64) option" where
  "Reprotect s k new_perms = do {
     vma \<leftarrow> map_of (vma_map s) k;
     let vma = reprotected_vma new_perms vma;
     let s = s\<lparr>vma_map := put (vma_map s) k vma\<rparr>;
     s \<leftarrow> UpdatePageTableForVMA s vma;
     MergeAdjacent s k
   }"

definition ReprotectRange ::
  "VMManager \<Rightarrow> VAddr \<Rightarrow> u64 \<Rightarrow> VMAPermission \<Rightarrow> (VMManager \<times> ResultCode) option" where
  "ReprotectRange s target n new_perms = do {
     (s, r) \<leftarrow> CarveVMARange s target n;
     case r of
       Inl e \<Rightarrow> Some (s, e)
     | Inr k \<Rightarrow> do {
         s \<leftarrow> range_loop vma_map vma_base (\<lambda>s k. Reprotect s k new_perms) (target + n) s (At k);
         Some (s, RESULT_SUCCESS)
       }
   }"

subsection \<open>Reset\<close>

definition ClearVMAMap :: "VMManager \<Rightarrow> VMManager" where
  "ClearVMAMap s = s\<lparr>vma_map := []\<rparr>"

definition ClearPageTable :: "VMManager \<Rightarrow> VMManager" where
  "ClearPageTable s =
     (let pt = vm_page_table s
      in s\<lparr>vm_page_table := special_write SR_clear
            (pt\<lparr>pt_pointers := (\<lambda>i. if i < pt_entries pt then 0 else pt_pointers pt i),
                pt_attributes := (\<lambda>i. if i < pt_entries pt then PT_Unmapped else pt_attributes pt i)\<rparr>)\<rparr>)"

definition Clear :: "VMManager \<Rightarrow> VMManager" where
  "Clear s = ClearPageTable (ClearVMAMap s)"

definition Reset :: "ProgramAddressSpaceType \<Rightarrow> VMManager \<Rightarrow> VMManager option" where
  "Reset ty s = do {
     let s = Clear s;
     let s = InitializeMemoryRegionRanges ty s;
     let s = s\<lparr>vm_page_table := PageTable_Resize (address_space_width s) (vm_page_table s)\<rparr>;
     let vma = initial_vma\<lparr>vma_size := address_space_end s\<rparr>;
     let s = s\<lparr>vma_map := emplace (vma_base vma) vma (vma_map s)\<rparr>;
     UpdatePageTableForVMA s vma
   }"

text \<open>The members as their declarations initialise them, and the constructor.\<close>

definition vm_members :: "System \<Rightarrow> VMManager" where
  "vm_members sys =
     \<lparr>vma_map = [], vm_page_table = PageTable_create PAGE_BITS, address_space_width = 0,
      address_space_base = 0, address_space_end = 0, aslr_region_base = 0, aslr_region_end = 0,
      code_region_base = 0, code_region_end = 0, heap_region_base = 0, heap_region_end = 0,
      map_region_base = 0, map_region_end = 0, new_map_region_base = 0, new_map_region_end = 0,
      tls_io_region_base = 0, tls_io_region_end = 0, heap_memory = None, heap_end = 0,
      vm_blocks = (\<lambda>_. \<lparr>blk_data = 0, blk_size = 0\<rparr>), vm_system = sys\<rparr>"

definition VMManager_create :: "System \<Rightarrow> VMManager option" where
  "VMManager_create sys = Reset Is39Bit (vm_members sys)"

subsection \<open>Heap\<close>

text \<open>
  What the host allocator decides: the identity and the data pointer of a new
  \<^verbatim>\<open>std::vector\<close>, and the data pointer of a vector after it grew or was shrunk to fit.
\<close>

record host_allocator =
  new_block :: "VMManager \<Rightarrow> u64 \<Rightarrow> nat \<times> host_ptr"
  moved_data :: "MemoryBlock \<Rightarrow> u64 \<Rightarrow> host_ptr"

fun refresh_loop :: "nat option \<Rightarrow> VirtualMemoryArea std_map \<Rightarrow> VMManager \<Rightarrow> VMManager option" where
  "refresh_loop block [] s = Some s"
| "refresh_loop block (p # ps) s = do {
     s \<leftarrow> (if block = vma_backing_block (snd p) then UpdatePageTableForVMA s (snd p) else Some s);
     refresh_loop block ps s
   }"

definition RefreshMemoryBlockMappings :: "VMManager \<Rightarrow> nat option \<Rightarrow> VMManager option" where
  "RefreshMemoryBlockMappings s block = refresh_loop block (vma_map s) s"

definition resize_block :: "host_allocator \<Rightarrow> nat \<Rightarrow> u64 \<Rightarrow> VMManager \<Rightarrow> VMManager" where
  "resize_block h blk n s =
     s\<lparr>vm_blocks := (vm_blocks s)(blk := \<lparr>blk_data = moved_data h (vm_blocks s blk) n, blk_size = n\<rparr>)\<rparr>"

definition SetHeapSize ::
  "host_allocator \<Rightarrow> VMManager \<Rightarrow> u64 \<Rightarrow> (VMManager \<times> VAddr ResultVal) option" where
  "SetHeapSize h s n =
     (if n > GetHeapRegionSize s then Some (s, Inl ERR_OUT_OF_MEMORY)
      else if n = GetCurrentHeapSize s then Some (s, Inr (heap_region_base s))
      else do {
        s \<leftarrow> (case heap_memory s of
                None \<Rightarrow>
                  (let (blk, data) = new_block h s n
                   in Some (s\<lparr>heap_memory := Some blk, heap_end := heap_region_base s + n,
                       vm_blocks := (vm_blocks s)(blk := \<lparr>blk_data = data, blk_size = n\<rparr>)\<rparr>))
              | Some _ \<Rightarrow>
                  map_option fst (UnmapRange s (heap_region_base s) (GetCurrentHeapSize s)));
        blk \<leftarrow> heap_memory s;
        let old_heap_size = GetCurrentHeapSize s;
        s \<leftarrow> (if n > old_heap_size
              then RefreshMemoryBlockMappings
                     (resize_block h blk (blk_size (vm_blocks s blk) + (n - old_heap_size)) s)
                     (heap_memory s)
              else if n < old_heap_size
              then RefreshMemoryBlockMappings (resize_block h blk n s) (heap_memory s)
              else Some s);
        let s = s\<lparr>heap_end := heap_region_base s + n\<rparr>;
        ASSERT (GetCurrentHeapSize s = blk_size (vm_blocks s blk));
        (s, r) \<leftarrow> MapMemoryBlock s (heap_region_base s) (heap_memory s) 0 n State_Heap;
        case r of
          Inl e \<Rightarrow> Some (s, Inl e)
        | Inr _ \<Rightarrow> Some (s, Inr (heap_region_base s))
      })"

subsection \<open>Range checks, queries and attributes\<close>

text \<open>
  The loop of \<open>CheckRangeState\<close>; the assertions in it are debug assertions. Advancing past the
  last area, or a handle that is not valid, is undefined behaviour.
\<close>

partial_function (option) check_range_loop ::
  "VirtualMemoryArea std_map \<Rightarrow> VirtualMemoryArea \<Rightarrow> VAddr \<Rightarrow> MemoryState \<Rightarrow> MemoryState \<Rightarrow>
   VMAPermission \<Rightarrow> VMAPermission \<Rightarrow> MemoryAttribute \<Rightarrow> MemoryAttribute \<Rightarrow> MemoryAttribute \<Rightarrow>
   iter \<Rightarrow> bool option" where
  "check_range_loop m initial end_address state_mask state permission_mask permissions
     attribute_mask attribute ignore_mask it =
     Option.bind (deref m it) (\<lambda>vma.
       if vma_state vma \<noteq> vma_state initial then Some False
       else if vma_state vma AND state_mask \<noteq> state then Some False
       else if vma_permissions vma \<noteq> vma_permissions initial then Some False
       else if vma_permissions vma AND permission_mask \<noteq> permissions then Some False
       else if vma_attribute vma OR ignore_mask \<noteq> vma_attribute initial OR ignore_mask then Some False
       else if vma_attribute vma AND attribute_mask \<noteq> attribute then Some False
       else if end_address \<le> EndAddress vma then Some True
       else Option.bind (iter_next m it) (\<lambda>it'.
         check_range_loop m initial end_address state_mask state permission_mask permissions
           attribute_mask attribute ignore_mask it'))"

definition CheckRangeState ::
  "VMManager \<Rightarrow> VAddr \<Rightarrow> u64 \<Rightarrow> MemoryState \<Rightarrow> MemoryState \<Rightarrow> VMAPermission \<Rightarrow> VMAPermission \<Rightarrow>
   MemoryAttribute \<Rightarrow> MemoryAttribute \<Rightarrow> MemoryAttribute \<Rightarrow>
   (MemoryState \<times> VMAPermission \<times> MemoryAttribute) ResultVal option" where
  "CheckRangeState s address n state_mask state permission_mask permissions attribute_mask attribute
     ignore_mask = do {
     it \<leftarrow> FindVMA s address;
     initial \<leftarrow> deref (vma_map s) it;
     ok \<leftarrow> check_range_loop (vma_map s) initial (address + n - 1) state_mask state permission_mask
       permissions attribute_mask attribute ignore_mask it;
     Some (if ok
           then Inr (vma_state initial, vma_permissions initial,
                     vma_attribute initial AND NOT ignore_mask)
           else Inl ERR_INVALID_ADDRESS_STATE)
   }"

record MemoryInfo =
  mi_base_address :: u64
  mi_size :: u64
  mi_state :: u32
  mi_attributes :: u32
  mi_permission :: u32
  mi_ipc_ref_count :: u32
  mi_device_ref_count :: u32

definition QueryMemory :: "VMManager \<Rightarrow> VAddr \<Rightarrow> MemoryInfo option" where
  "QueryMemory s address = do {
     it \<leftarrow> FindVMA s address;
     if IsValidHandle it
     then do {
       vma \<leftarrow> deref (vma_map s) it;
       Some \<lparr>mi_base_address = vma_base vma, mi_size = vma_size vma,
             mi_state = ToSvcMemoryState (vma_state vma),
             mi_attributes = ToSvcMemoryAttribute (vma_attribute vma),
             mi_permission = ucast (vma_permissions vma), mi_ipc_ref_count = 0,
             mi_device_ref_count = 0\<rparr>
     }
     else Some \<lparr>mi_base_address = address_space_end s, mi_size = 0 - address_space_end s,
               mi_state = State_Inaccessible, mi_attributes = 0, mi_permission = ucast Perm_None,
               mi_ipc_ref_count = 0, mi_device_ref_count = 0\<rparr>
   }"

definition SetMemoryAttribute ::
  "VMManager \<Rightarrow> VAddr \<Rightarrow> u64 \<Rightarrow> MemoryAttribute \<Rightarrow> MemoryAttribute \<Rightarrow>
   (VMManager \<times> ResultCode) option" where
  "SetMemoryAttribute s address n attr_mask attribute = do {
     let ignore_mask = Attr_Uncached OR Attr_DeviceMapped;
     let attribute_mask = NOT ignore_mask;
     result \<leftarrow> CheckRangeState s address n FlagUncached FlagUncached Perm_None Perm_None
       attribute_mask Attr_None ignore_mask;
     case result of
       Inl e \<Rightarrow> Some (s, e)
     | Inr (prev_state, prev_permissions, prev_attributes) \<Rightarrow> do {
         let new_attribute = (prev_attributes AND NOT attr_mask) OR (attr_mask AND attribute);
         (s, carve_result) \<leftarrow> CarveVMARange s address n;
         case carve_result of
           Inl e \<Rightarrow> Some (s, e)
         | Inr k \<Rightarrow> do {
             vma \<leftarrow> map_of (vma_map s) k;
             let s = s\<lparr>vma_map := put (vma_map s) k (vma\<lparr>vma_attribute := new_attribute\<rparr>)\<rparr>;
             (s, k) \<leftarrow> MergeAdjacent s k;
             Some (s, RESULT_SUCCESS)
           }
       }
   }"

subsection \<open>Mirroring and code memory\<close>

definition MirrorMemory ::
  "VMManager \<Rightarrow> VAddr \<Rightarrow> VAddr \<Rightarrow> u64 \<Rightarrow> MemoryState \<Rightarrow> (VMManager \<times> ResultCode) option" where
  "MirrorMemory s dst_addr src_addr n state = do {
     it \<leftarrow> FindVMA s src_addr;
     ASSERT (it \<noteq> End);
     vma \<leftarrow> deref (vma_map s) it;
     ASSERT (vma_backing_block vma \<noteq> None);
     k \<leftarrow> (case it of At k \<Rightarrow> Some k | End \<Rightarrow> None);
     let vma_offset_in = src_addr - k;
     ASSERT (vma_offset_in + n \<le> vma_size vma);
     let backing_block_offset = vma_offset vma + vma_offset_in;
     (s, r) \<leftarrow> MapMemoryBlock s dst_addr (vma_backing_block vma) backing_block_offset n state;
     case r of
       Inl e \<Rightarrow> Some (s, e)
     | Inr new_vma \<Rightarrow> do {
         vma \<leftarrow> map_of (vma_map s) k;
         (s, _) \<leftarrow> Reprotect s new_vma (vma_permissions vma);
         (s, _) \<leftarrow> Reprotect s k Perm_None;
         Some (s, RESULT_SUCCESS)
       }
   }"

definition MapCodeMemory ::
  "VMManager \<Rightarrow> VAddr \<Rightarrow> VAddr \<Rightarrow> u64 \<Rightarrow> (VMManager \<times> ResultCode) option" where
  "MapCodeMemory s dst_address src_address n = do {
     let ignore_attribute = Attr_LockedForIPC OR Attr_DeviceMapped;
     src_check_result \<leftarrow> CheckRangeState s src_address n State_All State_Heap Perm_All Perm_ReadWrite
       Attr_Mask Attr_None ignore_attribute;
     case src_check_result of
       Inl e \<Rightarrow> Some (s, e)
     | Inr _ \<Rightarrow> do {
         (s, mirror_result) \<leftarrow> MirrorMemory s dst_address src_address n State_ModuleCode;
         if IsError mirror_result then Some (s, mirror_result)
         else do {
           (s, src_vma_result) \<leftarrow> CarveVMARange s src_address n;
           case src_vma_result of
             Inl e \<Rightarrow> Some (s, e)
           | Inr k \<Rightarrow> do {
               vma \<leftarrow> map_of (vma_map s) k;
               let s = s\<lparr>vma_map := put (vma_map s) k (vma\<lparr>vma_attribute := Attr_Locked\<rparr>)\<rparr>;
               (s, _) \<leftarrow> Reprotect s k Perm_Read;
               ReprotectRange s dst_address n Perm_Read
             }
         }
       }
   }"

definition UnmapCodeMemory ::
  "VMManager \<Rightarrow> VAddr \<Rightarrow> VAddr \<Rightarrow> u64 \<Rightarrow> (VMManager \<times> ResultCode) option" where
  "UnmapCodeMemory s dst_address src_address n = do {
     let ignore_attribute = Attr_LockedForIPC OR Attr_DeviceMapped;
     src_check_result \<leftarrow> CheckRangeState s src_address n State_All State_Heap Perm_None Perm_None
       Attr_Mask Attr_Locked ignore_attribute;
     case src_check_result of
       Inl e \<Rightarrow> Some (s, e)
     | Inr _ \<Rightarrow> do {
     dst_check_result \<leftarrow> CheckRangeState s dst_address PAGE_SIZE FlagModule FlagModule Perm_None
       Perm_None Attr_Mask Attr_None ignore_attribute;
     case dst_check_result of
       Inl e \<Rightarrow> Some (s, e)
     | Inr (dst_memory_state, _, _) \<Rightarrow> do {
     dst_contiguous_check_result \<leftarrow> CheckRangeState s dst_address n State_All dst_memory_state
       Perm_None Perm_None Attr_Mask Attr_None ignore_attribute;
     case dst_contiguous_check_result of
       Inl e \<Rightarrow> Some (s, e)
     | Inr _ \<Rightarrow> do {
     (s, unmap_result) \<leftarrow> UnmapRange s dst_address n;
     if IsError unmap_result then Some (s, unmap_result)
     else do {
       (s, src_vma_result) \<leftarrow> CarveVMARange s src_address n;
       case src_vma_result of
         Inl e \<Rightarrow> Some (s, e)
       | Inr k \<Rightarrow> do {
           vma \<leftarrow> map_of (vma_map s) k;
           let s = s\<lparr>vma_map := put (vma_map s) k
             (vma\<lparr>vma_state := State_Heap, vma_attribute := Attr_None\<rparr>)\<rparr>;
           (s, _) \<leftarrow> Reprotect s k Perm_ReadWrite;
           let s = (if dst_memory_state = State_ModuleCode
                    then s\<lparr>vm_system := sys_log [Sys_InvalidateCpuInstructionCaches] (vm_system s)\<rparr>
                    else s);
           Some (s, unmap_result)
         }
     }}}}
   }"

end
