(* ===== verification/Guest_Memory.thy ===== *)
theory Guest_Memory
  imports Vm_Manager Host_Memory
begin

text \<open>
  The accesses of the emulated CPU to memory, \<^verbatim>\<open>core/memory.cpp\<close>: the page table gives the
  host pointer of a page on the fast path; pages that the rasterizer caches have none and go
  through the areas of the \<open>VMManager\<close>. The current process is its \<open>VMManager\<close> \<open>s\<close>, the host's
  memory is \<open>h\<close>. Indexing the vectors of the page table beyond their end, dereferencing the end
  of the area map and the \<^verbatim>\<open>UNREACHABLE\<close> branches are \<open>None\<close>.
\<close>

definition KERNEL_REGION_VADDR :: VAddr where "KERNEL_REGION_VADDR = 0xFFFFFF8000000000"
definition KERNEL_REGION_SIZE :: VAddr where "KERNEL_REGION_SIZE = 0x7FFFE00000"
definition KERNEL_REGION_END :: VAddr where
  "KERNEL_REGION_END = KERNEL_REGION_VADDR + KERNEL_REGION_SIZE"

definition page_pointer :: "PageTable \<Rightarrow> u64 \<Rightarrow> host_ptr option" where
  "page_pointer pt i = (if unat i < pt_entries pt then Some (pt_pointers pt (unat i)) else None)"

definition page_attribute :: "PageTable \<Rightarrow> u64 \<Rightarrow> PageType option" where
  "page_attribute pt i = (if unat i < pt_entries pt then Some (pt_attributes pt (unat i)) else None)"

definition GetPointerFromVMA :: "VMManager \<Rightarrow> VAddr \<Rightarrow> host_ptr option" where
  "GetPointerFromVMA s vaddr = do {
     it \<leftarrow> FindVMA s vaddr;
     vma \<leftarrow> deref (vma_map s) it;
     case vma_type vma of
       VMA_AllocatedMemoryBlock \<Rightarrow> do {
         block \<leftarrow> vma_backing_block vma;
         Some (blk_data (vm_blocks s block) + vma_offset vma + (vaddr - vma_base vma))
       }
     | VMA_BackingMemory \<Rightarrow> Some (vma_backing_memory vma + (vaddr - vma_base vma))
     | VMA_Free \<Rightarrow> Some 0
     | VMA_MMIO \<Rightarrow> None
   }"

text \<open>Copying from or to the null pointer is undefined behaviour.\<close>

definition nonnull :: "host_ptr \<Rightarrow> host_ptr option" where
  "nonnull p = (if p = 0 then None else Some p)"

subsection \<open>Single values\<close>

text \<open>\<^verbatim>\<open>Read<T>\<close> with \<^verbatim>\<open>sizeof(T) = n\<close>: the bytes read and the host memory after a flush.\<close>

definition Memory_Read ::
  "gpu_cache \<Rightarrow> VMManager \<Rightarrow> host_mem \<Rightarrow> VAddr \<Rightarrow> nat \<Rightarrow> (host_mem \<times> u8 list) option" where
  "Memory_Read gpu s h vaddr n = do {
     p \<leftarrow> page_pointer (vm_page_table s) (drop_bit PAGE_BITS vaddr);
     if p \<noteq> 0 then Some (h, host_read h (p + (vaddr AND PAGE_MASK)) n)
     else do {
       ty \<leftarrow> page_attribute (vm_page_table s) (drop_bit PAGE_BITS vaddr);
       case ty of
         PT_Unmapped \<Rightarrow> Some (h, replicate n 0)
       | PT_RasterizerCachedMemory \<Rightarrow> do {
           hp \<leftarrow> GetPointerFromVMA s vaddr \<bind> nonnull;
           let h = flush_region gpu hp (of_nat n) h;
           Some (h, host_read h hp n)
         }
       | _ \<Rightarrow> None
     }
   }"

definition Memory_Write ::
  "gpu_cache \<Rightarrow> VMManager \<Rightarrow> host_mem \<Rightarrow> VAddr \<Rightarrow> u8 list \<Rightarrow> host_mem option" where
  "Memory_Write gpu s h vaddr bs = do {
     p \<leftarrow> page_pointer (vm_page_table s) (drop_bit PAGE_BITS vaddr);
     if p \<noteq> 0 then Some (host_write (p + (vaddr AND PAGE_MASK)) bs h)
     else do {
       ty \<leftarrow> page_attribute (vm_page_table s) (drop_bit PAGE_BITS vaddr);
       case ty of
         PT_Unmapped \<Rightarrow> Some h
       | PT_RasterizerCachedMemory \<Rightarrow> do {
           hp \<leftarrow> GetPointerFromVMA s vaddr \<bind> nonnull;
           Some (host_write hp bs (invalidate_region gpu hp (of_nat (length bs)) h))
         }
       | _ \<Rightarrow> None
     }
   }"

definition Read8 :: "gpu_cache \<Rightarrow> VMManager \<Rightarrow> host_mem \<Rightarrow> VAddr \<Rightarrow> (host_mem \<times> u8) option" where
  "Read8 gpu s h a = map_option (apsnd le_value) (Memory_Read gpu s h a 1)"
definition Read16 :: "gpu_cache \<Rightarrow> VMManager \<Rightarrow> host_mem \<Rightarrow> VAddr \<Rightarrow> (host_mem \<times> u16) option" where
  "Read16 gpu s h a = map_option (apsnd le_value) (Memory_Read gpu s h a 2)"
definition Read32 :: "gpu_cache \<Rightarrow> VMManager \<Rightarrow> host_mem \<Rightarrow> VAddr \<Rightarrow> (host_mem \<times> u32) option" where
  "Read32 gpu s h a = map_option (apsnd le_value) (Memory_Read gpu s h a 4)"
definition Read64 :: "gpu_cache \<Rightarrow> VMManager \<Rightarrow> host_mem \<Rightarrow> VAddr \<Rightarrow> (host_mem \<times> u64) option" where
  "Read64 gpu s h a = map_option (apsnd le_value) (Memory_Read gpu s h a 8)"

definition Write8 :: "gpu_cache \<Rightarrow> VMManager \<Rightarrow> host_mem \<Rightarrow> VAddr \<Rightarrow> u8 \<Rightarrow> host_mem option" where
  "Write8 gpu s h a x = Memory_Write gpu s h a (le_bytes 1 x)"
definition Write16 :: "gpu_cache \<Rightarrow> VMManager \<Rightarrow> host_mem \<Rightarrow> VAddr \<Rightarrow> u16 \<Rightarrow> host_mem option" where
  "Write16 gpu s h a x = Memory_Write gpu s h a (le_bytes 2 x)"
definition Write32 :: "gpu_cache \<Rightarrow> VMManager \<Rightarrow> host_mem \<Rightarrow> VAddr \<Rightarrow> u32 \<Rightarrow> host_mem option" where
  "Write32 gpu s h a x = Memory_Write gpu s h a (le_bytes 4 x)"
definition Write64 :: "gpu_cache \<Rightarrow> VMManager \<Rightarrow> host_mem \<Rightarrow> VAddr \<Rightarrow> u64 \<Rightarrow> host_mem option" where
  "Write64 gpu s h a x = Memory_Write gpu s h a (le_bytes 8 x)"

definition IsValidVirtualAddress :: "VMManager \<Rightarrow> VAddr \<Rightarrow> bool option" where
  "IsValidVirtualAddress s vaddr = do {
     p \<leftarrow> page_pointer (vm_page_table s) (drop_bit PAGE_BITS vaddr);
     if p \<noteq> 0 then Some True
     else do {
       ty \<leftarrow> page_attribute (vm_page_table s) (drop_bit PAGE_BITS vaddr);
       Some (ty = PT_RasterizerCachedMemory)
     }
   }"

definition IsKernelVirtualAddress :: "VAddr \<Rightarrow> bool" where
  "IsKernelVirtualAddress vaddr \<longleftrightarrow> KERNEL_REGION_VADDR \<le> vaddr \<and> vaddr < KERNEL_REGION_END"

definition GetPointer :: "VMManager \<Rightarrow> VAddr \<Rightarrow> host_ptr option" where
  "GetPointer s vaddr = do {
     p \<leftarrow> page_pointer (vm_page_table s) (drop_bit PAGE_BITS vaddr);
     if p \<noteq> 0 then Some (p + (vaddr AND PAGE_MASK))
     else do {
       ty \<leftarrow> page_attribute (vm_page_table s) (drop_bit PAGE_BITS vaddr);
       if ty = PT_RasterizerCachedMemory then GetPointerFromVMA s vaddr else Some 0
     }
   }"

fun cstring_loop ::
  "gpu_cache \<Rightarrow> VMManager \<Rightarrow> host_mem \<Rightarrow> VAddr \<Rightarrow> nat \<Rightarrow> u8 list \<Rightarrow> (host_mem \<times> u8 list) option" where
  "cstring_loop gpu s h vaddr 0 acc = Some (h, acc)"
| "cstring_loop gpu s h vaddr (Suc n) acc = do {
     (h, c) \<leftarrow> Read8 gpu s h vaddr;
     if c = 0 then Some (h, acc) else cstring_loop gpu s h (vaddr + 1) n (acc @ [c])
   }"

definition ReadCString ::
  "gpu_cache \<Rightarrow> VMManager \<Rightarrow> host_mem \<Rightarrow> VAddr \<Rightarrow> nat \<Rightarrow> (host_mem \<times> u8 list) option" where
  "ReadCString gpu s h vaddr max_length = cstring_loop gpu s h vaddr max_length []"

subsection \<open>Marking pages as cached by the rasterizer\<close>

definition mark_page :: "VMManager \<Rightarrow> VAddr \<Rightarrow> bool \<Rightarrow> VMManager option" where
  "mark_page s vaddr cached = do {
     let i = drop_bit PAGE_BITS vaddr;
     let pt = vm_page_table s;
     page_type \<leftarrow> page_attribute pt i;
     if cached
     then (case page_type of
             PT_Unmapped \<Rightarrow> Some s
           | PT_Memory \<Rightarrow> Some (s\<lparr>vm_page_table := pt
               \<lparr>pt_attributes := (pt_attributes pt)(unat i := PT_RasterizerCachedMemory),
                pt_pointers := (pt_pointers pt)(unat i := 0)\<rparr>\<rparr>)
           | PT_RasterizerCachedMemory \<Rightarrow> Some s
           | _ \<Rightarrow> None)
     else (case page_type of
             PT_Unmapped \<Rightarrow> Some s
           | PT_Memory \<Rightarrow> Some s
           | PT_RasterizerCachedMemory \<Rightarrow> do {
               p \<leftarrow> GetPointerFromVMA s (vaddr AND NOT PAGE_MASK);
               Some (if p = 0
                     then s\<lparr>vm_page_table := pt
                       \<lparr>pt_attributes := (pt_attributes pt)(unat i := PT_Unmapped)\<rparr>\<rparr>
                     else s\<lparr>vm_page_table := pt
                       \<lparr>pt_attributes := (pt_attributes pt)(unat i := PT_Memory),
                        pt_pointers := (pt_pointers pt)(unat i := p)\<rparr>\<rparr>)
             }
           | _ \<Rightarrow> None)
   }"

text \<open>
  The loop counter is a 32-bit \<^verbatim>\<open>unsigned\<close> that is compared with a 64-bit number of pages: it
  wraps before it gets there if there are more than \<open>2 ^ 32\<close> pages.
\<close>

partial_function (option) mark_loop ::
  "u32 \<Rightarrow> u64 \<Rightarrow> bool \<Rightarrow> VAddr \<Rightarrow> VMManager \<Rightarrow> VMManager option" where
  "mark_loop i num_pages cached vaddr s =
     (if (ucast i :: u64) < num_pages
      then Option.bind (mark_page s vaddr cached)
             (\<lambda>s. mark_loop (i + 1) num_pages cached (vaddr + PAGE_SIZE) s)
      else Some s)"

definition RasterizerMarkRegionCached :: "VMManager \<Rightarrow> VAddr \<Rightarrow> u64 \<Rightarrow> bool \<Rightarrow> VMManager option" where
  "RasterizerMarkRegionCached s vaddr n cached =
     (if vaddr = 0 then Some s
      else mark_loop 0 (drop_bit PAGE_BITS (vaddr + n - 1) - drop_bit PAGE_BITS vaddr + 1) cached vaddr s)"

subsection \<open>Blocks\<close>

definition page_vaddr :: "u64 \<Rightarrow> u64 \<Rightarrow> VAddr" where
  "page_vaddr page_index page_offset = push_bit PAGE_BITS page_index + page_offset"

definition ReadBlock_page ::
  "gpu_cache \<Rightarrow> VMManager \<Rightarrow> host_ptr \<Rightarrow> u64 \<Rightarrow> u64 \<Rightarrow> u64 \<Rightarrow> u64 \<Rightarrow> host_mem \<Rightarrow> host_mem option" where
  "ReadBlock_page gpu s dest page_index page_offset d copy_amount h = do {
     ty \<leftarrow> page_attribute (vm_page_table s) page_index;
     case ty of
       PT_Unmapped \<Rightarrow> Some (host_write (dest + d) (replicate (unat copy_amount) 0) h)
     | PT_Memory \<Rightarrow> do {
         p \<leftarrow> page_pointer (vm_page_table s) page_index \<bind> nonnull;
         Some (host_write (dest + d) (host_read h (p + page_offset) (unat copy_amount)) h)
       }
     | PT_RasterizerCachedMemory \<Rightarrow> do {
         hp \<leftarrow> GetPointerFromVMA s (page_vaddr page_index page_offset) \<bind> nonnull;
         let h = flush_region gpu hp copy_amount h;
         Some (host_write (dest + d) (host_read h hp (unat copy_amount)) h)
       }
     | _ \<Rightarrow> None
   }"

definition ReadBlock ::
  "gpu_cache \<Rightarrow> VMManager \<Rightarrow> VAddr \<Rightarrow> host_ptr \<Rightarrow> u64 \<Rightarrow> host_mem \<Rightarrow> host_mem option" where
  "ReadBlock gpu s src_addr dest_buffer n h =
     block_loop PAGE_SIZE (ReadBlock_page gpu s dest_buffer) (drop_bit PAGE_BITS src_addr)
       (src_addr AND PAGE_MASK) 0 n h"

definition WriteBlock_page ::
  "gpu_cache \<Rightarrow> VMManager \<Rightarrow> host_ptr \<Rightarrow> u64 \<Rightarrow> u64 \<Rightarrow> u64 \<Rightarrow> u64 \<Rightarrow> host_mem \<Rightarrow> host_mem option" where
  "WriteBlock_page gpu s src page_index page_offset d copy_amount h = do {
     ty \<leftarrow> page_attribute (vm_page_table s) page_index;
     case ty of
       PT_Unmapped \<Rightarrow> Some h
     | PT_Memory \<Rightarrow> do {
         p \<leftarrow> page_pointer (vm_page_table s) page_index \<bind> nonnull;
         Some (host_write (p + page_offset) (host_read h (src + d) (unat copy_amount)) h)
       }
     | PT_RasterizerCachedMemory \<Rightarrow> do {
         hp \<leftarrow> GetPointerFromVMA s (page_vaddr page_index page_offset) \<bind> nonnull;
         let h = invalidate_region gpu hp copy_amount h;
         Some (host_write hp (host_read h (src + d) (unat copy_amount)) h)
       }
     | _ \<Rightarrow> None
   }"

definition WriteBlock ::
  "gpu_cache \<Rightarrow> VMManager \<Rightarrow> VAddr \<Rightarrow> host_ptr \<Rightarrow> u64 \<Rightarrow> host_mem \<Rightarrow> host_mem option" where
  "WriteBlock gpu s dest_addr src_buffer n h =
     block_loop PAGE_SIZE (WriteBlock_page gpu s src_buffer) (drop_bit PAGE_BITS dest_addr)
       (dest_addr AND PAGE_MASK) 0 n h"

definition ZeroBlock_page ::
  "gpu_cache \<Rightarrow> VMManager \<Rightarrow> u64 \<Rightarrow> u64 \<Rightarrow> u64 \<Rightarrow> u64 \<Rightarrow> host_mem \<Rightarrow> host_mem option" where
  "ZeroBlock_page gpu s page_index page_offset d copy_amount h = do {
     ty \<leftarrow> page_attribute (vm_page_table s) page_index;
     case ty of
       PT_Unmapped \<Rightarrow> Some h
     | PT_Memory \<Rightarrow> do {
         p \<leftarrow> page_pointer (vm_page_table s) page_index \<bind> nonnull;
         Some (host_write (p + page_offset) (replicate (unat copy_amount) 0) h)
       }
     | PT_RasterizerCachedMemory \<Rightarrow> do {
         hp \<leftarrow> GetPointerFromVMA s (page_vaddr page_index page_offset) \<bind> nonnull;
         Some (host_write hp (replicate (unat copy_amount) 0) (invalidate_region gpu hp copy_amount h))
       }
     | _ \<Rightarrow> None
   }"

definition ZeroBlock ::
  "gpu_cache \<Rightarrow> VMManager \<Rightarrow> VAddr \<Rightarrow> u64 \<Rightarrow> host_mem \<Rightarrow> host_mem option" where
  "ZeroBlock gpu s dest_addr n h =
     block_loop PAGE_SIZE (ZeroBlock_page gpu s) (drop_bit PAGE_BITS dest_addr)
       (dest_addr AND PAGE_MASK) 0 n h"

definition CopyBlock_page ::
  "gpu_cache \<Rightarrow> VMManager \<Rightarrow> VAddr \<Rightarrow> u64 \<Rightarrow> u64 \<Rightarrow> u64 \<Rightarrow> u64 \<Rightarrow> host_mem \<Rightarrow> host_mem option" where
  "CopyBlock_page gpu s dest_addr page_index page_offset d copy_amount h = do {
     ty \<leftarrow> page_attribute (vm_page_table s) page_index;
     case ty of
       PT_Unmapped \<Rightarrow> ZeroBlock gpu s (dest_addr + d) copy_amount h
     | PT_Memory \<Rightarrow> do {
         p \<leftarrow> page_pointer (vm_page_table s) page_index \<bind> nonnull;
         WriteBlock gpu s (dest_addr + d) (p + page_offset) copy_amount h
       }
     | PT_RasterizerCachedMemory \<Rightarrow> do {
         hp \<leftarrow> GetPointerFromVMA s (page_vaddr page_index page_offset) \<bind> nonnull;
         WriteBlock gpu s (dest_addr + d) hp copy_amount (flush_region gpu hp copy_amount h)
       }
     | _ \<Rightarrow> None
   }"

definition CopyBlock ::
  "gpu_cache \<Rightarrow> VMManager \<Rightarrow> VAddr \<Rightarrow> VAddr \<Rightarrow> u64 \<Rightarrow> host_mem \<Rightarrow> host_mem option" where
  "CopyBlock gpu s dest_addr src_addr n h =
     block_loop PAGE_SIZE (CopyBlock_page gpu s dest_addr) (drop_bit PAGE_BITS src_addr)
       (src_addr AND PAGE_MASK) 0 n h"

end
