(* ===== verification/Gpu_Memory.thy ===== *)
theory Gpu_Memory
  imports Vma_Space Host_Memory Guest_Memory
begin

text \<open>
  \<^verbatim>\<open>Tegra::MemoryManager\<close> (\<^verbatim>\<open>video_core/memory_manager.h\<close>, \<^verbatim>\<open>memory_manager.cpp\<close>): the GPU's
  address space, with pages of 64 KiB. It shares its area code with the kernel's manager
  (\<open>Vma_Space\<close>) and keeps, beside the host pointer, the CPU address of every page. The calls to
  the rasterizer are the parameter \<open>gpu_cache\<close>; a dereference of the end iterator is \<open>None\<close>.
\<close>

datatype gpu_area_type = GV_Unmapped | GV_Allocated | GV_Mapped

record GpuArea =
  gv_base :: GPUVAddr
  gv_size :: u64
  gv_type :: gpu_area_type
  gv_backing_addr :: VAddr
  gv_offset :: u64
  gv_backing_memory :: host_ptr

record GpuMemoryManager =
  gm_map :: "GpuArea std_map"
  gm_page_table :: PageTable

definition gpu_page_bits :: nat where "gpu_page_bits = 16"
definition gpu_page_size :: u64 where "gpu_page_size = 0x10000"
definition gpu_page_mask :: u64 where "gpu_page_mask = 0xFFFF"
definition gpu_address_space_width :: nat where "gpu_address_space_width = 39"
definition gpu_address_space_base :: GPUVAddr where "gpu_address_space_base = 0x100000"
definition gpu_address_space_end :: GPUVAddr where
  "gpu_address_space_end = push_bit gpu_address_space_width 1"

definition AlignUp :: "u64 \<Rightarrow> u64 \<Rightarrow> u64" where
  "AlignUp value n = value + (n - value mod n) mod n"

definition AlignDown :: "u64 \<Rightarrow> u64 \<Rightarrow> u64" where
  "AlignDown value n = value - value mod n"

definition gpu_CanBeMergedWith :: "GpuArea \<Rightarrow> GpuArea \<Rightarrow> bool option" where
  "gpu_CanBeMergedWith v next = do {
     ASSERT (gv_base v + gv_size v = gv_base next);
     Some (if gv_type v \<noteq> gv_type next then False
           else if gv_type v = GV_Allocated \<and> gv_offset v + gv_size v \<noteq> gv_offset next then False
           else if gv_type v = GV_Mapped \<and>
             gv_backing_memory v + gv_size v \<noteq> gv_backing_memory next then False
           else True)
   }"

definition gpu_set_size :: "u64 \<Rightarrow> GpuArea \<Rightarrow> GpuArea" where
  "gpu_set_size n v = v\<lparr>gv_size := n\<rparr>"

definition gpu_split_rest :: "u64 \<Rightarrow> GpuArea \<Rightarrow> GpuArea" where
  "gpu_split_rest n v =
     (let w = v\<lparr>gv_base := gv_base v + n, gv_size := gv_size v - n\<rparr>
      in case gv_type w of
           GV_Unmapped \<Rightarrow> w
         | GV_Allocated \<Rightarrow> w\<lparr>gv_offset := gv_offset w + n\<rparr>
         | GV_Mapped \<Rightarrow> w\<lparr>gv_backing_memory := gv_backing_memory w + n\<rparr>)"

subsection \<open>The page table\<close>

function gpu_map_loop ::
  "(nat \<Rightarrow> host_ptr) \<Rightarrow> (nat \<Rightarrow> u64) \<Rightarrow> u64 \<Rightarrow> u64 \<Rightarrow> host_ptr \<Rightarrow> VAddr \<Rightarrow>
   (nat \<Rightarrow> host_ptr) \<times> (nat \<Rightarrow> u64)" where
  "gpu_map_loop ps bs b e memory backing_addr =
     (if b \<noteq> e
      then gpu_map_loop (ps(unat b := memory)) (bs(unat b := backing_addr)) (b + 1) e
             (memory + gpu_page_size) (backing_addr + gpu_page_size)
      else (ps, bs))"
  by pat_completeness auto
termination
proof (relation "measure (\<lambda>(ps, bs, b, e, m, ba). unat (e - b))")
  show "wf (measure (\<lambda>(ps :: nat \<Rightarrow> host_ptr, bs :: nat \<Rightarrow> u64, b :: u64, e, m :: host_ptr, ba :: VAddr).
      unat (e - b)))" by simp
next
  fix ps :: "nat \<Rightarrow> host_ptr" and bs :: "nat \<Rightarrow> u64" and b e :: u64 and m :: host_ptr and ba :: VAddr
  assume "b \<noteq> e"
  then have "e - b \<noteq> 0" by simp
  then have "unat (e - b - 1) < unat (e - b)" by (metis measure_unat)
  then show "((ps(unat b := m), bs(unat b := ba), b + 1, e, m + gpu_page_size, ba + gpu_page_size),
      ps, bs, b, e, m, ba) \<in> measure (\<lambda>(ps, bs, b, e, m, ba). unat (e - b))"
    by (simp add: diff_diff_eq)
qed

declare gpu_map_loop.simps [simp del]

definition gpu_MapPages ::
  "PageTable \<Rightarrow> GPUVAddr \<Rightarrow> u64 \<Rightarrow> host_ptr \<Rightarrow> PageType \<Rightarrow> VAddr \<Rightarrow> PageTable option" where
  "gpu_MapPages pt b n memory ty backing_addr = do {
     let e = b + n;
     ASSERT (unat e \<le> pt_entries pt);
     let pt = pt\<lparr>pt_attributes := fill_range (pt_attributes pt) b e ty\<rparr>;
     Some (if memory = 0
           then pt\<lparr>pt_pointers := fill_range (pt_pointers pt) b e memory,
                   pt_backing_addr := fill_range (pt_backing_addr pt) b e backing_addr\<rparr>
           else (case gpu_map_loop (pt_pointers pt) (pt_backing_addr pt) b e memory backing_addr of
                   (ps, bs) \<Rightarrow> pt\<lparr>pt_pointers := ps, pt_backing_addr := bs\<rparr>))
   }"

definition gpu_MapMemoryRegion ::
  "PageTable \<Rightarrow> GPUVAddr \<Rightarrow> u64 \<Rightarrow> host_ptr \<Rightarrow> VAddr \<Rightarrow> PageTable option" where
  "gpu_MapMemoryRegion pt b n target backing_addr = do {
     ASSERT (n AND gpu_page_mask = 0);
     ASSERT (b AND gpu_page_mask = 0);
     gpu_MapPages pt (b div gpu_page_size) (n div gpu_page_size) target PT_Memory backing_addr
   }"

definition gpu_UnmapRegion :: "PageTable \<Rightarrow> GPUVAddr \<Rightarrow> u64 \<Rightarrow> PageTable option" where
  "gpu_UnmapRegion pt b n = do {
     ASSERT (n AND gpu_page_mask = 0);
     ASSERT (b AND gpu_page_mask = 0);
     gpu_MapPages pt (b div gpu_page_size) (n div gpu_page_size) 0 PT_Unmapped 0
   }"

definition gpu_UpdatePageTableForVMA :: "GpuMemoryManager \<Rightarrow> GpuArea \<Rightarrow> GpuMemoryManager option" where
  "gpu_UpdatePageTableForVMA s vma = do {
     pt \<leftarrow> (case gv_type vma of
              GV_Unmapped \<Rightarrow> gpu_UnmapRegion (gm_page_table s) (gv_base vma) (gv_size vma)
            | GV_Allocated \<Rightarrow>
                gpu_MapMemoryRegion (gm_page_table s) (gv_base vma) (gv_size vma) 0 (gv_backing_addr vma)
            | GV_Mapped \<Rightarrow>
                gpu_MapMemoryRegion (gm_page_table s) (gv_base vma) (gv_size vma)
                  (gv_backing_memory vma) (gv_backing_addr vma));
     Some (s\<lparr>gm_page_table := pt\<rparr>)
   }"

definition GpuMemoryManager_create :: "GpuMemoryManager option" where
  "GpuMemoryManager_create = do {
     let pt = PageTable_create gpu_page_bits;
     let pt = pt\<lparr>pt_pointers := (\<lambda>i. if i < pt_entries pt then 0 else pt_pointers pt i),
                 pt_attributes := (\<lambda>i. if i < pt_entries pt then PT_Unmapped else pt_attributes pt i)\<rparr>;
     let vma = \<lparr>gv_base = 0, gv_size = gpu_address_space_end, gv_type = GV_Unmapped,
                gv_backing_addr = 0, gv_offset = 0, gv_backing_memory = 0\<rparr>;
     gpu_UpdatePageTableForVMA
       \<lparr>gm_map = emplace (gv_base vma) vma [],
        gm_page_table = PageTable_Resize gpu_address_space_width pt\<rparr> vma
   }"

subsection \<open>Areas\<close>

definition gpu_FindVMA :: "GpuMemoryManager \<Rightarrow> GPUVAddr \<Rightarrow> iter option" where
  "gpu_FindVMA s target =
     (if target \<ge> gpu_address_space_end then Some End
      else map_option At (find_area (gm_map s) target))"

definition gpu_SplitVMA :: "GpuMemoryManager \<Rightarrow> u64 \<Rightarrow> u64 \<Rightarrow> (GpuMemoryManager \<times> u64) option" where
  "gpu_SplitVMA s k offset_in_vma = do {
     (m, k') \<leftarrow> split_area gv_base gv_size gpu_set_size gpu_split_rest gpu_CanBeMergedWith
                  (gm_map s) k offset_in_vma;
     Some (s\<lparr>gm_map := m\<rparr>, k')
   }"

definition gpu_MergeAdjacent :: "GpuMemoryManager \<Rightarrow> u64 \<Rightarrow> (GpuMemoryManager \<times> u64) option" where
  "gpu_MergeAdjacent s k = do {
     (m, k') \<leftarrow> merge_adjacent gv_size gpu_set_size gpu_CanBeMergedWith (gm_map s) k;
     Some (s\<lparr>gm_map := m\<rparr>, k')
   }"

text \<open>\<open>CarveVMA\<close> returns a singular iterator for an address outside the space; its callers use it.\<close>

definition gpu_CarveVMA :: "GpuMemoryManager \<Rightarrow> GPUVAddr \<Rightarrow> u64 \<Rightarrow> (GpuMemoryManager \<times> u64) option" where
  "gpu_CarveVMA s b n = do {
     ASSERT (n AND gpu_page_mask = 0);
     ASSERT (b AND gpu_page_mask = 0);
     it \<leftarrow> gpu_FindVMA s b;
     case it of
       End \<Rightarrow> None
     | At k \<Rightarrow> do {
         vma \<leftarrow> map_of (gm_map s) k;
         if gv_type vma = GV_Mapped then Some (s, k)
         else do {
           let start_in_vma = b - gv_base vma;
           let end_in_vma = start_in_vma + n;
           ASSERT (end_in_vma \<le> gv_size vma);
           s \<leftarrow> (if end_in_vma < gv_size vma
                 then map_option fst (gpu_SplitVMA s k end_in_vma) else Some s);
           if start_in_vma \<noteq> 0 then gpu_SplitVMA s k start_in_vma else Some (s, k)
         }
       }
   }"

text \<open>
  \<open>CarveVMARange\<close> returns a singular iterator when part of the range is unmapped, and
  dereferences the end iterator for a range outside the space.
\<close>

definition gpu_CarveVMARange ::
  "GpuMemoryManager \<Rightarrow> GPUVAddr \<Rightarrow> u64 \<Rightarrow> (GpuMemoryManager \<times> u64) option" where
  "gpu_CarveVMARange s target n = do {
     ASSERT (n AND gpu_page_mask = 0);
     ASSERT (target AND gpu_page_mask = 0);
     let target_end = target + n;
     ASSERT (target_end \<ge> target);
     ASSERT (n > 0);
     begin_it \<leftarrow> gpu_FindVMA s target;
     let i_end = lower_bound (gm_map s) target_end;
     if \<exists>p \<in> set (entries_between (gm_map s) begin_it i_end). gv_type (snd p) = GV_Unmapped
     then None
     else case begin_it of
       End \<Rightarrow> None
     | At k \<Rightarrow> do {
         begin_vma \<leftarrow> map_of (gm_map s) k;
         (s, k) \<leftarrow> (if target \<noteq> gv_base begin_vma
                   then gpu_SplitVMA s k (target - gv_base begin_vma) else Some (s, k));
         end_it \<leftarrow> gpu_FindVMA s target_end;
         s \<leftarrow> (case end_it of
                 End \<Rightarrow> Some s
               | At ke \<Rightarrow> do {
                   end_vma \<leftarrow> map_of (gm_map s) ke;
                   if target_end \<noteq> gv_base end_vma
                   then map_option fst (gpu_SplitVMA s ke (target_end - gv_base end_vma))
                   else Some s
                 });
         Some (s, k)
       }
   }"

definition allocated_area :: "GpuArea \<Rightarrow> GpuArea" where
  "allocated_area v = v\<lparr>gv_type := GV_Allocated, gv_backing_addr := 0, gv_backing_memory := 0\<rparr>"

definition gpu_Allocate :: "GpuMemoryManager \<Rightarrow> u64 \<Rightarrow> (GpuMemoryManager \<times> u64) option" where
  "gpu_Allocate s k = do {
     vma \<leftarrow> map_of (gm_map s) k;
     let vma = allocated_area vma;
     let s = s\<lparr>gm_map := put (gm_map s) k vma\<rparr>;
     s \<leftarrow> gpu_UpdatePageTableForVMA s vma;
     gpu_MergeAdjacent s k
   }"

definition gpu_AllocateMemory ::
  "GpuMemoryManager \<Rightarrow> GPUVAddr \<Rightarrow> u64 \<Rightarrow> u64 \<Rightarrow> (GpuMemoryManager \<times> u64) option" where
  "gpu_AllocateMemory s target offset n = do {
     (s, k) \<leftarrow> gpu_CarveVMA s target n;
     vma \<leftarrow> map_of (gm_map s) k;
     ASSERT (gv_size vma = n);
     gpu_Allocate (s\<lparr>gm_map := put (gm_map s) k (vma\<lparr>gv_offset := offset\<rparr>)\<rparr>) k
   }"

definition gpu_MapBackingMemory ::
  "GpuMemoryManager \<Rightarrow> GPUVAddr \<Rightarrow> host_ptr \<Rightarrow> u64 \<Rightarrow> VAddr \<Rightarrow> (GpuMemoryManager \<times> u64) option" where
  "gpu_MapBackingMemory s target memory n backing_addr = do {
     (s, k) \<leftarrow> gpu_CarveVMA s target n;
     vma \<leftarrow> map_of (gm_map s) k;
     ASSERT (gv_size vma = n);
     let vma = vma\<lparr>gv_type := GV_Mapped, gv_backing_memory := memory, gv_backing_addr := backing_addr\<rparr>;
     let s = s\<lparr>gm_map := put (gm_map s) k vma\<rparr>;
     s \<leftarrow> gpu_UpdatePageTableForVMA s vma;
     gpu_MergeAdjacent s k
   }"

definition gpu_UnmapRange :: "GpuMemoryManager \<Rightarrow> GPUVAddr \<Rightarrow> u64 \<Rightarrow> GpuMemoryManager option" where
  "gpu_UnmapRange s target n = do {
     (s, k) \<leftarrow> gpu_CarveVMARange s target n;
     s \<leftarrow> range_loop gm_map gv_base gpu_Allocate (target + n) s (At k);
     it \<leftarrow> gpu_FindVMA s target;
     vma \<leftarrow> deref (gm_map s) it;
     ASSERT (gv_size vma \<ge> n);
     Some s
   }"

definition gpu_FindFreeRegion :: "GpuMemoryManager \<Rightarrow> GPUVAddr \<Rightarrow> u64 \<Rightarrow> GPUVAddr" where
  "gpu_FindFreeRegion s region_start n =
     (case List.find (\<lambda>p. gv_type (snd p) = GV_Unmapped \<and>
             (let vma_end = gv_base (snd p) + gv_size (snd p)
              in vma_end > region_start \<and> vma_end \<ge> region_start + n)) (gm_map s) of
        None \<Rightarrow> 0
      | Some p \<Rightarrow> max region_start (gv_base (snd p)))"

subsection \<open>Addresses\<close>

definition gpu_IsAddressValid :: "GpuMemoryManager \<Rightarrow> GPUVAddr \<Rightarrow> bool" where
  "gpu_IsAddressValid s addr \<longleftrightarrow> unat (drop_bit gpu_page_bits addr) < pt_entries (gm_page_table s)"

definition GpuToCpuAddress :: "GpuMemoryManager \<Rightarrow> GPUVAddr \<Rightarrow> VAddr option" where
  "GpuToCpuAddress s addr =
     (if \<not> gpu_IsAddressValid s addr then None
      else let cpu_addr = pt_backing_addr (gm_page_table s) (unat (drop_bit gpu_page_bits addr))
           in if cpu_addr \<noteq> 0 then Some (cpu_addr + (addr AND gpu_page_mask)) else None)"

definition gpu_GetPointer :: "GpuMemoryManager \<Rightarrow> GPUVAddr \<Rightarrow> host_ptr" where
  "gpu_GetPointer s addr =
     (if \<not> gpu_IsAddressValid s addr then 0
      else let p = pt_pointers (gm_page_table s) (unat (drop_bit gpu_page_bits addr))
           in if p \<noteq> 0 then p + (addr AND gpu_page_mask) else 0)"

definition gpu_IsBlockContinuous :: "GpuMemoryManager \<Rightarrow> GPUVAddr \<Rightarrow> u64 \<Rightarrow> bool" where
  "gpu_IsBlockContinuous s start n \<longleftrightarrow> gpu_GetPointer s (start + n) - gpu_GetPointer s start = n"

definition gpu_Read :: "GpuMemoryManager \<Rightarrow> host_mem \<Rightarrow> GPUVAddr \<Rightarrow> nat \<Rightarrow> u8 list option" where
  "gpu_Read s h addr n =
     (if \<not> gpu_IsAddressValid s addr then Some (replicate n 0)
      else let i = unat (drop_bit gpu_page_bits addr); p = pt_pointers (gm_page_table s) i
           in if p \<noteq> 0 then Some (host_read h (p + (addr AND gpu_page_mask)) n)
              else case pt_attributes (gm_page_table s) i of
                     PT_Unmapped \<Rightarrow> Some (replicate n 0)
                   | _ \<Rightarrow> None)"

definition gpu_Write :: "GpuMemoryManager \<Rightarrow> host_mem \<Rightarrow> GPUVAddr \<Rightarrow> u8 list \<Rightarrow> host_mem option" where
  "gpu_Write s h addr bs =
     (if \<not> gpu_IsAddressValid s addr then Some h
      else let i = unat (drop_bit gpu_page_bits addr); p = pt_pointers (gm_page_table s) i
           in if p \<noteq> 0 then Some (host_write (p + (addr AND gpu_page_mask)) bs h)
              else case pt_attributes (gm_page_table s) i of
                     PT_Unmapped \<Rightarrow> Some h
                   | _ \<Rightarrow> None)"

subsection \<open>Allocation and mapping\<close>

text \<open>
  The two overloads of \<open>AllocateSpace\<close> and of \<open>MapBufferEx\<close>; \<open>cpu\<close> is the current process, whose
  memory \<open>Memory::GetPointer\<close> looks up.
\<close>

definition AllocateSpace :: "GpuMemoryManager \<Rightarrow> u64 \<Rightarrow> u64 \<Rightarrow> (GpuMemoryManager \<times> GPUVAddr) option" where
  "AllocateSpace s n align = do {
     let aligned_size = AlignUp n gpu_page_size;
     let gpu_addr = gpu_FindFreeRegion s gpu_address_space_base aligned_size;
     (s, _) \<leftarrow> gpu_AllocateMemory s gpu_addr 0 aligned_size;
     Some (s, gpu_addr)
   }"

definition AllocateSpaceAt ::
  "GpuMemoryManager \<Rightarrow> GPUVAddr \<Rightarrow> u64 \<Rightarrow> u64 \<Rightarrow> (GpuMemoryManager \<times> GPUVAddr) option" where
  "AllocateSpaceAt s gpu_addr n align = do {
     let aligned_size = AlignUp n gpu_page_size;
     (s, _) \<leftarrow> gpu_AllocateMemory s gpu_addr 0 aligned_size;
     Some (s, gpu_addr)
   }"

definition MapBufferEx ::
  "VMManager \<Rightarrow> GpuMemoryManager \<Rightarrow> VAddr \<Rightarrow> u64 \<Rightarrow> (GpuMemoryManager \<times> GPUVAddr) option" where
  "MapBufferEx cpu s cpu_addr n = do {
     let aligned_size = AlignUp n gpu_page_size;
     let gpu_addr = gpu_FindFreeRegion s gpu_address_space_base aligned_size;
     p \<leftarrow> GetPointer cpu cpu_addr;
     (s, _) \<leftarrow> gpu_MapBackingMemory s gpu_addr p aligned_size cpu_addr;
     Some (s, gpu_addr)
   }"

definition MapBufferExAt ::
  "VMManager \<Rightarrow> GpuMemoryManager \<Rightarrow> VAddr \<Rightarrow> GPUVAddr \<Rightarrow> u64 \<Rightarrow> (GpuMemoryManager \<times> GPUVAddr) option" where
  "MapBufferExAt cpu s cpu_addr gpu_addr n = do {
     ASSERT (gpu_addr AND gpu_page_mask = 0);
     let aligned_size = AlignUp n gpu_page_size;
     p \<leftarrow> GetPointer cpu cpu_addr;
     (s, _) \<leftarrow> gpu_MapBackingMemory s gpu_addr p aligned_size cpu_addr;
     Some (s, gpu_addr)
   }"

text \<open>\<open>UnmapBuffer\<close> has the rasterizer flush and invalidate the region first.\<close>

definition UnmapBuffer ::
  "(host_ptr \<Rightarrow> u64 \<Rightarrow> host_mem \<Rightarrow> host_mem) \<Rightarrow> GpuMemoryManager \<Rightarrow> host_mem \<Rightarrow> GPUVAddr \<Rightarrow> u64 \<Rightarrow>
   (GpuMemoryManager \<times> host_mem \<times> GPUVAddr) option" where
  "UnmapBuffer flush_and_invalidate s h gpu_addr n = do {
     ASSERT (gpu_addr AND gpu_page_mask = 0);
     let aligned_size = AlignUp n gpu_page_size;
     let h = flush_and_invalidate (gpu_GetPointer s gpu_addr) aligned_size h;
     s \<leftarrow> gpu_UnmapRange s gpu_addr aligned_size;
     Some (s, h, gpu_addr)
   }"

subsection \<open>Blocks\<close>

definition gpu_ReadBlock_page ::
  "gpu_cache \<Rightarrow> GpuMemoryManager \<Rightarrow> host_ptr \<Rightarrow> u64 \<Rightarrow> u64 \<Rightarrow> u64 \<Rightarrow> u64 \<Rightarrow> host_mem \<Rightarrow> host_mem option" where
  "gpu_ReadBlock_page rast s dest page_index page_offset d copy_amount h = do {
     ty \<leftarrow> page_attribute (gm_page_table s) page_index;
     case ty of
       PT_Memory \<Rightarrow> do {
         p \<leftarrow> page_pointer (gm_page_table s) page_index \<bind> nonnull;
         let h = flush_region rast (p + page_offset) copy_amount h;
         Some (host_write (dest + d) (host_read h (p + page_offset) (unat copy_amount)) h)
       }
     | _ \<Rightarrow> None
   }"

definition gpu_ReadBlock ::
  "gpu_cache \<Rightarrow> GpuMemoryManager \<Rightarrow> GPUVAddr \<Rightarrow> host_ptr \<Rightarrow> u64 \<Rightarrow> host_mem \<Rightarrow> host_mem option" where
  "gpu_ReadBlock rast s src_addr dest_buffer n h =
     block_loop gpu_page_size (gpu_ReadBlock_page rast s dest_buffer) (drop_bit gpu_page_bits src_addr)
       (src_addr AND gpu_page_mask) 0 n h"

definition gpu_ReadBlockUnsafe_page ::
  "GpuMemoryManager \<Rightarrow> host_ptr \<Rightarrow> u64 \<Rightarrow> u64 \<Rightarrow> u64 \<Rightarrow> u64 \<Rightarrow> host_mem \<Rightarrow> host_mem option" where
  "gpu_ReadBlockUnsafe_page s dest page_index page_offset d copy_amount h = do {
     p \<leftarrow> page_pointer (gm_page_table s) page_index;
     Some (if p \<noteq> 0
           then host_write (dest + d) (host_read h (p + page_offset) (unat copy_amount)) h
           else host_write (dest + d) (replicate (unat copy_amount) 0) h)
   }"

definition gpu_ReadBlockUnsafe ::
  "GpuMemoryManager \<Rightarrow> GPUVAddr \<Rightarrow> host_ptr \<Rightarrow> u64 \<Rightarrow> host_mem \<Rightarrow> host_mem option" where
  "gpu_ReadBlockUnsafe s src_addr dest_buffer n h =
     block_loop gpu_page_size (gpu_ReadBlockUnsafe_page s dest_buffer) (drop_bit gpu_page_bits src_addr)
       (src_addr AND gpu_page_mask) 0 n h"

definition gpu_WriteBlock_page ::
  "gpu_cache \<Rightarrow> GpuMemoryManager \<Rightarrow> host_ptr \<Rightarrow> u64 \<Rightarrow> u64 \<Rightarrow> u64 \<Rightarrow> u64 \<Rightarrow> host_mem \<Rightarrow> host_mem option" where
  "gpu_WriteBlock_page rast s src page_index page_offset d copy_amount h = do {
     ty \<leftarrow> page_attribute (gm_page_table s) page_index;
     case ty of
       PT_Memory \<Rightarrow> do {
         p \<leftarrow> page_pointer (gm_page_table s) page_index \<bind> nonnull;
         let h = invalidate_region rast (p + page_offset) copy_amount h;
         Some (host_write (p + page_offset) (host_read h (src + d) (unat copy_amount)) h)
       }
     | _ \<Rightarrow> None
   }"

definition gpu_WriteBlock ::
  "gpu_cache \<Rightarrow> GpuMemoryManager \<Rightarrow> GPUVAddr \<Rightarrow> host_ptr \<Rightarrow> u64 \<Rightarrow> host_mem \<Rightarrow> host_mem option" where
  "gpu_WriteBlock rast s dest_addr src_buffer n h =
     block_loop gpu_page_size (gpu_WriteBlock_page rast s src_buffer) (drop_bit gpu_page_bits dest_addr)
       (dest_addr AND gpu_page_mask) 0 n h"

definition gpu_WriteBlockUnsafe_page ::
  "GpuMemoryManager \<Rightarrow> host_ptr \<Rightarrow> u64 \<Rightarrow> u64 \<Rightarrow> u64 \<Rightarrow> u64 \<Rightarrow> host_mem \<Rightarrow> host_mem option" where
  "gpu_WriteBlockUnsafe_page s src page_index page_offset d copy_amount h = do {
     p \<leftarrow> page_pointer (gm_page_table s) page_index;
     Some (if p \<noteq> 0
           then host_write (p + page_offset) (host_read h (src + d) (unat copy_amount)) h
           else h)
   }"

definition gpu_WriteBlockUnsafe ::
  "GpuMemoryManager \<Rightarrow> GPUVAddr \<Rightarrow> host_ptr \<Rightarrow> u64 \<Rightarrow> host_mem \<Rightarrow> host_mem option" where
  "gpu_WriteBlockUnsafe s dest_addr src_buffer n h =
     block_loop gpu_page_size (gpu_WriteBlockUnsafe_page s src_buffer) (drop_bit gpu_page_bits dest_addr)
       (dest_addr AND gpu_page_mask) 0 n h"

definition gpu_CopyBlock_page ::
  "gpu_cache \<Rightarrow> GpuMemoryManager \<Rightarrow> GPUVAddr \<Rightarrow> u64 \<Rightarrow> u64 \<Rightarrow> u64 \<Rightarrow> u64 \<Rightarrow> host_mem \<Rightarrow> host_mem option" where
  "gpu_CopyBlock_page rast s dest_addr page_index page_offset d copy_amount h = do {
     ty \<leftarrow> page_attribute (gm_page_table s) page_index;
     case ty of
       PT_Memory \<Rightarrow> do {
         p \<leftarrow> page_pointer (gm_page_table s) page_index \<bind> nonnull;
         gpu_WriteBlock rast s (dest_addr + d) (p + page_offset) copy_amount
           (flush_region rast (p + page_offset) copy_amount h)
       }
     | _ \<Rightarrow> None
   }"

definition gpu_CopyBlock ::
  "gpu_cache \<Rightarrow> GpuMemoryManager \<Rightarrow> GPUVAddr \<Rightarrow> GPUVAddr \<Rightarrow> u64 \<Rightarrow> host_mem \<Rightarrow> host_mem option" where
  "gpu_CopyBlock rast s dest_addr src_addr n h =
     block_loop gpu_page_size (gpu_CopyBlock_page rast s dest_addr) (drop_bit gpu_page_bits src_addr)
       (src_addr AND gpu_page_mask) 0 n h"

text \<open>\<open>tmp\<close> is where the host puts the temporary vector.\<close>

definition gpu_CopyBlockUnsafe ::
  "GpuMemoryManager \<Rightarrow> host_ptr \<Rightarrow> GPUVAddr \<Rightarrow> GPUVAddr \<Rightarrow> u64 \<Rightarrow> host_mem \<Rightarrow> host_mem option" where
  "gpu_CopyBlockUnsafe s tmp dest_addr src_addr n h = do {
     h \<leftarrow> gpu_ReadBlockUnsafe s src_addr tmp n (host_write tmp (replicate (unat n) 0) h);
     gpu_WriteBlockUnsafe s dest_addr tmp n h
   }"

end
