(* ===== verification/Vm_Invariant.thy ===== *)
theory Vm_Invariant
  imports Vm_Manager
begin

text \<open>
  What a \<open>VMManager\<close> means and when it is well formed. Its meaning is its \<open>view\<close>: what each
  address of the address space is. It is well formed (\<open>vm_ok\<close>) when the areas tile the address
  space, each of them is aligned to pages and backed properly, no two free areas are
  neighbours, and the page table says the same as the areas. The lemmas show that splitting,
  merging and replacing an area, the steps that every operation is made of, keep this.
\<close>

subsection \<open>Meaning\<close>

definition view :: "VMManager \<Rightarrow> nat \<Rightarrow> vm_cell option" where
  "view s = content vma_size vma_cell (vma_map s)"

definition free_at :: "VMManager \<Rightarrow> nat \<Rightarrow> bool" where
  "free_at s a \<longleftrightarrow> (case view s a of None \<Rightarrow> False | Some c \<Rightarrow> c_type c = VMA_Free)"

text \<open>The host address that an area starts at.\<close>

definition host_base :: "(nat \<Rightarrow> MemoryBlock) \<Rightarrow> VirtualMemoryArea \<Rightarrow> host_ptr" where
  "host_base bl v =
     (case vma_type v of
        VMA_AllocatedMemoryBlock \<Rightarrow> blk_data (bl (the (vma_backing_block v))) + vma_offset v
      | VMA_BackingMemory \<Rightarrow> vma_backing_memory v
      | _ \<Rightarrow> 0)"

definition area_ok :: "(nat \<Rightarrow> MemoryBlock) \<Rightarrow> VirtualMemoryArea \<Rightarrow> bool" where
  "area_ok bl v \<longleftrightarrow>
     4096 dvd unat (vma_base v) \<and> 4096 dvd unat (vma_size v) \<and>
     (vma_type v = VMA_Free \<longrightarrow> freed v \<and> vma_backing_block v = None) \<and>
     (vma_type v = VMA_AllocatedMemoryBlock \<longrightarrow> vma_backing_block v \<noteq> None) \<and>
     (vma_type v \<in> {VMA_AllocatedMemoryBlock, VMA_BackingMemory} \<longrightarrow>
        0 < unat (host_base bl v) \<and>
        unat (host_base bl v) + unat (vma_size v) < 18446744073709551616)"

text \<open>
  A page of the page table against what its address is. A page of memory may be marked as
  cached by the rasterizer, and has no pointer then.
\<close>

definition memory_page :: "host_ptr \<Rightarrow> PageType \<Rightarrow> host_ptr \<Rightarrow> bool" where
  "memory_page h ty p \<longleftrightarrow>
     ty = PT_Memory \<and> p = h \<or> ty = PT_RasterizerCachedMemory \<and> p = 0"

definition page_agrees ::
  "(nat \<Rightarrow> MemoryBlock) \<Rightarrow> vm_cell \<Rightarrow> PageType \<Rightarrow> host_ptr \<Rightarrow> bool" where
  "page_agrees bl c ty p =
     (case c_backing c of
        NoBacking \<Rightarrow> ty = PT_Unmapped \<and> p = 0
      | BlockAt b off \<Rightarrow> memory_page (blk_data (bl (the b)) + off) ty p
      | HostAt h \<Rightarrow> memory_page h ty p
      | PhysAt _ \<Rightarrow> ty = PT_Special \<and> p = 0)"

definition pages_agree :: "VMManager \<Rightarrow> bool" where
  "pages_agree s \<longleftrightarrow>
     (\<forall>i c. view s (4096 * i) = Some c \<longrightarrow>
        page_agrees (vm_blocks s) c (pt_attributes (vm_page_table s) i)
          (pt_pointers (vm_page_table s) i))"

definition vm_inv :: "VMManager \<Rightarrow> bool" where
  "vm_inv s \<longleftrightarrow>
     tiles vma_base vma_size 0 (vma_map s) (unat (address_space_end s)) \<and>
     unat (address_space_end s) \<le> 4096 * pt_entries (vm_page_table s) \<and>
     (\<forall>p\<in>set (vma_map s). area_ok (vm_blocks s) (snd p)) \<and> pages_agree s"

definition vm_ok :: "VMManager \<Rightarrow> bool" where
  "vm_ok s \<longleftrightarrow> vm_inv s \<and> apart freed (vma_map s)"

text \<open>Everything but the areas, the page table and the log of system calls is the same.\<close>

definition same_layout :: "VMManager \<Rightarrow> VMManager \<Rightarrow> bool" where
  "same_layout s s' \<longleftrightarrow>
     address_space_width s' = address_space_width s \<and>
     address_space_base s' = address_space_base s \<and> address_space_end s' = address_space_end s \<and>
     aslr_region_base s' = aslr_region_base s \<and> aslr_region_end s' = aslr_region_end s \<and>
     code_region_base s' = code_region_base s \<and> code_region_end s' = code_region_end s \<and>
     heap_region_base s' = heap_region_base s \<and> heap_region_end s' = heap_region_end s \<and>
     map_region_base s' = map_region_base s \<and> map_region_end s' = map_region_end s \<and>
     new_map_region_base s' = new_map_region_base s \<and> new_map_region_end s' = new_map_region_end s \<and>
     tls_io_region_base s' = tls_io_region_base s \<and> tls_io_region_end s' = tls_io_region_end s \<and>
     heap_memory s' = heap_memory s \<and> heap_end s' = heap_end s \<and> vm_blocks s' = vm_blocks s \<and>
     pt_entries (vm_page_table s') = pt_entries (vm_page_table s)"

lemma same_layout_refl [simp]: "same_layout s s"
  by (simp add: same_layout_def)

lemma same_layout_trans [trans]: "same_layout s t \<Longrightarrow> same_layout t u \<Longrightarrow> same_layout s u"
  by (simp add: same_layout_def)

lemma same_layout_map [simp]: "same_layout s (s\<lparr>vma_map := m\<rparr>)"
  by (simp add: same_layout_def)

lemma same_layout_system [simp]: "same_layout s (s\<lparr>vm_system := sys\<rparr>)"
  by (simp add: same_layout_def)

lemma vm_inv_cong:
  assumes "vm_inv s" and "same_layout s s'" and "vma_map s' = vma_map s"
    and "vm_page_table s' = vm_page_table s"
  shows "vm_inv s'"
  using assms by (simp add: vm_inv_def same_layout_def pages_agree_def view_def)

lemma vm_ok_system [simp]: "vm_ok (s\<lparr>vm_system := sys\<rparr>) = vm_ok s"
  by (simp add: vm_ok_def vm_inv_def pages_agree_def view_def)

lemma view_system [simp]: "view (s\<lparr>vm_system := sys\<rparr>) = view s"
  by (simp add: view_def)

subsection \<open>Areas\<close>

lemma area_ok_split:
  assumes "area_ok bl v" and "4096 dvd unat n" and "n < vma_size v"
    and fits: "unat (vma_base v) + unat (vma_size v) \<le> 18446744073709551615"
  shows "area_ok bl (set_vma_size n v)" and "area_ok bl (split_rest n v)"
proof -
  have n: "unat n < unat (vma_size v)" using assms(3) by (simp add: word_less_nat_alt)
  show "area_ok bl (set_vma_size n v)"
    using assms(1,2) n by (auto simp: area_ok_def set_vma_size_def host_base_def freed_def)
  have base: "unat (vma_base v + n) = unat (vma_base v) + unat n"
    using fits n by (intro unat_add_u64) simp
  have size: "unat (vma_size v - n) = unat (vma_size v) - unat n"
    using n by (intro unat_sub_u64) simp
  have host: "unat (host_base bl (split_rest n v)) = unat (host_base bl v) + unat n"
    if "vma_type v \<in> {VMA_AllocatedMemoryBlock, VMA_BackingMemory}"
  proof -
    have "host_base bl (split_rest n v) = host_base bl v + n"
      using that by (auto simp: host_base_def split_rest_def Let_def)
    then show ?thesis
      using assms(1) n that unat_add_u64 [of "host_base bl v" n] by (auto simp: area_ok_def)
  qed
  have ty: "vma_type (split_rest n v) = vma_type v" "vma_base (split_rest n v) = vma_base v + n"
    "vma_size (split_rest n v) = vma_size v - n"
    "vma_backing_block (split_rest n v) = vma_backing_block v"
    "freed (split_rest n v) = freed v"
    by (simp_all add: split_rest_def Let_def freed_def split: VMAType.split)
  show "area_ok bl (split_rest n v)"
    unfolding area_ok_def ty base size
    using assms(1,2) n host by (auto simp: area_ok_def dvd_diff_nat)
qed

lemma area_ok_merge:
  assumes "area_ok bl v" and "area_ok bl w" and cm: "CanBeMergedWith v w = Some True"
    and fits: "unat (vma_size v) + unat (vma_size w) < 18446744073709551616"
  shows "area_ok bl (set_vma_size (vma_size v + vma_size w) v)"
proof -
  have size: "unat (vma_size v + vma_size w) = unat (vma_size v) + unat (vma_size w)"
    using fits by (rule unat_add_u64)
  have al: "4096 dvd unat (vma_size v) + unat (vma_size w)"
    using assms(1,2) by (simp add: area_ok_def)
  have "unat (host_base bl v) + (unat (vma_size v) + unat (vma_size w)) < 18446744073709551616"
    if ty: "vma_type v \<in> {VMA_AllocatedMemoryBlock, VMA_BackingMemory}"
  proof -
    have "host_base bl w = host_base bl v + vma_size v" and "vma_type w = vma_type v"
      using cm ty by (auto simp: CanBeMergedWith_def host_base_def split: if_splits)
    moreover have "unat (host_base bl v) + unat (vma_size v) < 18446744073709551616"
      using assms(1) ty unfolding area_ok_def by blast
    moreover have "unat (host_base bl w) + unat (vma_size w) < 18446744073709551616"
      using assms(2) ty unfolding area_ok_def \<open>vma_type w = vma_type v\<close> by blast
    ultimately show ?thesis by (simp add: unat_add_u64)
  qed
  moreover have "vma_base (set_vma_size n v) = vma_base v" "vma_size (set_vma_size n v) = n"
    "vma_type (set_vma_size n v) = vma_type v" "freed (set_vma_size n v) = freed v"
    "vma_backing_block (set_vma_size n v) = vma_backing_block v"
    "host_base bl (set_vma_size n v) = host_base bl v" for n
    by (simp_all add: set_vma_size_def freed_def host_base_def split: VMAType.split)
  ultimately show ?thesis
    using assms(1) al unfolding area_ok_def by (simp only: size) blast
qed

subsection \<open>The page table\<close>

definition page_type :: "VirtualMemoryArea \<Rightarrow> PageType" where
  "page_type v =
     (case vma_type v of
        VMA_Free \<Rightarrow> PT_Unmapped | VMA_MMIO \<Rightarrow> PT_Special | _ \<Rightarrow> PT_Memory)"

lemma UpdatePageTable_at:
  assumes ok: "area_ok (vm_blocks s) v"
    and r: "unat (vma_base v) + unat (vma_size v) \<le> 4096 * pt_entries (vm_page_table s)"
      "unat (vma_base v) + unat (vma_size v) < 18446744073709551616"
  shows "\<exists>sys ws. UpdatePageTableForVMA s v = Some (s\<lparr>vm_system := sys, vm_page_table :=
     with_pages (vm_page_table s) (vma_base v) (vma_size v) (host_base (vm_blocks s) v)
       (page_type v) ws\<rparr>)"
proof -
  have pr: "page_range (vm_page_table s) (vma_base v) (vma_size v)"
    using ok r by (simp add: page_range_def area_ok_def)
  note rm = region_maps [OF pr, of "vm_system s"]
  let ?upd = "\<lambda>sys ws. s\<lparr>vm_system := sys, vm_page_table :=
     with_pages (vm_page_table s) (vma_base v) (vma_size v) (host_base (vm_blocks s) v)
       (page_type v) ws\<rparr>"
  have "\<exists>sys ws. UpdatePageTableForVMA s v = Some (?upd sys ws)"
  proof (cases "vma_type v")
    case VMA_Free
    obtain sys' where "UnmapRegion (vm_system s) (vm_page_table s) (vma_base v) (vma_size v) =
        Some (sys', with_pages (vm_page_table s) (vma_base v) (vma_size v) 0 PT_Unmapped
          [SR_erase (vma_base v) (vma_base v + vma_size v - 1)])" using rm(3) by blast
    with VMA_Free have "UpdatePageTableForVMA s v =
        Some (?upd sys' [SR_erase (vma_base v) (vma_base v + vma_size v - 1)])"
      by (simp add: UpdatePageTableForVMA_def host_base_def page_type_def)
    then show ?thesis by blast
  next
    case VMA_MMIO
    obtain sys' where "MapIoRegion (vm_system s) (vm_page_table s) (vma_base v) (vma_size v)
        (vma_mmio_handler v) = Some (sys', with_pages (vm_page_table s) (vma_base v) (vma_size v) 0
          PT_Special [SR_add (vma_base v) (vma_base v + vma_size v - 1) IODevice (vma_mmio_handler v)])"
      using rm(2) by blast
    with VMA_MMIO have "UpdatePageTableForVMA s v = Some (?upd sys'
        [SR_add (vma_base v) (vma_base v + vma_size v - 1) IODevice (vma_mmio_handler v)])"
      by (simp add: UpdatePageTableForVMA_def host_base_def page_type_def)
    then show ?thesis by blast
  next
    case VMA_AllocatedMemoryBlock
    obtain sys' where "MapMemoryRegion (vm_system s) (vm_page_table s) (vma_base v) (vma_size v)
        (host_base (vm_blocks s) v) = Some (sys', with_pages (vm_page_table s) (vma_base v) (vma_size v)
          (host_base (vm_blocks s) v) PT_Memory [])" using rm(1) by blast
    with VMA_AllocatedMemoryBlock ok have "UpdatePageTableForVMA s v = Some (?upd sys' [])"
      by (auto simp: UpdatePageTableForVMA_def host_base_def page_type_def area_ok_def)
    then show ?thesis by blast
  next
    case VMA_BackingMemory
    obtain sys' where "MapMemoryRegion (vm_system s) (vm_page_table s) (vma_base v) (vma_size v)
        (host_base (vm_blocks s) v) = Some (sys', with_pages (vm_page_table s) (vma_base v) (vma_size v)
          (host_base (vm_blocks s) v) PT_Memory [])" using rm(1) by blast
    with VMA_BackingMemory have "UpdatePageTableForVMA s v = Some (?upd sys' [])"
      by (simp add: UpdatePageTableForVMA_def host_base_def page_type_def)
    then show ?thesis by blast
  qed
  then show ?thesis .
qed

text \<open>The pages that the update writes agree with the area.\<close>

lemma updated_page_agrees:
  assumes ok: "area_ok bl v" and i: "unat (vma_base v) \<le> 4096 * i"
    and fits: "4096 * i < unat (vma_base v) + unat (vma_size v)"
  shows "page_agrees bl (vma_cell v (4096 * i - unat (vma_base v)))
     (mapped_types ts (unat (vma_base v) div 4096) ((unat (vma_base v) + unat (vma_size v)) div 4096)
        (page_type v) i)
     (mapped_pointers ps (unat (vma_base v) div 4096)
        ((unat (vma_base v) + unat (vma_size v)) div 4096) (host_base bl v) i)"
proof -
  obtain b where b: "unat (vma_base v) = 4096 * b" using ok by (auto simp: area_ok_def)
  obtain z where z: "unat (vma_size v) = 4096 * z" using ok by (auto simp: area_ok_def)
  have bi: "b \<le> i" "i < b + z" using i fits b z by auto
  have "(of_nat (4096 * i - 4096 * b) :: u64) = of_nat (4096 * (i - b))"
    by (simp add: diff_mult_distrib2)
  then have off: "(of_nat (4096 * i - 4096 * b) :: u64) = of_nat (i - b) * 4096"
    by (simp add: mult.commute)
  have dv: "(4096 * b + 4096 * z) div 4096 = b + z" by simp
  have ne: "host_base bl v \<noteq> 0" if "vma_type v \<in> {VMA_AllocatedMemoryBlock, VMA_BackingMemory}"
    using ok that by (auto simp: area_ok_def)
  have "mapped_types ts b (b + z) (page_type v) i = page_type v"
    and "mapped_pointers ps b (b + z) (host_base bl v) i =
      (if host_base bl v = 0 then 0 else host_base bl v + of_nat (i - b) * 4096)"
    using bi by (simp_all add: mapped_types_def mapped_pointers_def PAGE_SIZE_def)
  moreover have "page_agrees bl (vma_cell v (4096 * i - 4096 * b)) (page_type v)
      (if host_base bl v = 0 then 0 else host_base bl v + of_nat (i - b) * 4096)"
    unfolding page_agrees_def vma_cell_def off
    using ne
    by (cases "vma_type v") (simp_all add: page_type_def host_base_def memory_page_def add.assoc)
  ultimately show ?thesis by (simp only: b z dv) simp
qed

lemma other_page_kept:
  assumes "area_ok bl v" and "4096 * i < unat (vma_base v) \<or> unat (vma_base v) + unat (vma_size v) \<le> 4096 * i"
  shows "pt_attributes (with_pages pt (vma_base v) (vma_size v) m ty ws) i = pt_attributes pt i"
    and "pt_pointers (with_pages pt (vma_base v) (vma_size v) m ty ws) i = pt_pointers pt i"
proof -
  obtain b where b: "unat (vma_base v) = 4096 * b" using assms(1) by (auto simp: area_ok_def)
  obtain z where z: "unat (vma_size v) = 4096 * z" using assms(1) by (auto simp: area_ok_def)
  have "(4096 * b + 4096 * z) div 4096 = b + z" by simp
  then have "\<not> (unat (vma_base v) div 4096 \<le> i \<and> i < (unat (vma_base v) + unat (vma_size v)) div 4096)"
    using assms(2) unfolding b z by simp linarith
  then show "pt_attributes (with_pages pt (vma_base v) (vma_size v) m ty ws) i = pt_attributes pt i"
    and "pt_pointers (with_pages pt (vma_base v) (vma_size v) m ty ws) i = pt_pointers pt i"
    by (auto simp: with_pages_def Let_def mapped_types_def mapped_pointers_def)
qed

subsection \<open>Steps\<close>

lemma vm_inv_areas:
  assumes "vm_inv s" and "vma_map s = pre @ (k, v) # post"
  shows "vma_base v = k" and "0 < unat (vma_size v)"
    and "unat k + unat (vma_size v) \<le> unat (address_space_end s)"
    and "area_ok (vm_blocks s) v"
  using assms tiles_keys [of vma_base vma_size 0 "vma_map s" "unat (address_space_end s)" "(k, v)"]
  by (auto simp: vm_inv_def)

lemma view_at:
  assumes "vm_inv s" and m: "vma_map s = pre @ (k, v) # post"
    and a: "unat k \<le> a" "a < unat k + unat (vma_size v)"
  shows "view s a = Some (vma_cell v (a - unat k))"
proof -
  have "tiles vma_base vma_size 0 pre (unat k)"
    using assms(1) m by (auto simp: vm_inv_def tiles_append)
  then have "content vma_size vma_cell pre a = None" using a by (intro content_outside) auto
  then show ?thesis using a by (simp add: view_def m content_append)
qed

lemma free_at_here:
  assumes "vm_inv s" and m: "vma_map s = pre @ (k, v) # post"
    and a: "unat k \<le> a" "a < unat k + unat (vma_size v)"
  shows "free_at s a \<longleftrightarrow> vma_type v = VMA_Free"
  using view_at [OF assms] by (simp add: free_at_def vma_cell_def)

lemma vm_inv_remap:
  assumes "vm_inv s" and "tiles vma_base vma_size 0 m (unat (address_space_end s))"
    and "\<forall>p\<in>set m. area_ok (vm_blocks s) (snd p)"
    and "content vma_size vma_cell m = content vma_size vma_cell (vma_map s)"
  shows "vm_inv (s\<lparr>vma_map := m\<rparr>)" and "view (s\<lparr>vma_map := m\<rparr>) = view s"
  using assms by (simp_all add: vm_inv_def pages_agree_def view_def)

lemma SplitVMA_at:
  assumes inv: "vm_inv s" and m: "vma_map s = pre @ (k, v) # post"
    and n: "0 < n" "n < vma_size v" "4096 dvd unat n"
  defines "m' \<equiv> pre @ (k, set_vma_size n v) # (k + n, split_rest n v) # post"
  shows "SplitVMA s k n = Some (s\<lparr>vma_map := m'\<rparr>, k + n)"
    and "vm_inv (s\<lparr>vma_map := m'\<rparr>)" and "view (s\<lparr>vma_map := m'\<rparr>) = view s"
proof -
  have t: "tiles vma_base vma_size 0 (pre @ (k, v) # post) (unat (address_space_end s))"
    using inv m by (simp add: vm_inv_def)
  note sp = kvma.split_area_at [OF t unat_bound_u64 n(1,2)]
  show "SplitVMA s k n = Some (s\<lparr>vma_map := m'\<rparr>, k + n)"
    using sp(1) by (simp add: SplitVMA_def m m'_def)
  have v: "vma_base v = k" "unat k + unat (vma_size v) \<le> unat (address_space_end s)"
    "area_ok (vm_blocks s) v" using vm_inv_areas [OF inv m] by auto
  have "unat (vma_base v) + unat (vma_size v) \<le> 18446744073709551615"
    using v unat_bound_u64 [of "address_space_end s"] by simp
  note ok = area_ok_split [OF v(3) n(3,2) this]
  have "\<forall>p\<in>set m'. area_ok (vm_blocks s) (snd p)"
    using inv ok by (auto simp: vm_inv_def m m'_def)
  then show "vm_inv (s\<lparr>vma_map := m'\<rparr>)" and "view (s\<lparr>vma_map := m'\<rparr>) = view s"
    using vm_inv_remap [OF inv, of m'] sp(2,3) by (simp_all add: m m'_def)
qed

lemma MergeAdjacent_at:
  assumes inv: "vm_inv s" and m: "vma_map s = pre @ (k, v) # post"
    and spec: "merge_spec vma_size set_vma_size CanBeMergedWith pre k v post = (pre', k', v', post')"
  defines "m' \<equiv> pre' @ (k', v') # post'"
  shows "MergeAdjacent s k = Some (s\<lparr>vma_map := m'\<rparr>, k')"
    and "vm_inv (s\<lparr>vma_map := m'\<rparr>)" and "view (s\<lparr>vma_map := m'\<rparr>) = view s"
proof -
  have t: "tiles vma_base vma_size 0 (pre @ (k, v) # post) (unat (address_space_end s))"
    using inv m by (simp add: vm_inv_def)
  note mg = kvma.merge_adjacent_at [OF t unat_bound_u64 spec]
  show "MergeAdjacent s k = Some (s\<lparr>vma_map := m'\<rparr>, k')"
    using mg(1) by (simp add: MergeAdjacent_def m m'_def)
  have "\<forall>p\<in>set m'. area_ok (vm_blocks s) (snd p)"
    unfolding m'_def
  proof (rule kvma.merge_spec_keeps [where Q = "area_ok (vm_blocks s)", OF t unat_bound_u64 _ area_ok_merge spec])
    show "\<forall>p\<in>set (pre @ (k, v) # post). area_ok (vm_blocks s) (snd p)"
      using inv unfolding vm_inv_def m by blast
  qed
  then show "vm_inv (s\<lparr>vma_map := m'\<rparr>)" and "view (s\<lparr>vma_map := m'\<rparr>) = view s"
    using vm_inv_remap [OF inv, of m'] mg(2,3) by (simp_all add: m m'_def)
qed

text \<open>Replacing an area by one of the same place and updating the page table for it.\<close>

definition repaint :: "nat \<Rightarrow> nat \<Rightarrow> (nat \<Rightarrow> 'c) \<Rightarrow> (nat \<Rightarrow> 'c option) \<Rightarrow> nat \<Rightarrow> 'c option" where
  "repaint lo hi h c a = (if lo \<le> a \<and> a < hi then Some (h (a - lo)) else c a)"

lemma content_area_replaced:
  assumes "tiles vb vz lo (pre @ (k, v) # post) hi" and "vz v' = vz v"
  shows "content vz cell (pre @ (k, v') # post) =
         repaint (unat k) (unat k + unat (vz v)) (cell v') (content vz cell (pre @ (k, v) # post))"
proof -
  have "tiles vb vz lo pre (unat k)" using assms(1) by (auto simp: tiles_append)
  from content_outside [OF this, of _ cell] show ?thesis
    using assms(2) by (auto simp: fun_eq_iff repaint_def content_append split: option.split)
qed

lemma replace_area:
  assumes inv: "vm_inv s" and m: "vma_map s = pre @ (k, v) # post"
    and w: "vma_base w = k" "vma_size w = vma_size v" "area_ok (vm_blocks s) w"
  shows "\<exists>s'. UpdatePageTableForVMA (s\<lparr>vma_map := put (vma_map s) k w\<rparr>) w = Some s' \<and>
     vma_map s' = pre @ (k, w) # post \<and> vm_inv s' \<and> same_layout s s' \<and>
     view s' = repaint (unat k) (unat k + unat (vma_size v)) (vma_cell w) (view s)"
proof -
  let ?s = "s\<lparr>vma_map := pre @ (k, w) # post\<rparr>"
  have t: "tiles vma_base vma_size 0 (pre @ (k, v) # post) (unat (address_space_end s))"
    using inv m by (simp add: vm_inv_def)
  have put: "put (vma_map s) k w = pre @ (k, w) # post"
    using put_at [OF tiles_map_ok [OF t]] by (simp add: m)
  note v = vm_inv_areas [OF inv m]
  have ent: "unat (address_space_end s) \<le> 4096 * pt_entries (vm_page_table s)"
    using inv by (simp add: vm_inv_def)
  obtain sys ws where upd: "UpdatePageTableForVMA ?s w = Some (?s\<lparr>vm_system := sys, vm_page_table :=
      with_pages (vm_page_table s) (vma_base w) (vma_size w) (host_base (vm_blocks s) w)
        (page_type w) ws\<rparr>)"
    using UpdatePageTable_at [of ?s w] w v(3) ent unat_bound_u64 [of "address_space_end s"] by auto
  define s' where "s' = ?s\<lparr>vm_system := sys, vm_page_table :=
      with_pages (vm_page_table s) (vma_base w) (vma_size w) (host_base (vm_blocks s) w)
        (page_type w) ws\<rparr>"
  have m': "vma_map s' = pre @ (k, w) # post"
    and bl': "vm_blocks s' = vm_blocks s"
    and pt': "vm_page_table s' = with_pages (vm_page_table s) (vma_base w) (vma_size w)
      (host_base (vm_blocks s) w) (page_type w) ws"
    by (simp_all add: s'_def)
  have lay: "same_layout s s'" by (simp add: s'_def same_layout_def with_pages_def Let_def)
  have vw: "view s' = repaint (unat k) (unat k + unat (vma_size v)) (vma_cell w) (view s)"
    using content_area_replaced [OF t w(2)] by (simp add: view_def m' m)
  have "pages_agree s'"
    unfolding pages_agree_def
  proof (intro allI impI)
    fix i c
    assume c: "view s' (4096 * i) = Some c"
    show "page_agrees (vm_blocks s') c (pt_attributes (vm_page_table s') i) (pt_pointers (vm_page_table s') i)"
    proof (cases "unat k \<le> 4096 * i \<and> 4096 * i < unat k + unat (vma_size v)")
      case True
      then show ?thesis
        using c updated_page_agrees [OF w(3), of i] w(1,2)
        by (auto simp: vw repaint_def bl' pt' with_pages_def Let_def)
    next
      case False
      then show ?thesis
        using c other_page_kept [OF w(3), of i] w(1,2) inv
        by (auto simp: vw repaint_def bl' pt' vm_inv_def pages_agree_def)
    qed
  qed
  moreover have "tiles vma_base vma_size 0 (pre @ (k, w) # post) (unat (address_space_end s))"
    using t w by (auto simp: tiles_append)
  ultimately have "vm_inv s'"
    using inv w(3) lay by (auto simp: vm_inv_def m' m same_layout_def)
  then show ?thesis using upd m' lay vw put by (auto simp: s'_def [symmetric])
qed

end
