(* ===== verification/Vm_Carve.thy ===== *)
theory Vm_Carve
  imports Vm_Invariant
begin

text \<open>
  The two operations that cut a range out of the areas: \<open>CarveVMA\<close> out of a free area,
  \<open>CarveVMARange\<close> out of mapped ones. Each fails without an effect exactly when the range is
  not what it asks for, and otherwise only changes how the address space is divided.
\<close>

lemma FindVMA_at:
  assumes "vm_inv s" and "unat a < unat (address_space_end s)"
  obtains pre k v post where "vma_map s = pre @ (k, v) # post" and "FindVMA s a = Some (At k)"
    and "unat k \<le> unat a" and "unat a < unat k + unat (vma_size v)"
    and "map_of (vma_map s) k = Some v"
proof -
  have t: "tiles vma_base vma_size 0 (vma_map s) (unat (address_space_end s))"
    using assms(1) by (simp add: vm_inv_def)
  obtain pre k v post where m: "vma_map s = pre @ (k, v) # post"
    and f: "find_area (vma_map s) a = Some k" and k: "unat k \<le> unat a" "unat a < unat k + unat (vma_size v)"
    by (rule find_area_at [OF t le0 assms(2)])
  moreover have "FindVMA s a = Some (At k)"
    using assms(2) f by (simp add: FindVMA_def word_le_nat_alt)
  moreover have "map_of (vma_map s) k = Some v"
    using map_of_at [of pre k v post] tiles_map_ok [OF t] m by simp
  ultimately show thesis using that by blast
qed

lemma FindVMA_end: "address_space_end s \<le> a \<Longrightarrow> FindVMA s a = Some End"
  by (simp add: FindVMA_def)

lemma map_of_area:
  assumes "vm_inv s" and "vma_map s = pre @ (k, v) # post"
  shows "map_of (vma_map s) k = Some v"
proof -
  have "map_ok (pre @ (k, v) # post)"
    using assms by (intro tiles_map_ok [of vma_base vma_size 0 _ "unat (address_space_end s)"])
      (simp add: vm_inv_def)
  then show ?thesis using map_of_at assms(2) by simp
qed

lemma free_at_kind:
  assumes "vm_inv s" and "a < unat (address_space_end s)"
  shows "free_at s a \<longleftrightarrow> kind_at vma_size freed (vma_map s) a"
proof -
  have "a < 18446744073709551616" using assms(2) unat_bound_u64 [of "address_space_end s"] by simp
  then have a: "unat (of_nat a :: u64) = a" by (simp add: unat_of_nat)
  obtain pre k v post where m: "vma_map s = pre @ (k, v) # post"
    and k: "unat k \<le> a" "a < unat k + unat (vma_size v)"
    using FindVMA_at [OF assms(1), of "of_nat a"] assms(2) a by metis
  have t: "tiles vma_base vma_size 0 (pre @ (k, v) # post) (unat (address_space_end s))"
    using assms(1) m by (simp add: vm_inv_def)
  show ?thesis
    using free_at_here [OF assms(1) m k] kind_at_here [OF t k] vm_inv_areas(4) [OF assms(1) m] m
    by (auto simp: area_ok_def freed_def)
qed

text \<open>Cutting \<open>[st, en)\<close> out of an area, the end first.\<close>

lemma carve_splits:
  assumes inv: "vm_inv s" and m: "vma_map s = pre @ (k, v) # post"
    and r: "unat st < unat en" "unat en \<le> unat (vma_size v)" "4096 dvd unat st" "4096 dvd unat en"
  shows "\<exists>s1 s2 w pre' post'.
     (if en \<noteq> vma_size v then map_option fst (SplitVMA s k en) else Some s) = Some s1 \<and>
     (if st \<noteq> 0 then SplitVMA s1 k st else Some (s1, k)) = Some (s2, k + st) \<and>
     vma_map s2 = pre' @ (k + st, w) # post' \<and> vma_size w = en - st \<and>
     vma_type w = vma_type v \<and> vm_inv s2 \<and> same_layout s s2 \<and> view s2 = view s \<and>
     pre' = pre @ (if st = 0 then [] else [(k, set_vma_size st v)]) \<and>
     post' = (if en = vma_size v then [] else [(k + en, split_rest en v)]) @ post"
proof -
  define v1 where "v1 = (if en = vma_size v then v else set_vma_size en v)"
  define post1 where "post1 = (if en = vma_size v then [] else [(k + en, split_rest en v)]) @ post"
  define s1 where "s1 = s\<lparr>vma_map := pre @ (k, v1) # post1\<rparr>"
  have v1: "vma_size v1 = en" "vma_type v1 = vma_type v"
    "set_vma_size x v1 = set_vma_size x v" for x
    by (auto simp: v1_def set_vma_size_def)
  have en: "0 < en" "en \<noteq> vma_size v \<Longrightarrow> en < vma_size v"
    using r by (auto simp: word_less_nat_alt word_unat_eq_iff)
  have first: "(if en \<noteq> vma_size v then map_option fst (SplitVMA s k en) else Some s) = Some s1 \<and>
      vm_inv s1 \<and> view s1 = view s"
  proof (cases "en = vma_size v")
    case True
    then have "s1 = s" using m by (simp add: s1_def v1_def post1_def)
    with True inv show ?thesis by simp
  next
    case False
    with SplitVMA_at [OF inv m en(1) en(2) [OF False] r(4)] show ?thesis
      by (simp add: s1_def v1_def post1_def)
  qed
  then have inv1: "vm_inv s1" by simp
  have m1: "vma_map s1 = pre @ (k, v1) # post1" by (simp add: s1_def)
  show ?thesis
  proof (cases "st = 0")
    case True
    then show ?thesis
      using first m1 v1(1,2)
      by (intro exI [of _ s1] exI [of _ v1] exI [of _ pre] exI [of _ post1])
        (simp add: s1_def post1_def)
  next
    case False
    have st: "0 < st" "st < vma_size v1"
      using False r v1(1) by (auto simp: word_less_nat_alt unat_gt_0)
    note sp = SplitVMA_at [OF inv1 m1 st r(3)]
    let ?s2 = "s1\<lparr>vma_map := pre @ (k, set_vma_size st v1) # (k + st, split_rest st v1) # post1\<rparr>"
    have "vma_type (split_rest st v1) = vma_type v" "vma_size (split_rest st v1) = en - st"
      using v1 by (simp_all add: split_rest_def Let_def split: VMAType.split)
    then show ?thesis
      using False first sp v1(3)
      by (intro exI [of _ s1] exI [of _ ?s2] exI [of _ "split_rest st v1"]
          exI [of _ "pre @ [(k, set_vma_size st v)]"] exI [of _ post1])
        (simp add: s1_def post1_def)
  qed
qed

lemma apart_around:
  assumes "apart F (pre @ (k, v) # post)"
  shows "apart F pre" and "apart F post" and "F (snd (last pre)) \<Longrightarrow> pre \<noteq> [] \<Longrightarrow> \<not> F v"
    and "F (snd (hd post)) \<Longrightarrow> post \<noteq> [] \<Longrightarrow> \<not> F v"
  using assms by (auto simp: apart_append apart_Cons)

lemma CarveVMA_outside:
  assumes "4096 dvd unat b" and "4096 dvd unat n" and "address_space_end s \<le> b"
  shows "CarveVMA s b n = Some (s, Inl ERR_INVALID_ADDRESS)"
  using assms by (simp add: CarveVMA_def PAGE_MASK_dvd FindVMA_end)

text \<open>
  A page-aligned range of the address space, and whether all or none of it is free.
\<close>

definition vm_range :: "VMManager \<Rightarrow> u64 \<Rightarrow> u64 \<Rightarrow> bool" where
  "vm_range s b n \<longleftrightarrow>
     4096 dvd unat b \<and> 4096 dvd unat n \<and> 0 < unat n \<and>
     unat b + unat n \<le> unat (address_space_end s)"

definition all_free :: "VMManager \<Rightarrow> u64 \<Rightarrow> u64 \<Rightarrow> bool" where
  "all_free s b n \<longleftrightarrow> (\<forall>a. unat b \<le> a \<longrightarrow> a < unat b + unat n \<longrightarrow> free_at s a)"

definition none_free :: "VMManager \<Rightarrow> u64 \<Rightarrow> u64 \<Rightarrow> bool" where
  "none_free s b n \<longleftrightarrow> (\<forall>a. unat b \<le> a \<longrightarrow> a < unat b + unat n \<longrightarrow> \<not> free_at s a)"

lemma CarveVMA_cases:
  assumes ok: "vm_ok s" and r: "vm_range s b n"
  shows "if all_free s b n
    then (\<exists>s' pre w post. CarveVMA s b n = Some (s', Inr b) \<and> vma_map s' = pre @ (b, w) # post \<and>
      vma_size w = n \<and> vma_type w = VMA_Free \<and> vm_inv s' \<and> same_layout s s' \<and>
      view s' = view s \<and> apart freed pre \<and> apart freed post \<and>
      (\<forall>p\<in>set (vma_map s). vma_type (snd p) \<noteq> VMA_Free \<longrightarrow> p \<in> set pre \<union> set post))
    else CarveVMA s b n = Some (s, Inl ERR_INVALID_ADDRESS_STATE)"
proof -
  have inv: "vm_inv s" and ap: "apart freed (vma_map s)" using ok by (auto simp: vm_ok_def)
  have al: "4096 dvd unat b" "4096 dvd unat n" "0 < unat n"
    and fit: "unat b + unat n \<le> unat (address_space_end s)" using r by (auto simp: vm_range_def)
  have "unat b < unat (address_space_end s)" using fit al(3) by simp
  then obtain pre k v post where m: "vma_map s = pre @ (k, v) # post" and f: "FindVMA s b = Some (At k)"
    and k: "unat k \<le> unat b" "unat b < unat k + unat (vma_size v)" and mo: "map_of (vma_map s) k = Some v"
    by (rule FindVMA_at [OF inv])
  note v = vm_inv_areas [OF inv m]
  define st where "st = b - k"
  have st: "unat st = unat b - unat k" using k(1) by (simp add: st_def unat_sub_u64)
  have en: "unat (st + n) = unat b - unat k + unat n"
    using st fit unat_bound_u64 [of "address_space_end s"] by (simp add: unat_add_u64)
  have carve: "CarveVMA s b n = (if vma_type v \<noteq> VMA_Free \<or> st + n > vma_size v
      then Some (s, Inl ERR_INVALID_ADDRESS_STATE)
      else do {
        s \<leftarrow> (if st + n \<noteq> vma_size v then map_option fst (SplitVMA s k (st + n)) else Some s);
        (s, k) \<leftarrow> (if st \<noteq> 0 then SplitVMA s k st else Some (s, k));
        Some (s, Inr k)
      })"
    using al f mo v(1) by (simp add: CarveVMA_def PAGE_MASK_dvd Let_def st_def)
  have free: "all_free s b n \<longleftrightarrow> vma_type v = VMA_Free \<and> \<not> st + n > vma_size v"
  proof
    assume all: "all_free s b n"
    then have "free_at s (unat b)" using al(3) by (simp add: all_free_def)
    then have "vma_type v = VMA_Free" using free_at_here [OF inv m k] by simp
    moreover have "unat b + unat n \<le> unat k + unat (vma_size v)"
    proof (rule apart_run [where F = freed and pre = pre and post = post and b = "unat b"])
      show "kind_at vma_size freed (pre @ (k, v) # post) a" if "unat b \<le> a" "a < unat b + unat n" for a
        using free_at_kind [OF inv, of a] all that fit m by (simp add: all_free_def)
    qed (use inv ap m k al fit in \<open>auto simp: vm_inv_def\<close>)
    ultimately show "vma_type v = VMA_Free \<and> \<not> st + n > vma_size v"
      using en k(1) by (simp add: word_less_nat_alt)
  next
    assume "vma_type v = VMA_Free \<and> \<not> st + n > vma_size v"
    then show "all_free s b n"
      using free_at_here [OF inv m] en k by (auto simp: all_free_def word_less_nat_alt)
  qed
  show ?thesis
  proof (cases "all_free s b n")
    case True
    have al': "4096 dvd unat st" "4096 dvd unat (st + n)"
      using al v(1,4) st en by (auto simp: area_ok_def dvd_diff_nat)
    have bounds: "unat st < unat (st + n)" "unat (st + n) \<le> unat (vma_size v)"
      and eqs: "k + st = b" "st + n - st = n"
      using st en al True free by (auto simp: st_def word_less_nat_alt)
    from True have fv: "vma_type v = VMA_Free" "freed v" "\<not> st + n > vma_size v"
      using free v(4) by (auto simp: area_ok_def)
    have fr: "freed (set_vma_size x v) = freed v" "freed (split_rest x v) = freed v" for x
      by (simp_all add: freed_def set_vma_size_def split_rest_def Let_def split: VMAType.split)
    define pre' where "pre' = pre @ (if st = 0 then [] else [(k, set_vma_size st v)])"
    define post' where
      "post' = (if st + n = vma_size v then [] else [(k + (st + n), split_rest (st + n) v)]) @ post"
    have ap': "apart freed pre'" "apart freed post'"
      using apart_around [OF ap [unfolded m]] fv(2)
      by (auto simp: pre'_def post'_def apart_append apart_Cons fr)
    obtain s1 s2 w where
      one: "(if st + n \<noteq> vma_size v then map_option fst (SplitVMA s k (st + n)) else Some s) = Some s1"
      and two: "(if st \<noteq> 0 then SplitVMA s1 k st else Some (s1, k)) = Some (s2, b)"
      and w: "vma_map s2 = pre' @ (b, w) # post'" "vma_size w = n" "vma_type w = vma_type v"
        "vm_inv s2" "same_layout s s2" "view s2 = view s"
      using carve_splits [OF inv m bounds al'] unfolding eqs pre'_def post'_def by blast
    have "CarveVMA s b n = Some (s2, Inr b)"
      unfolding carve one using fv by (simp add: two)
    moreover have "\<forall>p\<in>set (vma_map s). vma_type (snd p) \<noteq> VMA_Free \<longrightarrow> p \<in> set pre' \<union> set post'"
      using fv(1) by (auto simp: m pre'_def post'_def)
    ultimately show ?thesis using w ap' fv(1) True by auto
  qed (use free carve in auto)
qed

subsection \<open>Ranges of mapped areas\<close>

text \<open>Where an area starts, the map can be cut in two.\<close>

lemma tiles_cut:
  assumes "tiles vb vz lo m hi" and "b = hi \<or> (\<exists>p\<in>set m. unat (fst p) = b)"
  obtains pre post where "m = pre @ post" and "tiles vb vz lo pre b" and "tiles vb vz b post hi"
proof (cases "b = hi")
  case True
  with that [of m "[]"] assms(1) show thesis by simp
next
  case False
  with assms(2) obtain p where "p \<in> set m" "unat (fst p) = b" by blast
  then obtain xs ys where m: "m = xs @ p # ys" by (meson split_list)
  with assms(1) \<open>unat (fst p) = b\<close> have "tiles vb vz lo xs b" "tiles vb vz b (p # ys) hi"
    by (auto simp: tiles_append)
  with that m show thesis by blast
qed

lemma tiles_cut_twice:
  assumes "tiles vb vz lo pre b" and "tiles vb vz lo pre2 e" and "pre @ post = pre2 @ post2" and "b \<le> e"
  shows "\<exists>mid. pre2 = pre @ mid \<and> post = mid @ post2 \<and> tiles vb vz b mid e"
  using assms
proof (induction pre arbitrary: lo pre2)
  case Nil
  then show ?case by (intro exI [of _ pre2]) simp
next
  case (Cons p pre)
  show ?case
  proof (cases pre2)
    case Nil
    with Cons.prems tiles_le [of vb vz _ pre b] show ?thesis by fastforce
  next
    case (Cons q pre2')
    with Cons.prems Cons.IH [of "lo + unat (vz (snd p))" pre2'] show ?thesis by auto
  qed
qed

text \<open>The areas that the check of \<open>CarveVMARange\<close> looks at.\<close>

lemma lower_bound_less:
  assumes "map_ok m" and "p \<in> set m"
  shows "(case lower_bound m e of At k \<Rightarrow> fst p < k | End \<Rightarrow> True) \<longleftrightarrow> fst p < e"
proof (cases "filter (\<lambda>p. e \<le> fst p) m")
  case Nil
  with assms(2) have "\<not> e \<le> fst p" by (simp add: filter_eq_Nil_iff)
  then show ?thesis using Nil by (simp add: lower_bound_def)
next
  case (Cons q qs)
  then have q: "q \<in> set m" "e \<le> fst q" by (auto simp: filter_eq_Cons_iff)
  have "sorted_wrt (\<lambda>p q. fst p < fst q) (q # qs)"
    using assms(1) sorted_wrt_filter [of "\<lambda>p q. fst p < fst q" m "\<lambda>p. e \<le> fst p"] Cons
    by (simp add: map_ok_def sorted_wrt_map)
  moreover have "p \<in> set (q # qs)" if "e \<le> fst p"
    unfolding Cons [symmetric] using that assms(2) by simp
  ultimately have "fst q \<le> fst p" if "e \<le> fst p" using that by fastforce
  then have "fst p < fst q \<longleftrightarrow> fst p < e"
    using order_trans [OF q(2)] unfolding not_le [symmetric] by blast
  then show ?thesis using Cons by (simp add: lower_bound_def map_begin_def)
qed

lemma checked_areas:
  assumes inv: "vm_inv s" and r: "vm_range s b n" and m: "vma_map s = pre @ (k, v) # post"
    and k: "unat k \<le> unat b" "unat b < unat k + unat (vma_size v)"
  shows "(\<exists>p \<in> set (entries_between (vma_map s) (At k) (lower_bound (vma_map s) (b + n))).
            vma_type (snd p) = VMA_Free) \<longleftrightarrow> \<not> none_free s b n"
proof -
  have t: "tiles vma_base vma_size 0 (vma_map s) (unat (address_space_end s))"
    using inv by (simp add: vm_inv_def)
  have tpre: "tiles vma_base vma_size 0 pre (unat k)"
    and tpost: "tiles vma_base vma_size (unat k + unat (vma_size v)) post (unat (address_space_end s))"
    using t by (auto simp: m tiles_append)
  have e: "unat (b + n) = unat b + unat n"
    using r unat_bound_u64 [of "address_space_end s"] by (simp add: vm_range_def unat_add_u64)
  have between: "set (entries_between (vma_map s) (At k) (lower_bound (vma_map s) (b + n))) =
      {p \<in> set (vma_map s). unat k \<le> unat (fst p) \<and> unat (fst p) < unat b + unat n}"
    using lower_bound_less [OF tiles_map_ok [OF t]] e
    by (auto simp: entries_between_def word_le_nat_alt word_less_nat_alt)
  have hit: "\<exists>a. unat b \<le> a \<and> a < unat b + unat n \<and> free_at s a"
    if p: "p \<in> set (vma_map s)" "unat k \<le> unat (fst p)" "unat (fst p) < unat b + unat n"
      "vma_type (snd p) = VMA_Free" for p
  proof -
    obtain xs ys where xs: "vma_map s = xs @ (fst p, snd p) # ys"
      using p(1) by (metis prod.collapse split_list)
    have "p \<in> set pre \<or> p = (k, v) \<or> p \<in> set post" using p(1) by (auto simp: m)
    then have "p = (k, v) \<or> unat k + unat (vma_size v) \<le> unat (fst p)"
      using p(2) tiles_keys(2,4) [OF tpre, of p] tiles_keys(1) [OF tpost, of p] by linarith
    then have "max (unat b) (unat (fst p)) < unat (fst p) + unat (vma_size (snd p))"
      using k vm_inv_areas(2) [OF inv xs] by (elim disjE) simp_all
    then have "free_at s (max (unat b) (unat (fst p)))"
      using free_at_here [OF inv xs, of "max (unat b) (unat (fst p))"] p(4) by simp
    moreover have "max (unat b) (unat (fst p)) < unat b + unat n"
      using p(3) r by (simp add: vm_range_def)
    ultimately show ?thesis by (intro exI [of _ "max (unat b) (unat (fst p))"]) simp
  qed
  have area: "\<exists>p\<in>set (vma_map s). unat k \<le> unat (fst p) \<and> unat (fst p) < unat b + unat n \<and>
      vma_type (snd p) = VMA_Free"
    if a: "unat b \<le> a" "a < unat b + unat n" "free_at s a" for a
  proof -
    have lt: "a < unat (address_space_end s)" using a r by (simp add: vm_range_def)
    then have ua: "unat (of_nat a :: u64) = a"
      using unat_bound_u64 [of "address_space_end s"] by (simp add: unat_of_nat)
    obtain xs j w ys where j: "vma_map s = xs @ (j, w) # ys" "unat j \<le> a" "a < unat j + unat (vma_size w)"
      using FindVMA_at [OF inv, of "of_nat a"] lt ua by metis
    have "\<not> unat j < unat k"
    proof
      assume jk: "unat j < unat k"
      have "(j, w) \<in> set (pre @ (k, v) # post)" using j(1) m by (metis in_set_conv_decomp)
      then have "(j, w) \<in> set pre" using jk tiles_keys(1) [OF tpost, of "(j, w)"] by auto
      with tiles_keys(2) [OF tpre, of "(j, w)"] j(3) a(1) k(1) show False by simp
    qed
    with j a free_at_here [OF inv j] show ?thesis by (intro bexI [of _ "(j, w)"]) auto
  qed
  show ?thesis unfolding between none_free_def using hit area by blast
qed

lemma apart_split:
  "\<not> F v \<Longrightarrow> \<not> F v1 \<Longrightarrow> \<not> F v2 \<Longrightarrow> apart F (pre @ (k, v) # post) \<Longrightarrow>
   apart F (pre @ (k, v1) # (k2, v2) # post)"
  by (auto simp: apart_append apart_Cons)

text \<open>One of the two cuts of \<open>CarveVMARange\<close>: a boundary at \<open>a\<close>, inside a mapped area.\<close>

lemma cut_mapped:
  assumes ok: "vm_ok s" and m: "vma_map s = pre @ (k, v) # post" and nf: "vma_type v \<noteq> VMA_Free"
    and a: "unat k \<le> unat a" "unat a < unat k + unat (vma_size v)" "4096 dvd unat a"
  shows "\<exists>s'. (if a \<noteq> vma_base v then SplitVMA s k (a - vma_base v) else Some (s, k)) = Some (s', a) \<and>
     vm_ok s' \<and> same_layout s s' \<and> view s' = view s \<and>
     (\<forall>p\<in>set (vma_map s). \<exists>q\<in>set (vma_map s'). fst q = fst p) \<and> (\<exists>q\<in>set (vma_map s'). fst q = a)"
proof -
  have inv: "vm_inv s" and ap: "apart freed (vma_map s)" using ok by (auto simp: vm_ok_def)
  note v = vm_inv_areas [OF inv m]
  show ?thesis
  proof (cases "a = k")
    case True
    then show ?thesis using ok v m by auto
  next
    case False
    have u: "unat (a - k) = unat a - unat k" using a(1) by (simp add: unat_sub_u64)
    have "unat k < unat a" "4096 dvd unat k"
      using False a(1) v(1,4) by (auto simp: word_unat_eq_iff area_ok_def)
    then have d: "0 < a - k" "a - k < vma_size v" "4096 dvd unat (a - k)"
      using a u by (simp_all add: word_less_nat_alt)
    note sp = SplitVMA_at [OF inv m d]
    have "vma_type (set_vma_size x v) = vma_type v" "vma_type (split_rest x v) = vma_type v" for x
      by (simp_all add: set_vma_size_def split_rest_def Let_def split: VMAType.split)
    then have "apart freed (pre @ (k, set_vma_size (a - k) v) # (k + (a - k), split_rest (a - k) v) # post)"
      using ap nf by (intro apart_split [of freed v]) (auto simp: freed_def m)
    then show ?thesis using sp False v(1) by (auto simp: vm_ok_def m)
  qed
qed

lemma cut_end:
  assumes ok: "vm_ok s" and r: "vm_range s b n" and nf: "none_free s b n"
  shows "\<exists>s'. Option.bind (FindVMA s (b + n)) (case_iter
       (\<lambda>ke. do {
          end_vma \<leftarrow> map_of (vma_map s) ke;
          if b + n \<noteq> vma_base end_vma
          then map_option fst (SplitVMA s ke (b + n - vma_base end_vma)) else Some s
        }) (Some s)) = Some s' \<and>
     vm_ok s' \<and> same_layout s s' \<and> view s' = view s \<and>
     (\<forall>p\<in>set (vma_map s). \<exists>q\<in>set (vma_map s'). fst q = fst p) \<and>
     (b + n = address_space_end s \<or> (\<exists>q\<in>set (vma_map s'). fst q = b + n))"
proof (cases "b + n = address_space_end s")
  case True
  then show ?thesis using ok by (intro exI [of _ s]) (auto simp: FindVMA_end)
next
  case False
  have inv: "vm_inv s" using ok by (simp add: vm_ok_def)
  have e: "unat (b + n) = unat b + unat n" and n: "0 < unat n"
    and al: "4096 dvd unat (b + n)"
    using r unat_bound_u64 [of "address_space_end s"] by (auto simp: vm_range_def unat_add_u64)
  have lt: "unat (b + n) < unat (address_space_end s)"
    using False e r by (simp add: vm_range_def word_unat_eq_iff)
  obtain pre k v post where m: "vma_map s = pre @ (k, v) # post" and f: "FindVMA s (b + n) = Some (At k)"
    and k: "unat k \<le> unat (b + n)" "unat (b + n) < unat k + unat (vma_size v)"
    and mo: "map_of (vma_map s) k = Some v"
    by (rule FindVMA_at [OF inv lt])
  have v: "vma_base v = k" using vm_inv_areas [OF inv m] by simp
  show ?thesis
  proof (cases "b + n = k")
    case True
    then show ?thesis using ok f mo v m by (intro exI [of _ s]) auto
  next
    case False
    then have "unat k \<le> unat b + unat n - 1"
      using k(1) e by (auto simp: word_unat_eq_iff)
    moreover have "\<not> free_at s (unat b + unat n - 1)" using nf n by (simp add: none_free_def)
    ultimately have "vma_type v \<noteq> VMA_Free"
      using free_at_here [OF inv m, of "unat b + unat n - 1"] k e by simp
    from cut_mapped [OF ok m this k al] False show ?thesis by (auto simp: f mo v)
  qed
qed

lemma CarveVMARange_cases:
  assumes ok: "vm_ok s" and r: "vm_range s b n"
  shows "if none_free s b n
    then (\<exists>s' pre mid tail. CarveVMARange s b n = Some (s', Inr b) \<and> vm_ok s' \<and> same_layout s s' \<and>
      view s' = view s \<and> vma_map s' = pre @ mid @ tail \<and>
      tiles vma_base vma_size 0 pre (unat b) \<and>
      tiles vma_base vma_size (unat b) mid (unat (b + n)) \<and>
      tiles vma_base vma_size (unat (b + n)) tail (unat (address_space_end s)))
    else CarveVMARange s b n = Some (s, Inl ERR_INVALID_ADDRESS_STATE)"
proof -
  have inv: "vm_inv s" using ok by (simp add: vm_ok_def)
  have al: "4096 dvd unat b" "4096 dvd unat n" "0 < unat n"
    and fit: "unat b + unat n \<le> unat (address_space_end s)" using r by (auto simp: vm_range_def)
  have e: "unat (b + n) = unat b + unat n"
    using fit unat_bound_u64 [of "address_space_end s"] by (simp add: unat_add_u64)
  have asserts: "n AND PAGE_MASK = 0" "b AND PAGE_MASK = 0" "b \<le> b + n"
    "b + n \<le> address_space_end s" "0 < n"
    using al fit e by (auto simp: PAGE_MASK_dvd word_le_nat_alt word_less_nat_alt)
  have "unat b < unat (address_space_end s)" using fit al(3) by simp
  then obtain pre k v post where m: "vma_map s = pre @ (k, v) # post" and f: "FindVMA s b = Some (At k)"
    and k: "unat k \<le> unat b" "unat b < unat k + unat (vma_size v)" and mo: "map_of (vma_map s) k = Some v"
    by (rule FindVMA_at [OF inv])
  note chk = checked_areas [OF inv r m k]
  show ?thesis
  proof (cases "none_free s b n")
    case False
    then show ?thesis using asserts chk f by (simp add: CarveVMARange_def Let_def)
  next
    case True
    then have "\<not> free_at s (unat b)" using al(3) by (simp add: none_free_def)
    then have "vma_type v \<noteq> VMA_Free" using free_at_here [OF inv m k] by simp
    from cut_mapped [OF ok m this k al(1)] obtain s1 where
      s1: "(if b \<noteq> vma_base v then SplitVMA s k (b - vma_base v) else Some (s, k)) = Some (s1, b)"
        "vm_ok s1" "same_layout s s1" "view s1 = view s" "\<exists>q\<in>set (vma_map s1). fst q = b" by blast
    have "vm_range s1 b n" "none_free s1 b n"
      using r True s1(3,4) by (simp_all add: vm_range_def none_free_def free_at_def same_layout_def)
    from cut_end [OF s1(2) this] obtain s2 where
      s2: "Option.bind (FindVMA s1 (b + n)) (case_iter
       (\<lambda>ke. do {
          end_vma \<leftarrow> map_of (vma_map s1) ke;
          if b + n \<noteq> vma_base end_vma
          then map_option fst (SplitVMA s1 ke (b + n - vma_base end_vma)) else Some s1
        }) (Some s1)) = Some s2"
      "vm_ok s2" "same_layout s1 s2" "view s2 = view s1"
      and keep: "\<forall>p\<in>set (vma_map s1). \<exists>q\<in>set (vma_map s2). fst q = fst p"
      and last: "b + n = address_space_end s1 \<or> (\<exists>q\<in>set (vma_map s2). fst q = b + n)" by blast
    have carve: "CarveVMARange s b n = Some (s2, Inr b)"
    proof (cases "FindVMA s1 (b + n)")
      case (Some it)
      with s2(1) show ?thesis
        using asserts True chk f mo s1(1) by (cases it) (simp_all add: CarveVMARange_def Let_def)
    qed (use s2(1) in simp)
    have ends: "address_space_end s1 = address_space_end s" "address_space_end s2 = address_space_end s"
      using s1(3) s2(3) by (auto simp: same_layout_def)
    have t: "tiles vma_base vma_size 0 (vma_map s2) (unat (address_space_end s))"
      using s2(2) ends by (simp add: vm_ok_def vm_inv_def)
    obtain p1 q1 where c1: "vma_map s2 = p1 @ q1" "tiles vma_base vma_size 0 p1 (unat b)"
      by (rule tiles_cut [OF t, of "unat b"]) (use s1(5) keep in fastforce)+
    obtain p2 q2 where c2: "vma_map s2 = p2 @ q2" "tiles vma_base vma_size 0 p2 (unat (b + n))"
      "tiles vma_base vma_size (unat (b + n)) q2 (unat (address_space_end s))"
      by (rule tiles_cut [OF t, of "unat (b + n)"]) (use last ends in fastforce)+
    obtain mid where "p2 = p1 @ mid" "tiles vma_base vma_size (unat b) mid (unat (b + n))"
      using tiles_cut_twice [OF c1(2) c2(2), of q1 q2] c1(1) c2(1) e by auto
    moreover from this have "vma_map s2 = p1 @ mid @ q2" using c2(1) by simp
    moreover have "same_layout s s2" using s1(3) s2(3) by (rule same_layout_trans)
    moreover have "view s2 = view s" using s1(4) s2(4) by simp
    ultimately show ?thesis
      unfolding if_P [OF True] using carve s2(2) c1(2) c2(3) by blast
  qed
qed

lemma carved_not_free:
  assumes "vm_inv s'" and "view s' = view s" and "none_free s b n"
    and "vma_map s' = pre @ mid @ tail" and "tiles vma_base vma_size (unat b) mid (unat b + unat n)"
    and "p \<in> set mid"
  shows "vma_type (snd p) \<noteq> VMA_Free"
proof -
  obtain xs ys where mid: "mid = xs @ p # ys" using assms(6) by (meson split_list)
  have m: "vma_map s' = (pre @ xs) @ (fst p, snd p) # ys @ tail" using assms(4) mid by simp
  note k = tiles_keys [OF assms(5,6)]
  have "\<not> free_at s (unat (fst p))" using assms(3) k by (simp add: none_free_def)
  then show ?thesis
    using free_at_here [OF assms(1) m, of "unat (fst p)"] k(4) assms(2) by (simp add: free_at_def)
qed

end
