(* ===== verification/Gpu_Memory_Correct.thy ===== *)
theory Gpu_Memory_Correct
  imports Gpu_Memory Vm_Carve
begin

text \<open>
  The GPU's address space against its page table. The areas satisfy the laws of \<open>Vma_Space\<close>;
  a well-formed manager (\<open>gm_ok\<close>) stays well formed under mapping, allocation and unmapping, and
  the page table translates GPU addresses to the host and CPU addresses that were mapped.
\<close>

definition gpu_cell :: "GpuArea \<Rightarrow> nat \<Rightarrow> gpu_area_type \<times> host_ptr" where
  "gpu_cell v i = (gv_type v, if gv_type v = GV_Mapped then gv_backing_memory v + of_nat i else 0)"

definition gpu_unmapped :: "GpuArea \<Rightarrow> bool" where
  "gpu_unmapped v \<longleftrightarrow> gv_type v = GV_Unmapped"

interpretation gvma: vma_area gv_base gv_size gpu_set_size gpu_split_rest gpu_CanBeMergedWith gpu_cell
proof unfold_locales
  fix v w x :: GpuArea and n :: u64 and i :: nat
  show "gv_base (gpu_set_size n v) = gv_base v" and "gv_size (gpu_set_size n v) = n"
    and "gpu_cell (gpu_set_size n v) i = gpu_cell v i"
    by (simp_all add: gpu_set_size_def gpu_cell_def)
  show "gv_base (gpu_split_rest n v) = gv_base v + n" and "gv_size (gpu_split_rest n v) = gv_size v - n"
    by (simp_all add: gpu_split_rest_def Let_def split: gpu_area_type.split)
  show "gpu_cell (gpu_split_rest n v) i = gpu_cell v (unat n + i)"
    by (simp add: gpu_split_rest_def gpu_cell_def Let_def add.assoc split: gpu_area_type.split)
  show "\<exists>b. gpu_CanBeMergedWith v w = Some b" if "gv_base v + gv_size v = gv_base w"
    using that by (simp add: gpu_CanBeMergedWith_def)
  show "gpu_cell w i = gpu_cell v (unat (gv_size v) + i)" if "gpu_CanBeMergedWith v w = Some True"
    using that
    by (auto simp: gpu_CanBeMergedWith_def gpu_cell_def add.assoc [symmetric] split: if_splits)
  show "gpu_CanBeMergedWith (gpu_set_size n v) (gpu_split_rest n v) = Some True"
    by (simp add: gpu_CanBeMergedWith_def gpu_set_size_def gpu_split_rest_def Let_def
        split: gpu_area_type.split)
  show "gpu_CanBeMergedWith v (gpu_set_size n w) = gpu_CanBeMergedWith v w"
    by (simp add: gpu_CanBeMergedWith_def gpu_set_size_def cong: if_cong)
  show "gpu_CanBeMergedWith (gpu_set_size (gv_size v + gv_size w) v) x = gpu_CanBeMergedWith w x"
    if "gpu_CanBeMergedWith v w = Some True"
    using that
    by (auto simp: gpu_CanBeMergedWith_def gpu_set_size_def add.assoc [symmetric] split: if_splits)
qed

interpretation galloc: vma_kind_change gv_base gv_size gpu_set_size gpu_split_rest gpu_CanBeMergedWith
  gpu_cell allocated_area "\<lambda>_. (GV_Allocated, 0)" gpu_unmapped
  by unfold_locales
    (auto simp: allocated_area_def gpu_cell_def gpu_unmapped_def gpu_set_size_def
      gpu_CanBeMergedWith_def split: if_splits)

subsection \<open>Well-formedness\<close>

definition gpu_view :: "GpuMemoryManager \<Rightarrow> nat \<Rightarrow> (gpu_area_type \<times> host_ptr) option" where
  "gpu_view s = content gv_size gpu_cell (gm_map s)"

definition gpu_area_ok :: "GpuArea \<Rightarrow> bool" where
  "gpu_area_ok v \<longleftrightarrow>
     65536 dvd unat (gv_base v) \<and> 65536 dvd unat (gv_size v) \<and>
     (gv_type v = GV_Mapped \<longrightarrow>
        0 < unat (gv_backing_memory v) \<and>
        unat (gv_backing_memory v) + unat (gv_size v) < 18446744073709551616)"

definition gpu_page_agrees ::
  "gpu_area_type \<times> host_ptr \<Rightarrow> PageType \<Rightarrow> host_ptr \<Rightarrow> VAddr \<Rightarrow> bool" where
  "gpu_page_agrees c ty p ba \<longleftrightarrow>
     ty = (if fst c = GV_Unmapped then PT_Unmapped else PT_Memory) \<and> p = snd c \<and>
     (fst c \<noteq> GV_Mapped \<longrightarrow> ba = 0)"

definition gm_ok :: "GpuMemoryManager \<Rightarrow> bool" where
  "gm_ok s \<longleftrightarrow>
     tiles gv_base gv_size 0 (gm_map s) 549755813888 \<and>
     pt_entries (gm_page_table s) = 8388608 \<and>
     (\<forall>p\<in>set (gm_map s). gpu_area_ok (snd p)) \<and>
     (\<forall>i c. gpu_view s (65536 * i) = Some c \<longrightarrow>
        gpu_page_agrees c (pt_attributes (gm_page_table s) i) (pt_pointers (gm_page_table s) i)
          (pt_backing_addr (gm_page_table s) i))"

lemma gm_end: "unat gpu_address_space_end = 549755813888"
  by (simp add: gpu_address_space_end_def gpu_address_space_width_def push_bit_eq_mult)

lemma gm_ok_areas:
  assumes "gm_ok s" and "gm_map s = pre @ (k, v) # post"
  shows "gv_base v = k" and "0 < unat (gv_size v)" and "unat k + unat (gv_size v) \<le> 549755813888"
    and "gpu_area_ok v"
  using assms tiles_keys [of gv_base gv_size 0 "gm_map s" 549755813888 "(k, v)"]
  by (auto simp: gm_ok_def)

lemma gpu_map_of:
  assumes "gm_ok s" and "gm_map s = pre @ (k, v) # post"
  shows "map_of (gm_map s) k = Some v"
proof -
  have "map_ok (pre @ (k, v) # post)"
    using assms by (intro tiles_map_ok [of gv_base gv_size 0 _ 549755813888]) (simp add: gm_ok_def)
  then show ?thesis using map_of_at assms(2) by simp
qed

lemma gpu_FindVMA_at:
  assumes "gm_ok s" and "unat a < 549755813888"
  obtains pre k v post where "gm_map s = pre @ (k, v) # post" and "gpu_FindVMA s a = Some (At k)"
    and "unat k \<le> unat a" and "unat a < unat k + unat (gv_size v)" and "map_of (gm_map s) k = Some v"
proof -
  have t: "tiles gv_base gv_size 0 (gm_map s) 549755813888" using assms(1) by (simp add: gm_ok_def)
  obtain pre k v post where m: "gm_map s = pre @ (k, v) # post" and f: "find_area (gm_map s) a = Some k"
    and k: "unat k \<le> unat a" "unat a < unat k + unat (gv_size v)"
    by (rule find_area_at [OF t le0 assms(2)])
  moreover have "gpu_FindVMA s a = Some (At k)"
    using assms(2) f gm_end by (simp add: gpu_FindVMA_def word_le_nat_alt)
  ultimately show thesis using that gpu_map_of [OF assms(1) m] by blast
qed

lemma gpu_view_at:
  assumes "gm_ok s" and m: "gm_map s = pre @ (k, v) # post"
    and a: "unat k \<le> a" "a < unat k + unat (gv_size v)"
  shows "gpu_view s a = Some (gpu_cell v (a - unat k))"
proof -
  have "tiles gv_base gv_size 0 pre (unat k)" using assms(1) m by (auto simp: gm_ok_def tiles_append)
  then have "content gv_size gpu_cell pre a = None" using a by (intro content_outside) auto
  then show ?thesis using a by (simp add: gpu_view_def m content_append)
qed

lemma gm_ok_remap:
  assumes "gm_ok s" and "tiles gv_base gv_size 0 m 549755813888" and "\<forall>p\<in>set m. gpu_area_ok (snd p)"
    and "content gv_size gpu_cell m = content gv_size gpu_cell (gm_map s)"
  shows "gm_ok (s\<lparr>gm_map := m\<rparr>)" and "gpu_view (s\<lparr>gm_map := m\<rparr>) = gpu_view s"
  using assms by (simp_all add: gm_ok_def gpu_view_def)

subsection \<open>Areas under splitting and merging\<close>

lemma gpu_area_split:
  assumes "gpu_area_ok v" and "65536 dvd unat n" and n: "unat n < unat (gv_size v)"
    and fits: "unat (gv_base v) + unat (gv_size v) < 18446744073709551616"
  shows "gpu_area_ok (gpu_set_size n v)" and "gpu_area_ok (gpu_split_rest n v)"
proof -
  show "gpu_area_ok (gpu_set_size n v)"
    using assms(1,2) n by (auto simp: gpu_area_ok_def gpu_set_size_def)
  have base: "unat (gv_base v + n) = unat (gv_base v) + unat n" using fits n by (simp add: unat_add_u64)
  have size: "unat (gv_size v - n) = unat (gv_size v) - unat n" using n by (simp add: unat_sub_u64)
  have mem: "unat (gv_backing_memory v + n) = unat (gv_backing_memory v) + unat n" if "gv_type v = GV_Mapped"
    using assms(1) n that by (intro unat_add_u64) (auto simp: gpu_area_ok_def)
  show "gpu_area_ok (gpu_split_rest n v)"
    using assms(1,2) n base size mem
    by (cases "gv_type v") (simp_all add: gpu_area_ok_def gpu_split_rest_def Let_def)
qed

lemma gpu_area_merge:
  assumes "gpu_area_ok v" and "gpu_area_ok w" and cm: "gpu_CanBeMergedWith v w = Some True"
    and fits: "unat (gv_size v) + unat (gv_size w) < 18446744073709551616"
  shows "gpu_area_ok (gpu_set_size (gv_size v + gv_size w) v)"
proof -
  have size: "unat (gv_size v + gv_size w) = unat (gv_size v) + unat (gv_size w)"
    using fits by (rule unat_add_u64)
  have "unat (gv_backing_memory v) + (unat (gv_size v) + unat (gv_size w)) < 18446744073709551616"
    if ty: "gv_type v = GV_Mapped"
  proof -
    have "gv_backing_memory w = gv_backing_memory v + gv_size v" "gv_type w = GV_Mapped"
      using cm ty by (auto simp: gpu_CanBeMergedWith_def split: if_splits)
    with assms(1,2) ty show ?thesis by (simp add: gpu_area_ok_def unat_add_u64)
  qed
  then show ?thesis using assms(1,2) size by (simp add: gpu_area_ok_def gpu_set_size_def)
qed

subsection \<open>Steps\<close>

lemma gpu_SplitVMA_at:
  assumes ok: "gm_ok s" and m: "gm_map s = pre @ (k, v) # post"
    and n: "0 < unat n" "unat n < unat (gv_size v)" "65536 dvd unat n"
  defines "m' \<equiv> pre @ (k, gpu_set_size n v) # (k + n, gpu_split_rest n v) # post"
  shows "gpu_SplitVMA s k n = Some (s\<lparr>gm_map := m'\<rparr>, k + n)"
    and "gm_ok (s\<lparr>gm_map := m'\<rparr>)" and "gpu_view (s\<lparr>gm_map := m'\<rparr>) = gpu_view s"
proof -
  have t: "tiles gv_base gv_size 0 (pre @ (k, v) # post) 549755813888" using ok m by (simp add: gm_ok_def)
  have n': "0 < n" "n < gv_size v" using n(1,2) by (simp_all add: word_less_nat_alt)
  note sp = gvma.split_area_at [OF t _ n', simplified]
  show "gpu_SplitVMA s k n = Some (s\<lparr>gm_map := m'\<rparr>, k + n)"
    using sp(1) by (simp add: gpu_SplitVMA_def m m'_def)
  note v = gm_ok_areas [OF ok m]
  have "\<forall>p\<in>set m'. gpu_area_ok (snd p)"
    using gpu_area_split [OF v(4) n(3,2)] v ok by (auto simp: gm_ok_def m m'_def)
  then show "gm_ok (s\<lparr>gm_map := m'\<rparr>)" and "gpu_view (s\<lparr>gm_map := m'\<rparr>) = gpu_view s"
    using gm_ok_remap [OF ok, of m'] sp(2,3) by (simp_all add: m m'_def)
qed

lemma gpu_MergeAdjacent_at:
  assumes ok: "gm_ok s" and m: "gm_map s = pre @ (k, v) # post"
    and spec: "merge_spec gv_size gpu_set_size gpu_CanBeMergedWith pre k v post = (pre', k', v', post')"
  defines "m' \<equiv> pre' @ (k', v') # post'"
  shows "gpu_MergeAdjacent s k = Some (s\<lparr>gm_map := m'\<rparr>, k')"
    and "gm_ok (s\<lparr>gm_map := m'\<rparr>)" and "gpu_view (s\<lparr>gm_map := m'\<rparr>) = gpu_view s"
proof -
  have t: "tiles gv_base gv_size 0 (pre @ (k, v) # post) 549755813888" using ok m by (simp add: gm_ok_def)
  note mg = gvma.merge_adjacent_at [OF t _ spec, simplified]
  show "gpu_MergeAdjacent s k = Some (s\<lparr>gm_map := m'\<rparr>, k')"
    using mg(1) by (simp add: gpu_MergeAdjacent_def m m'_def)
  have "\<forall>p\<in>set m'. gpu_area_ok (snd p)"
    unfolding m'_def
  proof (rule gvma.merge_spec_keeps [where Q = gpu_area_ok, OF t _ _ gpu_area_merge spec])
    show "\<forall>p\<in>set (pre @ (k, v) # post). gpu_area_ok (snd p)" using ok unfolding gm_ok_def m by blast
  qed simp
  then show "gm_ok (s\<lparr>gm_map := m'\<rparr>)" and "gpu_view (s\<lparr>gm_map := m'\<rparr>) = gpu_view s"
    using gm_ok_remap [OF ok, of m'] mg(2,3) by (simp_all add: m m'_def)
qed

subsection \<open>The page table\<close>

lemma gpu_map_loop_closed:
  assumes "unat b \<le> unat e"
  shows "gpu_map_loop ps bs b e memory ba =
    ((\<lambda>i. if unat b \<le> i \<and> i < unat e then memory + of_nat (i - unat b) * gpu_page_size else ps i),
     (\<lambda>i. if unat b \<le> i \<and> i < unat e then ba + of_nat (i - unat b) * gpu_page_size else bs i))"
  using assms
proof (induction ps bs b e memory ba rule: gpu_map_loop.induct)
  case (1 ps bs b e memory ba)
  show ?case
  proof (cases "b = e")
    case True
    then show ?thesis by (auto simp: gpu_map_loop.simps fun_eq_iff)
  next
    case False
    then have lt: "unat b < unat e" using "1.prems" by (simp add: word_unat_eq_iff)
    then have b1: "unat (b + 1) = unat b + 1"
      using unat_bound_u64 [of e] unat_add_u64 [of b 1] by simp
    have shift: "x + gpu_page_size + of_nat (i - unat (b + 1)) * gpu_page_size =
        x + of_nat (i - unat b) * gpu_page_size" if "unat b < i" for x i
    proof -
      have "i - unat b = Suc (i - unat (b + 1))" using that b1 by simp
      then show ?thesis by (simp add: algebra_simps)
    qed
    have "gpu_map_loop ps bs b e memory ba = gpu_map_loop (ps(unat b := memory)) (bs(unat b := ba)) (b + 1) e
        (memory + gpu_page_size) (ba + gpu_page_size)"
      using False by (simp add: gpu_map_loop.simps)
    also have "\<dots> =
      ((\<lambda>i. if unat (b + 1) \<le> i \<and> i < unat e then memory + gpu_page_size + of_nat (i - unat (b + 1)) * gpu_page_size
           else (ps(unat b := memory)) i),
       (\<lambda>i. if unat (b + 1) \<le> i \<and> i < unat e then ba + gpu_page_size + of_nat (i - unat (b + 1)) * gpu_page_size
           else (bs(unat b := ba)) i))"
      by (rule "1.IH" [OF False]) (use lt b1 in simp)
    also have "\<dots> = ((\<lambda>i. if unat b \<le> i \<and> i < unat e then memory + of_nat (i - unat b) * gpu_page_size else ps i),
     (\<lambda>i. if unat b \<le> i \<and> i < unat e then ba + of_nat (i - unat b) * gpu_page_size else bs i))"
      using lt b1 shift by (auto simp: fun_eq_iff)
    finally show ?thesis .
  qed
qed

text \<open>The pages of an area after \<open>UpdatePageTableForVMA\<close>.\<close>

definition gpu_in_pages :: "GpuArea \<Rightarrow> nat \<Rightarrow> bool" where
  "gpu_in_pages w i \<longleftrightarrow> unat (gv_base w) \<le> 65536 * i \<and> 65536 * i < unat (gv_base w) + unat (gv_size w)"

definition gpu_page_step :: "GpuArea \<Rightarrow> nat \<Rightarrow> u64" where
  "gpu_page_step w i = of_nat (65536 * i - unat (gv_base w))"

definition gpu_with_pages :: "GpuArea \<Rightarrow> PageTable \<Rightarrow> PageTable" where
  "gpu_with_pages w pt = pt
     \<lparr>pt_attributes := (\<lambda>i. if gpu_in_pages w i
        then (if gv_type w = GV_Unmapped then PT_Unmapped else PT_Memory) else pt_attributes pt i),
      pt_pointers := (\<lambda>i. if gpu_in_pages w i
        then (if gv_type w = GV_Mapped then gv_backing_memory w + gpu_page_step w i else 0)
        else pt_pointers pt i),
      pt_backing_addr := (\<lambda>i. if gpu_in_pages w i
        then (if gv_type w = GV_Mapped then gv_backing_addr w + gpu_page_step w i else 0)
        else pt_backing_addr pt i)\<rparr>"

lemma gpu_mask_dvd: "x AND gpu_page_mask = 0 \<longleftrightarrow> 65536 dvd unat x"
  using and_mask_eq_0_iff [of x 16] by (simp add: gpu_page_mask_def mask_eq_exp_minus_1)

lemma unat_div_page: "unat (x div gpu_page_size) = unat x div 65536"
  by (simp add: gpu_page_size_def unat_div)

lemma gpu_MapPages_at:
  assumes w: "gpu_area_ok w" and fits: "unat (gv_base w) + unat (gv_size w) \<le> 549755813888"
    and ent: "pt_entries pt = 8388608" and ty: "gv_type w \<noteq> GV_Mapped \<Longrightarrow> memory = 0 \<and> ba = 0"
    and ma: "gv_type w = GV_Mapped \<Longrightarrow> memory = gv_backing_memory w \<and> ba = gv_backing_addr w"
  shows "gpu_MapPages pt (gv_base w div gpu_page_size) (gv_size w div gpu_page_size) memory
      (if gv_type w = GV_Unmapped then PT_Unmapped else PT_Memory) ba = Some (gpu_with_pages w pt)"
proof -
  obtain b n where b: "unat (gv_base w) = 65536 * b" and n: "unat (gv_size w) = 65536 * n"
    using w by (auto simp: gpu_area_ok_def elim!: dvdE)
  let ?b = "gv_base w div gpu_page_size" and ?n = "gv_size w div gpu_page_size"
  have ub: "unat ?b = b" and un: "unat ?n = n" by (simp_all add: unat_div_page b n)
  have e: "unat (?b + ?n) = b + n" using fits b n ub un by (subst unat_add_u64) auto
  have inp: "b \<le> i \<and> i < b + n \<longleftrightarrow> gpu_in_pages w i" for i
    by (auto simp: gpu_in_pages_def b n)
  have step: "of_nat (i - b) * gpu_page_size = gpu_page_step w i" if "gpu_in_pages w i" for i
  proof -
    have "65536 * i - 65536 * b = (i - b) * 65536" by simp
    then show ?thesis using that by (simp add: gpu_page_step_def b gpu_page_size_def)
  qed
  have steps: "(\<lambda>i. if gpu_in_pages w i then x + of_nat (i - b) * gpu_page_size else g i) =
      (\<lambda>i. if gpu_in_pages w i then x + gpu_page_step w i else g i)" for x g
    by (rule ext) (simp only: step cong: if_cong)
  have mem: "memory = 0 \<longleftrightarrow> gv_type w \<noteq> GV_Mapped"
    using w ty ma by (auto simp: gpu_area_ok_def)
  have le: "unat ?b \<le> unat (?b + ?n)" using ub e by simp
  show ?thesis
  proof (cases "gv_type w = GV_Mapped")
    case True
    then show ?thesis
      using mem ma fits b n
      by (simp add: gpu_MapPages_def Let_def e ent gpu_map_loop_closed [OF le] fill_range_def ub inp
          gpu_with_pages_def steps cong: if_cong)
  next
    case False
    then show ?thesis
      using mem ty fits b n
      by (simp add: gpu_MapPages_def Let_def e ent fill_range_def ub inp gpu_with_pages_def
          cong: if_cong)
  qed
qed

lemma gpu_UpdatePageTable_at:
  assumes w: "gpu_area_ok w" and fits: "unat (gv_base w) + unat (gv_size w) \<le> 549755813888"
    and ent: "pt_entries (gm_page_table s) = 8388608"
    and ba: "gv_type w \<noteq> GV_Mapped \<Longrightarrow> gv_backing_addr w = 0"
  shows "gpu_UpdatePageTableForVMA s w = Some (s\<lparr>gm_page_table := gpu_with_pages w (gm_page_table s)\<rparr>)"
proof -
  have al: "gv_base w AND gpu_page_mask = 0" "gv_size w AND gpu_page_mask = 0"
    using w by (simp_all add: gpu_area_ok_def gpu_mask_dvd)
  note mp = gpu_MapPages_at [OF w fits ent]
  show ?thesis
    using mp [of 0 0] mp [of "gv_backing_memory w" "gv_backing_addr w"] ba al
    by (cases "gv_type w")
      (simp_all add: gpu_UpdatePageTableForVMA_def gpu_UnmapRegion_def gpu_MapMemoryRegion_def)
qed

subsection \<open>Replacing an area\<close>

lemma gpu_in_pages_here:
  assumes "gpu_area_ok w" and "gpu_in_pages w i"
  shows "gpu_page_agrees (gpu_cell w (65536 * i - unat (gv_base w)))
    (pt_attributes (gpu_with_pages w pt) i) (pt_pointers (gpu_with_pages w pt) i)
    (pt_backing_addr (gpu_with_pages w pt) i)"
  using assms by (simp add: gpu_page_agrees_def gpu_cell_def gpu_with_pages_def gpu_page_step_def)

lemma gpu_replace_area:
  assumes ok: "gm_ok s" and m: "gm_map s = pre @ (k, v) # post"
    and w: "gv_base w = k" "gv_size w = gv_size v" "gpu_area_ok w"
    and ba: "gv_type w \<noteq> GV_Mapped \<Longrightarrow> gv_backing_addr w = 0"
  defines "s' \<equiv> s\<lparr>gm_map := pre @ (k, w) # post, gm_page_table := gpu_with_pages w (gm_page_table s)\<rparr>"
  shows "gpu_UpdatePageTableForVMA (s\<lparr>gm_map := put (gm_map s) k w\<rparr>) w = Some s'"
    and "gm_ok s'"
    and "gpu_view s' = repaint (unat k) (unat k + unat (gv_size v)) (gpu_cell w) (gpu_view s)"
proof -
  have t: "tiles gv_base gv_size 0 (pre @ (k, v) # post) 549755813888" using ok m by (simp add: gm_ok_def)
  have put: "put (gm_map s) k w = pre @ (k, w) # post" using put_at [OF tiles_map_ok [OF t]] by (simp add: m)
  note v = gm_ok_areas [OF ok m]
  have ent: "pt_entries (gm_page_table s) = 8388608" using ok by (simp add: gm_ok_def)
  show "gpu_UpdatePageTableForVMA (s\<lparr>gm_map := put (gm_map s) k w\<rparr>) w = Some s'"
    using gpu_UpdatePageTable_at [OF w(3), of "s\<lparr>gm_map := put (gm_map s) k w\<rparr>"] v w(1,2) ent ba
    by (simp add: put s'_def)
  show vw: "gpu_view s' = repaint (unat k) (unat k + unat (gv_size v)) (gpu_cell w) (gpu_view s)"
    using content_area_replaced [OF t w(2)] by (simp add: gpu_view_def m s'_def)
  have "gpu_page_agrees c (pt_attributes (gm_page_table s') i) (pt_pointers (gm_page_table s') i)
      (pt_backing_addr (gm_page_table s') i)" if c: "gpu_view s' (65536 * i) = Some c" for i c
  proof (cases "gpu_in_pages w i")
    case True
    then have "c = gpu_cell w (65536 * i - unat (gv_base w))"
      using c w by (simp add: vw repaint_def gpu_in_pages_def)
    then show ?thesis using gpu_in_pages_here [OF w(3) True] by (simp add: s'_def)
  next
    case False
    then have "gpu_view s (65536 * i) = Some c" using c w by (auto simp: vw repaint_def gpu_in_pages_def)
    then have "gpu_page_agrees c (pt_attributes (gm_page_table s) i) (pt_pointers (gm_page_table s) i)
        (pt_backing_addr (gm_page_table s) i)" using ok unfolding gm_ok_def by blast
    then show ?thesis using False by (simp add: s'_def gpu_with_pages_def)
  qed
  moreover have "tiles gv_base gv_size 0 (pre @ (k, w) # post) 549755813888"
    using t w by (auto simp: tiles_append)
  moreover have "\<forall>p\<in>set (gm_map s'). gpu_area_ok (snd p)" using ok w(3) by (auto simp: gm_ok_def m s'_def)
  moreover have "pt_entries (gm_page_table s') = 8388608" by (simp add: s'_def gpu_with_pages_def ent)
  ultimately show "gm_ok s'" by (auto simp: gm_ok_def s'_def)
qed

text \<open>\<open>UnmapBuffer\<close> and the mapping operations end with a changed area that is merged.\<close>

lemma gpu_install_area:
  assumes ok: "gm_ok s" and m: "gm_map s = pre @ (k, v) # post"
    and ap: "apart gpu_unmapped pre" "apart gpu_unmapped post"
    and w: "gv_base w = k" "gv_size w = gv_size v" "gpu_area_ok w"
    and ba: "gv_type w \<noteq> GV_Mapped \<Longrightarrow> gv_backing_addr w = 0"
  shows "\<exists>s1 s' k' v' pre' post'. gpu_UpdatePageTableForVMA (s\<lparr>gm_map := put (gm_map s) k w\<rparr>) w = Some s1 \<and>
     gpu_MergeAdjacent s1 k = Some (s', k') \<and> gm_ok s' \<and> apart gpu_unmapped (gm_map s') \<and>
     gm_page_table s' = gpu_with_pages w (gm_page_table s) \<and>
     gpu_view s' = repaint (unat k) (unat k + unat (gv_size v)) (gpu_cell w) (gpu_view s) \<and>
     gm_map s' = pre' @ (k', v') # post' \<and> unat k' \<le> unat k \<and>
     unat k + unat (gv_size v) \<le> unat k' + unat (gv_size v')"
proof -
  note rep = gpu_replace_area [OF ok m w ba]
  let ?s1 = "s\<lparr>gm_map := pre @ (k, w) # post, gm_page_table := gpu_with_pages w (gm_page_table s)\<rparr>"
  obtain pre' k' v' post' where
    spec: "merge_spec gv_size gpu_set_size gpu_CanBeMergedWith pre k w post = (pre', k', v', post')"
    by (metis prod_cases4)
  have m1: "gm_map ?s1 = pre @ (k, w) # post" by simp
  note mg = gpu_MergeAdjacent_at [OF rep(2) m1 spec]
  have t: "tiles gv_base gv_size 0 (pre @ (k, w) # post) 549755813888" using rep(2) by (simp add: gm_ok_def)
  have cov: "unat k' \<le> unat k" "unat k + unat (gv_size v) \<le> unat k' + unat (gv_size v')"
    using gvma.merge_spec_covers [OF t _ spec] w(2) by simp_all
  have "apart gpu_unmapped (pre' @ (k', v') # post')"
    using galloc.merge_spec_apart [OF ap t _ spec] by simp
  then show ?thesis
    using rep(1,3) mg cov
    by (intro exI [of _ ?s1] exI [of _ "?s1\<lparr>gm_map := pre' @ (k', v') # post'\<rparr>"] exI [of _ k']
        exI [of _ v'] exI [of _ pre'] exI [of _ post']) simp
qed

subsection \<open>Carving\<close>

text \<open>The manager's invariant: it is well formed and no two neighbouring areas are unmapped.\<close>

definition gm_inv :: "GpuMemoryManager \<Rightarrow> bool" where
  "gm_inv s \<longleftrightarrow> gm_ok s \<and> apart gpu_unmapped (gm_map s)"

text \<open>A page-aligned range of the address space that lies in one area of the types \<open>T\<close>.\<close>

definition gpu_range :: "GPUVAddr \<Rightarrow> u64 \<Rightarrow> bool" where
  "gpu_range b n \<longleftrightarrow> 65536 dvd unat b \<and> 65536 dvd unat n \<and> 0 < unat n \<and>
     unat b + unat n \<le> 549755813888"

definition in_one_area :: "gpu_area_type set \<Rightarrow> GpuMemoryManager \<Rightarrow> GPUVAddr \<Rightarrow> u64 \<Rightarrow> bool" where
  "in_one_area T s b n \<longleftrightarrow> (\<exists>p\<in>set (gm_map s). gv_type (snd p) \<in> T \<and> unat (fst p) \<le> unat b \<and>
     unat b + unat n \<le> unat (fst p) + unat (gv_size (snd p)))"

lemma gpu_FindVMA_here:
  assumes ok: "gm_ok s" and m: "gm_map s = pre @ (k, v) # post"
    and a: "unat k \<le> unat a" "unat a < unat k + unat (gv_size v)"
  shows "gpu_FindVMA s a = Some (At k)"
proof -
  have "unat a < 549755813888" using a gm_ok_areas [OF ok m] by simp
  then obtain pre' k' v' post' where m': "gm_map s = pre' @ (k', v') # post'"
    and f: "gpu_FindVMA s a = Some (At k')" and k': "unat k' \<le> unat a" "unat a < unat k' + unat (gv_size v')"
    by (rule gpu_FindVMA_at [OF ok])
  have "tiles gv_base gv_size 0 (gm_map s) 549755813888" using ok by (simp add: gm_ok_def)
  then show ?thesis using area_unique [OF _ m m' a k'] f by simp
qed

lemma gpu_carve_splits:
  assumes ok: "gm_ok s" and m: "gm_map s = pre @ (k, v) # post"
    and r: "unat st < unat en" "unat en \<le> unat (gv_size v)" "65536 dvd unat st" "65536 dvd unat en"
  shows "\<exists>s1 s2 w pre' post'.
     (if en < gv_size v then map_option fst (gpu_SplitVMA s k en) else Some s) = Some s1 \<and>
     (if st \<noteq> 0 then gpu_SplitVMA s1 k st else Some (s1, k)) = Some (s2, k + st) \<and>
     gm_map s2 = pre' @ (k + st, w) # post' \<and> gv_size w = en - st \<and>
     gv_type w = gv_type v \<and> gm_ok s2 \<and> gpu_view s2 = gpu_view s \<and> gm_page_table s2 = gm_page_table s \<and>
     pre' = pre @ (if st = 0 then [] else [(k, gpu_set_size st v)]) \<and>
     post' = (if en = gv_size v then [] else [(k + en, gpu_split_rest en v)]) @ post"
proof -
  define v1 where "v1 = (if en = gv_size v then v else gpu_set_size en v)"
  define post1 where "post1 = (if en = gv_size v then [] else [(k + en, gpu_split_rest en v)]) @ post"
  define s1 where "s1 = s\<lparr>gm_map := pre @ (k, v1) # post1\<rparr>"
  have v1: "gv_size v1 = en" "gv_type v1 = gv_type v" "gpu_set_size x v1 = gpu_set_size x v" for x
    by (auto simp: v1_def gpu_set_size_def)
  have en: "0 < unat en" "en < gv_size v \<longleftrightarrow> en \<noteq> gv_size v"
    using r by (auto simp: word_less_nat_alt word_unat_eq_iff)
  have first: "(if en < gv_size v then map_option fst (gpu_SplitVMA s k en) else Some s) = Some s1 \<and>
      gm_ok s1 \<and> gpu_view s1 = gpu_view s"
  proof (cases "en = gv_size v")
    case True
    then have "s1 = s" using m by (simp add: s1_def v1_def post1_def)
    with True ok show ?thesis by simp
  next
    case False
    then have "unat en < unat (gv_size v)" using en(2) by (simp add: word_less_nat_alt)
    with gpu_SplitVMA_at [OF ok m en(1) _ r(4)] False en(2) show ?thesis
      by (simp add: s1_def v1_def post1_def)
  qed
  have m1: "gm_map s1 = pre @ (k, v1) # post1" by (simp add: s1_def)
  show ?thesis
  proof (cases "st = 0")
    case True
    then show ?thesis
      using first m1 v1(1,2)
      by (intro exI [of _ s1] exI [of _ v1] exI [of _ pre] exI [of _ post1])
        (simp add: s1_def post1_def)
  next
    case False
    have st: "0 < unat st" "unat st < unat (gv_size v1)" using False r v1(1) by (auto simp: unat_gt_0)
    note sp = gpu_SplitVMA_at [OF conjunct1 [OF conjunct2 [OF first]] m1 st r(3)]
    let ?s2 = "s1\<lparr>gm_map := pre @ (k, gpu_set_size st v1) # (k + st, gpu_split_rest st v1) # post1\<rparr>"
    have "gv_type (gpu_split_rest st v1) = gv_type v" "gv_size (gpu_split_rest st v1) = en - st"
      using v1 by (simp_all add: gpu_split_rest_def Let_def split: gpu_area_type.split)
    then show ?thesis
      using False first sp v1(3)
      by (intro exI [of _ s1] exI [of _ ?s2] exI [of _ "gpu_split_rest st v1"]
          exI [of _ "pre @ [(k, gpu_set_size st v)]"] exI [of _ post1])
        (simp add: s1_def post1_def)
  qed
qed

text \<open>Cutting a piece out of an area and making it something else keeps unmapped areas apart.\<close>

lemma gpu_apart_carved:
  assumes ap: "apart gpu_unmapped (pre @ (k, v) # post)"
  shows "apart gpu_unmapped (pre @ (if st = 0 then [] else [(k, gpu_set_size st v)]))"
    and "apart gpu_unmapped ((if en = gv_size v then [] else [(k', gpu_split_rest en v)]) @ post)"
proof -
  have "gpu_unmapped (gpu_set_size st v) = gpu_unmapped v" "gpu_unmapped (gpu_split_rest en v) = gpu_unmapped v"
    by (simp_all add: gpu_unmapped_def gpu_set_size_def gpu_split_rest_def Let_def split: gpu_area_type.split)
  then show "apart gpu_unmapped (pre @ (if st = 0 then [] else [(k, gpu_set_size st v)]))"
    and "apart gpu_unmapped ((if en = gv_size v then [] else [(k', gpu_split_rest en v)]) @ post)"
    using ap by (auto simp: apart_append apart_Cons)
qed

lemma gpu_CarveVMA_at:
  assumes inv: "gm_inv s" and r: "gpu_range b n" and one: "in_one_area {GV_Unmapped, GV_Allocated} s b n"
  shows "\<exists>s1 w pre post. gpu_CarveVMA s b n = Some (s1, b) \<and> gm_map s1 = pre @ (b, w) # post \<and>
     gv_size w = n \<and> gv_base w = b \<and> gv_type w \<noteq> GV_Mapped \<and> gm_ok s1 \<and> gpu_view s1 = gpu_view s \<and>
     gm_page_table s1 = gm_page_table s \<and> apart gpu_unmapped pre \<and> apart gpu_unmapped post"
proof -
  have ok: "gm_ok s" and ap: "apart gpu_unmapped (gm_map s)" using inv by (simp_all add: gm_inv_def)
  obtain pre k v post where m: "gm_map s = pre @ (k, v) # post" and ty: "gv_type v \<noteq> GV_Mapped"
    and k: "unat k \<le> unat b" "unat b + unat n \<le> unat k + unat (gv_size v)"
    using one by (auto simp: in_one_area_def dest: split_list)
  note v = gm_ok_areas [OF ok m]
  have f: "gpu_FindVMA s b = Some (At k)"
    using gpu_FindVMA_here [OF ok m k(1)] k(2) r by (simp add: gpu_range_def)
  have st: "unat (b - k) = unat b - unat k" using k(1) by (rule unat_sub_u64)
  have en: "unat (b - k + n) = unat b - unat k + unat n"
    using st k r unat_bound_u64 [of "gv_size v"] by (subst unat_add_u64) (auto simp: gpu_range_def)
  have al: "65536 dvd unat (b - k)" "65536 dvd unat (b - k + n)"
    using r v(1,4) st en by (auto simp: gpu_range_def gpu_area_ok_def dvd_diff_nat)
  have lt: "unat (b - k) < unat (b - k + n)" "unat (b - k + n) \<le> unat (gv_size v)"
    using st en k r by (auto simp: gpu_range_def)
  from gpu_carve_splits [OF ok m lt al] obtain s1 s2 w pre' post' where c:
    "(if b - k + n < gv_size v then map_option fst (gpu_SplitVMA s k (b - k + n)) else Some s) = Some s1"
    "(if b - k \<noteq> 0 then gpu_SplitVMA s1 k (b - k) else Some (s1, k)) = Some (s2, k + (b - k))"
    "gm_map s2 = pre' @ (k + (b - k), w) # post'" "gv_size w = b - k + n - (b - k)"
    "gv_type w = gv_type v" "gm_ok s2" "gpu_view s2 = gpu_view s" "gm_page_table s2 = gm_page_table s"
    and pp: "pre' = pre @ (if b - k = 0 then [] else [(k, gpu_set_size (b - k) v)])"
    "post' = (if b - k + n = gv_size v then [] else [(k + (b - k + n), gpu_split_rest (b - k + n) v)]) @ post"
    by blast
  have "gpu_CarveVMA s b n = Some (s2, b)"
    using r f gpu_map_of [OF ok m] ty v(1) lt(2) c(1,2)
    by (simp add: gpu_CarveVMA_def gpu_mask_dvd gpu_range_def Let_def word_le_nat_alt)
  moreover have "apart gpu_unmapped pre'" "apart gpu_unmapped post'"
    unfolding pp by (rule gpu_apart_carved [OF ap [unfolded m]])+
  moreover have "gv_base w = b" using gm_ok_areas(1) [OF c(6,3)] by simp
  ultimately show ?thesis
    using c ty
    by (intro exI [of _ s2] exI [of _ w] exI [of _ pre'] exI [of _ post']) simp
qed

text \<open>The two cuts of \<open>CarveVMARange\<close>, for a range inside one area that is not unmapped.\<close>

lemma gpu_type_parts [simp]:
  "gv_type (gpu_set_size n v) = gv_type v" "gv_type (gpu_split_rest n v) = gv_type v"
  "gv_size (gpu_set_size n v) = n" "gv_size (gpu_split_rest n v) = gv_size v - n"
  by (simp_all add: gpu_set_size_def gpu_split_rest_def Let_def split: gpu_area_type.split)

lemma gpu_cut:
  assumes inv: "gm_inv s" and m: "gm_map s = pre @ (k, v) # post" and ty: "gv_type v \<noteq> GV_Unmapped"
    and a: "unat k < unat a" "unat a < unat k + unat (gv_size v)" "65536 dvd unat a"
  defines "m' \<equiv> pre @ (k, gpu_set_size (a - k) v) # (a, gpu_split_rest (a - k) v) # post"
  shows "gpu_SplitVMA s k (a - k) = Some (s\<lparr>gm_map := m'\<rparr>, a)" and "gm_inv (s\<lparr>gm_map := m'\<rparr>)"
    and "gpu_view (s\<lparr>gm_map := m'\<rparr>) = gpu_view s" and "unat (a - k) = unat a - unat k"
proof -
  have ok: "gm_ok s" and ap: "apart gpu_unmapped (gm_map s)" using inv by (simp_all add: gm_inv_def)
  note v = gm_ok_areas [OF ok m]
  show u: "unat (a - k) = unat a - unat k" using a(1) by (simp add: unat_sub_u64)
  have d: "0 < unat (a - k)" "unat (a - k) < unat (gv_size v)" "65536 dvd unat (a - k)"
    using a u v(1,4) by (auto simp: gpu_area_ok_def dvd_diff_nat)
  have "apart gpu_unmapped m'"
    unfolding m'_def using ap ty by (intro apart_split [of _ v]) (auto simp: gpu_unmapped_def m)
  then show "gpu_SplitVMA s k (a - k) = Some (s\<lparr>gm_map := m'\<rparr>, a)" and "gm_inv (s\<lparr>gm_map := m'\<rparr>)"
    and "gpu_view (s\<lparr>gm_map := m'\<rparr>) = gpu_view s"
    using gpu_SplitVMA_at [OF ok m d] by (simp_all add: m'_def gm_inv_def)
qed

lemma gpu_cut_start:
  assumes inv: "gm_inv s" and m: "gm_map s = pre @ (k, v) # post" and ty: "gv_type v \<noteq> GV_Unmapped"
    and b: "unat k \<le> unat b" "unat b < unat k + unat (gv_size v)" "65536 dvd unat b"
  shows "\<exists>s1 pre1 v1. (if b \<noteq> gv_base v then gpu_SplitVMA s k (b - gv_base v) else Some (s, k)) = Some (s1, b) \<and>
     gm_map s1 = pre1 @ (b, v1) # post \<and> gv_type v1 = gv_type v \<and>
     unat b + unat (gv_size v1) = unat k + unat (gv_size v) \<and> gm_inv s1 \<and> gpu_view s1 = gpu_view s \<and>
     gm_page_table s1 = gm_page_table s"
proof (cases "b = k")
  case True
  then show ?thesis using inv m gm_ok_areas(1) [OF _ m] by (auto simp: gm_inv_def)
next
  case False
  then have lt: "unat k < unat b" using b(1) by (simp add: word_unat_eq_iff)
  note c = gpu_cut [OF inv m ty lt b(2,3)]
  have "unat (gv_size v - (b - k)) = unat (gv_size v) - (unat b - unat k)"
    using c(4) b by (subst unat_sub_u64) auto
  then show ?thesis
    using c False gm_ok_areas(1) [OF _ m] inv b
    by (intro exI [of _ "s\<lparr>gm_map := pre @ (k, gpu_set_size (b - k) v) # (b, gpu_split_rest (b - k) v) # post\<rparr>"]
        exI [of _ "pre @ [(k, gpu_set_size (b - k) v)]"] exI [of _ "gpu_split_rest (b - k) v"])
      (auto simp: gm_inv_def)
qed

lemma gpu_cut_end:
  assumes inv: "gm_inv s" and m: "gm_map s = pre @ (b, v) # post" and ty: "gv_type v \<noteq> GV_Unmapped"
    and r: "gpu_range b n" and n: "unat n \<le> unat (gv_size v)"
  shows "\<exists>s1 w post1. Option.bind (gpu_FindVMA s (b + n)) (case_iter
       (\<lambda>ke. do {
          end_vma \<leftarrow> map_of (gm_map s) ke;
          if b + n \<noteq> gv_base end_vma
          then map_option fst (gpu_SplitVMA s ke (b + n - gv_base end_vma)) else Some s
        }) (Some s)) = Some s1 \<and>
     gm_map s1 = pre @ (b, w) # post1 \<and> gv_type w = gv_type v \<and> gv_size w = n \<and> gm_inv s1 \<and>
     gpu_view s1 = gpu_view s \<and> gm_page_table s1 = gm_page_table s"
proof (cases "gv_size v = n")
  case True
  have ok: "gm_ok s" using inv by (simp add: gm_inv_def)
  have e: "unat (b + n) = unat b + unat n" using r by (simp add: gpu_range_def unat_add_u64)
  have "Option.bind (gpu_FindVMA s (b + n)) (case_iter
       (\<lambda>ke. do {
          end_vma \<leftarrow> map_of (gm_map s) ke;
          if b + n \<noteq> gv_base end_vma
          then map_option fst (gpu_SplitVMA s ke (b + n - gv_base end_vma)) else Some s
        }) (Some s)) = Some s"
  proof (cases "unat (b + n) < 549755813888")
    case False
    then show ?thesis using gm_end by (simp add: gpu_FindVMA_def word_le_nat_alt)
  next
    case lt: True
    have t: "tiles gv_base gv_size 0 (gm_map s) 549755813888" using ok by (simp add: gm_ok_def)
    then obtain q post' where q: "post = q # post'" using m lt e True by (cases post) (auto simp: tiles_append)
    then have fq: "fst q = b + n" "0 < unat (gv_size (snd q))"
      using t m True e by (auto simp: tiles_append word_unat_eq_iff)
    then have mq: "gm_map s = (pre @ [(b, v)]) @ (b + n, snd q) # post'" using m q by (cases q) simp
    have "gpu_FindVMA s (b + n) = Some (At (b + n))" using gpu_FindVMA_here [OF ok mq] fq by simp
    then show ?thesis using gpu_map_of [OF ok mq] gm_ok_areas(1) [OF ok mq] by simp
  qed
  then show ?thesis using inv m True by auto
next
  case False
  have ok: "gm_ok s" using inv by (simp add: gm_inv_def)
  have e: "unat (b + n) = unat b + unat n" using r by (simp add: gpu_range_def unat_add_u64)
  have lt: "unat n < unat (gv_size v)" using False n by (simp add: word_unat_eq_iff)
  then have a: "unat b < unat (b + n)" "unat (b + n) < unat b + unat (gv_size v)" "65536 dvd unat (b + n)"
    using r e by (auto simp: gpu_range_def)
  note c = gpu_cut [OF inv m ty a]
  have "gpu_FindVMA s (b + n) = Some (At b)" by (rule gpu_FindVMA_here [OF ok m]) (use a in auto)
  then show ?thesis
    using c gpu_map_of [OF ok m] gm_ok_areas(1) [OF ok m] a(1)
    by (intro exI [of _ "s\<lparr>gm_map := pre @ (b, gpu_set_size n v) # (b + n, gpu_split_rest n v) # post\<rparr>"]
        exI [of _ "gpu_set_size n v"] exI [of _ "(b + n, gpu_split_rest n v) # post"]) auto
qed

end
