(* ===== verification/Guest_Memory_Correct.thy ===== *)
theory Guest_Memory_Correct
  imports Guest_Memory Vm_Carve
begin

text \<open>
  Correctness of the CPU's memory accesses on a well-formed \<open>VMManager\<close>: whatever path an access
  takes, it ends at the host address that the areas give for the guest address (\<open>translate\<close>).
\<close>

definition cell_host :: "(nat \<Rightarrow> MemoryBlock) \<Rightarrow> vm_cell \<Rightarrow> host_ptr option" where
  "cell_host bl c =
     (case c_backing c of
        BlockAt b off \<Rightarrow> Some (blk_data (bl (the b)) + off)
      | HostAt p \<Rightarrow> Some p
      | _ \<Rightarrow> None)"

definition translate :: "VMManager \<Rightarrow> nat \<Rightarrow> host_ptr option" where
  "translate s a = Option.bind (view s a) (cell_host (vm_blocks s))"

definition device_at :: "VMManager \<Rightarrow> nat \<Rightarrow> bool" where
  "device_at s a \<longleftrightarrow> (case view s a of None \<Rightarrow> False | Some c \<Rightarrow> c_type c = VMA_MMIO)"

lemma cell_host_vma:
  "cell_host bl (vma_cell v i) =
     (if vma_type v \<in> {VMA_AllocatedMemoryBlock, VMA_BackingMemory}
      then Some (host_base bl v + of_nat i) else None)"
  by (simp add: cell_host_def vma_cell_def host_base_def add.assoc split: VMAType.split)

text \<open>An area that holds an address holds its whole page.\<close>

lemma page_of_area:
  assumes inv: "vm_inv s" and m: "vma_map s = pre @ (k, v) # post"
    and a: "unat k \<le> a" "a < unat k + unat (vma_size v)"
  shows "unat k \<le> 4096 * (a div 4096)" and "4096 * (a div 4096) + 4096 \<le> unat k + unat (vma_size v)"
proof -
  have "area_ok (vm_blocks s) v" "vma_base v = k" using vm_inv_areas [OF inv m] by auto
  then have "4096 dvd unat k" "4096 dvd unat k + unat (vma_size v)" by (auto simp: area_ok_def)
  then obtain x y where x: "unat k = 4096 * x" and y: "unat k + unat (vma_size v) = 4096 * y"
    by (auto elim!: dvdE)
  from a(1) x have "x \<le> a div 4096" by (simp add: less_eq_div_iff_mult_less_eq mult.commute)
  then show "unat k \<le> 4096 * (a div 4096)" using x by simp
  from a(2) y have "a div 4096 < y" by (simp add: div_less_iff_less_mult mult.commute)
  then show "4096 * (a div 4096) + 4096 \<le> unat k + unat (vma_size v)" using y by simp
qed

lemma area_of:
  assumes "vm_inv s" and "a < unat (address_space_end s)"
  obtains pre k v post where "vma_map s = pre @ (k, v) # post" and "unat k \<le> a"
    and "a < unat k + unat (vma_size v)"
proof -
  have "a < 18446744073709551616" using assms(2) unat_bound_u64 [of "address_space_end s"] by simp
  then have a: "unat (of_nat a :: u64) = a" by (simp add: unat_of_nat)
  with assms(2) have "unat (of_nat a :: u64) < unat (address_space_end s)" by simp
  from FindVMA_at [OF assms(1) this] show thesis using that a by metis
qed

text \<open>The addresses of a page are alike.\<close>

lemma same_page:
  assumes inv: "vm_inv s" and x: "x < unat (address_space_end s)" and xy: "x div 4096 = y div 4096"
  shows "y < unat (address_space_end s) \<and> device_at s y = device_at s x"
proof -
  obtain pre k v post where m: "vma_map s = pre @ (k, v) # post" and k: "unat k \<le> x"
    "x < unat k + unat (vma_size v)" by (rule area_of [OF inv x])
  have "y = 4096 * (x div 4096) + y mod 4096" using xy by simp
  moreover have "y mod 4096 < 4096" by simp
  ultimately have y: "unat k \<le> y" "y < unat k + unat (vma_size v)"
    using page_of_area [OF inv m k] by linarith+
  then show ?thesis
    using view_at [OF inv m k] view_at [OF inv m y] vm_inv_areas(3) [OF inv m]
    by (simp add: device_at_def vma_cell_def)
qed

lemma page_index:
  fixes a :: u64
  shows "unat (drop_bit PAGE_BITS a) = unat a div 4096" and "unat (a AND PAGE_MASK) = unat a mod 4096"
  using unat_and_mask [of a 12]
  by (simp_all add: PAGE_BITS_def unat_drop_bit PAGE_MASK_def mask_eq_exp_minus_1 take_bit_eq_mod)

text \<open>What the page table and the areas say of a page, together.\<close>

lemma page_lookup:
  assumes inv: "vm_inv s" and a: "unat a < unat (address_space_end s)"
  shows "\<exists>p ty. page_pointer (vm_page_table s) (drop_bit PAGE_BITS a) = Some p \<and>
    page_attribute (vm_page_table s) (drop_bit PAGE_BITS a) = Some ty \<and>
    (case translate s (unat a) of
       Some hp \<Rightarrow> \<not> device_at s (unat a) \<and> \<not> free_at s (unat a) \<and> hp \<noteq> 0 \<and> GetPointerFromVMA s a = Some hp \<and>
         (ty = PT_Memory \<and> p \<noteq> 0 \<and> p + (a AND PAGE_MASK) = hp \<or> ty = PT_RasterizerCachedMemory \<and> p = 0)
     | None \<Rightarrow> p = 0 \<and> (if device_at s (unat a) then ty = PT_Special
         else free_at s (unat a) \<and> ty = PT_Unmapped \<and> GetPointerFromVMA s a = Some 0))"
proof -
  obtain pre k v post where m: "vma_map s = pre @ (k, v) # post" and f: "FindVMA s a = Some (At k)"
    and k: "unat k \<le> unat a" "unat a < unat k + unat (vma_size v)" and mo: "map_of (vma_map s) k = Some v"
    by (rule FindVMA_at [OF inv a])
  note v = vm_inv_areas [OF inv m]
  define q where "q = 4096 * (unat a div 4096)"
  have q: "unat k \<le> q" "q + 4096 \<le> unat k + unat (vma_size v)" "q + unat a mod 4096 = unat a"
    using page_of_area [OF inv m k] by (simp_all add: q_def)
  have ent: "unat a div 4096 < pt_entries (vm_page_table s)"
    using inv a by (simp add: vm_inv_def div_less_iff_less_mult mult.commute)
  have va: "view s (unat a) = Some (vma_cell v (unat a - unat k))"
    and vq: "view s q = Some (vma_cell v (q - unat k))"
    using view_at [OF inv m] k q by auto
  have agree: "page_agrees (vm_blocks s) (vma_cell v (q - unat k))
      (pt_attributes (vm_page_table s) (unat a div 4096)) (pt_pointers (vm_page_table s) (unat a div 4096))"
    using inv vq unfolding vm_inv_def pages_agree_def q_def by blast
  have off: "a - vma_base v = of_nat (unat a - unat k)"
    using k(1) v(1) by (simp add: of_nat_diff)
  have split: "(of_nat (unat a - unat k) :: u64) = of_nat (q - unat k) + (a AND PAGE_MASK)"
  proof -
    have "unat a - unat k = (q - unat k) + unat (a AND PAGE_MASK)"
      using q by (simp add: page_index(2))
    then show ?thesis by (simp only: of_nat_add) simp
  qed
  have pos: "host_base (vm_blocks s) v + of_nat i \<noteq> 0"
    if "vma_type v \<in> {VMA_AllocatedMemoryBlock, VMA_BackingMemory}" "i < unat (vma_size v)" for i
  proof -
    have "0 < unat (host_base (vm_blocks s) v)"
      "unat (host_base (vm_blocks s) v) + unat (vma_size v) < 18446744073709551616"
      using v(4) that(1) by (auto simp: area_ok_def)
    with that(2) have "unat (host_base (vm_blocks s) v + of_nat i) \<noteq> 0"
      by (subst unat_add_u64) (simp_all add: unat_of_nat)
    then show ?thesis by (metis unat_0)
  qed
  have type: "device_at s (unat a) \<longleftrightarrow> vma_type v = VMA_MMIO" "free_at s (unat a) \<longleftrightarrow> vma_type v = VMA_Free"
    by (simp_all add: device_at_def free_at_def va vma_cell_def)
  have tr: "translate s (unat a) = (if vma_type v \<in> {VMA_AllocatedMemoryBlock, VMA_BackingMemory}
      then Some (host_base (vm_blocks s) v + of_nat (unat a - unat k)) else None)"
    by (simp add: translate_def va cell_host_vma)
  have gp: "GetPointerFromVMA s a = (if vma_type v = VMA_MMIO then None
      else if vma_type v = VMA_Free then Some 0
      else Some (host_base (vm_blocks s) v + of_nat (unat a - unat k)))"
    using f mo v(4) off
    by (cases "vma_type v") (auto simp: GetPointerFromVMA_def deref_def host_base_def area_ok_def)
  show ?thesis
    using ent agree pos [of "unat a - unat k"] pos [of "q - unat k"] k q
    by (cases "vma_type v")
      (auto simp: page_pointer_def page_attribute_def page_index tr type gp split page_agrees_def
        vma_cell_def memory_page_def host_base_def add.assoc)
qed

subsection \<open>Pointers and single values\<close>

lemma GetPointer_at:
  assumes "vm_inv s" and "unat a < unat (address_space_end s)"
  shows "GetPointer s a = Some (case translate s (unat a) of Some p \<Rightarrow> p | None \<Rightarrow> 0)"
  using page_lookup [OF assms] by (auto simp: GetPointer_def split: option.splits if_splits)

text \<open>
  \<^bold>\<open>C6\<close>. On a well-formed manager and for any address of the address space,
  \<open>GetPointer\<close> gives the host address that the areas assign to the guest address, and the
  null pointer when there is none, whether or not the rasterizer has marked the page as cached;
  and \<open>IsValidVirtualAddress\<close> says whether there is one.
\<close>

theorem GetPointer_correct:
  assumes "vm_ok s" and "unat a < unat (address_space_end s)"
  shows "GetPointer s a = Some (case translate s (unat a) of Some p \<Rightarrow> p | None \<Rightarrow> 0) \<and>
         IsValidVirtualAddress s a = Some (translate s (unat a) \<noteq> None)"
proof -
  have inv: "vm_inv s" using assms(1) by (simp add: vm_ok_def)
  have "IsValidVirtualAddress s a = Some (translate s (unat a) \<noteq> None)"
    using page_lookup [OF inv assms(2)]
    by (auto simp: IsValidVirtualAddress_def split: option.splits if_splits)
  then show ?thesis using GetPointer_at [OF inv assms(2)] by simp
qed

text \<open>The GPU has nothing to write back to, and nothing to discard from, host memory.\<close>

definition gpu_idle :: "gpu_cache \<Rightarrow> bool" where
  "gpu_idle gpu \<longleftrightarrow> (\<forall>p n h. flush_region gpu p n h = h \<and> invalidate_region gpu p n h = h)"

lemma Memory_Read_at:
  assumes "vm_inv s" and "unat a < unat (address_space_end s)" and "translate s (unat a) = Some p"
    and "gpu_idle gpu"
  shows "Memory_Read gpu s h a n = Some (h, host_read h p n)"
  using page_lookup [OF assms(1,2)] assms(3,4)
  by (auto simp: Memory_Read_def nonnull_def gpu_idle_def)

lemma Memory_Write_at:
  assumes "vm_inv s" and "unat a < unat (address_space_end s)" and "translate s (unat a) = Some p"
    and "gpu_idle gpu"
  shows "Memory_Write gpu s h a bs = Some (host_write p bs h)"
  using page_lookup [OF assms(1,2)] assms(3,4)
  by (auto simp: Memory_Write_def nonnull_def gpu_idle_def)

text \<open>
  \<^bold>\<open>C7\<close>. A value of any of the four widths that is written to a mapped address, of an
  ordinary or of a rasterizer-cached page, is read back unchanged.
\<close>

theorem Read_after_Write:
  assumes "vm_ok s" and "unat a < unat (address_space_end s)" and "translate s (unat a) \<noteq> None"
    and "gpu_idle gpu"
  shows "(\<exists>h'. Write8 gpu s h a w = Some h' \<and> Read8 gpu s h' a = Some (h', w)) \<and>
    (\<exists>h'. Write16 gpu s h a x = Some h' \<and> Read16 gpu s h' a = Some (h', x)) \<and>
    (\<exists>h'. Write32 gpu s h a y = Some h' \<and> Read32 gpu s h' a = Some (h', y)) \<and>
    (\<exists>h'. Write64 gpu s h a z = Some h' \<and> Read64 gpu s h' a = Some (h', z))"
proof -
  obtain p where p: "translate s (unat a) = Some p" using assms(3) by blast
  have inv: "vm_inv s" using assms(1) by (simp add: vm_ok_def)
  have rw: "\<exists>h'. Memory_Write gpu s h a bs = Some h' \<and> Memory_Read gpu s h' a (length bs) = Some (h', bs)"
    if "length bs < 18446744073709551616" for bs
    using Memory_Write_at [OF inv assms(2) p assms(4)] Memory_Read_at [OF inv assms(2) p assms(4)]
      host_read_write [OF that] by simp
  show ?thesis
    using rw [of "le_bytes 1 w"] rw [of "le_bytes 2 x"] rw [of "le_bytes 4 y"] rw [of "le_bytes 8 z"]
    by (auto simp: Write8_def Write16_def Write32_def Write64_def Read8_def Read16_def Read32_def
        Read64_def le_value_bytes)
qed

subsection \<open>Marking pages\<close>

definition marked_type :: "bool \<Rightarrow> PageType \<Rightarrow> PageType" where
  "marked_type cached ty =
     (if ty = PT_Unmapped then PT_Unmapped else if cached then PT_RasterizerCachedMemory else PT_Memory)"

lemma page_start:
  fixes a :: u64
  shows "unat (a AND NOT PAGE_MASK) = 4096 * (unat a div 4096)"
proof -
  have "a AND NOT PAGE_MASK = a - (a AND PAGE_MASK)"
    by (subst disjunctive_diff)
      (auto simp: bit_and_iff bit_or_iff bit_not_iff intro!: bit_word_eqI)
  then have "unat (a AND NOT PAGE_MASK) = unat a - unat a mod 4096"
    by (simp add: unat_sub_u64 page_index(2))
  then show ?thesis by (simp add: minus_mod_eq_mult_div)
qed

lemma page_set:
  assumes inv: "vm_inv s"
    and page: "\<And>c. view s (4096 * i) = Some c \<Longrightarrow> page_agrees (vm_blocks s) c ty p"
  defines "s' \<equiv> s\<lparr>vm_page_table := (vm_page_table s)
    \<lparr>pt_attributes := (pt_attributes (vm_page_table s))(i := ty),
     pt_pointers := (pt_pointers (vm_page_table s))(i := p)\<rparr>\<rparr>"
  shows "vm_inv s'" and "same_layout s s'"
proof -
  have "view s' = view s" by (simp add: s'_def view_def)
  then show "vm_inv s'" using inv page by (auto simp: vm_inv_def pages_agree_def s'_def)
  show "same_layout s s'" by (simp add: same_layout_def s'_def)
qed

lemma page_agrees_memory:
  "cell_host bl c = Some hp \<Longrightarrow> page_agrees bl c ty p \<longleftrightarrow> memory_page hp ty p"
  by (auto simp: cell_host_def page_agrees_def split: backing.splits)

lemma mark_page_at:
  assumes ok: "vm_ok s" and a: "unat a < unat (address_space_end s)" and nd: "\<not> device_at s (unat a)"
  shows "\<exists>s'. mark_page s a cached = Some s' \<and> vm_ok s' \<and> same_layout s s' \<and> vma_map s' = vma_map s \<and>
    pt_attributes (vm_page_table s') = (pt_attributes (vm_page_table s))
      (unat a div 4096 := marked_type cached (pt_attributes (vm_page_table s) (unat a div 4096)))"
proof -
  have inv: "vm_inv s" and ap: "apart freed (vma_map s)" using ok by (auto simp: vm_ok_def)
  define b where "b = a AND NOT PAGE_MASK"
  define i where "i = unat a div 4096"
  have ub: "unat b = 4096 * i" by (simp add: b_def i_def page_start)
  have b: "unat b < unat (address_space_end s)" using a by (simp add: ub i_def)
  have same: "drop_bit PAGE_BITS b = drop_bit PAGE_BITS a"
    by (rule word_eq_unatI) (simp add: page_index(1) ub i_def)
  note la = page_lookup [OF inv a] and lb = page_lookup [OF inv b, unfolded same]
  obtain p ty where pty: "page_pointer (vm_page_table s) (drop_bit PAGE_BITS a) = Some p"
    "page_attribute (vm_page_table s) (drop_bit PAGE_BITS a) = Some ty" using la by blast
  have ty: "ty = pt_attributes (vm_page_table s) i" "p = pt_pointers (vm_page_table s) i"
    using pty by (auto simp: page_attribute_def page_pointer_def page_index i_def split: if_splits)
  have types: "ty \<in> {PT_Unmapped, PT_Memory, PT_RasterizerCachedMemory}"
    using la pty nd by (auto split: option.splits)
  have idx: "unat (drop_bit PAGE_BITS a) = i" by (simp add: page_index i_def)
  show ?thesis
  proof (cases "ty = PT_Unmapped \<or> ty = marked_type cached ty")
    case True
    then have "mark_page s a cached = Some s"
      using pty types by (auto simp: mark_page_def marked_type_def Let_def split: if_splits)
    moreover have "marked_type cached ty = ty" using True by (auto simp: marked_type_def)
    ultimately show ?thesis using ok ty by (simp add: i_def)
  next
    case False
    then obtain hp where hp: "translate s (unat b) = Some hp" "hp \<noteq> 0" "GetPointerFromVMA s b = Some hp"
      using lb pty types by (auto simp: marked_type_def split: option.splits if_splits)
    have page: "page_agrees (vm_blocks s) c (marked_type cached ty) (if cached then 0 else hp)"
      if "view s (4096 * i) = Some c" for c
      using that hp(1) False page_agrees_memory [of "vm_blocks s" c hp]
      by (auto simp: translate_def ub memory_page_def marked_type_def)
    note ps = page_set [OF inv page, of i]
    have "mark_page s a cached = Some (s\<lparr>vm_page_table := (vm_page_table s)
        \<lparr>pt_attributes := (pt_attributes (vm_page_table s))(i := marked_type cached ty),
         pt_pointers := (pt_pointers (vm_page_table s))(i := if cached then 0 else hp)\<rparr>\<rparr>)"
      using False types pty hp by (auto simp: mark_page_def marked_type_def idx b_def Let_def)
    then show ?thesis using ps ap ty by (auto simp: vm_ok_def i_def)
  qed
qed

text \<open>The loop, for a number of pages that the 32-bit counter can count.\<close>

lemma mark_loop_at:
  assumes "vm_ok s" and "unat i + k = unat n" and "unat n < 4294967296"
    and "\<And>j. j < k \<Longrightarrow> unat a + 4096 * j < unat (address_space_end s) \<and> \<not> device_at s (unat a + 4096 * j)"
  shows "\<exists>s'. mark_loop i n cached a s = Some s' \<and> vm_ok s' \<and> same_layout s s' \<and> vma_map s' = vma_map s \<and>
    pt_attributes (vm_page_table s') =
      (\<lambda>q. if unat a div 4096 \<le> q \<and> q < unat a div 4096 + k
           then marked_type cached (pt_attributes (vm_page_table s) q)
           else pt_attributes (vm_page_table s) q)"
  using assms
proof (induction k arbitrary: i a s)
  case 0
  then have "\<not> (ucast i :: u64) < n" by (simp add: word_less_nat_alt unat_u32_u64)
  with 0 show ?case by (subst mark_loop.simps) (auto simp: fun_eq_iff)
next
  case (Suc k)
  have lt: "(ucast i :: u64) < n" using Suc.prems(2) by (simp add: word_less_nat_alt unat_u32_u64)
  have a: "unat a < unat (address_space_end s)" "\<not> device_at s (unat a)" using Suc.prems(4) [of 0] by auto
  obtain s1 where s1: "mark_page s a cached = Some s1" "vm_ok s1" "same_layout s s1" "vma_map s1 = vma_map s"
    "pt_attributes (vm_page_table s1) = (pt_attributes (vm_page_table s))
      (unat a div 4096 := marked_type cached (pt_attributes (vm_page_table s) (unat a div 4096)))"
    using mark_page_at [OF Suc.prems(1) a] by blast
  have i1: "unat (i + 1) = unat i + 1"
    using Suc.prems(2,3) by (simp add: unat_add_u32)
  have step: "mark_loop i n cached a s = mark_loop (i + 1) n cached (a + PAGE_SIZE) s1"
    using lt s1(1) by (subst mark_loop.simps) simp
  show ?case
  proof (cases "k = 0")
    case True
    then have "\<not> (ucast (i + 1) :: u64) < n"
      using Suc.prems(2) i1 by (simp add: word_less_nat_alt unat_u32_u64)
    then have "mark_loop (i + 1) n cached (a + PAGE_SIZE) s1 = Some s1" by (subst mark_loop.simps) simp
    then show ?thesis using step s1 True by (auto simp: fun_eq_iff)
  next
    case False
    have "unat a + 4096 < 18446744073709551616"
      using Suc.prems(4) [of 1] False unat_bound_u64 [of "address_space_end s"] by simp
    then have a1: "unat (a + PAGE_SIZE) = unat a + 4096" by (simp add: unat_add_u64 PAGE_SIZE_def)
    have same: "address_space_end s1 = address_space_end s" "device_at s1 = device_at s"
      using s1(3,4) by (auto simp: same_layout_def device_at_def view_def fun_eq_iff)
    obtain s' where "mark_loop (i + 1) n cached (a + PAGE_SIZE) s1 = Some s'" "vm_ok s'" "same_layout s1 s'"
      "vma_map s' = vma_map s1" "pt_attributes (vm_page_table s') =
      (\<lambda>q. if unat (a + PAGE_SIZE) div 4096 \<le> q \<and> q < unat (a + PAGE_SIZE) div 4096 + k
           then marked_type cached (pt_attributes (vm_page_table s1) q)
           else pt_attributes (vm_page_table s1) q)"
      using Suc.IH [OF s1(2), of "i + 1" "a + PAGE_SIZE"] Suc.prems(2,3) Suc.prems(4) [of "Suc _"] i1 a1 same
      by (auto simp: algebra_simps)
    then show ?thesis
      using step s1 same_layout_trans [OF s1(3)] by (auto simp: a1 fun_eq_iff)
  qed
qed

text \<open>
  \<^bold>\<open>C8\<close>. Marking a region of the address space that holds no device as cached or as
  uncached comes back, keeps the manager well formed and what every address is, changes the
  type of exactly the pages that the region touches, and therefore (by the well-formedness) no
  translation: mapped pages become cached, or ordinary again with the pointer restored, and
  unmapped pages stay unmapped.
\<close>

theorem RasterizerMarkRegionCached_correct:
  assumes ok: "vm_ok s" and a: "0 < unat a" and n: "0 < unat n"
    and fit: "unat a + unat n \<le> unat (address_space_end s)" and small: "unat (address_space_end s) \<le> 2 ^ 39"
    and nd: "\<And>x. unat a \<le> x \<Longrightarrow> x < unat a + unat n \<Longrightarrow> \<not> device_at s x"
  shows "\<exists>s'. RasterizerMarkRegionCached s a n cached = Some s' \<and> vm_ok s' \<and> same_layout s s' \<and>
    view s' = view s \<and> translate s' = translate s \<and>
    (\<forall>q. pt_attributes (vm_page_table s') q =
      (if unat a div 4096 \<le> q \<and> q \<le> (unat a + unat n - 1) div 4096
       then marked_type cached (pt_attributes (vm_page_table s) q)
       else pt_attributes (vm_page_table s) q))"
proof -
  have inv: "vm_inv s" using ok by (simp add: vm_ok_def)
  define first where "first = unat a div 4096"
  define last where "last = (unat a + unat n - 1) div 4096"
  define k where "k = last - first + 1"
  have le: "first \<le> last" using n by (auto simp: first_def last_def intro: div_le_mono)
  have "a + n - 1 = a + (n - 1)" by simp
  also have "unat \<dots> = unat a + unat n - 1"
    using n fit unat_bound_u64 [of "address_space_end s"] by (simp add: unat_add_u64 unat_sub_u64)
  finally have e: "unat (drop_bit PAGE_BITS (a + n - 1)) = last" by (simp add: page_index last_def)
  have f: "unat (drop_bit PAGE_BITS a) = first" by (simp add: page_index first_def)
  have "last \<le> 2 ^ 39 div 4096" unfolding last_def using fit small by (intro div_le_mono) simp
  then have lastb: "last \<le> 134217728" by simp
  have pages: "unat (drop_bit PAGE_BITS (a + n - 1) - drop_bit PAGE_BITS a + 1) = k"
    using e f le lastb by (simp add: unat_add_u64 unat_sub_u64 k_def)
  have page: "unat a + 4096 * j < unat (address_space_end s) \<and> \<not> device_at s (unat a + 4096 * j)"
    if j: "j < k" for j
  proof (cases "unat a + 4096 * j < unat a + unat n")
    case True
    with nd fit show ?thesis by simp
  next
    case False
    have "(unat a + 4096 * j) div 4096 = first + j" by (simp add: first_def)
    moreover have "last \<le> (unat a + 4096 * j) div 4096"
      unfolding last_def using False n by (intro div_le_mono) simp
    ultimately have "(unat a + 4096 * j) div 4096 = last" using j le unfolding k_def by linarith
    then have "(unat a + 4096 * j) div 4096 = (unat a + unat n - 1) div 4096" unfolding last_def .
    with same_page [OF inv _ this [symmetric]] nd n fit show ?thesis by simp
  qed
  have small_k: "k < 4294967296" using lastb by (simp add: k_def)
  obtain s' where s': "mark_loop 0 (drop_bit PAGE_BITS (a + n - 1) - drop_bit PAGE_BITS a + 1) cached a s = Some s'"
    "vm_ok s'" "same_layout s s'" "vma_map s' = vma_map s"
    "pt_attributes (vm_page_table s') = (\<lambda>q. if first \<le> q \<and> q < first + k
           then marked_type cached (pt_attributes (vm_page_table s) q) else pt_attributes (vm_page_table s) q)"
    using mark_loop_at [OF ok _ _ page, where i = 0
        and n = "drop_bit PAGE_BITS (a + n - 1) - drop_bit PAGE_BITS a + 1"]
      pages small_k by (auto simp: first_def)
  have "view s' = view s" using s'(4) by (simp add: view_def)
  moreover from this have "translate s' = translate s"
    using s'(3) by (intro ext) (simp add: translate_def same_layout_def)
  moreover have "a \<noteq> 0" using a by auto
  moreover have "q < first + k \<longleftrightarrow> q \<le> last" for q using le by (auto simp: k_def)
  ultimately show ?thesis
    unfolding first_def [symmetric] last_def [symmetric]
    using s' by (simp add: RasterizerMarkRegionCached_def)
qed

end
