(* ===== verification/Gpu_Map_Correct.thy ===== *)
theory Gpu_Map_Correct
  imports Gpu_Memory_Correct Guest_Memory_Correct
begin

text \<open>
  Correctness of the operations of \<open>Tegra::MemoryManager\<close> that change the GPU's address space:
  construction, allocation, mapping of a CPU buffer and unmapping. Each keeps the invariant
  \<open>gm_inv\<close> and repaints exactly the addresses of its range; after a mapping the page table
  translates every address of the range to the CPU address and to the host address it stands for.
\<close>

lemma gpu_CarveVMARange_at:
  assumes inv: "gm_inv s" and r: "gpu_range b n" and one: "in_one_area {GV_Allocated, GV_Mapped} s b n"
  shows "\<exists>s1 pre w post. gpu_CarveVMARange s b n = Some (s1, b) \<and> gm_map s1 = pre @ (b, w) # post \<and>
     gv_type w \<noteq> GV_Unmapped \<and> gv_size w = n \<and> gm_inv s1 \<and> gpu_view s1 = gpu_view s \<and>
     gm_page_table s1 = gm_page_table s"
proof -
  have ok: "gm_ok s" using inv by (simp add: gm_inv_def)
  obtain pre k v post where m: "gm_map s = pre @ (k, v) # post" and ty: "gv_type v \<noteq> GV_Unmapped"
    and k: "unat k \<le> unat b" "unat b + unat n \<le> unat k + unat (gv_size v)"
    using one by (auto simp: in_one_area_def dest: split_list)
  have b: "unat b < unat k + unat (gv_size v)" "65536 dvd unat b" using k r by (auto simp: gpu_range_def)
  have e: "unat (b + n) = unat b + unat n" using r by (simp add: gpu_range_def unat_add_u64)
  have f: "gpu_FindVMA s b = Some (At k)" by (rule gpu_FindVMA_here [OF ok m k(1) b(1)])
  have t: "tiles gv_base gv_size 0 (gm_map s) 549755813888" using ok by (simp add: gm_ok_def)
  then have tpost: "tiles gv_base gv_size (unat k + unat (gv_size v)) post 549755813888"
    and tpre: "tiles gv_base gv_size 0 pre (unat k)" by (auto simp: m tiles_append)
  have checked: "gv_type (snd q) \<noteq> GV_Unmapped"
    if q: "q \<in> set (entries_between (gm_map s) (At k) (lower_bound (gm_map s) (b + n)))" for q
  proof -
    have "q \<in> set (gm_map s)" "unat k \<le> unat (fst q)" "unat (fst q) < unat b + unat n"
      using q lower_bound_less [OF tiles_map_ok [OF t], of q "b + n"] e
      by (auto simp: entries_between_def word_le_nat_alt word_less_nat_alt)
    then have "q = (k, v)"
      using tiles_keys(2,4) [OF tpre, of q] tiles_keys(1) [OF tpost, of q] k(2) by (auto simp: m)
    then show ?thesis using ty by simp
  qed
  obtain s1 pre1 v1 where s1:
    "(if b \<noteq> gv_base v then gpu_SplitVMA s k (b - gv_base v) else Some (s, k)) = Some (s1, b)"
    "gm_map s1 = pre1 @ (b, v1) # post" "gv_type v1 = gv_type v"
    "unat b + unat (gv_size v1) = unat k + unat (gv_size v)" "gm_inv s1" "gpu_view s1 = gpu_view s"
    "gm_page_table s1 = gm_page_table s"
    using gpu_cut_start [OF inv m ty k(1) b] by blast
  have ty1: "gv_type v1 \<noteq> GV_Unmapped" and n1: "unat n \<le> unat (gv_size v1)" using s1(3,4) ty k(2) by auto
  from gpu_cut_end [OF s1(5,2) ty1 r n1] obtain s2 w post2 where s2:
    "Option.bind (gpu_FindVMA s1 (b + n)) (case_iter
       (\<lambda>ke. do {
          end_vma \<leftarrow> map_of (gm_map s1) ke;
          if b + n \<noteq> gv_base end_vma
          then map_option fst (gpu_SplitVMA s1 ke (b + n - gv_base end_vma)) else Some s1
        }) (Some s1)) = Some s2"
    "gm_map s2 = pre1 @ (b, w) # post2" "gv_type w = gv_type v1" "gv_size w = n" "gm_inv s2"
    "gpu_view s2 = gpu_view s1" "gm_page_table s2 = gm_page_table s1" by blast
  have "gpu_CarveVMARange s b n = Some (s2, b)"
    using r e f checked gpu_map_of [OF ok m] s1(1) s2(1)
    by (auto simp: gpu_CarveVMARange_def gpu_mask_dvd gpu_range_def Let_def word_le_nat_alt
        word_less_nat_alt Option.bind_eq_Some_conv split: iter.splits)
  then show ?thesis
    using s1 s2 ty by (intro exI [of _ s2] exI [of _ pre1] exI [of _ w] exI [of _ post2]) simp
qed

subsection \<open>The operations on areas\<close>

lemma gpu_Allocate_at:
  assumes ok: "gm_ok s" and m: "gm_map s = pre @ (k, v) # post"
    and ap: "apart gpu_unmapped pre" "apart gpu_unmapped post"
  shows "\<exists>s' pre' k' v' post'. gpu_Allocate s k = Some (s', k') \<and> gm_inv s' \<and>
     gpu_view s' = repaint (unat k) (unat k + unat (gv_size v)) (\<lambda>_. (GV_Allocated, 0)) (gpu_view s) \<and>
     gm_map s' = pre' @ (k', v') # post' \<and> unat k' \<le> unat k \<and>
     unat k + unat (gv_size v) \<le> unat k' + unat (gv_size v')"
proof -
  let ?w = "allocated_area v"
  note v = gm_ok_areas [OF ok m]
  have w: "gv_base ?w = k" "gv_size ?w = gv_size v" "gpu_area_ok ?w" "gv_backing_addr ?w = 0"
    "gpu_cell ?w = (\<lambda>_. (GV_Allocated, 0))"
    using v by (auto simp: allocated_area_def gpu_area_ok_def gpu_cell_def)
  obtain s1 s' k' v' pre' post' where
    upd: "gpu_UpdatePageTableForVMA (s\<lparr>gm_map := put (gm_map s) k ?w\<rparr>) ?w = Some s1"
    and mrg: "gpu_MergeAdjacent s1 k = Some (s', k')" and s': "gm_ok s'" "apart gpu_unmapped (gm_map s')"
    "gpu_view s' = repaint (unat k) (unat k + unat (gv_size v)) (gpu_cell ?w) (gpu_view s)"
    "gm_map s' = pre' @ (k', v') # post'" "unat k' \<le> unat k"
    "unat k + unat (gv_size v) \<le> unat k' + unat (gv_size v')"
    using gpu_install_area [OF ok m ap w(1-3)] w(4) by blast
  have "gpu_Allocate s k = Some (s', k')"
    using gpu_map_of [OF ok m] upd mrg by (simp add: gpu_Allocate_def Let_def)
  then show ?thesis using s' w(5) by (auto simp: gm_inv_def)
qed

lemma gpu_AllocateMemory_at:
  assumes "gm_inv s" and "gpu_range b n" and "in_one_area {GV_Unmapped, GV_Allocated} s b n"
  shows "\<exists>s' k. gpu_AllocateMemory s b offset n = Some (s', k) \<and> gm_inv s' \<and>
     gpu_view s' = repaint (unat b) (unat b + unat n) (\<lambda>_. (GV_Allocated, 0)) (gpu_view s)"
proof -
  obtain s1 w pre post where s1: "gpu_CarveVMA s b n = Some (s1, b)" "gm_map s1 = pre @ (b, w) # post"
    "gv_size w = n" "gv_base w = b" "gv_type w \<noteq> GV_Mapped" "gm_ok s1" "gpu_view s1 = gpu_view s"
    and ap: "apart gpu_unmapped pre" "apart gpu_unmapped post"
    using gpu_CarveVMA_at [OF assms] by blast
  let ?w = "w\<lparr>gv_offset := offset\<rparr>" and ?s = "s1\<lparr>gm_map := pre @ (b, w\<lparr>gv_offset := offset\<rparr>) # post\<rparr>"
  have t: "tiles gv_base gv_size 0 (pre @ (b, w) # post) 549755813888" using s1(2,6) by (simp add: gm_ok_def)
  have put: "put (gm_map s1) b ?w = pre @ (b, ?w) # post"
    using put_at [OF tiles_map_ok [OF t]] by (simp add: s1(2))
  have cell: "gpu_cell ?w = gpu_cell w" by (simp add: gpu_cell_def fun_eq_iff)
  have t': "tiles gv_base gv_size 0 (pre @ (b, ?w) # post) 549755813888" using t by (auto simp: tiles_append)
  have oks: "\<forall>p\<in>set (pre @ (b, ?w) # post). gpu_area_ok (snd p)"
    using s1(2,6) by (auto simp: gm_ok_def gpu_area_ok_def)
  have ct: "content gv_size gpu_cell (pre @ (b, ?w) # post) = content gv_size gpu_cell (gm_map s1)"
    unfolding s1(2) content_append by (rule ext) (simp add: content_append cell split: option.split)
  have ok: "gm_ok ?s" and vw: "gpu_view ?s = gpu_view s" using gm_ok_remap [OF s1(6) t' oks ct] s1(7) by auto
  have m: "gm_map ?s = pre @ (b, ?w) # post" by simp
  obtain s' k' where "gpu_Allocate ?s b = Some (s', k')" "gm_inv s'"
    "gpu_view s' = repaint (unat b) (unat b + unat (gv_size ?w)) (\<lambda>_. (GV_Allocated, 0)) (gpu_view ?s)"
    using gpu_Allocate_at [OF ok m ap] by blast
  then show ?thesis
    using s1(1,3) gpu_map_of [OF s1(6,2)] vw
    by (intro exI [of _ s'] exI [of _ k']) (simp add: gpu_AllocateMemory_def put)
qed

lemma gpu_MapBackingMemory_at:
  fixes ba :: VAddr
  assumes inv: "gm_inv s" and r: "gpu_range b n" and one: "in_one_area {GV_Unmapped, GV_Allocated} s b n"
    and mem: "0 < unat memory" "unat memory + unat n < 18446744073709551616"
  defines "w \<equiv> \<lparr>gv_base = b, gv_size = n, gv_type = GV_Mapped, gv_backing_addr = ba, gv_offset = 0,
    gv_backing_memory = memory\<rparr>"
  shows "\<exists>s' k. gpu_MapBackingMemory s b memory n ba = Some (s', k) \<and> gm_inv s' \<and>
     gm_page_table s' = gpu_with_pages w (gm_page_table s) \<and>
     gpu_view s' = repaint (unat b) (unat b + unat n) (\<lambda>i. (GV_Mapped, memory + of_nat i)) (gpu_view s)"
proof -
  obtain s1 v pre post where s1: "gpu_CarveVMA s b n = Some (s1, b)" "gm_map s1 = pre @ (b, v) # post"
    "gv_size v = n" "gv_base v = b" "gm_ok s1" "gpu_view s1 = gpu_view s" "gm_page_table s1 = gm_page_table s"
    and ap: "apart gpu_unmapped pre" "apart gpu_unmapped post"
    using gpu_CarveVMA_at [OF inv r one] by blast
  let ?v = "v\<lparr>gv_type := GV_Mapped, gv_backing_memory := memory, gv_backing_addr := ba\<rparr>"
  have v: "gv_base ?v = b" "gv_size ?v = gv_size v" "gpu_area_ok ?v"
    "gpu_cell ?v = (\<lambda>i. (GV_Mapped, memory + of_nat i))"
    using s1(3,4) r mem by (auto simp: gpu_area_ok_def gpu_range_def gpu_cell_def)
  have pages: "gpu_with_pages ?v = gpu_with_pages w"
    using s1(3,4) by (simp add: w_def gpu_with_pages_def fun_eq_iff gpu_in_pages_def gpu_page_step_def)
  have nba: "gv_type ?v \<noteq> GV_Mapped \<Longrightarrow> gv_backing_addr ?v = 0" by simp
  obtain s2 s' k' where
    "gpu_UpdatePageTableForVMA (s1\<lparr>gm_map := put (gm_map s1) b ?v\<rparr>) ?v = Some s2"
    "gpu_MergeAdjacent s2 b = Some (s', k')" "gm_ok s'" "apart gpu_unmapped (gm_map s')"
    "gm_page_table s' = gpu_with_pages ?v (gm_page_table s1)"
    "gpu_view s' = repaint (unat b) (unat b + unat (gv_size v)) (gpu_cell ?v) (gpu_view s1)"
    using gpu_install_area [OF s1(5,2) ap v(1-3) nba] by blast
  then show ?thesis
    using s1(1,3,6,7) gpu_map_of [OF s1(5,2)] v(4) pages
    by (intro exI [of _ s'] exI [of _ k']) (simp add: gpu_MapBackingMemory_def gm_inv_def Let_def)
qed

lemma gpu_UnmapRange_at:
  assumes inv: "gm_inv s" and r: "gpu_range b n" and one: "in_one_area {GV_Allocated, GV_Mapped} s b n"
  shows "\<exists>s'. gpu_UnmapRange s b n = Some s' \<and> gm_inv s' \<and>
     gpu_view s' = repaint (unat b) (unat b + unat n) (\<lambda>_. (GV_Allocated, 0)) (gpu_view s)"
proof -
  obtain s1 pre w post where s1: "gpu_CarveVMARange s b n = Some (s1, b)" "gm_map s1 = pre @ (b, w) # post"
    "gv_size w = n" "gm_inv s1" "gpu_view s1 = gpu_view s"
    using gpu_CarveVMARange_at [OF inv r one] by blast
  have ok: "gm_ok s1" and ap: "apart gpu_unmapped pre" "apart gpu_unmapped post"
    using s1(2,4) apart_around(1,2) by (auto simp: gm_inv_def)
  obtain s' pre' k' v' post' where s': "gpu_Allocate s1 b = Some (s', k')" "gm_inv s'"
    "gpu_view s' = repaint (unat b) (unat b + unat (gv_size w)) (\<lambda>_. (GV_Allocated, 0)) (gpu_view s1)"
    "gm_map s' = pre' @ (k', v') # post'" "unat k' \<le> unat b"
    "unat b + unat (gv_size w) \<le> unat k' + unat (gv_size v')"
    using gpu_Allocate_at [OF ok s1(2) ap] by blast
  have e: "unat (b + n) = unat b + unat n" and n: "0 < unat n"
    using r by (simp_all add: gpu_range_def unat_add_u64)
  have ok': "gm_ok s'" using s'(2) by (simp add: gm_inv_def)
  then have t: "tiles gv_base gv_size 0 (pre' @ (k', v') # post') 549755813888"
    using s'(4) by (simp add: gm_ok_def)
  then have tpost: "tiles gv_base gv_size (unat k' + unat (gv_size v')) post' 549755813888"
    by (auto simp: tiles_append)
  have lt: "gv_base w < b + n" using gm_ok_areas(1) [OF ok s1(2)] e n by (simp add: word_less_nat_alt)
  have "range_loop gm_map gv_base gpu_Allocate (b + n) s1 (At b) =
      range_loop gm_map gv_base gpu_Allocate (b + n) s' (upper_bound (gm_map s') k')"
    by (rule galloc.range_loop_step [where mp = gm_map and step = gpu_Allocate, OF gpu_map_of [OF ok s1(2)] lt s'(1)])
  also have "upper_bound (gm_map s') k' = map_begin post'"
    using upper_bound_at [OF tiles_map_ok [OF t]] s'(4) by simp
  also have "range_loop gm_map gv_base gpu_Allocate (b + n) s' (map_begin post') = Some s'"
    using galloc.range_loop_stop [OF tpost, of "b + n" gm_map s' "pre' @ [(k', v')]" gpu_Allocate] tiles_map_ok [OF t]
      s'(4,6) e s1(3) by simp
  finally have loop: "range_loop gm_map gv_base gpu_Allocate (b + n) s1 (At b) = Some s'" .
  have "gpu_FindVMA s' b = Some (At k')"
    using gpu_FindVMA_here [OF ok' s'(4,5)] s'(6) s1(3) n by simp
  then have "gpu_UnmapRange s b n = Some s'"
    using s1(1,3) loop gpu_map_of [OF ok' s'(4)] s'(5,6)
    by (simp add: gpu_UnmapRange_def deref_def word_le_nat_alt)
  then show ?thesis using s'(2,3) s1(3,5) by auto
qed

subsection \<open>Addresses\<close>

lemma AlignUp_page:
  assumes "unat n + 65535 < 18446744073709551616"
  shows "65536 dvd unat (AlignUp n gpu_page_size)" and "unat n \<le> unat (AlignUp n gpu_page_size)"
    and "unat (AlignUp n gpu_page_size) < unat n + 65536"
proof -
  have r: "unat n mod 65536 < 65536" by simp
  have "unat (gpu_page_size - n mod gpu_page_size) = 65536 - unat n mod 65536"
    using r by (subst unat_sub_u64) (simp_all add: gpu_page_size_def unat_mod)
  then have d: "unat ((gpu_page_size - n mod gpu_page_size) mod gpu_page_size) = (65536 - unat n mod 65536) mod 65536"
    by (simp add: gpu_page_size_def unat_mod)
  define z where "z = (65536 - unat n mod 65536) mod 65536"
  have z: "z < 65536" by (simp add: z_def)
  have u: "unat (AlignUp n gpu_page_size) = unat n + z"
    unfolding AlignUp_def using d z assms by (subst unat_add_u64) (simp_all add: z_def)
  have "(unat n + z) mod 65536 = 0"
  proof (cases "unat n mod 65536 = 0")
    case False
    then have "z = 65536 - unat n mod 65536" using r by (simp add: z_def)
    then have "unat n + z = 65536 * (unat n div 65536) + 65536"
      using r mult_div_mod_eq [of 65536 "unat n"] by linarith
    then show ?thesis by simp
  qed (simp add: z_def)
  then show "65536 dvd unat (AlignUp n gpu_page_size)" by (simp add: u mod_eq_0_iff_dvd)
  show "unat n \<le> unat (AlignUp n gpu_page_size)" "unat (AlignUp n gpu_page_size) < unat n + 65536"
    using u z by simp_all
qed

lemma gpu_page_index:
  shows "unat (drop_bit gpu_page_bits a) = unat a div 65536" and "unat (a AND gpu_page_mask) = unat a mod 65536"
  using unat_drop_bit [of 16 a] unat_and_mask [of a 16]
  by (simp_all add: gpu_page_bits_def gpu_page_mask_def mask_eq_exp_minus_1)

text \<open>The address \<open>a\<close> of a mapped area, as the page of \<open>a\<close> and the offset in it.\<close>

lemma gpu_in_pages_index:
  fixes a :: GPUVAddr
  assumes "gpu_area_ok w"
  shows "gpu_in_pages w (unat a div 65536) \<longleftrightarrow>
    unat (gv_base w) \<le> unat a \<and> unat a < unat (gv_base w) + unat (gv_size w)"
proof -
  obtain b n where "unat (gv_base w) = 65536 * b" "unat (gv_size w) = 65536 * n"
    using assms by (auto simp: gpu_area_ok_def elim!: dvdE)
  moreover have "b \<le> unat a div 65536 \<longleftrightarrow> 65536 * b \<le> unat a"
    using less_eq_div_iff_mult_less_eq [of 65536 b "unat a"] by (simp add: mult.commute)
  moreover have "unat a div 65536 < b + n \<longleftrightarrow> unat a < 65536 * b + 65536 * n"
    using div_less_iff_less_mult [of 65536 "unat a" "b + n"] by (simp add: algebra_simps)
  moreover have "65536 * (unat a div 65536) < 65536 * b + 65536 * n \<longleftrightarrow> unat a div 65536 < b + n" by linarith
  ultimately show ?thesis by (simp add: gpu_in_pages_def)
qed

lemma gpu_page_step_at:
  assumes "gpu_in_pages w (unat a div 65536)"
  shows "gpu_page_step w (unat a div 65536) + (a AND gpu_page_mask) = a - gv_base w"
proof -
  define p where "p = 65536 * (unat a div 65536)"
  have le: "unat (gv_base w) \<le> p" using assms by (simp add: gpu_in_pages_def p_def)
  have parts: "unat a = p + unat (a AND gpu_page_mask)" by (simp add: gpu_page_index p_def)
  have p: "of_nat p + (a AND gpu_page_mask) = a"
  proof (rule word_eq_unatI)
    have "unat (of_nat p :: u64) = p" by (rule unat_of_nat_u64) (use parts unat_bound_u64 [of a] in linarith)
    then show "unat (of_nat p + (a AND gpu_page_mask)) = unat a"
      using parts unat_bound_u64 [of a] by (subst unat_add_u64) linarith+
  qed
  have "gpu_page_step w (unat a div 65536) = of_nat p - gv_base w"
    unfolding gpu_page_step_def p_def [symmetric] of_nat_diff [OF le] by simp
  then have "gpu_page_step w (unat a div 65536) + (a AND gpu_page_mask) =
      (of_nat p + (a AND gpu_page_mask)) - gv_base w" by simp
  then show ?thesis unfolding p .
qed

lemma gpu_mapped_address:
  assumes w: "gpu_area_ok w" "gv_type w = GV_Mapped" "0 < unat (gv_backing_addr w)"
      "unat (gv_backing_addr w) + unat (gv_size w) < 18446744073709551616"
    and ent: "pt_entries pt = 8388608" and fits: "unat (gv_base w) + unat (gv_size w) \<le> 549755813888"
    and s: "gm_page_table s = gpu_with_pages w pt"
    and a: "unat (gv_base w) \<le> unat a" "unat a < unat (gv_base w) + unat (gv_size w)"
  shows "GpuToCpuAddress s a = Some (gv_backing_addr w + (a - gv_base w))"
    and "gpu_GetPointer s a = gv_backing_memory w + (a - gv_base w)"
proof -
  let ?i = "unat a div 65536"
  have inp: "gpu_in_pages w ?i" using gpu_in_pages_index [OF w(1)] a by simp
  have valid: "gpu_IsAddressValid s a"
    using a fits ent by (simp add: gpu_IsAddressValid_def gpu_page_index s gpu_with_pages_def)
  have st: "unat (gpu_page_step w ?i) = 65536 * ?i - unat (gv_base w)"
    unfolding gpu_page_step_def
    by (rule unat_of_nat_u64) (use inp unat_bound_u64 [of "gv_size w"] in \<open>auto simp: gpu_in_pages_def\<close>)
  then have lt: "unat (gpu_page_step w ?i) < unat (gv_size w)" using inp unfolding gpu_in_pages_def by linarith
  have "unat (gv_backing_addr w + gpu_page_step w ?i) \<noteq> 0" "unat (gv_backing_memory w + gpu_page_step w ?i) \<noteq> 0"
    using lt w by (simp_all add: unat_add_u64 gpu_area_ok_def)
  then have nz: "gv_backing_addr w + gpu_page_step w ?i \<noteq> 0" "gv_backing_memory w + gpu_page_step w ?i \<noteq> 0"
    by (auto simp del: unat_eq_0)
  have pt: "pt_backing_addr (gm_page_table s) ?i = gv_backing_addr w + gpu_page_step w ?i"
    "pt_pointers (gm_page_table s) ?i = gv_backing_memory w + gpu_page_step w ?i"
    using inp w(2) by (simp_all add: s gpu_with_pages_def)
  show "GpuToCpuAddress s a = Some (gv_backing_addr w + (a - gv_base w))"
    using valid nz(1) pt(1) gpu_page_step_at [OF inp]
    by (simp add: GpuToCpuAddress_def gpu_page_index Let_def add.assoc)
  show "gpu_GetPointer s a = gv_backing_memory w + (a - gv_base w)"
    using valid nz(2) pt(2) gpu_page_step_at [OF inp]
    by (simp add: gpu_GetPointer_def gpu_page_index Let_def add.assoc)
qed

lemma gpu_other_address:
  assumes "gpu_area_ok w" and "gm_page_table s = gpu_with_pages w (gm_page_table s0)"
    and "\<not> (unat (gv_base w) \<le> unat a \<and> unat a < unat (gv_base w) + unat (gv_size w))"
  shows "GpuToCpuAddress s a = GpuToCpuAddress s0 a"
proof -
  have "\<not> gpu_in_pages w (unat a div 65536)" using gpu_in_pages_index [OF assms(1)] assms(3) by simp
  then show ?thesis
    using assms(2)
    by (simp add: GpuToCpuAddress_def gpu_IsAddressValid_def gpu_page_index gpu_with_pages_def)
qed

subsection \<open>The operations of the GPU's address space\<close>

lemma unmapped_page: "gpu_cell \<lparr>gv_base = b, gv_size = n, gv_type = GV_Unmapped, gv_backing_addr = 0,
    gv_offset = 0, gv_backing_memory = 0\<rparr> = (\<lambda>_. (GV_Unmapped, 0))"
  by (simp add: gpu_cell_def fun_eq_iff)

lemma GpuMemoryManager_create_at:
  "\<exists>s. GpuMemoryManager_create = Some s \<and> gm_inv s \<and>
     gm_map s = [(0, \<lparr>gv_base = 0, gv_size = gpu_address_space_end, gv_type = GV_Unmapped,
       gv_backing_addr = 0, gv_offset = 0, gv_backing_memory = 0\<rparr>)] \<and>
     gpu_view s = (\<lambda>a. if a < 549755813888 then Some (GV_Unmapped, 0) else None)"
proof -
  let ?v = "\<lparr>gv_base = 0, gv_size = gpu_address_space_end, gv_type = GV_Unmapped, gv_backing_addr = 0,
    gv_offset = 0, gv_backing_memory = 0\<rparr> :: GpuArea"
  define pt where "pt = PageTable_Resize gpu_address_space_width
     (let pt = PageTable_create gpu_page_bits
      in pt\<lparr>pt_pointers := (\<lambda>i. if i < pt_entries pt then 0 else pt_pointers pt i),
            pt_attributes := (\<lambda>i. if i < pt_entries pt then PT_Unmapped else pt_attributes pt i)\<rparr>)"
  define s0 where "s0 = \<lparr>gm_map = [(0, ?v)], gm_page_table = pt\<rparr>"
  have ent: "pt_entries pt = 8388608"
    by (simp add: pt_def PageTable_Resize_def PageTable_create_def gpu_address_space_width_def
        gpu_page_bits_def Let_def)
  have v: "gpu_area_ok ?v" by (simp add: gpu_area_ok_def gm_end)
  define s where "s = s0\<lparr>gm_page_table := gpu_with_pages ?v pt\<rparr>"
  have s: "gm_map s = [(0, ?v)]" "gm_page_table s = gpu_with_pages ?v pt" by (simp_all add: s_def s0_def)
  have "gpu_UpdatePageTableForVMA s0 ?v = Some s"
    using gpu_UpdatePageTable_at [OF v, of s0] ent by (simp add: s_def s0_def gm_end)
  then have cr: "GpuMemoryManager_create = Some s"
    by (simp add: GpuMemoryManager_create_def s0_def pt_def Let_def)
  have vw: "gpu_view s = (\<lambda>a. if a < 549755813888 then Some (GV_Unmapped, 0) else None)"
    by (auto simp: gpu_view_def s(1) gm_end unmapped_page fun_eq_iff)
  have "gpu_page_agrees c (pt_attributes (gm_page_table s) i) (pt_pointers (gm_page_table s) i)
      (pt_backing_addr (gm_page_table s) i)" if "gpu_view s (65536 * i) = Some c" for i c
    using that gpu_in_pages_here [OF v, of i pt]
    by (simp add: vw s(2) gpu_in_pages_def gm_end unmapped_page split: if_splits)
  then have "gm_ok s" using v by (simp add: gm_ok_def s(1) gm_end) (simp add: s(2) ent gpu_with_pages_def)
  then show ?thesis using cr vw s(1) by (intro exI [of _ s]) (simp add: gm_inv_def)
qed



end
