(* ===== verification/Guest_Block_Correct.thy ===== *)
theory Guest_Block_Correct
  imports Guest_Memory_Correct
begin

text \<open>
  Correctness of the block operations of \<^verbatim>\<open>core/memory.cpp\<close> on a well-formed manager, for
  blocks that cross any number of pages and areas.
\<close>

definition guest_byte :: "VMManager \<Rightarrow> host_mem \<Rightarrow> nat \<Rightarrow> u8" where
  "guest_byte s h a = (case translate s a of Some p \<Rightarrow> h p | None \<Rightarrow> 0)"

text \<open>A block of \<open>n\<close> addresses from \<open>a\<close> on: inside the address space, without a device.\<close>

definition block_range :: "VMManager \<Rightarrow> nat \<Rightarrow> nat \<Rightarrow> bool" where
  "block_range s a n \<longleftrightarrow> a + n \<le> unat (address_space_end s) \<and> (\<forall>i<n. \<not> device_at s (a + i))"

text \<open>No two addresses of the block are the same host address.\<close>

definition no_alias :: "VMManager \<Rightarrow> nat \<Rightarrow> nat \<Rightarrow> bool" where
  "no_alias s a n \<longleftrightarrow>
     (\<forall>i<n. \<forall>j<n. translate s (a + i) \<noteq> None \<longrightarrow> translate s (a + i) = translate s (a + j) \<longrightarrow> i = j)"

text \<open>The block does not touch the \<open>m\<close> bytes of host memory at \<open>p\<close>.\<close>

definition host_apart :: "VMManager \<Rightarrow> nat \<Rightarrow> nat \<Rightarrow> host_ptr \<Rightarrow> nat \<Rightarrow> bool" where
  "host_apart s a n p m \<longleftrightarrow> (\<forall>i<n. \<forall>j<m. translate s (a + i) \<noteq> Some (p + of_nat j))"

text \<open>The host memory \<open>h'\<close> is \<open>h\<close> with the data \<open>D\<close> in the first \<open>n\<close> addresses of the block.\<close>

definition puts :: "VMManager \<Rightarrow> nat \<Rightarrow> nat \<Rightarrow> (nat \<Rightarrow> u8) \<Rightarrow> host_mem \<Rightarrow> host_mem \<Rightarrow> bool" where
  "puts s a n D h h' \<longleftrightarrow>
     (\<forall>i<n. \<forall>q. translate s (a + i) = Some q \<longrightarrow> h' q = D i) \<and>
     (\<forall>q. (\<forall>i<n. translate s (a + i) \<noteq> Some q) \<longrightarrow> h' q = h q)"

lemma translate_page:
  assumes inv: "vm_inv s" and x: "x < unat (address_space_end s)" and y: "x mod 4096 + i < 4096"
  shows "translate s (x + i) = map_option (\<lambda>p. p + of_nat i) (translate s x)"
proof -
  obtain pre k v post where m: "vma_map s = pre @ (k, v) # post" and k: "unat k \<le> x"
    "x < unat k + unat (vma_size v)" by (rule area_of [OF inv x])
  have "x = 4096 * (x div 4096) + x mod 4096" by simp
  then have y: "unat k \<le> x + i" "x + i < unat k + unat (vma_size v)"
    using page_of_area [OF inv m k] y by linarith+
  have "x + i - unat k = (x - unat k) + i" using k(1) by simp
  then show ?thesis
    using view_at [OF inv m k] view_at [OF inv m y] by (simp add: translate_def cell_host_vma add.assoc)
qed

lemma page_vaddr_parts:
  assumes "unat idx * 4096 + unat off = x" and "unat off < 4096" and "x < 18446744073709551616"
  shows "unat (page_vaddr idx off) = x" and "drop_bit PAGE_BITS (page_vaddr idx off) = idx"
    and "page_vaddr idx off AND PAGE_MASK = off"
proof -
  have "unat (push_bit PAGE_BITS idx) = unat idx * 4096"
    using assms(1,3) by (simp add: push_bit_eq_mult PAGE_BITS_def unat_word_ariths)
  then show u: "unat (page_vaddr idx off) = x"
    using assms by (simp add: page_vaddr_def unat_add_u64)
  show "drop_bit PAGE_BITS (page_vaddr idx off) = idx"
    by (rule word_eq_unatI) (use assms u in \<open>auto simp: page_index\<close>)
  show "page_vaddr idx off AND PAGE_MASK = off"
    by (rule word_eq_unatI) (use assms u in \<open>auto simp: page_index\<close>)
qed

text \<open>A chunk of a block that lies in one page: all of it is mapped, or none of it is.\<close>

lemma chunk_lookup:
  assumes inv: "vm_inv s" and r: "block_range s x (unat c)"
    and chunk: "unat idx * 4096 + unat off = x" "unat off + unat c \<le> 4096" "0 < unat c"
  obtains (mapped) hp where "\<And>i. i < unat c \<Longrightarrow> translate s (x + i) = Some (hp + of_nat i)" and "hp \<noteq> 0"
      and "page_attribute (vm_page_table s) idx = Some PT_Memory"
      and "page_pointer (vm_page_table s) idx \<bind> nonnull = Some (hp - off)"
  | (cached) hp where "\<And>i. i < unat c \<Longrightarrow> translate s (x + i) = Some (hp + of_nat i)" and "hp \<noteq> 0"
      and "page_attribute (vm_page_table s) idx = Some PT_RasterizerCachedMemory"
      and "GetPointerFromVMA s (page_vaddr idx off) \<bind> nonnull = Some hp"
  | (unmapped) "\<And>i. i < unat c \<Longrightarrow> translate s (x + i) = None"
      and "page_attribute (vm_page_table s) idx = Some PT_Unmapped"
proof -
  have x: "x < unat (address_space_end s)" using r chunk(3) by (simp add: block_range_def)
  have off: "unat off < 4096" using chunk by simp
  have big: "x < 18446744073709551616" using x unat_bound_u64 [of "address_space_end s"] by simp
  note pv = page_vaddr_parts [OF chunk(1) off big]
  have nd: "\<not> device_at s x" using r chunk(3) by (auto simp: block_range_def)
  have mod: "x mod 4096 = unat off" using chunk(1) off by (metis mod_less mod_mult_self3)
  have tr: "translate s (x + i) = map_option (\<lambda>p. p + of_nat i) (translate s x)" if "i < unat c" for i
    using translate_page [OF inv x, of i] that chunk(2) mod by simp
  from page_lookup [OF inv, of "page_vaddr idx off"] x
  obtain p ty where pl: "page_pointer (vm_page_table s) idx = Some p"
    "page_attribute (vm_page_table s) idx = Some ty"
    "case translate s x of
       Some hp \<Rightarrow> hp \<noteq> 0 \<and> GetPointerFromVMA s (page_vaddr idx off) = Some hp \<and>
         (ty = PT_Memory \<and> p \<noteq> 0 \<and> p + off = hp \<or> ty = PT_RasterizerCachedMemory \<and> p = 0)
     | None \<Rightarrow> ty = PT_Unmapped"
    by (auto simp: pv nd split: option.splits)
  show thesis
  proof (cases "translate s x")
    case None
    then show thesis using pl tr unmapped by simp
  next
    case (Some hp)
    then have all: "\<And>i. i < unat c \<Longrightarrow> translate s (x + i) = Some (hp + of_nat i)" using tr by simp
    show thesis
    proof (cases "ty = PT_Memory")
      case True
      with pl Some have "page_pointer (vm_page_table s) idx \<bind> nonnull = Some (hp - off)" "hp \<noteq> 0"
        by (auto simp: nonnull_def)
      with mapped [OF all] pl True show thesis by simp
    next
      case False
      with pl Some have "GetPointerFromVMA s (page_vaddr idx off) \<bind> nonnull = Some hp" "hp \<noteq> 0"
        "ty = PT_RasterizerCachedMemory"
        by (auto simp: nonnull_def)
      with cached [OF all] pl show thesis by simp
    qed
  qed
qed

subsection \<open>Writing blocks\<close>

lemma host_ptr_offset: "q = p + of_nat (unat (q - p))" for p q :: host_ptr
  by simp

lemma puts_step:
  assumes h: "puts s a d D h0 h" and na: "no_alias s a (d + c)"
    and tr: "\<And>i. i < c \<Longrightarrow> translate s (a + d + i) = Some (hp + of_nat i)"
    and bs: "length bs = c" "\<And>i. i < c \<Longrightarrow> bs ! i = D (d + i)" and c: "c < 18446744073709551616"
  shows "puts s a (d + c) D h0 (host_write hp bs h)"
proof -
  have inside: "\<exists>j<c. q = hp + of_nat j \<and> translate s (a + (d + j)) = Some q \<and> host_write hp bs h q = D (d + j)"
    if "unat (q - hp) < c" for q
    using that tr [of "unat (q - hp)"] bs
    by (intro exI [of _ "unat (q - hp)"]) (simp add: host_write_def add.assoc)
  have outside: "host_write hp bs h q = h q" if "\<not> unat (q - hp) < c" for q
    using that bs(1) by (simp add: host_write_def)
  have "host_write hp bs h q = D i" if i: "i < d + c" and q: "translate s (a + i) = Some q" for i q
  proof (cases "unat (q - hp) < c")
    case True
    with inside obtain j where j: "j < c" "translate s (a + (d + j)) = Some q"
      "host_write hp bs h q = D (d + j)" by blast
    then have "d + j = i" using na i q by (simp add: no_alias_def)
    with j show ?thesis by simp
  next
    case False
    have "i < d"
    proof (rule ccontr)
      assume "\<not> i < d"
      then obtain j where j: "i = d + j" "j < c" using i by (metis add_less_cancel_left le_Suc_ex not_less)
      then have "q = hp + of_nat j" using tr [of j] q by (simp add: add.assoc)
      with False j c show False by (simp add: unat_of_nat)
    qed
    then show ?thesis using outside [OF False] h q by (simp add: puts_def)
  qed
  moreover have "host_write hp bs h q = h0 q" if q: "\<forall>i<d + c. translate s (a + i) \<noteq> Some q" for q
  proof -
    have "\<not> unat (q - hp) < c" using inside [of q] q by auto
    then show ?thesis using outside h q by (simp add: puts_def)
  qed
  ultimately show ?thesis by (simp add: puts_def)
qed

lemma puts_skip:
  assumes "puts s a d D h0 h" and "\<And>i. i < c \<Longrightarrow> translate s (a + d + i) = None"
  shows "puts s a (d + c) D h0 h"
proof -
  have "i < d" if "i < d + c" "translate s (a + i) = Some q" for i q
  proof (rule ccontr)
    assume "\<not> i < d"
    then have "i - d < c" "a + d + (i - d) = a + i" using that(1) by simp_all
    with assms(2) [of "i - d"] that(2) show False by simp
  qed
  with assms(1) show ?thesis by (auto simp: puts_def)
qed

lemma puts_0: "puts s a 0 D h h"
  by (simp add: puts_def)

lemma no_alias_less: "no_alias s a n \<Longrightarrow> m \<le> n \<Longrightarrow> no_alias s a m"
  unfolding no_alias_def by (meson less_le_trans)

lemma no_alias_part:
  assumes "no_alias s a (d + c)"
  shows "no_alias s (a + d) c"
  unfolding no_alias_def
proof (intro allI impI)
  fix i j
  assume "i < c" "j < c" "translate s (a + d + i) \<noteq> None" "translate s (a + d + i) = translate s (a + d + j)"
  then have "d + i = d + j"
    using assms [unfolded no_alias_def, rule_format, of "d + i" "d + j"] by (simp add: add.assoc)
  then show "i = j" by simp
qed

lemma block_range_part: "block_range s a n \<Longrightarrow> d + c \<le> n \<Longrightarrow> block_range s (a + d) c"
  by (auto simp: block_range_def add.assoc)

lemma block_start:
  fixes a :: u64
  shows "unat (a AND PAGE_MASK) < 4096"
    and "unat (drop_bit PAGE_BITS a) * 4096 + unat (a AND PAGE_MASK) = unat a"
  by (simp_all add: page_index)

lemma WriteBlock_puts:
  assumes inv: "vm_inv s" and r: "block_range s (unat a) (unat n)" and na: "no_alias s (unat a) (unat n)"
    and ap: "host_apart s (unat a) (unat n) src (unat n)" and gpu: "gpu_idle gpu"
  shows "\<exists>h'. WriteBlock gpu s a src n h = Some h' \<and>
    puts s (unat a) (unat n) (\<lambda>i. h (src + of_nat i)) h h'"
proof -
  have fits: "unat a + unat n < 18446744073709551616"
    using r unat_bound_u64 [of "address_space_end s"] by (simp add: block_range_def)
  let ?D = "\<lambda>i. h (src + of_nat i)"
  have step: "\<exists>h2. WriteBlock_page gpu s src idx off d c h1 = Some h2 \<and>
      puts s (unat a) (unat d + unat c) ?D h h2"
    if p: "puts s (unat a) (unat d) ?D h h1" and chunk: "unat off + unat c \<le> 4096" "0 < unat c"
      "unat idx * 4096 + unat off = unat a + unat d" "unat d + unat c \<le> unat n" for idx off d c h1
  proof -
    have src: "h1 (src + of_nat i) = ?D i" if "i < unat n" for i
      using p ap that chunk(4) by (auto simp: puts_def host_apart_def)
    have bs: "host_read h1 (src + d) (unat c) ! i = ?D (unat d + i)" if "i < unat c" for i
      using src [of "unat d + i"] that chunk(4) by (simp add: host_read_def add.assoc)
    note na' = no_alias_less [OF na chunk(4)]
    show ?thesis
    proof (cases rule: chunk_lookup [OF inv block_range_part [OF r chunk(4)] chunk(3,1,2),
        case_names mapped cached unmapped])
      case (mapped hp)
      then show ?thesis
        using puts_step [OF p na' mapped(1), of "host_read h1 (src + d) (unat c)"] bs unat_bound_u64 [of c]
        by (simp add: WriteBlock_page_def)
    next
      case (cached hp)
      then show ?thesis
        using puts_step [OF p na' cached(1), of "host_read h1 (src + d) (unat c)"] bs unat_bound_u64 [of c] gpu
        by (simp add: WriteBlock_page_def gpu_idle_def)
    next
      case unmapped
      then show ?thesis using puts_skip [OF p] by (simp add: WriteBlock_page_def)
    qed
  qed
  show ?thesis
    unfolding WriteBlock_def
    by (rule block_loop_inv [where P = 4096 and A = "unat a" and N = "unat n"
          and Inv = "\<lambda>d h1. puts s (unat a) d ?D h h1"])
      (use fits step in \<open>auto simp: PAGE_SIZE_def block_start puts_0\<close>)
qed

lemma ZeroBlock_puts:
  assumes inv: "vm_inv s" and r: "block_range s (unat a) (unat n)" and na: "no_alias s (unat a) (unat n)"
    and gpu: "gpu_idle gpu"
  shows "\<exists>h'. ZeroBlock gpu s a n h = Some h' \<and> puts s (unat a) (unat n) (\<lambda>_. 0) h h'"
proof -
  have fits: "unat a + unat n < 18446744073709551616"
    using r unat_bound_u64 [of "address_space_end s"] by (simp add: block_range_def)
  have step: "\<exists>h2. ZeroBlock_page gpu s idx off d c h1 = Some h2 \<and>
      puts s (unat a) (unat d + unat c) (\<lambda>_. 0) h h2"
    if p: "puts s (unat a) (unat d) (\<lambda>_. 0) h h1" and chunk: "unat off + unat c \<le> 4096" "0 < unat c"
      "unat idx * 4096 + unat off = unat a + unat d" "unat d + unat c \<le> unat n" for idx off d c h1
  proof -
    note na' = no_alias_less [OF na chunk(4)]
    show ?thesis
    proof (cases rule: chunk_lookup [OF inv block_range_part [OF r chunk(4)] chunk(3,1,2),
        case_names mapped cached unmapped])
      case (mapped hp)
      then show ?thesis
        using puts_step [OF p na' mapped(1), of "replicate (unat c) 0"] unat_bound_u64 [of c]
        by (simp add: ZeroBlock_page_def)
    next
      case (cached hp)
      then show ?thesis
        using puts_step [OF p na' cached(1), of "replicate (unat c) 0"] unat_bound_u64 [of c] gpu
        by (simp add: ZeroBlock_page_def gpu_idle_def)
    next
      case unmapped
      then show ?thesis using puts_skip [OF p] by (simp add: ZeroBlock_page_def)
    qed
  qed
  show ?thesis
    unfolding ZeroBlock_def
    by (rule block_loop_inv [where P = 4096 and A = "unat a" and N = "unat n"
          and Inv = "\<lambda>d h1. puts s (unat a) d (\<lambda>_. 0) h h1"])
      (use fits step in \<open>auto simp: PAGE_SIZE_def block_start puts_0\<close>)
qed

subsection \<open>Reading and copying blocks\<close>

lemma host_write_append:
  assumes "length bs0 = unat d" and "unat d + length bs < 18446744073709551616"
  shows "host_write (p + d) bs (host_write p bs0 h) = host_write p (bs0 @ bs) h"
proof
  fix q
  let ?u = "unat (q - p)"
  have eq: "q - (p + d) = (q - p) - d" by simp
  show "host_write (p + d) bs (host_write p bs0 h) q = host_write p (bs0 @ bs) h q"
  proof (cases "unat d \<le> ?u")
    case True
    then have "unat (q - (p + d)) = ?u - unat d" unfolding eq by (rule unat_sub_u64)
    with True show ?thesis using assms by (auto simp: host_write_def nth_append)
  next
    case False
    then have "unat (q - (p + d)) = ?u + 18446744073709551616 - unat d"
      unfolding eq by (subst unat_sub_if_size) (simp add: word_size)
    with False show ?thesis using assms by (auto simp: host_write_def nth_append)
  qed
qed

lemma ReadBlock_reads:
  assumes inv: "vm_inv s" and r: "block_range s (unat a) (unat n)"
    and ap: "host_apart s (unat a) (unat n) dest (unat n)" and gpu: "gpu_idle gpu"
  shows "ReadBlock gpu s a dest n h =
    Some (host_write dest (map (\<lambda>i. guest_byte s h (unat a + i)) [0..<unat n]) h)"
proof -
  have fits: "unat a + unat n < 18446744073709551616"
    using r unat_bound_u64 [of "address_space_end s"] by (simp add: block_range_def)
  let ?R = "\<lambda>d. host_write dest (map (\<lambda>i. guest_byte s h (unat a + i)) [0..<d]) h"
  have step: "ReadBlock_page gpu s dest idx off d c (?R (unat d)) = Some (?R (unat d + unat c))"
    if chunk: "unat off + unat c \<le> 4096" "0 < unat c"
      "unat idx * 4096 + unat off = unat a + unat d" "unat d + unat c \<le> unat n" for idx off d c
  proof -
    have app: "host_write (dest + d) bs (?R (unat d)) = ?R (unat d + unat c)"
      if "bs = map (\<lambda>i. guest_byte s h (unat a + i)) [unat d..<unat d + unat c]" for bs
      using host_write_append [of "map (\<lambda>i. guest_byte s h (unat a + i)) [0..<unat d]" d bs dest h]
        chunk(4) fits that by (simp add: upt_add_eq_append [of 0])
    have keep: "?R (unat d) q = h q" if "i < unat n" "translate s (unat a + i) = Some q" for i q
    proof -
      have "\<not> unat (q - dest) < unat n"
      proof
        assume "unat (q - dest) < unat n"
        with ap that(1) have "translate s (unat a + i) \<noteq> Some (dest + of_nat (unat (q - dest)))"
          unfolding host_apart_def by blast
        with that(2) show False by simp
      qed
      then show ?thesis using chunk(4) by (simp add: host_write_def)
    qed
    have mem: "host_read (?R (unat d)) hp (unat c) = map (\<lambda>i. guest_byte s h (unat a + i)) [unat d..<unat d + unat c]"
      if tr: "\<And>i. i < unat c \<Longrightarrow> translate s (unat a + unat d + i) = Some (hp + of_nat i)" for hp
    proof (rule nth_equalityI)
      fix i
      assume "i < length (host_read (?R (unat d)) hp (unat c))"
      then have i: "i < unat c" by simp
      show "host_read (?R (unat d)) hp (unat c) ! i =
          map (\<lambda>i. guest_byte s h (unat a + i)) [unat d..<unat d + unat c] ! i"
        using keep [of "unat d + i" "hp + of_nat i"] tr [OF i] i chunk(4)
        by (simp add: host_read_def guest_byte_def add.assoc)
    qed simp
    show ?thesis
    proof (cases rule: chunk_lookup [OF inv block_range_part [OF r chunk(4)] chunk(3,1,2),
        case_names mapped cached unmapped])
      case (mapped hp)
      then show ?thesis using app [OF mem [OF mapped(1)]] by (simp add: ReadBlock_page_def)
    next
      case (cached hp)
      then show ?thesis
        using app [OF mem [OF cached(1)]] gpu by (simp add: ReadBlock_page_def gpu_idle_def)
    next
      case unmapped
      have "replicate (unat c) 0 = map (\<lambda>i. guest_byte s h (unat a + i)) [unat d..<unat d + unat c]"
        using unmapped(1) by (intro nth_equalityI) (simp_all add: guest_byte_def add.assoc)
      then show ?thesis using unmapped(2) app by (simp add: ReadBlock_page_def)
    qed
  qed
  have "\<exists>h'. ReadBlock gpu s a dest n h = Some h' \<and> h' = ?R (unat n)"
    unfolding ReadBlock_def
    by (rule block_loop_inv [where P = 4096 and A = "unat a" and N = "unat n" and Inv = "\<lambda>d h1. h1 = ?R d"])
      (use fits step in \<open>auto simp: PAGE_SIZE_def block_start host_write_def\<close>)
  then show ?thesis by simp
qed

text \<open>
  \<^bold>\<open>C9\<close>. Reading back a written block. The block may cross any number of pages, areas and
  rasterizer-cached pages. Both operations come back; afterwards the destination buffer holds
  the bytes of the source buffer.
\<close>

theorem WriteBlock_ReadBlock:
  assumes "vm_ok s" and "block_range s (unat a) (unat n)" and "no_alias s (unat a) (unat n)"
    and "\<And>i. i < unat n \<Longrightarrow> translate s (unat a + i) \<noteq> None"
    and "host_apart s (unat a) (unat n) src (unat n)" and "host_apart s (unat a) (unat n) dest (unat n)"
    and "gpu_idle gpu"
  shows "\<exists>h1 h2. WriteBlock gpu s a src n h = Some h1 \<and> ReadBlock gpu s a dest n h1 = Some h2 \<and>
    host_read h2 dest (unat n) = host_read h src (unat n) \<and>
    (\<forall>q. (\<forall>i<unat n. translate s (unat a + i) \<noteq> Some q \<and> q \<noteq> dest + of_nat i) \<longrightarrow> h2 q = h q)"
proof -
  have inv: "vm_inv s" using assms(1) by (simp add: vm_ok_def)
  obtain h1 where h1: "WriteBlock gpu s a src n h = Some h1"
    "puts s (unat a) (unat n) (\<lambda>i. h (src + of_nat i)) h h1"
    using WriteBlock_puts [OF inv assms(2,3,5,7)] by blast
  let ?bs = "map (\<lambda>i. guest_byte s h1 (unat a + i)) [0..<unat n]"
  have rd: "ReadBlock gpu s a dest n h1 = Some (host_write dest ?bs h1)"
    by (rule ReadBlock_reads [OF inv assms(2,6,7)])
  have "guest_byte s h1 (unat a + i) = h (src + of_nat i)" if i: "i < unat n" for i
  proof -
    obtain q where q: "translate s (unat a + i) = Some q" using assms(4) [OF i] by blast
    with h1(2) i have "h1 q = h (src + of_nat i)" by (simp add: puts_def)
    with q show ?thesis by (simp add: guest_byte_def)
  qed
  then have "?bs = host_read h src (unat n)" by (simp add: host_read_def)
  then have bytes: "host_read (host_write dest ?bs h1) dest (unat n) = host_read h src (unat n)"
    using host_read_write [of ?bs dest h1] unat_bound_u64 [of n] by simp
  have "host_write dest ?bs h1 q = h q"
    if q: "\<forall>i<unat n. translate s (unat a + i) \<noteq> Some q \<and> q \<noteq> dest + of_nat i" for q
  proof -
    have "\<not> unat (q - dest) < unat n" using q host_ptr_offset [of q dest] by blast
    then show ?thesis using h1(2) q by (simp add: host_write_def puts_def)
  qed
  with h1(1) rd bytes show ?thesis by blast
qed

lemma puts_extend:
  assumes "puts s a d D h0 h1" and "puts s (a + d) c D' h1 h2" and na: "no_alias s a (d + c)"
    and D': "\<And>i. i < c \<Longrightarrow> D' i = D (d + i)"
  shows "puts s a (d + c) D h0 h2"
proof -
  have shift: "translate s (a + d + (i - d)) = translate s (a + i)" if "d \<le> i" for i using that by simp
  have "h2 q = D i" if i: "i < d + c" and q: "translate s (a + i) = Some q" for i q
  proof (cases "i < d")
    case True
    have "translate s (a + d + j) \<noteq> Some q" if "j < c" for j
    proof
      assume "translate s (a + d + j) = Some q"
      then have "translate s (a + (d + j)) = Some q" by (simp add: add.assoc)
      with na q i that have "i = d + j" by (simp add: no_alias_def)
      with True show False by simp
    qed
    then show ?thesis using assms(1,2) True q by (simp add: puts_def)
  next
    case False
    then have "i - d < c" "translate s (a + d + (i - d)) = Some q" using i q shift by simp_all
    then have "h2 q = D' (i - d)" using assms(2) unfolding puts_def by blast
    then show ?thesis using D' [of "i - d"] False \<open>i - d < c\<close> by simp
  qed
  moreover have "h2 q = h0 q" if "\<forall>i<d + c. translate s (a + i) \<noteq> Some q" for q
  proof -
    have "\<forall>i<d. translate s (a + i) \<noteq> Some q" using that by simp
    moreover have "\<forall>i<c. translate s (a + d + i) \<noteq> Some q" using that by (simp add: add.assoc)
    ultimately show ?thesis using assms(1,2) by (simp add: puts_def)
  qed
  ultimately show ?thesis by (simp add: puts_def)
qed


end
