(* ===== verification/Vm_Map_Correct.thy ===== *)
theory Vm_Map_Correct
  imports Vm_Carve
begin

text \<open>
  Correctness of the operations of \<open>VMManager\<close> that map memory: on a well-formed manager each
  of them succeeds exactly when the range is free, changes what the addresses of the range are
  to what the caller asked for, changes nothing else, and leaves the manager well formed.
\<close>

text \<open>The handle \<open>k\<close> names the area that holds the address \<open>a\<close>.\<close>

definition handle_at :: "VMManager \<Rightarrow> u64 \<Rightarrow> nat \<Rightarrow> bool" where
  "handle_at s k a \<longleftrightarrow>
     (case map_of (vma_map s) k of
        None \<Rightarrow> False
      | Some v \<Rightarrow> unat k \<le> a \<and> a < unat k + unat (vma_size v))"

lemma merge_spec_others:
  assumes "merge_spec vma_size set_vma_size CanBeMergedWith pre k x post = (pre', k', v', post')"
    and "p \<in> set pre \<union> set post" and "vma_state (snd p) \<noteq> vma_state x"
  shows "p \<in> set pre' \<union> set post'"
proof -
  have cm: "vma_state v = vma_state w" if "CanBeMergedWith v w = Some True" for v w
    using that by (auto simp: CanBeMergedWith_def split: if_splits)
  obtain v1 post1 where r: "merge_right vma_size set_vma_size CanBeMergedWith x post = (v1, post1)" by fastforce
  then have "vma_state v1 = vma_state x" "p \<in> set post \<Longrightarrow> p \<in> set post1"
    using cm [of x] assms(3) by (auto simp: merge_right_def set_vma_size_def split: list.splits if_splits)
  moreover from this(1) have "p \<in> set pre'" if "p \<in> set pre"
    using assms(1,3) r that cm [of "snd (last pre)" v1] by (cases pre rule: rev_cases) (auto simp: merge_spec_def merge_left_def split: if_splits)
  ultimately show ?thesis using assms(1,2) r by (auto simp: merge_spec_def Let_def split: prod.splits)
qed

lemma install_area:
  assumes inv: "vm_inv s" and m: "vma_map s = pre @ (b, w) # post"
    and ap: "apart freed pre" "apart freed post"
    and x: "vma_base x = b" "vma_size x = vma_size w" "area_ok (vm_blocks s) x"
  shows "\<exists>s1 s' k. UpdatePageTableForVMA (s\<lparr>vma_map := put (vma_map s) b x\<rparr>) x = Some s1 \<and>
     MergeAdjacent s1 b = Some (s', k) \<and> vm_ok s' \<and> same_layout s s' \<and>
     view s' = repaint (unat b) (unat b + unat (vma_size w)) (vma_cell x) (view s) \<and>
     handle_at s' k (unat b) \<and>
     (\<forall>p\<in>set pre \<union> set post. vma_state (snd p) \<noteq> vma_state x \<longrightarrow> p \<in> set (vma_map s'))"
proof -
  obtain s1 where s1: "UpdatePageTableForVMA (s\<lparr>vma_map := put (vma_map s) b x\<rparr>) x = Some s1"
    "vma_map s1 = pre @ (b, x) # post" "vm_inv s1" "same_layout s s1"
    "view s1 = repaint (unat b) (unat b + unat (vma_size w)) (vma_cell x) (view s)"
    using replace_area [OF inv m x] by blast
  obtain pre' k v' post' where
    spec: "merge_spec vma_size set_vma_size CanBeMergedWith pre b x post = (pre', k, v', post')"
    by (metis prod_cases4)
  note mg = MergeAdjacent_at [OF s1(3,2) spec]
  let ?s' = "s1\<lparr>vma_map := pre' @ (k, v') # post'\<rparr>"
  have t: "tiles vma_base vma_size 0 (pre @ (b, x) # post) (unat (address_space_end s1))"
    using s1(2,3) by (simp add: vm_inv_def)
  have "apart freed (pre' @ (k, v') # post')"
    by (rule kunmap.merge_spec_apart [OF ap t unat_bound_u64 spec])
  then have "vm_ok ?s'" using mg(2) by (simp add: vm_ok_def)
  moreover have "map_of (vma_map ?s') k = Some v'" by (rule map_of_area [OF mg(2)]) simp
  then have "handle_at ?s' k (unat b)"
    using kvma.merge_spec_covers [OF t unat_bound_u64 spec] vm_inv_areas(2) [OF s1(3,2)]
    by (simp add: handle_at_def)
  moreover have "same_layout s ?s'" by (rule same_layout_trans [OF s1(4)]) simp
  moreover have "\<forall>p\<in>set pre \<union> set post. vma_state (snd p) \<noteq> vma_state x \<longrightarrow> p \<in> set (vma_map ?s')"
    using merge_spec_others [OF spec] by auto
  ultimately show ?thesis using s1(1,5) mg(1,3) by auto
qed

text \<open>
  What the three operations have in common: carve the range, turn the carved area \<open>w\<close> into
  \<open>x w\<close>, update the page table and merge; \<open>pre_sys\<close> logs the calls to the CPU cores.
\<close>

definition map_carved ::
  "VMManager \<Rightarrow> VAddr \<Rightarrow> u64 \<Rightarrow> sys_call list \<Rightarrow> (VirtualMemoryArea \<Rightarrow> VirtualMemoryArea) \<Rightarrow>
   (VMManager \<times> u64 ResultVal) option" where
  "map_carved s target n calls x = do {
     (s, r) \<leftarrow> CarveVMA s target n;
     case r of
       Inl e \<Rightarrow> Some (s, Inl e)
     | Inr k \<Rightarrow> do {
         vma \<leftarrow> map_of (vma_map s) k;
         ASSERT (vma_size vma = n);
         let s = s\<lparr>vm_system := sys_log calls (vm_system s)\<rparr>;
         let s = s\<lparr>vma_map := put (vma_map s) k (x vma)\<rparr>;
         s \<leftarrow> UpdatePageTableForVMA s (x vma);
         (s, k) \<leftarrow> MergeAdjacent s k;
         Some (s, Inr k)
       }
   }"

lemma map_carved_full:
  assumes ok: "vm_ok s" and r: "vm_range s b n"
    and x: "\<And>w. freed w \<Longrightarrow> vma_base w = b \<Longrightarrow> vma_size w = n \<Longrightarrow>
      vma_base (x w) = b \<and> vma_size (x w) = n \<and> area_ok (vm_blocks s) (x w) \<and> vma_cell (x w) = h"
  shows "\<exists>s' res. map_carved s b n calls x = Some (s', res) \<and> vm_ok s' \<and> same_layout s s' \<and>
    (if all_free s b n
     then (\<exists>k. res = Inr k \<and> handle_at s' k (unat b)) \<and>
          view s' = repaint (unat b) (unat b + unat n) h (view s) \<and>
          (\<forall>p\<in>set (vma_map s). vma_type (snd p) \<noteq> VMA_Free \<and> vma_state (snd p) \<noteq> c_state (h 0) \<longrightarrow>
             p \<in> set (vma_map s'))
     else res = Inl ERR_INVALID_ADDRESS_STATE \<and> s' = s)"
proof (cases "all_free s b n")
  case False
  then show ?thesis using CarveVMA_cases [OF ok r] ok by (simp add: map_carved_def)
next
  case True
  with CarveVMA_cases [OF ok r] obtain s1 pre w post where
    s1: "CarveVMA s b n = Some (s1, Inr b)" "vma_map s1 = pre @ (b, w) # post" "vma_size w = n"
      "vma_type w = VMA_Free" "vm_inv s1" "same_layout s s1" "view s1 = view s"
    and ap: "apart freed pre" "apart freed post"
    and old: "\<forall>p\<in>set (vma_map s). vma_type (snd p) \<noteq> VMA_Free \<longrightarrow> p \<in> set pre \<union> set post" by auto
  let ?s1 = "s1\<lparr>vm_system := sys_log calls (vm_system s1)\<rparr>"
  have inv: "vm_inv ?s1" by (rule vm_inv_cong [OF s1(5)]) simp_all
  have w: "vma_base w = b" "freed w"
    using vm_inv_areas [OF s1(5,2)] s1(4) by (auto simp: area_ok_def)
  have bl: "vm_blocks ?s1 = vm_blocks s" using s1(6) by (simp add: same_layout_def)
  have xw: "vma_base (x w) = b" "vma_size (x w) = vma_size w" "area_ok (vm_blocks ?s1) (x w)"
    "vma_cell (x w) = h" using x [OF w(2,1) s1(3)] s1(3) bl by auto
  obtain s2 s' k where fin:
    "UpdatePageTableForVMA (?s1\<lparr>vma_map := put (vma_map ?s1) b (x w)\<rparr>) (x w) = Some s2"
    "MergeAdjacent s2 b = Some (s', k)" "vm_ok s'" "same_layout ?s1 s'"
    "view s' = repaint (unat b) (unat b + unat (vma_size w)) (vma_cell (x w)) (view ?s1)"
    "handle_at s' k (unat b)"
    "\<forall>p\<in>set pre \<union> set post. vma_state (snd p) \<noteq> vma_state (x w) \<longrightarrow> p \<in> set (vma_map s')"
    using install_area [OF inv _ ap xw(1-3)] s1(2) by auto
  have "map_carved s b n calls x = Some (s', Inr k)"
    using s1(1,3) map_of_area [OF s1(5,2)] fin(1,2) by (simp add: map_carved_def Let_def)
  moreover have "same_layout s s'"
    using same_layout_trans [OF s1(6) same_layout_trans [OF same_layout_system fin(4)]] .
  moreover have "vma_state (x w) = c_state (h 0)" by (simp add: xw(4) [symmetric] vma_cell_def)
  ultimately show ?thesis using True fin(3,5-7) s1(3,7) xw(4) old by auto
qed

lemma map_carved_correct:
  assumes ok: "vm_ok s" and r: "vm_range s b n"
    and x: "\<And>w. freed w \<Longrightarrow> vma_base w = b \<Longrightarrow> vma_size w = n \<Longrightarrow>
      vma_base (x w) = b \<and> vma_size (x w) = n \<and> area_ok (vm_blocks s) (x w) \<and> vma_cell (x w) = h"
  shows "\<exists>s' res. map_carved s b n calls x = Some (s', res) \<and> vm_ok s' \<and> same_layout s s' \<and>
    (if all_free s b n
     then (\<exists>k. res = Inr k \<and> handle_at s' k (unat b)) \<and>
          view s' = repaint (unat b) (unat b + unat n) h (view s)
     else res = Inl ERR_INVALID_ADDRESS_STATE \<and> s' = s)"
proof -
  have "\<exists>s' res. map_carved s b n calls x = Some (s', res) \<and> vm_ok s' \<and> same_layout s s' \<and>
    (if all_free s b n
     then (\<exists>k. res = Inr k \<and> handle_at s' k (unat b)) \<and>
          view s' = repaint (unat b) (unat b + unat n) h (view s) \<and>
          (\<forall>p\<in>set (vma_map s). vma_type (snd p) \<noteq> VMA_Free \<and> vma_state (snd p) \<noteq> c_state (h 0) \<longrightarrow>
             p \<in> set (vma_map s'))
     else res = Inl ERR_INVALID_ADDRESS_STATE \<and> s' = s)"
    by (rule map_carved_full [OF ok r]) (rule x)
  then show ?thesis by (cases "all_free s b n") (simp_all, blast)
qed

subsection \<open>The three operations\<close>

definition mapped_cell :: "VMAType \<Rightarrow> MemoryState \<Rightarrow> (nat \<Rightarrow> backing) \<Rightarrow> nat \<Rightarrow> vm_cell" where
  "mapped_cell ty state bk i =
     \<lparr>c_type = ty, c_permissions = Perm_ReadWrite, c_state = state, c_attribute = Attr_None,
      c_backing = bk i\<rparr>"

text \<open>A memory block lies in the host's address space, away from the null pointer.\<close>

definition block_ok :: "MemoryBlock \<Rightarrow> bool" where
  "block_ok blk \<longleftrightarrow>
     0 < unat (blk_data blk) \<and> unat (blk_data blk) + unat (blk_size blk) < 18446744073709551616"

definition block_vma :: "MemoryState \<Rightarrow> nat \<Rightarrow> u64 \<Rightarrow> VirtualMemoryArea \<Rightarrow> VirtualMemoryArea" where
  "block_vma state blk offset w = w\<lparr>vma_type := VMA_AllocatedMemoryBlock, vma_permissions := Perm_ReadWrite,
     vma_state := state, vma_backing_block := Some blk, vma_offset := offset\<rparr>"

lemma MapMemoryBlock_carved:
  assumes "vm_ok s" and "vm_range s b n" and "offset + n \<le> blk_size (vm_blocks s blk)"
  shows "MapMemoryBlock s b (Some blk) offset n state =
    map_carved s b n (arm_map b n (blk_data (vm_blocks s blk) + offset))
      (block_vma state blk offset)"
proof -
  have "vm_blocks s' = vm_blocks s" if "CarveVMA s b n = Some (s', r)" for s' r
    using that CarveVMA_cases [OF assms(1,2)]
    by (cases "all_free s b n") (auto simp: same_layout_def)
  then show ?thesis
    using assms(3)
    by (auto simp: MapMemoryBlock_def map_carved_def block_vma_def Let_def intro!: bind_option_cong split: sum.split)
qed

lemma MapBackingMemory_carved:
  assumes "memory \<noteq> 0"
  shows "MapBackingMemory s b memory n state =
    map_carved s b n (arm_map b n memory)
      (\<lambda>w. w\<lparr>vma_type := VMA_BackingMemory, vma_permissions := Perm_ReadWrite,
            vma_state := state, vma_backing_memory := memory\<rparr>)"
  using assms
  by (auto simp: MapBackingMemory_def map_carved_def Let_def intro!: bind_option_cong split: sum.split)

lemma sys_log_Nil [simp]: "sys_log [] sys = sys"
  by (simp add: sys_log_def)

lemma MapMMIO_carved:
  "MapMMIO s b paddr n state handler =
    map_carved s b n []
      (\<lambda>w. w\<lparr>vma_type := VMA_MMIO, vma_permissions := Perm_ReadWrite, vma_state := state,
            vma_paddr := paddr, vma_mmio_handler := handler\<rparr>)"
  by (auto simp: MapMMIO_def map_carved_def Let_def intro!: bind_option_cong split: sum.split)

lemma backing_area:
  fixes state :: MemoryState
  assumes "freed w" and "vma_base w = b" and "vma_size w = n" and "vm_range s b n" and "memory \<noteq> 0"
    and "unat memory + unat n < 18446744073709551616"
  defines "x \<equiv> w\<lparr>vma_type := VMA_BackingMemory, vma_permissions := Perm_ReadWrite,
                vma_state := state, vma_backing_memory := memory\<rparr>"
  shows "vma_base x = b \<and> vma_size x = n \<and> area_ok (vm_blocks s) x \<and>
    vma_cell x = mapped_cell VMA_BackingMemory state (\<lambda>i. HostAt (memory + of_nat i))"
  using assms by (simp add: area_ok_def host_base_def freed_def vm_range_def vma_cell_def
      mapped_cell_def fun_eq_iff unat_gt_0)

lemma mmio_area:
  fixes state :: MemoryState and paddr :: PAddr and handler :: MemoryHookPointer
  assumes "freed w" and "vma_base w = b" and "vma_size w = n" and "vm_range s b n"
  defines "x \<equiv> w\<lparr>vma_type := VMA_MMIO, vma_permissions := Perm_ReadWrite, vma_state := state,
                vma_paddr := paddr, vma_mmio_handler := handler\<rparr>"
  shows "vma_base x = b \<and> vma_size x = n \<and> area_ok (vm_blocks s) x \<and>
    vma_cell x = mapped_cell VMA_MMIO state (\<lambda>i. PhysAt (paddr + of_nat i))"
  using assms by (simp add: area_ok_def freed_def vm_range_def vma_cell_def mapped_cell_def fun_eq_iff)

lemma block_area:
  fixes state :: MemoryState
  assumes "vm_range s b n" and "block_ok (vm_blocks s blk)"
    and "unat offset + unat n \<le> unat (blk_size (vm_blocks s blk))"
  shows "offset + n \<le> blk_size (vm_blocks s blk)"
    and "freed w \<Longrightarrow> vma_base w = b \<Longrightarrow> vma_size w = n \<Longrightarrow>
      vma_base (block_vma state blk offset w) = b \<and> vma_size (block_vma state blk offset w) = n \<and>
      area_ok (vm_blocks s) (block_vma state blk offset w) \<and>
      vma_cell (block_vma state blk offset w) =
        mapped_cell VMA_AllocatedMemoryBlock state (\<lambda>i. BlockAt (Some blk) (offset + of_nat i))"
proof -
  have le: "unat (blk_data (vm_blocks s blk)) + unat (blk_size (vm_blocks s blk)) < 18446744073709551616"
    using assms(2) by (simp add: block_ok_def)
  have off: "unat (offset + n) = unat offset + unat n"
    using assms(3) unat_bound_u64 [of "blk_size (vm_blocks s blk)"] by (simp add: unat_add_u64)
  have host: "unat (blk_data (vm_blocks s blk) + offset) = unat (blk_data (vm_blocks s blk)) + unat offset"
    using assms(3) le by (intro unat_add_u64) simp
  show "offset + n \<le> blk_size (vm_blocks s blk)"
    using assms(3) off by (simp add: word_le_nat_alt)
  show "vma_base (block_vma state blk offset w) = b \<and> vma_size (block_vma state blk offset w) = n \<and>
      area_ok (vm_blocks s) (block_vma state blk offset w) \<and>
      vma_cell (block_vma state blk offset w) =
        mapped_cell VMA_AllocatedMemoryBlock state (\<lambda>i. BlockAt (Some blk) (offset + of_nat i))"
    if "freed w" "vma_base w = b" "vma_size w = n"
    using that assms host le by (auto simp: block_vma_def area_ok_def host_base_def freed_def vm_range_def
        block_ok_def vma_cell_def mapped_cell_def fun_eq_iff)
qed

text \<open>
  \<^bold>\<open>C1\<close>. \<open>MapMemoryBlock\<close> on a page-aligned range inside the address space, with a
  block that is large enough: it never trips an assertion and keeps the manager well formed. If
  every address of the range is free, it succeeds, the \<open>i\<close>-th address of the range
  becomes readable and writable memory with the caller's state, backed by the \<open>i\<close>-th byte
  behind the offset in the block, and every other address is as before; the handle returned
  names the area that holds the range. Otherwise it returns \<open>ERR_INVALID_ADDRESS_STATE\<close> and
  changes nothing.
\<close>

theorem MapMemoryBlock_correct:
  assumes "vm_ok s" and "vm_range s b n" and "block_ok (vm_blocks s blk)"
    and "unat offset + unat n \<le> unat (blk_size (vm_blocks s blk))"
  shows "\<exists>s' res. MapMemoryBlock s b (Some blk) offset n state = Some (s', res) \<and>
    vm_ok s' \<and> same_layout s s' \<and>
    (if all_free s b n
     then (\<exists>k. res = Inr k \<and> handle_at s' k (unat b)) \<and>
          view s' = repaint (unat b) (unat b + unat n)
            (mapped_cell VMA_AllocatedMemoryBlock state (\<lambda>i. BlockAt (Some blk) (offset + of_nat i)))
            (view s)
     else res = Inl ERR_INVALID_ADDRESS_STATE \<and> s' = s)"
  unfolding MapMemoryBlock_carved [OF assms(1,2) block_area(1) [OF assms(2-4)]]
  by (rule map_carved_correct [OF assms(1,2)]) (rule block_area(2) [OF assms(2-4)])

text \<open>
  \<^bold>\<open>C4\<close>. \<open>MapBackingMemory\<close>, with a host range that does not wrap: the same, with
  the \<open>i\<close>-th address backed by the \<open>i\<close>-th byte behind the host pointer.
\<close>

theorem MapBackingMemory_correct:
  assumes "vm_ok s" and "vm_range s b n" and "memory \<noteq> 0"
    and "unat memory + unat n < 18446744073709551616"
  shows "\<exists>s' res. MapBackingMemory s b memory n state = Some (s', res) \<and> vm_ok s' \<and> same_layout s s' \<and>
    (if all_free s b n
     then (\<exists>k. res = Inr k \<and> handle_at s' k (unat b)) \<and>
          view s' = repaint (unat b) (unat b + unat n)
            (mapped_cell VMA_BackingMemory state (\<lambda>i. HostAt (memory + of_nat i))) (view s)
     else res = Inl ERR_INVALID_ADDRESS_STATE \<and> s' = s)"
  unfolding MapBackingMemory_carved [OF assms(3)]
  by (rule map_carved_correct [OF assms(1,2)]) (rule backing_area [OF _ _ _ assms(2-4)])

text \<open>
  \<open>MapMMIO\<close>: the same, with the \<open>i\<close>-th address standing for the
  \<open>i\<close>-th physical address behind \<open>paddr\<close>.
\<close>

theorem MapMMIO_correct:
  assumes "vm_ok s" and "vm_range s b n"
  shows "\<exists>s' res. MapMMIO s b paddr n state handler = Some (s', res) \<and> vm_ok s' \<and> same_layout s s' \<and>
    (if all_free s b n
     then (\<exists>k. res = Inr k \<and> handle_at s' k (unat b)) \<and>
          view s' = repaint (unat b) (unat b + unat n)
            (mapped_cell VMA_MMIO state (\<lambda>i. PhysAt (paddr + of_nat i))) (view s)
     else res = Inl ERR_INVALID_ADDRESS_STATE \<and> s' = s)"
  unfolding MapMMIO_carved
  by (rule map_carved_correct [OF assms]) (rule mmio_area [OF _ _ _ assms(2)])

end
