(* ===== verification/Vm_Range_Correct.thy ===== *)
theory Vm_Range_Correct
  imports Vm_Map_Correct
begin

text \<open>
  Correctness of the operations of \<open>VMManager\<close> that walk a range of mapped areas:
  \<open>UnmapRange\<close> and \<open>ReprotectRange\<close>. Both terminate, both fail without an effect exactly when
  some address of the range is free, and both have the effect on every address of the range, and
  on no other, that their single-area step has on an area.
\<close>

lemma change_area:
  assumes inv: "vm_inv s" and m: "vma_map s = pre @ (k, v) # post"
    and w: "vma_base w = vma_base v" "vma_size w = vma_size v" "area_ok (vm_blocks s) w"
    and spec: "merge_spec vma_size set_vma_size CanBeMergedWith pre k w post = (pre', k', v', post')"
  shows "\<exists>s'. Option.bind (UpdatePageTableForVMA (s\<lparr>vma_map := put (vma_map s) k w\<rparr>) w)
       (\<lambda>s. MergeAdjacent s k) = Some (s', k') \<and>
     vma_map s' = pre' @ (k', v') # post' \<and> vm_inv s' \<and> same_layout s s'"
proof -
  have wk: "vma_base w = k" using w(1) vm_inv_areas(1) [OF inv m] by simp
  obtain s1 where s1: "UpdatePageTableForVMA (s\<lparr>vma_map := put (vma_map s) k w\<rparr>) w = Some s1"
    "vma_map s1 = pre @ (k, w) # post" "vm_inv s1" "same_layout s s1"
    using replace_area [OF inv m wk w(2,3)] by blast
  note mg = MergeAdjacent_at [OF s1(3,2) spec]
  have "same_layout s (s1\<lparr>vma_map := pre' @ (k', v') # post'\<rparr>)"
    by (rule same_layout_trans [OF s1(4)]) simp
  then show ?thesis using s1(1) mg(1,2) by auto
qed

lemma area_ok_unmapped:
  "area_ok bl v \<Longrightarrow> area_ok bl (unmapped_vma v)"
  by (simp add: area_ok_def unmapped_vma_def freed_def)

lemma area_ok_reprotected:
  "area_ok bl v \<Longrightarrow> vma_type v \<noteq> VMA_Free \<Longrightarrow> area_ok bl (reprotected_vma p v)"
  by (auto simp: area_ok_def reprotected_vma_def host_base_def)

lemma Unmap_step_ok:
  "kunmap.step_ok vma_map Unmap (\<lambda>s. vm_inv s \<and> same_layout s0 s) (\<lambda>_. True) lo hi"
proof -
  have "\<exists>s'. Unmap s k = Some (s', k') \<and> vma_map s' = pre' @ (k', v') # post' \<and>
      vm_inv s' \<and> same_layout s0 s'"
    if inv: "vm_inv s" and lay: "same_layout s0 s" and m: "vma_map s = pre @ (k, v) # post"
      and spec: "merge_spec vma_size set_vma_size CanBeMergedWith pre k (unmapped_vma v) post =
        (pre', k', v', post')" for s pre k v post pre' k' v' post'
  proof -
    have "vma_base (unmapped_vma v) = vma_base v" "vma_size (unmapped_vma v) = vma_size v"
      by (simp_all add: unmapped_vma_def)
    from change_area [OF inv m this area_ok_unmapped [OF vm_inv_areas(4) [OF inv m]] spec]
    show ?thesis
      using map_of_area [OF inv m] lay by (auto simp: Unmap_def Let_def intro: same_layout_trans)
  qed
  then show ?thesis unfolding kunmap.step_ok_def by blast
qed

lemma Reprotect_step_ok:
  "kprot.step_ok p vma_map (\<lambda>s k. Reprotect s k p) (\<lambda>s. vm_inv s \<and> same_layout s0 s)
     (\<lambda>v. vma_type v \<noteq> VMA_Free) lo hi"
proof -
  have "\<exists>s'. Reprotect s k p = Some (s', k') \<and> vma_map s' = pre' @ (k', v') # post' \<and>
      vm_inv s' \<and> same_layout s0 s'"
    if inv: "vm_inv s" and lay: "same_layout s0 s" and nf: "vma_type v \<noteq> VMA_Free"
      and m: "vma_map s = pre @ (k, v) # post"
      and spec: "merge_spec vma_size set_vma_size CanBeMergedWith pre k (reprotected_vma p v) post =
        (pre', k', v', post')" for s pre k v post pre' k' v' post'
  proof -
    have "vma_base (reprotected_vma p v) = vma_base v" "vma_size (reprotected_vma p v) = vma_size v"
      by (simp_all add: reprotected_vma_def)
    from change_area [OF inv m this area_ok_reprotected [OF vm_inv_areas(4) [OF inv m] nf] spec]
    show ?thesis
      using map_of_area [OF inv m] lay by (auto simp: Reprotect_def Let_def intro: same_layout_trans)
  qed
  then show ?thesis unfolding kprot.step_ok_def by blast
qed

lemma map_begin_carved:
  assumes "tiles vb vz (unat b) mid e" and "unat b < e"
  shows "map_begin (mid @ tail) = At b" and "mid \<noteq> []"
  using assms by (cases mid; auto simp: map_begin_def word_unat_eq_iff)+

lemma UnmapRange_at:
  assumes ok: "vm_ok s" and r: "vm_range s b n"
  shows "\<exists>s' res. UnmapRange s b n = Some (s', res) \<and> vm_ok s' \<and> same_layout s s' \<and>
    (if none_free s b n
     then res = RESULT_SUCCESS \<and>
          view s' = overlay (unat b) (unat b + unat n) (\<lambda>_. free_cell) (view s)
     else res = ERR_INVALID_ADDRESS_STATE \<and> s' = s)"
proof (cases "none_free s b n")
  case False
  then show ?thesis using CarveVMARange_cases [OF ok r] ok by (simp add: UnmapRange_def)
next
  case True
  with CarveVMARange_cases [OF ok r] obtain s1 pre mid tail where
    s1: "CarveVMARange s b n = Some (s1, Inr b)" "vm_ok s1" "same_layout s s1" "view s1 = view s"
      "vma_map s1 = pre @ mid @ tail"
    and t: "tiles vma_base vma_size 0 pre (unat b)" "tiles vma_base vma_size (unat b) mid (unat (b + n))"
      "tiles vma_base vma_size (unat (b + n)) tail (unat (address_space_end s))" by auto
  have inv1: "vm_inv s1" and ap1: "apart freed (pre @ mid @ tail)"
    using s1(2,5) by (auto simp: vm_ok_def)
  have e: "unat (b + n) = unat b + unat n" "unat b < unat (b + n)"
    using r unat_bound_u64 [of "address_space_end s"] by (auto simp: vm_range_def unat_add_u64)
  note mid = map_begin_carved [OF t(2) e(2)]
  obtain s2 where s2: "range_loop vma_map vma_base Unmap (b + n) s1 (At b) = Some s2"
    "vma_map s2 = walk vma_size set_vma_size CanBeMergedWith unmapped_vma pre mid tail"
    "vm_inv s2" "same_layout s1 s2"
    using kunmap.range_loop_walk [OF Unmap_step_ok [of s1] unat_bound_u64 refl _ s1(5) t] inv1 mid(1)
    by auto
  note wk = kunmap.walk_correct [OF t unat_bound_u64]
  obtain xs k v ys where cover: "vma_map s2 = xs @ (k, v) # ys" "unat k \<le> unat b"
    "unat (b + n) \<le> unat k + unat (vma_size v)"
    using kunmap.walk_covers [OF unat_bound_u64 t, of "unat b"] mid(2) s2(2) by auto
  have b2: "unat b < unat (address_space_end s2)"
    using r s1(3) s2(4) by (simp add: vm_range_def same_layout_def)
  obtain pre2 k2 v2 post2 where f: "vma_map s2 = pre2 @ (k2, v2) # post2" "FindVMA s2 b = Some (At k2)"
    "unat k2 \<le> unat b" "unat b < unat k2 + unat (vma_size v2)" "map_of (vma_map s2) k2 = Some v2"
    by (rule FindVMA_at [OF s2(3) b2])
  have "k2 = k \<and> v2 = v"
    using area_unique [OF _ cover(1) f(1), of vma_base vma_size 0] s2(3) cover f e
    by (auto simp: vm_inv_def)
  then have size: "n \<le> vma_size v2" using cover e by (simp add: word_le_nat_alt)
  have nf: "\<not> freed (snd p)" if "p \<in> set mid" for p
    using carved_not_free [OF inv1 s1(4) True s1(5)] t(2) e(1) that by (auto simp: freed_def)
  have "apart freed (vma_map s2)"
    unfolding s2(2)
    using kunmap.walk_apart [OF unat_bound_u64, of 0 pre mid tail "address_space_end s"] t nf mid(2) ap1
    by (auto simp: tiles_append apart_append)
  then have "vm_ok s2" using s2(3) by (simp add: vm_ok_def)
  moreover have "view s2 = overlay (unat b) (unat b + unat n) (\<lambda>_. free_cell) (view s)"
    using wk s1(4,5) e by (simp add: view_def s2(2))
  ultimately show ?thesis
    using True s1(1) s2(1) f size same_layout_trans [OF s1(3) s2(4)]
    by (auto simp: UnmapRange_def Let_def deref_def intro: same_layout_trans [OF _ same_layout_system])
qed

text \<open>
  \<^bold>\<open>C2\<close>. \<open>UnmapRange\<close> on a page-aligned, non-empty range inside the address space
  terminates, trips no assertion (in particular not its own check that one area covers the
  range afterwards) and keeps the manager well formed. If no address of the range is free, it
  returns success and exactly the addresses of the range become free; otherwise it returns
  \<open>ERR_INVALID_ADDRESS_STATE\<close> and changes nothing.
\<close>

theorem UnmapRange_correct:
  assumes ok: "vm_ok s" and r: "vm_range s b n"
  shows "\<exists>s' res. UnmapRange s b n = Some (s', res) \<and> vm_ok s' \<and> same_layout s s' \<and>
    (if none_free s b n
     then res = RESULT_SUCCESS \<and>
          view s' = overlay (unat b) (unat b + unat n) (\<lambda>_. free_cell) (view s)
     else res = ERR_INVALID_ADDRESS_STATE \<and> s' = s)"
  by (rule UnmapRange_at [OF assms])

lemma ReprotectRange_at:
  assumes ok: "vm_ok s" and r: "vm_range s b n"
  shows "\<exists>s' res. ReprotectRange s b n p = Some (s', res) \<and> vm_ok s' \<and> same_layout s s' \<and>
    (if none_free s b n
     then res = RESULT_SUCCESS \<and>
          view s' = overlay (unat b) (unat b + unat n) (\<lambda>c. c\<lparr>c_permissions := p\<rparr>) (view s)
     else res = ERR_INVALID_ADDRESS_STATE \<and> s' = s)"
proof (cases "none_free s b n")
  case False
  then show ?thesis using CarveVMARange_cases [OF ok r] ok by (simp add: ReprotectRange_def)
next
  case True
  with CarveVMARange_cases [OF ok r] obtain s1 pre mid tail where
    s1: "CarveVMARange s b n = Some (s1, Inr b)" "vm_ok s1" "same_layout s s1" "view s1 = view s"
      "vma_map s1 = pre @ mid @ tail"
    and t: "tiles vma_base vma_size 0 pre (unat b)" "tiles vma_base vma_size (unat b) mid (unat (b + n))"
      "tiles vma_base vma_size (unat (b + n)) tail (unat (address_space_end s))" by auto
  have inv1: "vm_inv s1" and ap1: "apart freed (pre @ mid @ tail)"
    using s1(2,5) by (auto simp: vm_ok_def)
  have e: "unat (b + n) = unat b + unat n" "unat b < unat (b + n)"
    using r unat_bound_u64 [of "address_space_end s"] by (auto simp: vm_range_def unat_add_u64)
  note mid = map_begin_carved [OF t(2) e(2)]
  have nf: "vma_type (snd q) \<noteq> VMA_Free" if "q \<in> set mid" for q
    using carved_not_free [OF inv1 s1(4) True s1(5)] t(2) e(1) that by auto
  obtain s2 where s2:
    "range_loop vma_map vma_base (\<lambda>s k. Reprotect s k p) (b + n) s1 (At b) = Some s2"
    "vma_map s2 = walk vma_size set_vma_size CanBeMergedWith (reprotected_vma p) pre mid tail"
    "vm_inv s2" "same_layout s1 s2"
    using kprot.range_loop_walk [OF Reprotect_step_ok [of p s1] unat_bound_u64 refl _ s1(5) t] inv1
      mid(1) nf by auto
  have nf': "\<not> freed (snd q)" if "q \<in> set mid" for q using nf [OF that] by (simp add: freed_def)
  have "apart freed (vma_map s2)"
    unfolding s2(2)
    using kprot.walk_apart [OF unat_bound_u64, of 0 pre mid tail "address_space_end s"] t nf' mid(2) ap1
    by (auto simp: tiles_append apart_append)
  then have "vm_ok s2" using s2(3) by (simp add: vm_ok_def)
  moreover have "view s2 = overlay (unat b) (unat b + unat n) (\<lambda>c. c\<lparr>c_permissions := p\<rparr>) (view s)"
    using kprot.walk_correct [OF t unat_bound_u64] s1(4,5) e by (simp add: view_def s2(2))
  ultimately show ?thesis
    using True s1(1) s2(1) same_layout_trans [OF s1(3) s2(4)] by (simp add: ReprotectRange_def)
qed

text \<open>
  \<^bold>\<open>C3\<close>. \<open>ReprotectRange\<close> on such a range terminates and keeps the manager well
  formed. If no address of the range is free, it returns success, exactly the addresses of the
  range get the new permissions, and nothing else about any address changes; otherwise it
  returns \<open>ERR_INVALID_ADDRESS_STATE\<close> and changes nothing.
\<close>

theorem ReprotectRange_correct:
  assumes ok: "vm_ok s" and r: "vm_range s b n"
  shows "\<exists>s' res. ReprotectRange s b n p = Some (s', res) \<and> vm_ok s' \<and> same_layout s s' \<and>
    (if none_free s b n
     then res = RESULT_SUCCESS \<and>
          view s' = overlay (unat b) (unat b + unat n) (\<lambda>c. c\<lparr>c_permissions := p\<rparr>) (view s)
     else res = ERR_INVALID_ADDRESS_STATE \<and> s' = s)"
  by (rule ReprotectRange_at [OF assms])

end
