(* ===== verification/Vm_Reset_Correct.thy ===== *)
theory Vm_Reset_Correct
  imports Vm_Range_Correct
begin

text \<open>
  \<open>Reset\<close> builds a well-formed manager of the requested width, all of it free, with the memory
  regions laid out inside the address space.
\<close>

lemma width_of_ranges:
  "rr_width (region_ranges_of ty) \<in> {32, 36, 39}"
  by (cases ty) (simp_all add: region_ranges_of_def)

lemma address_space_end_initialized:
  "unat (address_space_end (InitializeMemoryRegionRanges ty s)) = 2 ^ rr_width (region_ranges_of ty)"
  by (cases ty) (simp_all add: InitializeMemoryRegionRanges_def region_ranges_of_def Let_def push_bit_eq_mult)

definition reset_start :: "ProgramAddressSpaceType \<Rightarrow> VMManager \<Rightarrow> VMManager" where
  "reset_start ty s =
     (let s = InitializeMemoryRegionRanges ty (Clear s);
          s = s\<lparr>vm_page_table := PageTable_Resize (address_space_width s) (vm_page_table s)\<rparr>
      in s\<lparr>vma_map := [(0, initial_vma\<lparr>vma_size := address_space_end s\<rparr>)]\<rparr>)"

lemma Reset_start:
  "Reset ty s = UpdatePageTableForVMA (reset_start ty s)
     (initial_vma\<lparr>vma_size := address_space_end (reset_start ty s)\<rparr>)"
  by (simp add: Reset_def reset_start_def Let_def initial_vma_def Clear_def ClearVMAMap_def
      ClearPageTable_def InitializeMemoryRegionRanges_def)

lemma reset_start_inv:
  assumes "pt_page_bits (vm_page_table s) = PAGE_BITS"
  shows "vm_inv (reset_start ty s)"
proof -
  let ?s = "reset_start ty s"
  let ?w = "rr_width (region_ranges_of ty)"
  have aend: "unat (address_space_end ?s) = 2 ^ ?w"
    using address_space_end_initialized [of ty "Clear s"] by (simp add: reset_start_def Let_def)
  have ent: "pt_entries (vm_page_table ?s) = 2 ^ (?w - 12)"
    using assms by (simp add: reset_start_def Let_def PageTable_Resize_def
        InitializeMemoryRegionRanges_def Clear_def ClearPageTable_def ClearVMAMap_def
        special_write_def PAGE_BITS_def)
  have pow: "(2 ^ ?w :: nat) = 4096 * 2 ^ (?w - 12)"
    using width_of_ranges [of ty] by auto
  have zero: "pt_pointers (vm_page_table ?s) i = 0" "pt_attributes (vm_page_table ?s) i = PT_Unmapped" for i
    by (simp_all add: reset_start_def Let_def PageTable_Resize_def InitializeMemoryRegionRanges_def
        Clear_def ClearPageTable_def ClearVMAMap_def special_write_def resize_vector_def)
  have m: "vma_map ?s = [(0, initial_vma\<lparr>vma_size := address_space_end ?s\<rparr>)]"
    by (simp add: reset_start_def Let_def)
  have "pages_agree ?s"
    by (auto simp: pages_agree_def view_def m initial_vma_def vma_cell_def page_agrees_def zero
        split: if_splits)
  then show ?thesis
    using aend ent pow
    by (simp add: vm_inv_def m initial_vma_def area_ok_def freed_def)
qed

lemma Reset_ok:
  assumes "pt_page_bits (vm_page_table s) = PAGE_BITS"
  shows "\<exists>s'. Reset ty s = Some s' \<and> vm_ok s' \<and> same_layout (reset_start ty s) s' \<and>
    vma_map s' = [(0, initial_vma\<lparr>vma_size := address_space_end (reset_start ty s)\<rparr>)]"
proof -
  let ?s = "reset_start ty s"
  let ?v = "initial_vma\<lparr>vma_size := address_space_end ?s\<rparr>"
  have m: "vma_map ?s = [] @ (0, ?v) # []" by (simp add: reset_start_def Let_def)
  note inv = reset_start_inv [OF assms]
  have "put (vma_map ?s) 0 ?v = vma_map ?s" by (simp add: m put_def)
  then have "?s\<lparr>vma_map := put (vma_map ?s) 0 ?v\<rparr> = ?s" by simp
  moreover obtain s' where "UpdatePageTableForVMA (?s\<lparr>vma_map := put (vma_map ?s) 0 ?v\<rparr>) ?v = Some s'"
    "vma_map s' = [] @ (0, ?v) # []" "vm_inv s'" "same_layout ?s s'"
    using replace_area [OF inv m, of ?v] vm_inv_areas [OF inv m] by auto
  ultimately show ?thesis by (auto simp: Reset_start vm_ok_def)
qed

text \<open>
  \<^bold>\<open>C5\<close>. \<open>Reset\<close> of a manager whose page table has 4 KiB pages comes back with a
  well-formed manager in which every address below the end of the address space is free. The
  code, map, heap, new map and TLS regions it lays out are page aligned, follow each other
  without overlap and lie inside the address space, and the heap is empty.
\<close>

theorem Reset_correct:
  assumes "pt_page_bits (vm_page_table s) = PAGE_BITS"
  shows "\<exists>s'. Reset ty s = Some s' \<and> vm_ok s' \<and>
    unat (address_space_end s') = 2 ^ address_space_width s' \<and>
    (\<forall>a. view s' a = (if a < 2 ^ address_space_width s' then Some free_cell else None)) \<and>
    code_region_base s' \<le> code_region_end s' \<and> code_region_end s' = map_region_base s' \<and>
    map_region_base s' \<le> map_region_end s' \<and> map_region_end s' = heap_region_base s' \<and>
    heap_region_base s' \<le> heap_region_end s' \<and> heap_region_end s' \<le> tls_io_region_base s' \<and>
    tls_io_region_base s' \<le> tls_io_region_end s' \<and> tls_io_region_end s' \<le> address_space_end s' \<and>
    (ty = Is39Bit \<longrightarrow> new_map_region_base s' = heap_region_end s' \<and>
       new_map_region_end s' = tls_io_region_base s') \<and>
    (\<forall>b \<in> {code_region_base s', map_region_base s', heap_region_base s', heap_region_end s',
            tls_io_region_base s', tls_io_region_end s'}. 4096 dvd unat b) \<and>
    GetCurrentHeapSize s' = 0"
proof -
  obtain s' where s': "Reset ty s = Some s'" "vm_ok s'" "same_layout (reset_start ty s) s'"
    "vma_map s' = [(0, initial_vma\<lparr>vma_size := address_space_end (reset_start ty s)\<rparr>)]"
    using Reset_ok [OF assms] by blast
  note lay = s'(3) [unfolded same_layout_def]
  have w: "address_space_width s' = rr_width (region_ranges_of ty)"
    and aend: "unat (address_space_end s') = 2 ^ rr_width (region_ranges_of ty)"
    using lay address_space_end_initialized [of ty "Clear s"]
    by (simp_all add: reset_start_def Let_def InitializeMemoryRegionRanges_def)
  have "view s' a = (if a < 2 ^ address_space_width s' then Some free_cell else None)" for a
    using lay w aend s'(4) by (simp add: view_def initial_vma_def vma_cell_def free_cell_def)
  then show ?thesis
    using s'(1,2) w aend lay
    by (cases ty)
      (simp_all add: reset_start_def Let_def InitializeMemoryRegionRanges_def region_ranges_of_def
        GetCurrentHeapSize_def push_bit_eq_mult word_le_nat_alt)
qed

end
