(* ===== verification/Vm_Examples.thy ===== *)
theory Vm_Examples
  imports Vm_Reset_Correct
begin

text \<open>
  Two concrete managers, a freshly reset one with a 39-bit address space and one with a device
  mapped into it, and the correctness theorems applied to them.
\<close>

definition example_members :: VMManager where
  "example_members = (vm_members \<lparr>sys_powered_on = False, sys_calls = []\<rparr>)
     \<lparr>vm_blocks := \<lambda>_. \<lparr>blk_data = 0x10000, blk_size = 0x10000\<rparr>\<rparr>"

definition example_vm :: VMManager where
  "example_vm = the (Reset Is39Bit example_members)"

lemma example_vm_ok:
  shows "Reset Is39Bit example_members = Some example_vm" and "vm_ok example_vm"
    and "unat (address_space_end example_vm) = 549755813888"
    and "vm_blocks example_vm = (\<lambda>_. \<lparr>blk_data = 0x10000, blk_size = 0x10000\<rparr>)"
    and "a < 549755813888 \<Longrightarrow> view example_vm a = Some free_cell"
proof -
  have "pt_page_bits (vm_page_table example_members) = PAGE_BITS"
    by (simp add: example_members_def vm_members_def PageTable_create_def)
  from Reset_ok [OF this, of Is39Bit] obtain s' where s': "Reset Is39Bit example_members = Some s'"
    "vm_ok s'" "same_layout (reset_start Is39Bit example_members) s'"
    "vma_map s' = [(0, initial_vma\<lparr>vma_size :=
        address_space_end (reset_start Is39Bit example_members)\<rparr>)]" by blast
  then have eq: "example_vm = s'" by (simp add: example_vm_def)
  have start: "unat (address_space_end (reset_start Is39Bit example_members)) = 549755813888"
    using address_space_end_initialized [of Is39Bit "Clear example_members"]
    by (simp add: reset_start_def Let_def region_ranges_of_def)
  show "Reset Is39Bit example_members = Some example_vm" "vm_ok example_vm" using s' eq by simp_all
  show "unat (address_space_end example_vm) = 549755813888"
    using s'(3) start by (simp add: eq same_layout_def)
  show "vm_blocks example_vm = (\<lambda>_. \<lparr>blk_data = 0x10000, blk_size = 0x10000\<rparr>)"
    using s'(3) by (simp add: eq same_layout_def reset_start_def Let_def example_members_def Clear_def
        ClearPageTable_def ClearVMAMap_def InitializeMemoryRegionRanges_def)
  show "view example_vm a = Some free_cell" if "a < 549755813888"
    using that start s'(4) by (simp add: eq view_def initial_vma_def vma_cell_def free_cell_def)
qed

lemma example_free:
  assumes "4096 dvd unat b" and "4096 dvd unat n" and "0 < unat n" and "unat b + unat n \<le> 549755813888"
  shows "vm_range example_vm b n" and "all_free example_vm b n" and "\<not> none_free example_vm b n"
  using assms
  by (auto simp: vm_range_def example_vm_ok(3,5) all_free_def none_free_def free_at_def free_cell_def
      intro!: exI [of _ "unat b"])

definition example_mmio :: VMManager where
  "example_mmio = fst (the (MapMMIO example_vm 0x8000000 0x50000000 0x3000 State_Io None))"

lemma example_mmio_ok:
  shows "vm_ok example_mmio" and "unat (address_space_end example_mmio) = 549755813888"
    and "view example_mmio = repaint 0x8000000 0x8003000
      (mapped_cell VMA_MMIO State_Io (\<lambda>i. PhysAt (0x50000000 + of_nat i))) (view example_vm)"
proof -
  have r: "vm_range example_vm 0x8000000 0x3000" and fr: "all_free example_vm 0x8000000 0x3000"
    by (simp_all add: example_free)
  let ?h = "mapped_cell VMA_MMIO State_Io (\<lambda>i. PhysAt (0x50000000 + of_nat i))"
  have "\<exists>s' res. MapMMIO example_vm 0x8000000 0x50000000 0x3000 State_Io None = Some (s', res) \<and>
      vm_ok s' \<and> same_layout example_vm s' \<and>
      (if all_free example_vm 0x8000000 0x3000
       then (\<exists>k. res = Inr k \<and> handle_at s' k (unat (0x8000000 :: u64))) \<and>
         view s' = repaint (unat (0x8000000 :: u64)) (unat (0x8000000 :: u64) + unat (0x3000 :: u64))
           ?h (view example_vm)
       else res = Inl ERR_INVALID_ADDRESS_STATE \<and> s' = example_vm)"
    unfolding MapMMIO_carved
    by (rule map_carved_correct [OF example_vm_ok(2) r]) (rule mmio_area [OF _ _ _ r])
  with fr obtain s' res where
    s': "MapMMIO example_vm 0x8000000 0x50000000 0x3000 State_Io None = Some (s', res)"
    "vm_ok s'" "same_layout example_vm s'" "view s' = repaint (unat (0x8000000 :: u64))
        (unat (0x8000000 :: u64) + unat (0x3000 :: u64)) ?h (view example_vm)"
    by auto
  then have eq: "example_mmio = s'" by (simp add: example_mmio_def)
  show "vm_ok example_mmio" "unat (address_space_end example_mmio) = 549755813888"
    "view example_mmio = repaint 0x8000000 0x8003000
      (mapped_cell VMA_MMIO State_Io (\<lambda>i. PhysAt (0x50000000 + of_nat i))) (view example_vm)"
    using s'(2-4) by (simp_all add: eq same_layout_def example_vm_ok(3))
qed

lemma example_mapped:
  shows "vm_range example_mmio 0x8001000 0x1000" and "none_free example_mmio 0x8001000 0x1000"
  by (auto simp: vm_range_def none_free_def example_mmio_ok free_at_def repaint_def mapped_cell_def)

subsection \<open>The theorems applied\<close>

theorem MapMemoryBlock_witness:
  "all_free example_vm 0x8000000 0x2000 \<and>
   (\<exists>s' k. MapMemoryBlock example_vm 0x8000000 (Some 7) 0x1000 0x2000 State_Heap = Some (s', Inr k) \<and>
      vm_ok s' \<and> handle_at s' k 0x8000000 \<and>
      view s' 0x8001234 =
        Some (mapped_cell VMA_AllocatedMemoryBlock State_Heap (\<lambda>_. BlockAt (Some 7) 0x2234) 0))"
  using MapMemoryBlock_correct [OF example_vm_ok(2), of "0x8000000" "0x2000" 7 "0x1000" State_Heap]
    example_free [of "0x8000000" "0x2000"]
  by (auto simp: example_vm_ok(4) block_ok_def repaint_def mapped_cell_def)

theorem MapBackingMemory_witness:
  "all_free example_vm 0x8000000 0x2000 \<and>
   (\<exists>s' k. MapBackingMemory example_vm 0x8000000 0x7F0000 0x2000 State_Shared = Some (s', Inr k) \<and>
      vm_ok s' \<and> view s' 0x8001234 =
        Some (mapped_cell VMA_BackingMemory State_Shared (\<lambda>_. HostAt 0x7F1234) 0))"
  using MapBackingMemory_correct [OF example_vm_ok(2), of "0x8000000" "0x2000" "0x7F0000" State_Shared]
    example_free [of "0x8000000" "0x2000"]
  by (auto simp: repaint_def mapped_cell_def)

theorem MapMMIO_witness:
  "none_free example_mmio 0x8001000 0x1000 \<and>
   MapMMIO example_mmio 0x8001000 0 0x1000 State_Io None =
     Some (example_mmio, Inl ERR_INVALID_ADDRESS_STATE)"
proof -
  have "\<not> all_free example_mmio 0x8001000 0x1000"
    using example_mapped(2) by (auto simp: all_free_def none_free_def intro!: exI [of _ "0x8001000"])
  with MapMMIO_correct [OF example_mmio_ok(1) example_mapped(1), of 0 State_Io None] example_mapped(2)
  show ?thesis by auto
qed

theorem UnmapRange_witness:
  "none_free example_mmio 0x8001000 0x1000 \<and>
   (\<exists>s'. UnmapRange example_mmio 0x8001000 0x1000 = Some (s', RESULT_SUCCESS) \<and> vm_ok s' \<and>
      view s' 0x8001FFF = Some free_cell \<and> view s' 0x8002000 \<noteq> Some free_cell)"
  using UnmapRange_correct [OF example_mmio_ok(1) example_mapped(1)] example_mapped(2)
  by (auto simp: overlay_def example_mmio_ok(3) repaint_def mapped_cell_def free_cell_def)

theorem ReprotectRange_witness:
  "none_free example_mmio 0x8001000 0x1000 \<and>
   (\<exists>s'. ReprotectRange example_mmio 0x8001000 0x1000 Perm_Read = Some (s', RESULT_SUCCESS) \<and> vm_ok s' \<and>
      map_option c_permissions (view s' 0x8001FFF) = Some Perm_Read \<and>
      map_option c_permissions (view s' 0x8002000) = Some Perm_ReadWrite)"
  using ReprotectRange_correct [OF example_mmio_ok(1) example_mapped(1), of Perm_Read] example_mapped(2)
  by (auto simp: overlay_def example_mmio_ok(3) repaint_def mapped_cell_def)

theorem Reset_witness:
  "pt_page_bits (vm_page_table example_members) = PAGE_BITS \<and>
   (\<exists>s'. Reset Is32Bit example_members = Some s' \<and> vm_ok s')"
  using Reset_correct [of example_members Is32Bit]
  by (simp add: example_members_def vm_members_def PageTable_create_def) blast

end
