(* ===== verification/Guest_Examples.thy ===== *)
theory Guest_Examples
  imports Guest_Block_Correct Vm_Examples
begin

text \<open>A manager with three pages of memory mapped, and the memory theorems applied to it.\<close>

definition example_ram :: VMManager where
  "example_ram = fst (the (MapBackingMemory example_vm 0x8000000 0x7F0000 0x3000 State_Heap))"

lemma example_ram_ok:
  shows "vm_ok example_ram" and "unat (address_space_end example_ram) = 549755813888"
    and "view example_ram = repaint 0x8000000 0x8003000
      (mapped_cell VMA_BackingMemory State_Heap (\<lambda>i. HostAt (0x7F0000 + of_nat i))) (view example_vm)"
proof -
  have r: "vm_range example_vm 0x8000000 0x3000" and fr: "all_free example_vm 0x8000000 0x3000"
    by (simp_all add: example_free)
  have nz: "(0x7F0000 :: host_ptr) \<noteq> 0" and fits: "unat (0x7F0000 :: host_ptr) + unat (0x3000 :: u64) < 18446744073709551616"
    by simp_all
  let ?h = "mapped_cell VMA_BackingMemory State_Heap (\<lambda>i. HostAt (0x7F0000 + of_nat i))"
  have "\<exists>s' res. MapBackingMemory example_vm 0x8000000 0x7F0000 0x3000 State_Heap = Some (s', res) \<and>
      vm_ok s' \<and> same_layout example_vm s' \<and>
      (if all_free example_vm 0x8000000 0x3000
       then (\<exists>k. res = Inr k \<and> handle_at s' k (unat (0x8000000 :: u64))) \<and>
         view s' = repaint (unat (0x8000000 :: u64)) (unat (0x8000000 :: u64) + unat (0x3000 :: u64))
           ?h (view example_vm)
       else res = Inl ERR_INVALID_ADDRESS_STATE \<and> s' = example_vm)"
    unfolding MapBackingMemory_carved [OF nz]
    by (rule map_carved_correct [OF example_vm_ok(2) r]) (rule backing_area [OF _ _ _ r nz fits])
  with fr obtain s' res where
    s': "MapBackingMemory example_vm 0x8000000 0x7F0000 0x3000 State_Heap = Some (s', res)"
    "vm_ok s'" "same_layout example_vm s'" "view s' = repaint (unat (0x8000000 :: u64))
        (unat (0x8000000 :: u64) + unat (0x3000 :: u64)) ?h (view example_vm)"
    by auto
  then have eq: "example_ram = s'" by (simp add: example_ram_def)
  show "vm_ok example_ram" "unat (address_space_end example_ram) = 549755813888"
    "view example_ram = repaint 0x8000000 0x8003000 ?h (view example_vm)"
    using s'(2-4) by (simp_all add: eq same_layout_def example_vm_ok(3))
qed

lemma example_translate:
  assumes "a < 549755813888"
  shows "translate example_ram a =
      (if 0x8000000 \<le> a \<and> a < 0x8003000 then Some (0x7F0000 + of_nat (a - 0x8000000)) else None)"
    and "\<not> device_at example_ram a"
  using assms
  by (simp_all add: translate_def device_at_def example_ram_ok(3) repaint_def example_vm_ok(5)
      cell_host_def mapped_cell_def free_cell_def)

lemma unat_add_of_nat:
  fixes p :: u64
  assumes "unat p + i < 18446744073709551616"
  shows "unat (p + of_nat i) = unat p + i"
  using assms by (subst unat_add_u64) (simp_all add: unat_of_nat)

lemma example_host_eq:
  assumes "(0x7F0000 :: host_ptr) + of_nat i = 0x7F0000 + of_nat j" and "i < 0x3000" and "j < 0x3000"
  shows "i = j"
proof -
  have "(of_nat i :: host_ptr) = of_nat j" using assms(1) by simp
  then have "unat (of_nat i :: host_ptr) = unat (of_nat j :: host_ptr)" by simp
  with assms(2,3) show ?thesis by (simp add: unat_of_nat)
qed

definition idle_gpu :: gpu_cache where
  "idle_gpu = \<lparr>flush_region = (\<lambda>_ _ h. h), invalidate_region = (\<lambda>_ _ h. h)\<rparr>"

lemma idle_gpu_idle: "gpu_idle idle_gpu"
  by (simp add: gpu_idle_def idle_gpu_def)

theorem GetPointer_witness:
  "GetPointer example_ram 0x8001234 = Some 0x7F1234 \<and> GetPointer example_ram 0x9000000 = Some 0 \<and>
   IsValidVirtualAddress example_ram 0x8001234 = Some True"
  using GetPointer_correct [OF example_ram_ok(1), of "0x8001234"]
    GetPointer_correct [OF example_ram_ok(1), of "0x9000000"]
  by (simp add: example_ram_ok(2) example_translate)

theorem Read_after_Write_witness:
  "\<exists>h'. Write32 idle_gpu example_ram (\<lambda>_. 0) 0x8001234 0xDEADBEEF = Some h' \<and>
        Read32 idle_gpu example_ram h' 0x8001234 = Some (h', 0xDEADBEEF)"
  using Read_after_Write [OF example_ram_ok(1) _ _ idle_gpu_idle, of "0x8001234" "\<lambda>_. 0" 0 0 "0xDEADBEEF" 0]
  by (simp add: example_ram_ok(2) example_translate)

theorem RasterizerMarkRegionCached_witness:
  "\<exists>s'. RasterizerMarkRegionCached example_ram 0x8000800 0x1000 True = Some s' \<and> vm_ok s' \<and>
     pt_attributes (vm_page_table s') 0x8001 =
       marked_type True (pt_attributes (vm_page_table example_ram) 0x8001)"
  using RasterizerMarkRegionCached_correct [OF example_ram_ok(1), of "0x8000800" "0x1000" True]
  by (auto simp: example_ram_ok(2) example_translate(2))

theorem WriteBlock_ReadBlock_witness:
  "\<exists>h1 h2. WriteBlock idle_gpu example_ram 0x8000F00 0x10000 0x200 (\<lambda>p. ucast p) = Some h1 \<and>
     ReadBlock idle_gpu example_ram 0x8000F00 0x20000 0x200 h1 = Some h2 \<and>
     host_read h2 0x20000 0x200 = host_read (\<lambda>p. ucast p) 0x10000 0x200"
proof -
  have apart: "host_apart example_ram 0x8000F00 0x200 p 0x200" if "p = 0x10000 \<or> p = 0x20000" for p
    unfolding host_apart_def
  proof (intro allI impI)
    fix i j :: nat
    assume i: "i < 0x200" "j < 0x200"
    have "unat ((0x7F0000 :: host_ptr) + of_nat (0xF00 + i)) = 0x7F0000 + (0xF00 + i)"
      using unat_add_of_nat [of "0x7F0000" "0xF00 + i"] i by simp
    moreover have "unat (p + of_nat j) = unat p + j"
      using unat_add_of_nat [of p j] i that by auto
    ultimately have "unat ((0x7F0000 :: host_ptr) + of_nat (0xF00 + i)) \<noteq> unat (p + of_nat j)"
      using that i by auto
    then have "(0x7F0000 :: host_ptr) + of_nat (0xF00 + i) \<noteq> p + of_nat j" by metis
    then show "translate example_ram (0x8000F00 + i) \<noteq> Some (p + of_nat j)"
      using i by (simp add: example_translate)
  qed
  have "no_alias example_ram 0x8000F00 0x200"
    using example_host_eq [of "0xF00 + _" "0xF00 + _"] by (fastforce simp: no_alias_def example_translate)
  then show ?thesis
    using WriteBlock_ReadBlock [OF example_ram_ok(1) _ _ _ _ _ idle_gpu_idle,
        of "0x8000F00" "0x200" "0x10000" "0x20000" "\<lambda>p. ucast p"] apart
    by (auto simp: block_range_def example_ram_ok(2) example_translate)
qed


end
