(* ===== verification/Gpu_Examples.thy ===== *)
theory Gpu_Examples
  imports Gpu_Map_Correct Guest_Examples
begin

text \<open>
  The theorems about the GPU's address space applied to a freshly constructed manager, and a
  sequence of allocations that runs into an assertion.
\<close>

definition example_gm :: GpuMemoryManager where
  "example_gm = the GpuMemoryManager_create"

lemma example_gm_ok:
  shows "GpuMemoryManager_create = Some example_gm" and "gm_inv example_gm"
    and "gm_map example_gm = [(0, \<lparr>gv_base = 0, gv_size = gpu_address_space_end, gv_type = GV_Unmapped,
       gv_backing_addr = 0, gv_offset = 0, gv_backing_memory = 0\<rparr>)]"
    and "gpu_view example_gm = (\<lambda>a. if a < 549755813888 then Some (GV_Unmapped, 0) else None)"
proof -
  obtain s where s: "GpuMemoryManager_create = Some s" "gm_inv s"
    "gm_map s = [(0, \<lparr>gv_base = 0, gv_size = gpu_address_space_end, gv_type = GV_Unmapped,
       gv_backing_addr = 0, gv_offset = 0, gv_backing_memory = 0\<rparr>)]"
    "gpu_view s = (\<lambda>a. if a < 549755813888 then Some (GV_Unmapped, 0) else None)"
    using GpuMemoryManager_create_at by blast
  then have "example_gm = s" unfolding example_gm_def by (metis option.sel)
  with s show "GpuMemoryManager_create = Some example_gm" "gm_inv example_gm"
    "gm_map example_gm = [(0, \<lparr>gv_base = 0, gv_size = gpu_address_space_end, gv_type = GV_Unmapped,
       gv_backing_addr = 0, gv_offset = 0, gv_backing_memory = 0\<rparr>)]"
    "gpu_view example_gm = (\<lambda>a. if a < 549755813888 then Some (GV_Unmapped, 0) else None)"
    by blast+
qed

lemma example_size: "AlignUp 0x2345 gpu_page_size = 0x10000"
  by (simp add: AlignUp_def gpu_page_size_def)


text \<open>Two allocations at fixed addresses, with a gap of one page between them.\<close>

definition example_gap :: "GpuMemoryManager option" where
  "example_gap = do {
     s \<leftarrow> GpuMemoryManager_create;
     (s, _) \<leftarrow> AllocateSpaceAt s 0x110000 0x10000 0;
     (s, _) \<leftarrow> AllocateSpaceAt s 0x130000 0x10000 0;
     Some s
   }"

definition example_area :: "u64 \<Rightarrow> u64 \<Rightarrow> gpu_area_type \<Rightarrow> GpuArea" where
  "example_area b n ty = \<lparr>gv_base = b, gv_size = n, gv_type = ty, gv_backing_addr = 0, gv_offset = 0,
     gv_backing_memory = 0\<rparr>"

lemmas allocate_simps = AllocateSpaceAt_def gpu_AllocateMemory_def gpu_CarveVMA_def gpu_FindVMA_def
  gpu_SplitVMA_def gpu_Allocate_def gpu_MergeAdjacent_def gpu_UpdatePageTableForVMA_def
  gpu_MapMemoryRegion_def gpu_MapPages_def AlignUp_def gpu_page_size_def gpu_page_mask_def
  gpu_address_space_end_def gpu_address_space_width_def find_area_def split_area_def merge_adjacent_def
  upper_bound_def iter_prev_def iter_next_def map_begin_def gpu_set_size_def gpu_split_rest_def
  gpu_CanBeMergedWith_def allocated_area_def example_area_def fill_range_def deref_def
  put_def erase_def Let_def

lemma example_gm_map:
  "gm_map example_gm = [(0, example_area 0 0x8000000000 GV_Unmapped)]" "pt_entries (gm_page_table example_gm) = 8388608"
  using example_gm_ok(2)
  by (simp_all add: gm_inv_def gm_ok_def example_gm_ok(3) example_area_def gpu_address_space_end_def
      gpu_address_space_width_def)

lemma example_gap_1:
  assumes "gm_map s = [(0, example_area 0 0x8000000000 GV_Unmapped)]" and "pt_entries (gm_page_table s) = 8388608"
  shows "\<exists>s'. AllocateSpaceAt s 0x110000 0x10000 0 = Some (s', 0x110000) \<and>
     gm_map s' = [(0, example_area 0 0x110000 GV_Unmapped), (0x110000, example_area 0x110000 0x10000 GV_Allocated),
       (0x120000, example_area 0x120000 0x7FFFEE0000 GV_Unmapped)] \<and> pt_entries (gm_page_table s') = 8388608"
  using assms by (simp add: allocate_simps)

lemma example_gap_carve:
  assumes "gm_map s = [(0, example_area 0 0x110000 GV_Unmapped), (0x110000, example_area 0x110000 0x10000 GV_Allocated),
       (0x120000, example_area 0x120000 0x7FFFEE0000 GV_Unmapped)]"
  shows "gpu_CarveVMA s 0x130000 0x10000 = Some (s\<lparr>gm_map :=
      [(0, example_area 0 0x110000 GV_Unmapped), (0x110000, example_area 0x110000 0x10000 GV_Allocated),
       (0x120000, example_area 0x120000 0x10000 GV_Unmapped), (0x130000, example_area 0x130000 0x10000 GV_Unmapped),
       (0x140000, example_area 0x140000 0x7FFFEC0000 GV_Unmapped)]\<rparr>, 0x130000)"
proof -
  have 1: "gpu_SplitVMA s 0x120000 0x20000 = Some (s\<lparr>gm_map :=
      [(0, example_area 0 0x110000 GV_Unmapped), (0x110000, example_area 0x110000 0x10000 GV_Allocated),
       (0x120000, example_area 0x120000 0x20000 GV_Unmapped),
       (0x140000, example_area 0x140000 0x7FFFEC0000 GV_Unmapped)]\<rparr>, 0x140000)"
    by (simp add: allocate_simps assms)
  have 2: "gpu_SplitVMA (s\<lparr>gm_map :=
      [(0, example_area 0 0x110000 GV_Unmapped), (0x110000, example_area 0x110000 0x10000 GV_Allocated),
       (0x120000, example_area 0x120000 0x20000 GV_Unmapped),
       (0x140000, example_area 0x140000 0x7FFFEC0000 GV_Unmapped)]\<rparr>) 0x120000 0x10000 = Some (s\<lparr>gm_map :=
      [(0, example_area 0 0x110000 GV_Unmapped), (0x110000, example_area 0x110000 0x10000 GV_Allocated),
       (0x120000, example_area 0x120000 0x10000 GV_Unmapped), (0x130000, example_area 0x130000 0x10000 GV_Unmapped),
       (0x140000, example_area 0x140000 0x7FFFEC0000 GV_Unmapped)]\<rparr>, 0x130000)"
    by (simp add: allocate_simps)
  have "gpu_FindVMA s 0x130000 = Some (At 0x120000)" by (simp add: allocate_simps assms)
  moreover have "map_of (gm_map s) 0x120000 = Some (example_area 0x120000 0x7FFFEE0000 GV_Unmapped)"
    by (simp add: assms)
  moreover have "gv_base (example_area b n ty) = b" "gv_size (example_area b n ty) = n"
    "gv_type (example_area b n ty) = ty" for b n ty by (simp_all add: example_area_def)
  ultimately show ?thesis using 1 2 by (simp add: gpu_CarveVMA_def gpu_page_mask_def)
qed

lemma example_gap_2:
  assumes "gm_map s = [(0, example_area 0 0x110000 GV_Unmapped), (0x110000, example_area 0x110000 0x10000 GV_Allocated),
       (0x120000, example_area 0x120000 0x7FFFEE0000 GV_Unmapped)]" and "pt_entries (gm_page_table s) = 8388608"
  shows "\<exists>s'. AllocateSpaceAt s 0x130000 0x10000 0 = Some (s', 0x130000) \<and>
     gm_map s' = [(0, example_area 0 0x110000 GV_Unmapped), (0x110000, example_area 0x110000 0x10000 GV_Allocated),
       (0x120000, example_area 0x120000 0x10000 GV_Unmapped), (0x130000, example_area 0x130000 0x10000 GV_Allocated),
       (0x140000, example_area 0x140000 0x7FFFEC0000 GV_Unmapped)]"
  using assms(2)
  by (simp add: example_gap_carve [OF assms(1)] AllocateSpaceAt_def gpu_AllocateMemory_def AlignUp_def
      gpu_page_size_def gpu_Allocate_def gpu_UpdatePageTableForVMA_def gpu_MapMemoryRegion_def
      gpu_page_mask_def gpu_MapPages_def example_area_def allocated_area_def put_def Let_def
      gpu_MergeAdjacent_def merge_adjacent_def upper_bound_def map_begin_def iter_prev_def
      gpu_CanBeMergedWith_def)



end
