(* ===== verification/Vm_Mirror.thy ===== *)
theory Vm_Mirror
  imports Vm_Reset_Correct
begin

text \<open>
  \<open>MirrorMemory\<close>: what it does to the memory behind the addresses, and which assertion a source
  that is not mapped trips. The steps are \<open>MapMemoryBlock\<close> and two calls of \<open>Reprotect\<close> on single
  areas, of which the lemmas here show that they keep every area of another state in place.
\<close>

text \<open>The memory behind an address.\<close>

definition backing_at :: "VMManager \<Rightarrow> nat \<Rightarrow> backing option" where
  "backing_at s a = map_option c_backing (view s a)"

lemma in_map_of:
  assumes "vm_inv s" and "(k, v) \<in> set (vma_map s)"
  shows "map_of (vma_map s) k = Some v"
    and "unat k \<le> a \<Longrightarrow> a < unat k + unat (vma_size v) \<Longrightarrow> view s a = Some (vma_cell v (a - unat k))"
    and "unat k + unat (vma_size v) \<le> unat (address_space_end s)" and "0 < unat (vma_size v)"
proof -
  obtain pre post where m: "vma_map s = pre @ (k, v) # post" using assms(2) by (meson split_list)
  show "map_of (vma_map s) k = Some v" by (rule map_of_area [OF assms(1) m])
  show "view s a = Some (vma_cell v (a - unat k))" if "unat k \<le> a" "a < unat k + unat (vma_size v)"
    by (rule view_at [OF assms(1) m that])
  show "unat k + unat (vma_size v) \<le> unat (address_space_end s)" "0 < unat (vma_size v)"
    using vm_inv_areas [OF assms(1) m] by simp_all
qed

lemma reprotected_backing [simp]: "c_backing (vma_cell (reprotected_vma p v) i) = c_backing (vma_cell v i)"
  by (simp add: vma_cell_def reprotected_vma_def split: VMAType.split)

lemma Reprotect_area:
  assumes ok: "vm_ok s" and mem: "(k, v) \<in> set (vma_map s)" and nf: "vma_type v \<noteq> VMA_Free"
  obtains s' k' where "Reprotect s k p = Some (s', k')" and "vm_ok s'" and "same_layout s s'"
    and "view s' = repaint (unat k) (unat k + unat (vma_size v)) (vma_cell (reprotected_vma p v)) (view s)"
    and "backing_at s' = backing_at s"
    and "\<forall>q\<in>set (vma_map s). vma_state (snd q) \<noteq> vma_state v \<longrightarrow> q \<in> set (vma_map s')"
proof -
  have inv: "vm_inv s" and ap: "apart freed (vma_map s)" using ok by (auto simp: vm_ok_def)
  obtain pre post where m: "vma_map s = pre @ (k, v) # post" using mem by (meson split_list)
  note ap' = apart_around [OF ap [unfolded m]]
  let ?w = "reprotected_vma p v"
  have w: "vma_base ?w = k" "vma_size ?w = vma_size v" "area_ok (vm_blocks s) ?w" "vma_state ?w = vma_state v"
    using vm_inv_areas [OF inv m] area_ok_reprotected nf by (auto simp: reprotected_vma_def)
  obtain s1 s' k' where s': "UpdatePageTableForVMA (s\<lparr>vma_map := put (vma_map s) k ?w\<rparr>) ?w = Some s1"
    "MergeAdjacent s1 k = Some (s', k')" "vm_ok s'" "same_layout s s'"
    "view s' = repaint (unat k) (unat k + unat (vma_size v)) (vma_cell ?w) (view s)"
    "\<forall>q\<in>set pre \<union> set post. vma_state (snd q) \<noteq> vma_state ?w \<longrightarrow> q \<in> set (vma_map s')"
    using install_area [OF inv m ap'(1,2) w(1-3)] by blast
  have "Reprotect s k p = Some (s', k')"
    using in_map_of(1) [OF inv mem] s'(1,2) by (simp add: Reprotect_def Let_def)
  moreover have "backing_at s' a = backing_at s a" for a
    by (cases "unat k \<le> a \<and> a < unat k + unat (vma_size v)")
      (simp_all add: s'(5) backing_at_def repaint_def in_map_of(2) [OF inv mem])
  then have "backing_at s' = backing_at s" by auto
  moreover have "q \<in> set (vma_map s')" if "q \<in> set (vma_map s)" "vma_state (snd q) \<noteq> vma_state v" for q
    using s'(6) that w(4) m by auto
  ultimately show thesis using that s'(3-5) by blast
qed

text \<open>The area that holds a source range, and the part of its block that the range is.\<close>

definition mirror_source :: "VMManager \<Rightarrow> u64 \<Rightarrow> u64 \<Rightarrow> u64 \<Rightarrow> VirtualMemoryArea \<Rightarrow> nat \<Rightarrow> bool" where
  "mirror_source s src n k v blk \<longleftrightarrow> (k, v) \<in> set (vma_map s) \<and>
     unat k \<le> unat src \<and> unat src + unat n \<le> unat k + unat (vma_size v) \<and> 0 < unat n \<and>
     vma_type v = VMA_AllocatedMemoryBlock \<and> vma_backing_block v = Some blk \<and> block_ok (vm_blocks s blk) \<and>
     unat (vma_offset v) + unat (vma_size v) \<le> unat (blk_size (vm_blocks s blk))"

lemma mirror_source_offset:
  assumes "vm_inv s" and "mirror_source s src n k v blk"
  shows "FindVMA s src = Some (At k)" and "src - k + n \<le> vma_size v"
    and "unat (vma_offset v + (src - k)) + unat n \<le> unat (blk_size (vm_blocks s blk))"
    and "i < unat n \<Longrightarrow> backing_at s (unat src + i) = Some (BlockAt (Some blk) (vma_offset v + (src - k) + of_nat i))"
proof -
  note src = assms(2) [unfolded mirror_source_def]
  have mem: "(k, v) \<in> set (vma_map s)" using src by blast
  note at = in_map_of [OF assms(1) mem]
  obtain pre post where m: "vma_map s = pre @ (k, v) # post" using mem by (meson split_list)
  have lt: "unat src < unat (address_space_end s)" using src at(3) by linarith
  obtain pre2 k2 v2 post2 where f: "vma_map s = pre2 @ (k2, v2) # post2" "FindVMA s src = Some (At k2)"
    "unat k2 \<le> unat src" "unat src < unat k2 + unat (vma_size v2)"
    by (rule FindVMA_at [OF assms(1) lt])
  have "k2 = k"
    using area_unique [OF _ m f(1), of vma_base vma_size 0] assms(1) src f by (auto simp: vm_inv_def)
  then show "FindVMA s src = Some (At k)" using f(2) by simp
  have d: "unat (src - k) = unat src - unat k" using src by (intro unat_sub_u64) blast
  have le: "unat src - unat k + unat n \<le> unat (vma_size v)" using src by linarith
  then show "src - k + n \<le> vma_size v"
    using d unat_bound_u64 [of "vma_size v"] by (simp add: word_le_nat_alt unat_add_u64)
  show "unat (vma_offset v + (src - k)) + unat n \<le> unat (blk_size (vm_blocks s blk))"
  proof -
    have o: "unat (vma_offset v) + unat (vma_size v) \<le> unat (blk_size (vm_blocks s blk))" using src by blast
    then have "unat (vma_offset v + (src - k)) = unat (vma_offset v) + unat (src - k)"
      using d le unat_bound_u64 [of "blk_size (vm_blocks s blk)"] by (intro unat_add_u64) linarith
    then show ?thesis using o d le by linarith
  qed
  have "of_nat (unat src + i - unat k) = src - k + (of_nat i :: u64)"
    using src by (simp add: of_nat_diff)
  then show "backing_at s (unat src + i) = Some (BlockAt (Some blk) (vma_offset v + (src - k) + of_nat i))" if "i < unat n"
    using at(2) [of "unat src + i"] src that by (simp add: backing_at_def vma_cell_def add.assoc)
qed

lemma handle_area:
  assumes "vm_inv s" and "handle_at s k a" and "view s a = Some c"
  obtains v where "(k, v) \<in> set (vma_map s)" and "vma_type v = c_type c" and "vma_state v = c_state c"
proof -
  obtain v where v: "map_of (vma_map s) k = Some v" "unat k \<le> a" "a < unat k + unat (vma_size v)"
    using assms(2) by (auto simp: handle_at_def split: option.splits)
  then have mem: "(k, v) \<in> set (vma_map s)" by (simp add: map_of_SomeD)
  have c: "c = vma_cell v (a - unat k)" using in_map_of(2) [OF assms(1) mem v(2,3)] assms(3) by simp
  show thesis by (rule that [OF mem]) (simp_all add: c vma_cell_def)
qed

text \<open>What \<open>MirrorMemory\<close> does to a source range in one area, of another state than the mirror.\<close>

definition mirrored :: "VMManager \<Rightarrow> VMManager \<Rightarrow> u64 \<Rightarrow> u64 \<Rightarrow> u64 \<Rightarrow> bool" where
  "mirrored s s' dst src n \<longleftrightarrow> vm_ok s' \<and> same_layout s s' \<and>
     (\<forall>i<unat n. backing_at s' (unat dst + i) = backing_at s (unat src + i) \<and>
        map_option c_permissions (view s' (unat src + i)) = Some Perm_None) \<and>
     (\<forall>a. a < unat dst \<or> unat dst + unat n \<le> a \<longrightarrow> backing_at s' a = backing_at s a)"

lemma MapMemoryBlock_keeps:
  assumes ok: "vm_ok s" and r: "vm_range s b n" and "block_ok (vm_blocks s blk)"
    and "unat off + unat n \<le> unat (blk_size (vm_blocks s blk))"
  shows "\<exists>s' res. MapMemoryBlock s b (Some blk) off n state = Some (s', res) \<and> vm_ok s' \<and> same_layout s s' \<and>
    (if all_free s b n
     then (\<exists>k. res = Inr k \<and> handle_at s' k (unat b)) \<and>
          view s' = repaint (unat b) (unat b + unat n)
            (mapped_cell VMA_AllocatedMemoryBlock state (\<lambda>i. BlockAt (Some blk) (off + of_nat i))) (view s) \<and>
          (\<forall>p\<in>set (vma_map s). vma_type (snd p) \<noteq> VMA_Free \<and> vma_state (snd p) \<noteq> state \<longrightarrow> p \<in> set (vma_map s'))
     else res = Inl ERR_INVALID_ADDRESS_STATE \<and> s' = s)"
proof -
  let ?h = "mapped_cell VMA_AllocatedMemoryBlock state (\<lambda>i. BlockAt (Some blk) (off + of_nat i))"
  have "\<exists>s' res. MapMemoryBlock s b (Some blk) off n state = Some (s', res) \<and> vm_ok s' \<and> same_layout s s' \<and>
    (if all_free s b n
     then (\<exists>k. res = Inr k \<and> handle_at s' k (unat b)) \<and>
          view s' = repaint (unat b) (unat b + unat n) ?h (view s) \<and>
          (\<forall>p\<in>set (vma_map s). vma_type (snd p) \<noteq> VMA_Free \<and> vma_state (snd p) \<noteq> c_state (?h 0) \<longrightarrow>
             p \<in> set (vma_map s'))
     else res = Inl ERR_INVALID_ADDRESS_STATE \<and> s' = s)"
    unfolding MapMemoryBlock_carved [OF ok r block_area(1) [OF assms(2-4)]]
    by (rule map_carved_full [OF ok r]) (rule block_area(2) [OF assms(2-4)])
  moreover have "c_state (?h 0) = state" by (simp add: mapped_cell_def)
  ultimately show ?thesis by (simp only:)
qed

text \<open>The two calls of \<open>Reprotect\<close>: on the new area, and on the source.\<close>

lemma Reprotect_mirror:
  assumes ok: "vm_ok s" and k1: "handle_at s k1 a" "view s a = Some c" "c_type c \<noteq> VMA_Free" "c_state c \<noteq> vma_state v"
    and v: "(k, v) \<in> set (vma_map s)" "vma_type v \<noteq> VMA_Free"
  shows "\<exists>s2 k2 s3 k3. Reprotect s k1 p = Some (s2, k2) \<and> Reprotect s2 k Perm_None = Some (s3, k3) \<and>
    vm_ok s3 \<and> same_layout s s3 \<and> backing_at s3 = backing_at s \<and>
    (\<forall>a. unat k \<le> a \<and> a < unat k + unat (vma_size v) \<longrightarrow> map_option c_permissions (view s3 a) = Some Perm_None)"
proof -
  have inv: "vm_inv s" using ok by (simp add: vm_ok_def)
  obtain v1 where v1: "(k1, v1) \<in> set (vma_map s)" "vma_type v1 = c_type c" "vma_state v1 = c_state c"
    by (rule handle_area [OF inv k1(1,2)])
  then have nf1: "vma_type v1 \<noteq> VMA_Free" using k1(3) by simp
  obtain s2 k2 where s2: "Reprotect s k1 p = Some (s2, k2)" "vm_ok s2" "same_layout s s2"
    "view s2 = repaint (unat k1) (unat k1 + unat (vma_size v1)) (vma_cell (reprotected_vma p v1)) (view s)"
    "backing_at s2 = backing_at s"
    "\<forall>q\<in>set (vma_map s). vma_state (snd q) \<noteq> vma_state v1 \<longrightarrow> q \<in> set (vma_map s2)"
    by (rule Reprotect_area [OF ok v1(1) nf1, where p = p])
  have kv2: "(k, v) \<in> set (vma_map s2)" using bspec [OF s2(6) v(1)] v1(3) k1(4) by simp
  obtain s3 k3 where s3: "Reprotect s2 k Perm_None = Some (s3, k3)" "vm_ok s3" "same_layout s2 s3"
    "view s3 = repaint (unat k) (unat k + unat (vma_size v)) (vma_cell (reprotected_vma Perm_None v)) (view s2)"
    "backing_at s3 = backing_at s2"
    "\<forall>q\<in>set (vma_map s2). vma_state (snd q) \<noteq> vma_state v \<longrightarrow> q \<in> set (vma_map s3)"
    by (rule Reprotect_area [OF s2(2) kv2 v(2), where p = Perm_None])
  have "map_option c_permissions (view s3 a) = Some Perm_None" if "unat k \<le> a \<and> a < unat k + unat (vma_size v)" for a
    using that by (simp add: s3(4) repaint_def vma_cell_def reprotected_vma_def)
  then show ?thesis using s2(1,5) s3(1,2,5) same_layout_trans [OF s2(3) s3(3)] by auto
qed

lemma MirrorMemory_at:
  assumes ok: "vm_ok s" and r: "vm_range s dst n" and src: "mirror_source s src n k v blk" and st: "vma_state v \<noteq> state"
  shows "\<exists>s' rc. MirrorMemory s dst src n state = Some (s', rc) \<and>
    (if all_free s dst n then rc = RESULT_SUCCESS \<and> mirrored s s' dst src n
     else rc = ERR_INVALID_ADDRESS_STATE \<and> s' = s)"
proof -
  have inv: "vm_inv s" using ok by (simp add: vm_ok_def)
  have v: "(k, v) \<in> set (vma_map s)" "vma_type v = VMA_AllocatedMemoryBlock" "vma_backing_block v = Some blk"
    "block_ok (vm_blocks s blk)" "unat k \<le> unat src" "unat src + unat n \<le> unat k + unat (vma_size v)"
    using src by (auto simp: mirror_source_def)
  note m = mirror_source_offset [OF inv src] and mo = in_map_of [OF inv v(1)]
  define off where "off = vma_offset v + (src - k)"
  let ?h = "mapped_cell VMA_AllocatedMemoryBlock state (\<lambda>i. BlockAt (Some blk) (off + of_nat i))"
  have ba: "unat off + unat n \<le> unat (blk_size (vm_blocks s blk))" using m(3) by (simp add: off_def)
  note step = MirrorMemory_def [of s dst src n state]
  obtain s1 res where s1: "MapMemoryBlock s dst (Some blk) off n state = Some (s1, res)" "vm_ok s1" "same_layout s s1"
    "if all_free s dst n
     then (\<exists>k. res = Inr k \<and> handle_at s1 k (unat dst)) \<and> view s1 = repaint (unat dst) (unat dst + unat n) ?h (view s) \<and>
          (\<forall>p\<in>set (vma_map s). vma_type (snd p) \<noteq> VMA_Free \<and> vma_state (snd p) \<noteq> state \<longrightarrow> p \<in> set (vma_map s1))
     else res = Inl ERR_INVALID_ADDRESS_STATE \<and> s1 = s"
    using MapMemoryBlock_keeps [OF ok r v(4) ba] by blast
  note run = m(1,2) mo(1) v(3) s1(1) deref_def off_def [symmetric]
  show ?thesis
  proof (cases "all_free s dst n")
    case False
    then show ?thesis using s1(4) by (simp add: step run)
  next
    case True
    then obtain k1 where k1: "res = Inr k1" "handle_at s1 k1 (unat dst)"
      "view s1 = repaint (unat dst) (unat dst + unat n) ?h (view s)" "(k, v) \<in> set (vma_map s1)"
      using s1(4) v(1,2) st by auto
    have inv1: "vm_inv s1" using s1(2) by (simp add: vm_ok_def)
    have h: "view s1 (unat dst) = Some (?h 0)" "c_type (?h 0) \<noteq> VMA_Free" "c_state (?h 0) \<noteq> vma_state v" "vma_type v \<noteq> VMA_Free"
      using k1(3) r st v(2) by (simp_all add: repaint_def vm_range_def mapped_cell_def)
    obtain s2 k2 s3 k3 where s3: "Reprotect s1 k1 (vma_permissions v) = Some (s2, k2)"
      "Reprotect s2 k Perm_None = Some (s3, k3)" "vm_ok s3" "same_layout s1 s3" "backing_at s3 = backing_at s1"
      "\<forall>a. unat k \<le> a \<and> a < unat k + unat (vma_size v) \<longrightarrow> map_option c_permissions (view s3 a) = Some Perm_None"
      using Reprotect_mirror [OF s1(2) k1(2) h(1-3) k1(4) h(4)] by blast
    have "MirrorMemory s dst src n state = Some (s3, RESULT_SUCCESS)"
      using k1(1) in_map_of(1) [OF inv1 k1(4)] s3(1,2) by (simp add: step run)
    moreover have "backing_at s3 a = (if unat dst \<le> a \<and> a < unat dst + unat n
        then Some (BlockAt (Some blk) (off + of_nat (a - unat dst))) else backing_at s a)" for a
      by (simp add: s3(5) backing_at_def k1(3) repaint_def mapped_cell_def)
    moreover have "map_option c_permissions (view s3 (unat src + i)) = Some Perm_None" if "i < unat n" for i
      using v(5,6) that s3(6) by simp
    ultimately show ?thesis
      using True s3(3) m(4) same_layout_trans [OF s1(3) s3(4)]
      by (intro exI [of _ s3] exI [of _ RESULT_SUCCESS]) (auto simp: mirrored_def off_def)
  qed
qed

lemma MirrorMemory_unmapped:
  assumes "vm_inv s" and "unat src < unat (address_space_end s)" and "free_at s (unat src)"
  shows "MirrorMemory s dst src n state = None"
proof -
  obtain pre k v post where f: "vma_map s = pre @ (k, v) # post" "FindVMA s src = Some (At k)"
    "unat k \<le> unat src" "unat src < unat k + unat (vma_size v)" "map_of (vma_map s) k = Some v"
    by (rule FindVMA_at [OF assms(1,2)])
  then have "vma_type v = VMA_Free" using free_at_here [OF assms(1) f(1)] assms(3) by simp
  then have "vma_backing_block v = None"
    using vm_inv_areas(4) [OF assms(1) f(1)] by (auto simp: area_ok_def freed_def)
  then show ?thesis using f(2,5) by (simp add: MirrorMemory_def deref_def)
qed

end
