(* ===== verification/Svc_Memory.thy ===== *)
theory Svc_Memory
  imports Vm_Mirror
begin

text \<open>
  The system calls on the memory of the current process (\<^verbatim>\<open>core/hle/kernel/svc.cpp\<close>): the checks
  they make of their arguments, and what they do to the \<open>VMManager\<close> of the process. The checks are
  what stands between the arguments, which the guest chooses, and the assertions of the manager.
\<close>

section \<open>The calls\<close>

definition Is4KBAligned :: "u64 \<Rightarrow> bool" where
  "Is4KBAligned v \<longleftrightarrow> v AND 0xFFF = 0"

definition IsValidAddressRange :: "VAddr \<Rightarrow> u64 \<Rightarrow> bool" where
  "IsValidAddressRange address n \<longleftrightarrow> address + n > address"

definition MapUnmapMemorySanityChecks :: "VMManager \<Rightarrow> VAddr \<Rightarrow> VAddr \<Rightarrow> u64 \<Rightarrow> ResultCode" where
  "MapUnmapMemorySanityChecks s dst_addr src_addr n =
     (if \<not> Is4KBAligned dst_addr then ERR_INVALID_ADDRESS
      else if \<not> Is4KBAligned src_addr then ERR_INVALID_SIZE
      else if n = 0 then ERR_INVALID_SIZE
      else if \<not> Is4KBAligned n then ERR_INVALID_SIZE
      else if \<not> IsValidAddressRange dst_addr n then ERR_INVALID_ADDRESS_STATE
      else if \<not> IsValidAddressRange src_addr n then ERR_INVALID_ADDRESS_STATE
      else if \<not> IsWithinAddressSpace s src_addr n then ERR_INVALID_ADDRESS_STATE
      else if \<not> IsWithinNewMapRegion s dst_addr n then ERR_INVALID_MEMORY_RANGE
      else if dst_addr + n > heap_region_base s \<and> heap_region_end s > dst_addr then ERR_INVALID_MEMORY_RANGE
      else if dst_addr + n > map_region_base s \<and> map_region_end s > dst_addr then ERR_INVALID_MEMORY_RANGE
      else RESULT_SUCCESS)"

text \<open>\<open>MemoryPermission\<close> of shared memory is an enum over u32.\<close>

type_synonym MemoryPermission = u32

definition MemoryPermission_None :: MemoryPermission where "MemoryPermission_None = 0"
definition MemoryPermission_Read :: MemoryPermission where "MemoryPermission_Read = 1"
definition MemoryPermission_ReadWrite :: MemoryPermission where "MemoryPermission_ReadWrite = 3"
definition MemoryPermission_ReadWriteExecute :: MemoryPermission where "MemoryPermission_ReadWriteExecute = 7"

lemmas memory_permission_defs = MemoryPermission_None_def MemoryPermission_Read_def
  MemoryPermission_ReadWrite_def MemoryPermission_ReadWriteExecute_def

definition ConvertPermissions :: "MemoryPermission \<Rightarrow> VMAPermission" where
  "ConvertPermissions permission = ucast (permission AND MemoryPermission_ReadWriteExecute)"

text \<open>The address that is written back on success is the value of the result.\<close>

definition svc_SetHeapSize :: "host_allocator \<Rightarrow> VMManager \<Rightarrow> u64 \<Rightarrow> (VMManager \<times> VAddr ResultVal) option" where
  "svc_SetHeapSize h s heap_size =
     (if heap_size mod 0x200000 \<noteq> 0 then Some (s, Inl ERR_INVALID_SIZE)
      else if heap_size \<ge> 0x200000000 then Some (s, Inl ERR_INVALID_SIZE)
      else SetHeapSize h s heap_size)"

definition svc_SetMemoryPermission :: "VMManager \<Rightarrow> VAddr \<Rightarrow> u64 \<Rightarrow> u32 \<Rightarrow> (VMManager \<times> ResultCode) option" where
  "svc_SetMemoryPermission s addr n prot =
     (if \<not> Is4KBAligned addr then Some (s, ERR_INVALID_ADDRESS)
      else if n = 0 then Some (s, ERR_INVALID_SIZE)
      else if \<not> Is4KBAligned n then Some (s, ERR_INVALID_SIZE)
      else if \<not> IsValidAddressRange addr n then Some (s, ERR_INVALID_ADDRESS_STATE)
      else if prot \<noteq> MemoryPermission_None \<and> prot \<noteq> MemoryPermission_Read \<and> prot \<noteq> MemoryPermission_ReadWrite
      then Some (s, ERR_INVALID_MEMORY_PERMISSIONS)
      else if \<not> IsWithinAddressSpace s addr n then Some (s, ERR_INVALID_ADDRESS_STATE)
      else do {
        it \<leftarrow> FindVMA s addr;
        if \<not> IsValidHandle it then Some (s, ERR_INVALID_ADDRESS_STATE)
        else ReprotectRange s addr n (ConvertPermissions prot)
      })"

definition svc_SetMemoryAttribute ::
    "VMManager \<Rightarrow> VAddr \<Rightarrow> u64 \<Rightarrow> u32 \<Rightarrow> u32 \<Rightarrow> (VMManager \<times> ResultCode) option" where
  "svc_SetMemoryAttribute s address n attr_mask attribute =
     (if \<not> Is4KBAligned address then Some (s, ERR_INVALID_ADDRESS)
      else if n = 0 \<or> \<not> Is4KBAligned n then Some (s, ERR_INVALID_ADDRESS)
      else if \<not> IsValidAddressRange address n then Some (s, ERR_INVALID_ADDRESS_STATE)
      else let attribute_with_mask = attribute OR attr_mask in
        if attribute_with_mask \<noteq> attr_mask then Some (s, ERR_INVALID_COMBINATION)
        else if attribute_with_mask OR Attr_Uncached \<noteq> Attr_Uncached then Some (s, ERR_INVALID_COMBINATION)
        else if \<not> IsWithinAddressSpace s address n then Some (s, ERR_INVALID_ADDRESS_STATE)
        else SetMemoryAttribute s address n attr_mask attribute)"

definition svc_MapMemory :: "VMManager \<Rightarrow> VAddr \<Rightarrow> VAddr \<Rightarrow> u64 \<Rightarrow> (VMManager \<times> ResultCode) option" where
  "svc_MapMemory s dst_addr src_addr n =
     (let result = MapUnmapMemorySanityChecks s dst_addr src_addr n
      in if IsError result then Some (s, result)
         else MirrorMemory s dst_addr src_addr n State_Stack)"

definition svc_UnmapMemory :: "VMManager \<Rightarrow> VAddr \<Rightarrow> VAddr \<Rightarrow> u64 \<Rightarrow> (VMManager \<times> ResultCode) option" where
  "svc_UnmapMemory s dst_addr src_addr n =
     (let result = MapUnmapMemorySanityChecks s dst_addr src_addr n
      in if IsError result then Some (s, result)
         else UnmapRange s dst_addr n)"

text \<open>
  The calls on the code memory of a process: \<open>process\<close> is the memory of the process that the handle
  refers to in the handle table of the current process, if it refers to a process. The second call
  rejects the sizes that are page aligned, as the source has it.
\<close>

definition svc_MapProcessCodeMemory ::
    "VMManager option \<Rightarrow> u64 \<Rightarrow> u64 \<Rightarrow> u64 \<Rightarrow> (VMManager option \<times> ResultCode) option" where
  "svc_MapProcessCodeMemory process dst_address src_address n =
     (if \<not> Is4KBAligned src_address then Some (process, ERR_INVALID_ADDRESS)
      else if \<not> Is4KBAligned dst_address then Some (process, ERR_INVALID_ADDRESS)
      else if n = 0 \<or> \<not> Is4KBAligned n then Some (process, ERR_INVALID_SIZE)
      else if \<not> IsValidAddressRange dst_address n then Some (process, ERR_INVALID_ADDRESS_STATE)
      else if \<not> IsValidAddressRange src_address n then Some (process, ERR_INVALID_ADDRESS_STATE)
      else case process of
        None \<Rightarrow> Some (process, ERR_INVALID_HANDLE)
      | Some s \<Rightarrow>
          if \<not> IsWithinAddressSpace s src_address n then Some (process, ERR_INVALID_ADDRESS_STATE)
          else if \<not> IsWithinASLRRegion s dst_address n then Some (process, ERR_INVALID_MEMORY_RANGE)
          else do {
            (s, rc) \<leftarrow> MapCodeMemory s dst_address src_address n;
            Some (Some s, rc)
          })"

definition svc_UnmapProcessCodeMemory ::
    "VMManager option \<Rightarrow> u64 \<Rightarrow> u64 \<Rightarrow> u64 \<Rightarrow> (VMManager option \<times> ResultCode) option" where
  "svc_UnmapProcessCodeMemory process dst_address src_address n =
     (if \<not> Is4KBAligned dst_address then Some (process, ERR_INVALID_ADDRESS)
      else if \<not> Is4KBAligned src_address then Some (process, ERR_INVALID_ADDRESS)
      else if n = 0 \<or> Is4KBAligned n then Some (process, ERR_INVALID_SIZE)
      else if \<not> IsValidAddressRange dst_address n then Some (process, ERR_INVALID_ADDRESS_STATE)
      else if \<not> IsValidAddressRange src_address n then Some (process, ERR_INVALID_ADDRESS_STATE)
      else case process of
        None \<Rightarrow> Some (process, ERR_INVALID_HANDLE)
      | Some s \<Rightarrow>
          if \<not> IsWithinAddressSpace s src_address n then Some (process, ERR_INVALID_ADDRESS_STATE)
          else if \<not> IsWithinASLRRegion s dst_address n then Some (process, ERR_INVALID_MEMORY_RANGE)
          else do {
            (s, rc) \<leftarrow> UnmapCodeMemory s dst_address src_address n;
            Some (Some s, rc)
          })"

section \<open>What the checks establish\<close>

lemma error_codes [simp]:
  "IsError ERR_INVALID_ADDRESS" "IsError ERR_INVALID_SIZE" "IsError ERR_INVALID_ADDRESS_STATE"
  "IsError ERR_INVALID_MEMORY_RANGE" "IsError ERR_INVALID_MEMORY_PERMISSIONS" "IsError ERR_INVALID_COMBINATION"
  "IsError ERR_INVALID_HANDLE" "IsError ERR_INVALID_STATE" "\<not> IsError RESULT_SUCCESS"
  by (simp_all add: IsError_def result_code_defs mask_eq_exp_minus_1)

lemma error_not_success: "IsError e \<Longrightarrow> e \<noteq> RESULT_SUCCESS"
  by (auto simp: IsError_def RESULT_SUCCESS_def)

lemmas not_success [simp] = error_codes(1-8) [THEN error_not_success]

text \<open>What \<open>Reset\<close> establishes of the regions and no operation changes.\<close>

definition regions_ok :: "VMManager \<Rightarrow> bool" where
  "regions_ok s \<longleftrightarrow> address_space_base s = 0 \<and> 0 < address_space_end s \<and>
     0 < new_map_region_end s \<and> new_map_region_end s \<le> address_space_end s"

lemma regions_ok_same_layout: "regions_ok s \<Longrightarrow> same_layout s s' \<Longrightarrow> regions_ok s'"
  by (simp add: regions_ok_def same_layout_def)

lemma Reset_regions_ok:
  assumes "pt_page_bits (vm_page_table s) = PAGE_BITS" and "Reset ty s = Some s'"
  shows "regions_ok s'"
proof -
  have "regions_ok (reset_start ty s)"
    by (cases ty) (simp_all add: regions_ok_def reset_start_def InitializeMemoryRegionRanges_def
        region_ranges_of_def Let_def push_bit_eq_mult word_le_nat_alt word_less_nat_alt)
  then show ?thesis using Reset_ok [OF assms(1), of ty] assms(2) by (auto intro: regions_ok_same_layout)
qed

lemma Is4KBAligned_dvd: "Is4KBAligned v \<longleftrightarrow> 4096 dvd unat v"
  using PAGE_MASK_dvd [of v] by (simp add: Is4KBAligned_def PAGE_MASK_def)

lemma IsValidAddressRange_nat:
  "IsValidAddressRange a n \<longleftrightarrow> 0 < unat n \<and> unat a + unat n < 18446744073709551616"
proof (cases "unat a + unat n < 18446744073709551616")
  case True
  then show ?thesis by (simp add: IsValidAddressRange_def word_less_nat_alt unat_add_u64)
next
  case False
  then have "unat (a + n) = unat a + unat n - 18446744073709551616"
    using unat_bound_u64 [of a] unat_bound_u64 [of n] by (simp add: unat_word_ariths mod_if)
  then show ?thesis using False unat_bound_u64 [of n] by (simp add: IsValidAddressRange_def word_less_nat_alt)
qed

lemma IsInsideAddressRange_nat:
  assumes "IsValidAddressRange a n" and "0 < e"
  shows "IsInsideAddressRange a n b e \<longleftrightarrow> b \<le> a \<and> unat a + unat n \<le> unat e"
proof -
  have n: "0 < unat n" "unat (a + n) = unat a + unat n"
    using assms(1) by (simp_all add: IsValidAddressRange_nat unat_add_u64)
  then have "unat (a + n - 1) = unat a + unat n - 1" by (simp add: unat_sub_u64)
  moreover have "unat (e - 1) = unat e - 1" "0 < unat e" using assms(2) by (simp_all add: unat_sub_u64 word_less_nat_alt)
  ultimately show ?thesis using n(1) by (auto simp: IsInsideAddressRange_def Let_def word_le_nat_alt)
qed

text \<open>What the checks of \<open>MapMemory\<close> and \<open>UnmapMemory\<close> let pass, in terms of natural numbers.\<close>

definition map_request :: "VMManager \<Rightarrow> VAddr \<Rightarrow> VAddr \<Rightarrow> u64 \<Rightarrow> bool" where
  "map_request s dst src n \<longleftrightarrow> vm_range s dst n \<and> vm_range s src n \<and>
     unat (new_map_region_base s) \<le> unat dst \<and> unat dst + unat n \<le> unat (new_map_region_end s) \<and>
     (unat dst + unat n \<le> unat (heap_region_base s) \<or> unat (heap_region_end s) \<le> unat dst) \<and>
     (unat dst + unat n \<le> unat (map_region_base s) \<or> unat (map_region_end s) \<le> unat dst)"

lemma sanity_checks_iff:
  assumes "regions_ok s"
  shows "IsError (MapUnmapMemorySanityChecks s dst src n) \<longleftrightarrow> \<not> map_request s dst src n"
proof -
  have inside: "IsWithinAddressSpace s a n \<longleftrightarrow> unat a + unat n \<le> unat (address_space_end s)"
    "IsWithinNewMapRegion s a n \<longleftrightarrow> new_map_region_base s \<le> a \<and> unat a + unat n \<le> unat (new_map_region_end s)"
    if "IsValidAddressRange a n" for a
    using IsInsideAddressRange_nat [OF that] assms
    by (simp_all add: regions_ok_def IsWithinAddressSpace_def IsWithinNewMapRegion_def)
  have le: "unat (new_map_region_end s) \<le> unat (address_space_end s)" "unat (address_space_end s) < 18446744073709551616"
    using assms unat_bound_u64 by (simp_all add: regions_ok_def word_le_nat_alt)
  show ?thesis
  proof (cases "IsValidAddressRange dst n \<and> IsValidAddressRange src n")
    case True
    then have "unat (dst + n) = unat dst + unat n" by (simp add: IsValidAddressRange_nat unat_add_u64)
    then show ?thesis
      using True inside [of dst] inside [of src] le
      by (auto simp: MapUnmapMemorySanityChecks_def map_request_def vm_range_def Is4KBAligned_dvd word_less_nat_alt
          word_le_nat_alt IsValidAddressRange_nat unat_gt_0)
  next
    case False
    then have "\<not> map_request s dst src n"
      using le by (auto simp: map_request_def vm_range_def IsValidAddressRange_nat)
    then show ?thesis using False by (auto simp: MapUnmapMemorySanityChecks_def)
  qed
qed

lemma permission_checks:
  assumes "regions_ok s" and "\<not> (vm_range s a n \<and> prot \<in> {0, 1, 3})"
  shows "\<exists>rc. svc_SetMemoryPermission s a n prot = Some (s, rc) \<and> IsError rc"
proof (cases "IsValidAddressRange a n")
  case True
  then have "IsWithinAddressSpace s a n \<longleftrightarrow> unat a + unat n \<le> unat (address_space_end s)"
    using IsInsideAddressRange_nat assms(1) by (simp add: regions_ok_def IsWithinAddressSpace_def)
  then show ?thesis
    using True assms(2) by (auto simp: svc_SetMemoryPermission_def vm_range_def Is4KBAligned_dvd memory_permission_defs
        IsValidAddressRange_nat)
qed (auto simp: svc_SetMemoryPermission_def)

lemma permission_granted:
  assumes "vm_ok s" and "regions_ok s" and "vm_range s a n" and "prot \<in> {0, 1, 3}"
  shows "svc_SetMemoryPermission s a n prot = ReprotectRange s a n (ucast prot)"
proof -
  have n: "unat a < unat (address_space_end s)" "unat (address_space_end s) < 18446744073709551616"
    using assms(3) unat_bound_u64 by (auto simp: vm_range_def)
  then have v: "IsValidAddressRange a n" using assms(3) by (auto simp: vm_range_def IsValidAddressRange_nat)
  then have "IsWithinAddressSpace s a n"
    using IsInsideAddressRange_nat assms(2,3) by (simp add: regions_ok_def IsWithinAddressSpace_def vm_range_def)
  moreover have "\<exists>k. FindVMA s a = Some (At k)"
    using FindVMA_at [of s a] assms(1) n(1) by (metis vm_ok_def)
  moreover have "ConvertPermissions prot = ucast prot"
    using assms(4) by (auto simp: ConvertPermissions_def memory_permission_defs)
  ultimately show ?thesis
    using v assms(3,4) by (auto simp: svc_SetMemoryPermission_def vm_range_def Is4KBAligned_dvd memory_permission_defs
        IsValidHandle_def)
qed


text \<open>
  \<^bold>\<open>C34\<close>. \<open>MapMemory\<close> refuses a request that does not pass the checks without an effect. For a request
  that passes and whose source lies in one area of allocated memory that is not itself a mirror, it
  makes the destination an alias of the source if all of it is free: the \<open>i\<close>-th address of the
  destination is backed by the byte behind the \<open>i\<close>-th address of the source, the source loses its
  permissions, and the memory behind every other address stays as it is; if some of the destination
  is mapped, it fails without an effect. But a request that passes and whose source is free trips an
  assertion of the manager: the checks do not look at the source.
\<close>

theorem MapMemory_correct:
  assumes "vm_ok s" and "regions_ok s"
  shows "(\<not> map_request s dst src n \<longrightarrow> (\<exists>rc. svc_MapMemory s dst src n = Some (s, rc) \<and> IsError rc)) \<and>
    (map_request s dst src n \<and> mirror_source s src n k v blk \<and> vma_state v \<noteq> State_Stack \<longrightarrow>
      (\<exists>s' rc. svc_MapMemory s dst src n = Some (s', rc) \<and>
        (if all_free s dst n then rc = RESULT_SUCCESS \<and> mirrored s s' dst src n else IsError rc \<and> s' = s))) \<and>
    (map_request s dst src n \<and> free_at s (unat src) \<longrightarrow> svc_MapMemory s dst src n = None)"
proof (cases "map_request s dst src n")
  case False
  then show ?thesis using sanity_checks_iff [OF assms(2), of dst src n] by (simp add: svc_MapMemory_def Let_def)
next
  case True
  then have call: "svc_MapMemory s dst src n = MirrorMemory s dst src n State_Stack"
    and r: "vm_range s dst n" and lt: "unat src < unat (address_space_end s)"
    using sanity_checks_iff [OF assms(2), of dst src n]
    by (auto simp: svc_MapMemory_def Let_def map_request_def vm_range_def)
  have "\<exists>s' rc. svc_MapMemory s dst src n = Some (s', rc) \<and>
        (if all_free s dst n then rc = RESULT_SUCCESS \<and> mirrored s s' dst src n else IsError rc \<and> s' = s)"
    if "mirror_source s src n k v blk" "vma_state v \<noteq> State_Stack"
    unfolding call using MirrorMemory_at [OF assms(1) r that] by (cases "all_free s dst n") auto
  moreover have "svc_MapMemory s dst src n = None" if "free_at s (unat src)"
    unfolding call using MirrorMemory_unmapped [OF _ lt that] assms(1) by (simp add: vm_ok_def)
  ultimately show ?thesis using True by blast
qed

lemma CheckRangeState_error:
  "CheckRangeState s a n sm st pm ps am at im = Some (Inl e) \<Longrightarrow> e = ERR_INVALID_ADDRESS_STATE"
  by (auto simp: CheckRangeState_def bind_eq_Some_conv split: if_splits)

lemma UnmapRange_misaligned: "\<not> Is4KBAligned n \<Longrightarrow> UnmapRange s a n = None"
  by (simp add: UnmapRange_def CarveVMARange_def Is4KBAligned_dvd PAGE_MASK_dvd)

lemma check_result_cases:
  assumes "(CheckRangeState s a n sm st pm ps am at im \<bind> case_sum (\<lambda>e. Some (s, e)) f) = Some (s', rc)"
  shows "s' = s \<and> IsError rc \<or> (\<exists>x. f x = Some (s', rc))"
proof -
  obtain r where r: "CheckRangeState s a n sm st pm ps am at im = Some r" "case_sum (\<lambda>e. Some (s, e)) f r = Some (s', rc)"
    using assms by (auto simp: bind_eq_Some_conv)
  show ?thesis
  proof (cases r)
    case (Inl e)
    then show ?thesis using r CheckRangeState_error [of s a n sm st pm ps am at im e] by simp
  next
    case (Inr x)
    then show ?thesis using r(2) by (intro disjI2 exI [of _ x]) simp
  qed
qed

lemma UnmapCodeMemory_misaligned:
  assumes "\<not> Is4KBAligned n" and "UnmapCodeMemory s dst src n = Some (s', rc)"
  shows "s' = s \<and> IsError rc"
proof (rule ccontr)
  assume c: "\<not> (s' = s \<and> IsError rc)"
  note run = assms(2) [unfolded UnmapCodeMemory_def Let_def UnmapRange_misaligned [OF assms(1)]]
  from check_result_cases [OF run] c show False
    by (auto dest!: check_result_cases)
qed

text \<open>
  \<^bold>\<open>C35\<close>. \<open>UnmapProcessCodeMemory\<close> never succeeds, so that code memory is never given back: its check of
  the size lacks a negation. Every page-aligned size, and with it every size that a range of mapped
  code memory can have, is refused without an effect; a size that is not page aligned and passes all
  checks trips an assertion of the manager.
\<close>

theorem UnmapProcessCodeMemory_never:
  "(case svc_UnmapProcessCodeMemory process dst src n of
      None \<Rightarrow> \<not> Is4KBAligned n
    | Some (process', rc) \<Rightarrow> process' = process \<and> IsError rc)"
proof (cases "Is4KBAligned n \<or> process = None")
  case True
  then show ?thesis by (auto simp: svc_UnmapProcessCodeMemory_def)
next
  case False
  then show ?thesis
    using UnmapCodeMemory_misaligned [of n _ dst src]
    by (auto simp: svc_UnmapProcessCodeMemory_def bind_eq_Some_conv split: option.splits if_splits)
qed

end
