(* ===== verification/Svc_Shared.thy ===== *)
theory Svc_Shared
  imports Svc_Memory
begin

text \<open>
  Memory that processes share: \<open>SharedMemory\<close> and \<open>TransferMemory\<close>
  (\<^verbatim>\<open>core/hle/kernel/shared_memory.cpp\<close>, \<^verbatim>\<open>transfer_memory.cpp\<close>) and the system calls that map
  and unmap them (\<^verbatim>\<open>svc.cpp\<close>). A process is a number; a call gets the \<open>VMManager\<close> of the process it
  works on, and the object that its handle refers to, if it refers to one of the right type.
\<close>

section \<open>Shared memory\<close>

definition MemoryPermission_DontCare :: MemoryPermission where "MemoryPermission_DontCare = 0x10000000"

record SharedMemory =
  shm_backing_block :: "nat option"
  shm_backing_block_offset :: u64
  shm_size :: u64
  shm_permissions :: MemoryPermission
  shm_other_permissions :: MemoryPermission
  shm_owner_process :: "nat option"
  shm_base_address :: VAddr

text \<open>Allocating a vector of \<open>n\<close> bytes.\<close>

definition make_block :: "host_allocator \<Rightarrow> VMManager \<Rightarrow> u64 \<Rightarrow> VMManager \<times> nat" where
  "make_block h s n =
     (let (blk, data) = new_block h s n
      in (s\<lparr>vm_blocks := (vm_blocks s)(blk := \<lparr>blk_data = data, blk_size = n\<rparr>)\<rparr>, blk))"

text \<open>\<open>s\<close> is the memory of the current process, which is the owner.\<close>

definition SharedMemory_Create ::
    "host_allocator \<Rightarrow> VMManager \<Rightarrow> nat \<Rightarrow> u64 \<Rightarrow> MemoryPermission \<Rightarrow> MemoryPermission \<Rightarrow> VAddr \<Rightarrow>
     (VMManager \<times> SharedMemory) option" where
  "SharedMemory_Create h s owner n permissions other_permissions address = do {
     let shm = \<lparr>shm_backing_block = None, shm_backing_block_offset = 0, shm_size = n,
       shm_permissions = permissions, shm_other_permissions = other_permissions,
       shm_owner_process = Some owner, shm_base_address = address\<rparr>;
     if address = 0 then do {
       let (s, blk) = make_block h s n;
       s \<leftarrow> RefreshMemoryBlockMappings s (Some blk);
       Some (s, shm\<lparr>shm_backing_block := Some blk\<rparr>)
     }
     else do {
       it \<leftarrow> FindVMA s address;
       ASSERT (IsValidHandle it);
       vma \<leftarrow> deref (vma_map s) it;
       ASSERT (vma_backing_block vma \<noteq> None);
       k \<leftarrow> (case it of At k \<Rightarrow> Some k | End \<Rightarrow> None);
       let vma_offset_in = address - k;
       ASSERT (vma_offset_in + n \<le> vma_size vma);
       Some (s, shm\<lparr>shm_backing_block := vma_backing_block vma,
                    shm_backing_block_offset := vma_offset vma + vma_offset_in\<rparr>)
     }
   }"

definition SharedMemory_CreateForApplet ::
    "VMManager \<Rightarrow> nat option \<Rightarrow> u64 \<Rightarrow> u64 \<Rightarrow> MemoryPermission \<Rightarrow> MemoryPermission \<Rightarrow> SharedMemory" where
  "SharedMemory_CreateForApplet s heap_block offset n permissions other_permissions =
     \<lparr>shm_backing_block = heap_block, shm_backing_block_offset = offset, shm_size = n,
      shm_permissions = permissions, shm_other_permissions = other_permissions,
      shm_owner_process = None, shm_base_address = heap_region_base s + offset\<rparr>"

definition SharedMemory_Map ::
    "SharedMemory \<Rightarrow> nat \<Rightarrow> VMManager \<Rightarrow> VAddr \<Rightarrow> MemoryPermission \<Rightarrow> MemoryPermission \<Rightarrow>
     (VMManager \<times> ResultCode) option" where
  "SharedMemory_Map shm target_process s address permissions other_permissions =
     (let own_other_permissions =
        (if shm_owner_process shm = Some target_process then shm_permissions shm else shm_other_permissions shm)
      in if shm_base_address shm = 0 \<and> other_permissions \<noteq> MemoryPermission_DontCare
         then Some (s, ERR_INVALID_MEMORY_PERMISSIONS)
         else if permissions AND NOT own_other_permissions \<noteq> 0 then Some (s, ERR_INVALID_MEMORY_PERMISSIONS)
         else if other_permissions \<noteq> MemoryPermission_DontCare \<and> shm_permissions shm AND NOT other_permissions \<noteq> 0
         then Some (s, ERR_INVALID_MEMORY_PERMISSIONS)
         else do {
           (s, r) \<leftarrow> MapMemoryBlock s address (shm_backing_block shm) (shm_backing_block_offset shm) (shm_size shm) State_Shared;
           case r of
             Inl e \<Rightarrow> Some (s, e)
           | Inr _ \<Rightarrow> ReprotectRange s address (shm_size shm) (ConvertPermissions permissions)
         })"

definition SharedMemory_Unmap :: "SharedMemory \<Rightarrow> VMManager \<Rightarrow> VAddr \<Rightarrow> u64 \<Rightarrow> (VMManager \<times> ResultCode) option" where
  "SharedMemory_Unmap shm s address unmap_size =
     (if unmap_size \<noteq> shm_size shm then Some (s, ERR_INVALID_SIZE)
      else UnmapRange s address (shm_size shm))"

definition SharedMemory_GetPointer :: "SharedMemory \<Rightarrow> VMManager \<Rightarrow> u64 \<Rightarrow> host_ptr option" where
  "SharedMemory_GetPointer shm s offset = do {
     blk \<leftarrow> shm_backing_block shm;
     Some (blk_data (vm_blocks s blk) + shm_backing_block_offset shm + offset)
   }"

section \<open>Transfer memory\<close>

record TransferMemory =
  tm_backing_block :: "nat option"
  tm_base_address :: VAddr
  tm_memory_size :: u64
  tm_owner_permissions :: MemoryPermission
  tm_owner_process :: nat
  tm_is_mapped :: bool

definition TransferMemory_Create :: "nat \<Rightarrow> VAddr \<Rightarrow> u64 \<Rightarrow> MemoryPermission \<Rightarrow> TransferMemory" where
  "TransferMemory_Create current_process base_address n permissions =
     \<lparr>tm_backing_block = None, tm_base_address = base_address, tm_memory_size = n,
      tm_owner_permissions = permissions, tm_owner_process = current_process, tm_is_mapped = False\<rparr>"

text \<open>\<open>s\<close> is the memory of the owner.\<close>

definition TransferMemory_MapMemory ::
    "host_allocator \<Rightarrow> TransferMemory \<Rightarrow> VMManager \<Rightarrow> VAddr \<Rightarrow> u64 \<Rightarrow> MemoryPermission \<Rightarrow>
     (TransferMemory \<times> VMManager \<times> ResultCode) option" where
  "TransferMemory_MapMemory h tm s address n permissions =
     (if tm_memory_size tm \<noteq> n then Some (tm, s, ERR_INVALID_SIZE)
      else if tm_owner_permissions tm \<noteq> permissions then Some (tm, s, ERR_INVALID_STATE)
      else if tm_is_mapped tm then Some (tm, s, ERR_INVALID_STATE)
      else do {
        let (s, blk) = make_block h s n;
        let tm = tm\<lparr>tm_backing_block := Some blk\<rparr>;
        let map_state = (if tm_owner_permissions tm = MemoryPermission_None
          then State_TransferMemoryIsolated else State_TransferMemory);
        (s, r) \<leftarrow> MapMemoryBlock s address (tm_backing_block tm) 0 n map_state;
        case r of
          Inl e \<Rightarrow> Some (tm, s, e)
        | Inr _ \<Rightarrow> Some (tm\<lparr>tm_is_mapped := True\<rparr>, s, RESULT_SUCCESS)
      })"

definition TransferMemory_UnmapMemory ::
    "TransferMemory \<Rightarrow> VMManager \<Rightarrow> VAddr \<Rightarrow> u64 \<Rightarrow> (TransferMemory \<times> VMManager \<times> ResultCode) option" where
  "TransferMemory_UnmapMemory tm s address n =
     (if tm_memory_size tm \<noteq> n then Some (tm, s, ERR_INVALID_SIZE)
      else do {
        (s, result) \<leftarrow> UnmapRange s address n;
        if IsError result then Some (tm, s, result)
        else Some (tm\<lparr>tm_is_mapped := False\<rparr>, s, RESULT_SUCCESS)
      })"

section \<open>The calls\<close>

definition svc_MapSharedMemory ::
    "SharedMemory option \<Rightarrow> nat \<Rightarrow> VMManager \<Rightarrow> VAddr \<Rightarrow> u64 \<Rightarrow> u32 \<Rightarrow> (VMManager \<times> ResultCode) option" where
  "svc_MapSharedMemory shared_memory current_process s addr n permissions =
     (if \<not> Is4KBAligned addr then Some (s, ERR_INVALID_ADDRESS)
      else if n = 0 then Some (s, ERR_INVALID_SIZE)
      else if \<not> Is4KBAligned n then Some (s, ERR_INVALID_SIZE)
      else if \<not> IsValidAddressRange addr n then Some (s, ERR_INVALID_ADDRESS_STATE)
      else if permissions \<noteq> MemoryPermission_Read \<and> permissions \<noteq> MemoryPermission_ReadWrite
      then Some (s, ERR_INVALID_MEMORY_PERMISSIONS)
      else case shared_memory of
        None \<Rightarrow> Some (s, ERR_INVALID_HANDLE)
      | Some shm \<Rightarrow>
          if \<not> IsWithinASLRRegion s addr n then Some (s, ERR_INVALID_MEMORY_RANGE)
          else SharedMemory_Map shm current_process s addr permissions MemoryPermission_DontCare)"

definition svc_UnmapSharedMemory ::
    "SharedMemory option \<Rightarrow> VMManager \<Rightarrow> VAddr \<Rightarrow> u64 \<Rightarrow> (VMManager \<times> ResultCode) option" where
  "svc_UnmapSharedMemory shared_memory s addr n =
     (if \<not> Is4KBAligned addr then Some (s, ERR_INVALID_ADDRESS)
      else if n = 0 then Some (s, ERR_INVALID_SIZE)
      else if \<not> Is4KBAligned n then Some (s, ERR_INVALID_SIZE)
      else if \<not> IsValidAddressRange addr n then Some (s, ERR_INVALID_ADDRESS_STATE)
      else case shared_memory of
        None \<Rightarrow> Some (s, ERR_INVALID_HANDLE)
      | Some shm \<Rightarrow>
          if \<not> IsWithinASLRRegion s addr n then Some (s, ERR_INVALID_MEMORY_RANGE)
          else SharedMemory_Unmap shm s addr n)"

text \<open>The transfer memory is that of the current process, so that the caller's memory is the owner's.\<close>

definition svc_MapTransferMemory ::
    "host_allocator \<Rightarrow> TransferMemory option \<Rightarrow> VMManager \<Rightarrow> VAddr \<Rightarrow> u64 \<Rightarrow> u32 \<Rightarrow>
     (TransferMemory option \<times> VMManager \<times> ResultCode) option" where
  "svc_MapTransferMemory h transfer_memory s address n permissions =
     (if \<not> Is4KBAligned address then Some (transfer_memory, s, ERR_INVALID_ADDRESS)
      else if n = 0 \<or> \<not> Is4KBAligned n then Some (transfer_memory, s, ERR_INVALID_SIZE)
      else if \<not> IsValidAddressRange address n then Some (transfer_memory, s, ERR_INVALID_ADDRESS_STATE)
      else if permissions \<noteq> MemoryPermission_None \<and> permissions \<noteq> MemoryPermission_Read \<and>
        permissions \<noteq> MemoryPermission_ReadWrite
      then Some (transfer_memory, s, ERR_INVALID_STATE)
      else case transfer_memory of
        None \<Rightarrow> Some (transfer_memory, s, ERR_INVALID_HANDLE)
      | Some tm \<Rightarrow>
          if \<not> IsWithinASLRRegion s address n then Some (transfer_memory, s, ERR_INVALID_MEMORY_RANGE)
          else do {
            (tm, s, rc) \<leftarrow> TransferMemory_MapMemory h tm s address n permissions;
            Some (Some tm, s, rc)
          })"

definition svc_UnmapTransferMemory ::
    "TransferMemory option \<Rightarrow> VMManager \<Rightarrow> VAddr \<Rightarrow> u64 \<Rightarrow> (TransferMemory option \<times> VMManager \<times> ResultCode) option" where
  "svc_UnmapTransferMemory transfer_memory s address n =
     (if \<not> Is4KBAligned address then Some (transfer_memory, s, ERR_INVALID_ADDRESS)
      else if n = 0 \<or> \<not> Is4KBAligned n then Some (transfer_memory, s, ERR_INVALID_SIZE)
      else if \<not> IsValidAddressRange address n then Some (transfer_memory, s, ERR_INVALID_ADDRESS_STATE)
      else case transfer_memory of
        None \<Rightarrow> Some (transfer_memory, s, ERR_INVALID_HANDLE)
      | Some tm \<Rightarrow>
          if \<not> IsWithinASLRRegion s address n then Some (transfer_memory, s, ERR_INVALID_MEMORY_RANGE)
          else do {
            (tm, s, rc) \<leftarrow> TransferMemory_UnmapMemory tm s address n;
            Some (Some tm, s, rc)
          })"

section \<open>Mapping and unmapping transfer memory\<close>

text \<open>
  What the code relies on of the host: a new vector is none of those that areas refer to, and lies in
  the host's address space, away from the null pointer.
\<close>

definition allocates :: "host_allocator \<Rightarrow> VMManager \<Rightarrow> u64 \<Rightarrow> bool" where
  "allocates h s n = (case new_block h s n of (blk, data) \<Rightarrow>
     (\<forall>p\<in>set (vma_map s). vma_backing_block (snd p) \<noteq> Some blk) \<and>
     0 < unat data \<and> unat data + unat n < 18446744073709551616)"

definition aslr_ok :: "VMManager \<Rightarrow> bool" where
  "aslr_ok s \<longleftrightarrow> 0 < aslr_region_end s \<and> aslr_region_end s \<le> address_space_end s"

lemma in_map_area_ok:
  assumes "vm_inv s" and "(k, v) \<in> set (vma_map s)"
  shows "area_ok (vm_blocks s) v"
proof -
  have "\<forall>p\<in>set (vma_map s). area_ok (vm_blocks s) (snd p)" using assms(1) by (simp add: vm_inv_def)
  from bspec [OF this assms(2)] show ?thesis by simp
qed

lemma view_area:
  assumes "vm_inv s" and "view s a = Some c"
  obtains k v where "(k, v) \<in> set (vma_map s)" and "c = vma_cell v (a - unat k)"
proof -
  have t: "tiles vma_base vma_size 0 (vma_map s) (unat (address_space_end s))" using assms(1) by (simp add: vm_inv_def)
  have lt: "a < unat (address_space_end s)"
    using assms(2) content_outside [OF t, of a vma_cell] by (rule_tac ccontr) (simp add: view_def)
  then have a: "unat (of_nat a :: u64) = a"
    using unat_bound_u64 [of "address_space_end s"] by (intro unat_of_nat_u64) simp
  obtain pre k v post where f: "vma_map s = pre @ (k, v) # post" "unat k \<le> a" "a < unat k + unat (vma_size v)"
    using FindVMA_at [OF assms(1), of "of_nat a"] lt a by metis
  then show thesis using that [of k v] view_at [OF assms(1) f] assms(2) by simp
qed

lemma new_block_ok:
  assumes ok: "vm_ok s" and fresh: "\<forall>p\<in>set (vma_map s). vma_backing_block (snd p) \<noteq> Some blk"
  shows "vm_ok (s\<lparr>vm_blocks := (vm_blocks s)(blk := b)\<rparr>)"
proof -
  let ?s = "s\<lparr>vm_blocks := (vm_blocks s)(blk := b)\<rparr>"
  have inv: "vm_inv s" using ok by (simp add: vm_ok_def)
  have used: "the (vma_backing_block v) \<noteq> blk"
    if "(k, v) \<in> set (vma_map s)" "vma_type v = VMA_AllocatedMemoryBlock" for k v
    using bspec [OF fresh that(1)] in_map_area_ok [OF inv that(1)] that(2) by (auto simp: area_ok_def)
  have "area_ok (vm_blocks ?s) v" if "(k, v) \<in> set (vma_map s)" for k v
  proof -
    have "host_base (vm_blocks ?s) v = host_base (vm_blocks s) v"
      using used [OF that] by (simp add: host_base_def split: VMAType.split)
    then show ?thesis using in_map_area_ok [OF inv that] by (simp only: area_ok_def) blast
  qed
  moreover have "pages_agree ?s"
    unfolding pages_agree_def
  proof (intro allI impI)
    fix i c
    assume "view ?s (4096 * i) = Some c"
    then have c: "view s (4096 * i) = Some c" by (simp add: view_def)
    obtain k v where v: "(k, v) \<in> set (vma_map s)" "c = vma_cell v (4096 * i - unat k)" by (rule view_area [OF inv c])
    have "page_agrees (vm_blocks ?s) c t q = page_agrees (vm_blocks s) c t q" for t q
      using used [OF v(1)] by (simp add: v(2) page_agrees_def vma_cell_def split: VMAType.split)
    then show "page_agrees (vm_blocks ?s) c (pt_attributes (vm_page_table ?s) i) (pt_pointers (vm_page_table ?s) i)"
      using inv c by (simp add: vm_inv_def pages_agree_def)
  qed
  ultimately show ?thesis using ok by (auto simp: vm_ok_def vm_inv_def)
qed

lemma IsWithinASLRRegion_range:
  assumes "aslr_ok s" and "IsValidAddressRange a n" and "Is4KBAligned a" and "Is4KBAligned n"
    and "IsWithinASLRRegion s a n"
  shows "vm_range s a n"
proof -
  have n: "0 < unat n" "unat (a + n) = unat a + unat n"
    using assms(2) by (simp_all add: IsValidAddressRange_nat unat_add_u64)
  then have "unat (a + n - 1) = unat a + unat n - 1" by (simp add: unat_sub_u64)
  moreover have "unat (aslr_region_end s - 1) = unat (aslr_region_end s) - 1"
    "unat (aslr_region_end s) \<le> unat (address_space_end s)" "0 < unat (aslr_region_end s)"
    using assms(1) by (simp_all add: aslr_ok_def unat_sub_u64 word_less_nat_alt word_le_nat_alt)
  ultimately show ?thesis
    using assms(3-5) n by (auto simp: vm_range_def Is4KBAligned_dvd IsWithinASLRRegion_def Let_def word_less_nat_alt
        word_le_nat_alt split: if_splits)
qed

lemma free_cells:
  assumes "vm_inv s" and "all_free s b n" and "unat b \<le> a" and "a < unat b + unat n"
  shows "view s a = Some free_cell"
proof -
  obtain c where c: "view s a = Some c" "c_type c = VMA_Free"
    using assms(2-4) by (auto simp: all_free_def free_at_def split: option.splits)
  obtain k v where v: "(k, v) \<in> set (vma_map s)" "c = vma_cell v (a - unat k)" by (rule view_area [OF assms(1) c(1)])
  then have "freed v" using in_map_area_ok [OF assms(1) v(1)] c(2) by (simp add: area_ok_def vma_cell_def)
  then show ?thesis using c(1) v(2) by (simp add: vma_cell_def freed_def free_cell_def)
qed

definition map_state :: "MemoryPermission \<Rightarrow> MemoryState" where
  "map_state permissions = (if permissions = MemoryPermission_None then State_TransferMemoryIsolated else State_TransferMemory)"

text \<open>A request that passes the checks, and what happens to it.\<close>

lemma MapTransferMemory_run:
  assumes ok: "vm_ok s" and al: "allocates h s n" and r: "vm_range s a n" and tm: "tm_memory_size tm = n" "\<not> tm_is_mapped tm"
  shows "\<exists>s' blk rc. TransferMemory_MapMemory h tm s a n (tm_owner_permissions tm) =
      Some (tm\<lparr>tm_backing_block := Some blk, tm_is_mapped := all_free s a n\<rparr>, s', rc) \<and> vm_ok s' \<and>
    address_space_end s' = address_space_end s \<and> IsWithinASLRRegion s' = IsWithinASLRRegion s \<and>
    (if all_free s a n
     then rc = RESULT_SUCCESS \<and> view s' = repaint (unat a) (unat a + unat n)
       (mapped_cell VMA_AllocatedMemoryBlock (map_state (tm_owner_permissions tm)) (\<lambda>i. BlockAt (Some blk) (of_nat i))) (view s)
     else rc = ERR_INVALID_ADDRESS_STATE \<and> view s' = view s)"
proof -
  obtain blk data where nb: "new_block h s n = (blk, data)" by fastforce
  define s1 where "s1 = s\<lparr>vm_blocks := (vm_blocks s)(blk := \<lparr>blk_data = data, blk_size = n\<rparr>)\<rparr>"
  have ok1: "vm_ok s1" unfolding s1_def by (rule new_block_ok [OF ok]) (use al nb in \<open>simp add: allocates_def\<close>)
  have r1: "vm_range s1 a n" and v1: "view s1 = view s" and b1: "block_ok (vm_blocks s1 blk)"
    "unat (0 :: u64) + unat n \<le> unat (blk_size (vm_blocks s1 blk))"
    using r al nb by (simp_all add: s1_def vm_range_def view_def block_ok_def allocates_def)
  have fr: "all_free s1 a n = all_free s a n" by (simp add: all_free_def free_at_def v1)
  obtain s' res where s': "MapMemoryBlock s1 a (Some blk) 0 n (map_state (tm_owner_permissions tm)) = Some (s', res)"
    "vm_ok s'" "same_layout s1 s'"
    "if all_free s1 a n
     then (\<exists>k. res = Inr k \<and> handle_at s' k (unat a)) \<and> view s' = repaint (unat a) (unat a + unat n)
       (mapped_cell VMA_AllocatedMemoryBlock (map_state (tm_owner_permissions tm)) (\<lambda>i. BlockAt (Some blk) (0 + of_nat i))) (view s1)
     else res = Inl ERR_INVALID_ADDRESS_STATE \<and> s' = s1"
    using MapMemoryBlock_keeps [OF ok1 r1 b1, of "map_state (tm_owner_permissions tm)"] by (auto split: if_splits)
  have "address_space_end s' = address_space_end s \<and> IsWithinASLRRegion s' = IsWithinASLRRegion s"
    using s'(3) by (simp add: same_layout_def s1_def IsWithinASLRRegion_def Let_def fun_eq_iff)
  moreover have "tm\<lparr>tm_backing_block := Some blk, tm_is_mapped := False\<rparr> = tm\<lparr>tm_backing_block := Some blk\<rparr>"
    using tm(2) by (cases tm) simp
  ultimately show ?thesis
    using s' tm nb by (cases "all_free s a n")
      (auto simp: TransferMemory_MapMemory_def make_block_def Let_def fr v1 map_state_def s1_def [symmetric]
        intro!: exI [of _ blk] cong: if_cong)
qed

lemma UnmapTransferMemory_run:
  assumes "vm_ok s" and "vm_range s a n" and "none_free s a n" and "tm_memory_size tm = n"
  shows "\<exists>s'. TransferMemory_UnmapMemory tm s a n = Some (tm\<lparr>tm_is_mapped := False\<rparr>, s', RESULT_SUCCESS) \<and> vm_ok s' \<and>
    view s' = overlay (unat a) (unat a + unat n) (\<lambda>_. free_cell) (view s)"
  using UnmapRange_at [OF assms(1,2)] assms(3,4) by (auto simp: TransferMemory_UnmapMemory_def)

lemma MapTransferMemory_checked:
  assumes "aslr_ok s" and "svc_MapTransferMemory h (Some tm) s a n p = Some (Some tm', s1, RESULT_SUCCESS)"
  shows "vm_range s a n" and "TransferMemory_MapMemory h tm s a n p = Some (tm', s1, RESULT_SUCCESS)"
    and "tm_memory_size tm = n" and "tm_owner_permissions tm = p" and "\<not> tm_is_mapped tm"
    and "svc_MapTransferMemory h (Some tm') s' a n p =
      (if IsWithinASLRRegion s' a n then map_option (\<lambda>(tm, s, rc). (Some tm, s, rc)) (TransferMemory_MapMemory h tm' s' a n p)
       else Some (Some tm', s', ERR_INVALID_MEMORY_RANGE))"
    and "svc_UnmapTransferMemory (Some tm') s' a n =
      (if IsWithinASLRRegion s' a n then map_option (\<lambda>(tm, s, rc). (Some tm, s, rc)) (TransferMemory_UnmapMemory tm' s' a n)
       else Some (Some tm', s', ERR_INVALID_MEMORY_RANGE))"
proof -
  have c: "Is4KBAligned a" "n \<noteq> 0" "Is4KBAligned n" "IsValidAddressRange a n" "IsWithinASLRRegion s a n"
    "p = MemoryPermission_None \<or> p = MemoryPermission_Read \<or> p = MemoryPermission_ReadWrite"
    and t: "TransferMemory_MapMemory h tm s a n p = Some (tm', s1, RESULT_SUCCESS)"
    using assms(2) by (auto simp: svc_MapTransferMemory_def bind_eq_Some_conv split: if_splits)
  show "vm_range s a n" using IsWithinASLRRegion_range [OF assms(1)] c by blast
  show "TransferMemory_MapMemory h tm s a n p = Some (tm', s1, RESULT_SUCCESS)" by (rule t)
  show "tm_memory_size tm = n" "tm_owner_permissions tm = p" "\<not> tm_is_mapped tm"
    using t by (auto simp: TransferMemory_MapMemory_def split: if_splits)
  show "svc_MapTransferMemory h (Some tm') s' a n p =
      (if IsWithinASLRRegion s' a n then map_option (\<lambda>(tm, s, rc). (Some tm, s, rc)) (TransferMemory_MapMemory h tm' s' a n p)
       else Some (Some tm', s', ERR_INVALID_MEMORY_RANGE))"
    using c by (auto simp: svc_MapTransferMemory_def map_conv_bind_option intro!: bind_option_cong)
  show "svc_UnmapTransferMemory (Some tm') s' a n =
      (if IsWithinASLRRegion s' a n then map_option (\<lambda>(tm, s, rc). (Some tm, s, rc)) (TransferMemory_UnmapMemory tm' s' a n)
       else Some (Some tm', s', ERR_INVALID_MEMORY_RANGE))"
    using c by (auto simp: svc_UnmapTransferMemory_def map_conv_bind_option intro!: bind_option_cong)
qed


end
