(* ===== verification/Svc_Examples.thy ===== *)
theory Svc_Examples
  imports Svc_Shared Vm_Examples
begin

text \<open>The theorems on the memory system calls applied to concrete address spaces.\<close>

lemma example_regions:
  shows "regions_ok example_vm" and "new_map_region_base example_vm = 0x1208000000"
    and "new_map_region_end example_vm = 0x1288000000" and "heap_region_base example_vm = 0x1088000000"
    and "heap_region_end example_vm = 0x1208000000" and "map_region_base example_vm = 0x88000000"
    and "map_region_end example_vm = 0x1088000000"
proof -
  have pb: "pt_page_bits (vm_page_table example_members) = PAGE_BITS"
    by (simp add: example_members_def vm_members_def PageTable_create_def)
  show "regions_ok example_vm" by (rule Reset_regions_ok [OF pb example_vm_ok(1)])
  have "same_layout (reset_start Is39Bit example_members) example_vm"
    using Reset_ok [OF pb, of Is39Bit] example_vm_ok(1) by auto
  then show "new_map_region_base example_vm = 0x1208000000"
    and "new_map_region_end example_vm = 0x1288000000" and "heap_region_base example_vm = 0x1088000000"
    and "heap_region_end example_vm = 0x1208000000" and "map_region_base example_vm = 0x88000000"
    and "map_region_end example_vm = 0x1088000000"
    by (simp_all add: same_layout_def reset_start_def Let_def InitializeMemoryRegionRanges_def region_ranges_of_def)
qed

lemma MapMMIO_layout:
  assumes "vm_ok s" and "vm_range s b n"
  shows "\<exists>s' res. MapMMIO s b paddr n state handler = Some (s', res) \<and> same_layout s s'"
proof -
  have "\<exists>s' res. MapMMIO s b paddr n state handler = Some (s', res) \<and> vm_ok s' \<and> same_layout s s' \<and>
    (if all_free s b n
     then (\<exists>k. res = Inr k \<and> handle_at s' k (unat b)) \<and> view s' = repaint (unat b) (unat b + unat n)
       (mapped_cell VMA_MMIO state (\<lambda>i. PhysAt (paddr + of_nat i))) (view s)
     else res = Inl ERR_INVALID_ADDRESS_STATE \<and> s' = s)"
    unfolding MapMMIO_carved
    by (rule map_carved_correct [OF assms]) (rule mmio_area [OF _ _ _ assms(2)])
  then show ?thesis by blast
qed

lemma example_mmio_regions:
  shows "regions_ok example_mmio" and "new_map_region_base example_mmio = 0x1208000000"
proof -
  have "same_layout example_vm example_mmio"
    using MapMMIO_layout [OF example_vm_ok(2) example_free(1), of "0x8000000" "0x3000" "0x50000000" State_Io None]
    by (auto simp: example_mmio_def)
  then show "regions_ok example_mmio" "new_map_region_base example_mmio = 0x1208000000"
    using example_regions by (auto simp: same_layout_def intro: regions_ok_same_layout)
qed


text \<open>A heap of four pages of block 7.\<close>

lemma example_heap:
  obtains s k v where "vm_ok s" and "same_layout example_vm s" and "mirror_source s 0x8000000 0x1000 k v 7"
    and "vma_state v = State_Heap"
    and "view s = repaint 0x8000000 0x8004000
      (mapped_cell VMA_AllocatedMemoryBlock State_Heap (\<lambda>i. BlockAt (Some 7) (of_nat i))) (view example_vm)"
proof -
  let ?h = "mapped_cell VMA_AllocatedMemoryBlock State_Heap (\<lambda>i. BlockAt (Some 7) (0 + of_nat i))"
  have "vm_range example_vm 0x8000000 0x4000" "all_free example_vm 0x8000000 0x4000" by (simp_all add: example_free)
  with MapMemoryBlock_keeps [OF example_vm_ok(2), of "0x8000000" "0x4000" 7 0 State_Heap]
  obtain s k where s: "vm_ok s" "same_layout example_vm s" "handle_at s k 0x8000000"
    "view s = repaint 0x8000000 0x8004000 ?h (view example_vm)"
    by (auto simp: example_vm_ok(4) block_ok_def)
  have inv: "vm_inv s" using s(1) by (simp add: vm_ok_def)
  have "view s 0x8000000 = Some (?h 0)" by (simp add: s(4) repaint_def)
  then obtain v where v: "(k, v) \<in> set (vma_map s)" "vma_type v = c_type (?h 0)" "vma_state v = c_state (?h 0)"
    by (rule handle_area [OF inv s(3)])
  note at = in_map_of [OF inv v(1)]
  have k: "unat k \<le> 0x8000000" "0x8000000 < unat k + unat (vma_size v)"
    using s(3) at(1) by (auto simp: handle_at_def)
  have ins: "0x8000000 \<le> a \<and> a < 0x8004000" if "unat k \<le> a" "a < unat k + unat (vma_size v)" for a
  proof (rule ccontr)
    assume c: "\<not> (0x8000000 \<le> a \<and> a < 0x8004000)"
    have "unat (address_space_end s) = 549755813888" using s(2) example_vm_ok(3) by (simp add: same_layout_def)
    then have "a < 549755813888" using that at(3) by simp
    then have "view s a = Some free_cell" using c by (auto simp: s(4) repaint_def example_vm_ok(5))
    then show False using at(2) [OF that] v(2) by (simp add: vma_cell_def free_cell_def mapped_cell_def)
  qed
  have ke: "unat k = 0x8000000" using ins [of "unat k"] k at(4) by simp
  have size: "unat (vma_size v) \<le> 0x4000" using ins [of "unat k + unat (vma_size v) - 1"] ke at(4) by simp
  obtain pre post where m: "vma_map s = pre @ (k, v) # post" using v(1) by (meson split_list)
  have "4096 dvd unat (vma_size v)" using vm_inv_areas(4) [OF inv m] by (simp add: area_ok_def)
  then have size': "0x1000 \<le> unat (vma_size v)" using at(4) by (auto elim!: dvdE)
  have "Some (vma_cell v 0) = Some (?h 0)"
    using at(2) [of "0x8000000"] k ke by (simp add: s(4) repaint_def)
  then have "vma_backing_block v = Some 7" "vma_offset v = 0" using v(2) by (auto simp: vma_cell_def mapped_cell_def)
  moreover have "vm_blocks s = vm_blocks example_vm" using s(2) by (simp add: same_layout_def)
  ultimately have "mirror_source s 0x8000000 0x1000 k v 7"
    using v k ke size size' by (simp add: mirror_source_def example_vm_ok(4) block_ok_def mapped_cell_def)
  then show thesis using that [OF s(1,2)] v(3) s(4) by (simp add: mapped_cell_def)
qed

theorem MapMemory_correct_witness:
  "\<exists>s k v. vm_ok s \<and> regions_ok s \<and> map_request s 0x1208000000 0x8000000 0x1000 \<and>
     mirror_source s 0x8000000 0x1000 k v 7 \<and>
     (\<exists>s'. svc_MapMemory s 0x1208000000 0x8000000 0x1000 = Some (s', RESULT_SUCCESS) \<and>
        backing_at s' 0x1208000123 = Some (BlockAt (Some 7) 0x123)) \<and>
     svc_MapMemory s 0x1208000000 0x9000000 0x1000 = None"
proof -
  obtain s k v where s: "vm_ok s" "same_layout example_vm s" "mirror_source s 0x8000000 0x1000 k v 7" "vma_state v = State_Heap"
    "view s = repaint 0x8000000 0x8004000
      (mapped_cell VMA_AllocatedMemoryBlock State_Heap (\<lambda>i. BlockAt (Some 7) (of_nat i))) (view example_vm)"
    by (rule example_heap)
  have reg: "regions_ok s" using example_regions(1) s(2) by (rule regions_ok_same_layout)
  have req: "map_request s 0x1208000000 a 0x1000" if "a \<in> {0x8000000, 0x9000000}" for a
    using that s(2) example_regions example_vm_ok(3) by (auto simp: map_request_def vm_range_def same_layout_def)
  have free: "all_free s 0x1208000000 0x1000" "free_at s 0x9000000"
    by (simp_all add: all_free_def free_at_def s(5) repaint_def example_vm_ok(5) free_cell_def)
  have st: "vma_state v \<noteq> State_Stack" unfolding s(4) by (simp add: State_Heap_def State_Stack_def state_flag_defs)
  have b: "backing_at s 0x8000123 = Some (BlockAt (Some 7) 0x123)" by (simp add: backing_at_def s(5) repaint_def mapped_cell_def)
  obtain s' where s': "svc_MapMemory s 0x1208000000 0x8000000 0x1000 = Some (s', RESULT_SUCCESS)"
    "mirrored s s' 0x1208000000 0x8000000 0x1000"
    using MapMemory_correct [OF s(1) reg, of "0x1208000000" "0x8000000" "0x1000" k v 7] req [of "0x8000000"] s(3) st free(1)
    by auto
  have "backing_at s' (unat (0x1208000000 :: u64) + 0x123) = backing_at s (unat (0x8000000 :: u64) + 0x123)"
  proof -
    have "\<forall>i<unat (0x1000 :: u64). backing_at s' (unat (0x1208000000 :: u64) + i) = backing_at s (unat (0x8000000 :: u64) + i)"
      using s'(2) unfolding mirrored_def by blast
    then show ?thesis by (rule allE [of _ "0x123"]) simp
  qed
  moreover have "svc_MapMemory s 0x1208000000 0x9000000 0x1000 = None"
    using MapMemory_correct [OF s(1) reg, of "0x1208000000" "0x9000000" "0x1000" k v 7] req [of "0x9000000"] free(2) by simp
  ultimately show ?thesis using s(1,3) reg req s'(1) b by auto
qed

definition example_allocator :: host_allocator where
  "example_allocator = \<lparr>new_block = \<lambda>_ _. (9, 0x200000), moved_data = \<lambda>b _. blk_data b\<rparr>"


end
