(* ===== verification/Macro_Interpreter.thy ===== *)
theory Macro_Interpreter
  imports Bit_Field
begin

text \<open>
  The interpreter of the macros that a guest uploads to the 3D engine of the GPU
  (\<^verbatim>\<open>video_core/macro_interpreter.cpp\<close>), and the part of the engine that deals with macros
  (\<^verbatim>\<open>video_core/engines/maxwell_3d.cpp\<close>): uploading and binding macro code, collecting the
  parameters of a call, and running it.

  A macro sends methods to the engine that runs it, and a method can be a macro again, which is then
  run by the same interpreter. So the interpreter works on the state of the engine, of which its own
  state is a part, and \<open>call\<close> is the \<open>CallMethod\<close> of the engine. What the engine does for methods
  that have nothing to do with macros is the parameter \<open>trigger\<close>; the state that only these use is of
  a type of its own.
\<close>

section \<open>State\<close>

record MacroInterpreter =
  mi_pc :: u32
  mi_delayed_pc :: "u32 option"
  mi_registers :: "u32 list"
  mi_method_address :: u32
  mi_parameters :: "u32 list"
  mi_next_parameter_index :: u32
  mi_carry_flag :: bool

definition NUM_REGS :: nat where "NUM_REGS = 0xE00"
definition MacroRegistersStart :: u32 where "MacroRegistersStart = 0xE00"

text \<open>The size of macro memory, which is an array of fixed size.\<close>

definition MacroMemorySize :: nat where "MacroMemorySize = 0x40000"

record DirtyFlags =
  df_color_buffer :: u8
  df_vertex_array :: u32
  df_vertex_attrib_format :: bool
  df_zeta_buffer :: bool
  df_shaders :: bool

definition OnMemoryWrite :: "DirtyFlags \<Rightarrow> DirtyFlags" where
  "OnMemoryWrite f = f\<lparr>df_zeta_buffer := True, df_shaders := True, df_color_buffer := -1, df_vertex_array := -1\<rparr>"

record 'x Maxwell3D =
  m3d_reg_array :: "nat \<Rightarrow> u32"
  m3d_macro_offsets :: "u32 \<rightharpoonup> u32"
  m3d_macro_memory :: "nat \<Rightarrow> u32"
  m3d_executing_macro :: u32
  m3d_macro_params :: "u32 list"
  m3d_interpreter :: MacroInterpreter
  m3d_dirty_flags :: DirtyFlags
  m3d_rest :: 'x

record MethodCall =
  mc_method :: u32
  mc_argument :: u32
  mc_subchannel :: u32
  mc_method_count :: u32

definition IsLastCall :: "MethodCall \<Rightarrow> bool" where
  "IsLastCall mc \<longleftrightarrow> mc_method_count mc \<le> 1"

type_synonym 'x engine_call = "MethodCall \<Rightarrow> 'x Maxwell3D \<Rightarrow> 'x Maxwell3D option"

definition with_mi :: "(MacroInterpreter \<Rightarrow> MacroInterpreter) \<Rightarrow> 'x Maxwell3D \<Rightarrow> 'x Maxwell3D" where
  "with_mi f e = e\<lparr>m3d_interpreter := f (m3d_interpreter e)\<rparr>"

section \<open>Opcodes\<close>

definition op_operation :: "u32 \<Rightarrow> u32" where "op_operation raw = ExtractValue 0 3 raw"
definition op_result_operation :: "u32 \<Rightarrow> u32" where "op_result_operation raw = ExtractValue 4 3 raw"
definition op_branch_condition :: "u32 \<Rightarrow> u32" where "op_branch_condition raw = ExtractValue 4 1 raw"
definition op_branch_annul :: "u32 \<Rightarrow> u32" where "op_branch_annul raw = ExtractValue 5 1 raw"
definition op_is_exit :: "u32 \<Rightarrow> u32" where "op_is_exit raw = ExtractValue 7 1 raw"
definition op_dst :: "u32 \<Rightarrow> u32" where "op_dst raw = ExtractValue 8 3 raw"
definition op_src_a :: "u32 \<Rightarrow> u32" where "op_src_a raw = ExtractValue 11 3 raw"
definition op_src_b :: "u32 \<Rightarrow> u32" where "op_src_b raw = ExtractValue 14 3 raw"
definition op_immediate :: "u32 \<Rightarrow> u32" where "op_immediate raw = ExtractSigned 14 18 raw"
definition op_alu_operation :: "u32 \<Rightarrow> u32" where "op_alu_operation raw = ExtractValue 17 5 raw"
definition op_bf_src_bit :: "u32 \<Rightarrow> u32" where "op_bf_src_bit raw = ExtractValue 17 5 raw"
definition op_bf_size :: "u32 \<Rightarrow> u32" where "op_bf_size raw = ExtractValue 22 5 raw"
definition op_bf_dst_bit :: "u32 \<Rightarrow> u32" where "op_bf_dst_bit raw = ExtractValue 27 5 raw"

text \<open>
  The mask is computed with signed integers: for 31 bits the subtraction overflows, which is
  undefined.
\<close>

definition GetBitfieldMask :: "u32 \<Rightarrow> u32 option" where
  "GetBitfieldMask raw =
     (if op_bf_size raw = 31 then None else Some (push_bit (unat (op_bf_size raw)) 1 - 1))"

definition GetBranchTarget :: "u32 \<Rightarrow> u32" where
  "GetBranchTarget raw = op_immediate raw * 4"

section \<open>Registers, parameters and methods\<close>

definition MacroInterpreter_Reset :: "MacroInterpreter \<Rightarrow> MacroInterpreter" where
  "MacroInterpreter_Reset mi = mi\<lparr>mi_registers := replicate 8 0, mi_pc := 0, mi_delayed_pc := None,
     mi_method_address := 0, mi_parameters := [], mi_next_parameter_index := 1, mi_carry_flag := False\<rparr>"

definition GetRegister :: "'x Maxwell3D \<Rightarrow> u32 \<Rightarrow> u32 option" where
  "GetRegister e r =
     (if unat r < length (mi_registers (m3d_interpreter e))
      then Some (mi_registers (m3d_interpreter e) ! unat r) else None)"

definition SetRegister :: "u32 \<Rightarrow> u32 \<Rightarrow> 'x Maxwell3D \<Rightarrow> 'x Maxwell3D option" where
  "SetRegister r v e =
     (if r = 0 then Some e
      else if unat r < length (mi_registers (m3d_interpreter e))
      then Some (with_mi (\<lambda>mi. mi\<lparr>mi_registers := (mi_registers mi)[unat r := v]\<rparr>) e)
      else None)"

text \<open>\<open>at\<close> throws an exception when the index is out of range, which nothing catches.\<close>

definition FetchParameter :: "'x Maxwell3D \<Rightarrow> ('x Maxwell3D \<times> u32) option" where
  "FetchParameter e =
     (let i = mi_next_parameter_index (m3d_interpreter e);
          ps = mi_parameters (m3d_interpreter e)
      in if unat i < length ps
         then Some (with_mi (\<lambda>mi. mi\<lparr>mi_next_parameter_index := i + 1\<rparr>) e, ps ! unat i)
         else None)"

definition SetMethodAddress :: "u32 \<Rightarrow> 'x Maxwell3D \<Rightarrow> 'x Maxwell3D" where
  "SetMethodAddress address = with_mi (\<lambda>mi. mi\<lparr>mi_method_address := address\<rparr>)"

definition ma_address :: "u32 \<Rightarrow> u32" where "ma_address raw = ExtractValue 0 12 raw"
definition ma_increment :: "u32 \<Rightarrow> u32" where "ma_increment raw = ExtractValue 12 6 raw"

definition macro_Send :: "'x engine_call \<Rightarrow> u32 \<Rightarrow> 'x Maxwell3D \<Rightarrow> 'x Maxwell3D option" where
  "macro_Send call value e = do {
     e \<leftarrow> call \<lparr>mc_method = ma_address (mi_method_address (m3d_interpreter e)), mc_argument = value,
               mc_subchannel = 0, mc_method_count = 0\<rparr> e;
     Some (with_mi (\<lambda>mi. mi\<lparr>mi_method_address :=
       Assign 0 12 (mi_method_address mi)
         (ma_address (mi_method_address mi) + ma_increment (mi_method_address mi))\<rparr>) e)
   }"

definition GetRegisterValue :: "'x Maxwell3D \<Rightarrow> u32 \<Rightarrow> u32 option" where
  "GetRegisterValue e method = do {
     ASSERT (unat method < NUM_REGS);
     Some (m3d_reg_array e (unat method))
   }"

section \<open>Instructions\<close>

definition GetALUResult :: "u32 \<Rightarrow> u32 \<Rightarrow> u32 \<Rightarrow> bool \<Rightarrow> (u32 \<times> bool) option" where
  "GetALUResult operation src_a src_b carry_flag =
     (if operation = 0 then
        let result = (ucast src_a + ucast src_b :: u64) in Some (ucast result, result > 0xffffffff)
      else if operation = 1 then
        let result = (ucast src_a + ucast src_b + (if carry_flag then 1 else 0) :: u64)
        in Some (ucast result, result > 0xffffffff)
      else if operation = 2 then
        let result = (ucast src_a - ucast src_b :: u64) in Some (ucast result, result < 0x100000000)
      else if operation = 3 then
        let result = (ucast src_a - ucast src_b - (if carry_flag then 0 else 1) :: u64)
        in Some (ucast result, result < 0x100000000)
      else if operation = 8 then Some (src_a XOR src_b, carry_flag)
      else if operation = 9 then Some (src_a OR src_b, carry_flag)
      else if operation = 10 then Some (src_a AND src_b, carry_flag)
      else if operation = 11 then Some (src_a AND NOT src_b, carry_flag)
      else if operation = 12 then Some (NOT (src_a AND src_b), carry_flag)
      else None)"

definition ProcessResult :: "'x engine_call \<Rightarrow> u32 \<Rightarrow> u32 \<Rightarrow> u32 \<Rightarrow> 'x Maxwell3D \<Rightarrow> 'x Maxwell3D option" where
  "ProcessResult call operation reg result e =
     (if operation = 0 then do { (e, p) \<leftarrow> FetchParameter e; SetRegister reg p e }
      else if operation = 1 then SetRegister reg result e
      else if operation = 2 then do { e \<leftarrow> SetRegister reg result e; Some (SetMethodAddress result e) }
      else if operation = 3 then do { (e, p) \<leftarrow> FetchParameter e; e \<leftarrow> SetRegister reg p e; macro_Send call result e }
      else if operation = 4 then do { e \<leftarrow> SetRegister reg result e; macro_Send call result e }
      else if operation = 5 then do { (e, p) \<leftarrow> FetchParameter e; e \<leftarrow> SetRegister reg p e; Some (SetMethodAddress result e) }
      else if operation = 6 then do {
        e \<leftarrow> SetRegister reg result e;
        (e, p) \<leftarrow> FetchParameter (SetMethodAddress result e);
        macro_Send call p e }
      else if operation = 7 then do {
        e \<leftarrow> SetRegister reg result e;
        macro_Send call (drop_bit 12 result AND 63) (SetMethodAddress result e) }
      else None)"

text \<open>Shifts of 32-bit values: by 32 or more they are undefined.\<close>

definition shl32 :: "u32 \<Rightarrow> u32 \<Rightarrow> u32 option" where
  "shl32 x n = (if n < 32 then Some (push_bit (unat n) x) else None)"

definition shr32 :: "u32 \<Rightarrow> u32 \<Rightarrow> u32 option" where
  "shr32 x n = (if n < 32 then Some (drop_bit (unat n) x) else None)"

definition extract_insert :: "u32 \<Rightarrow> u32 \<Rightarrow> u32 \<Rightarrow> u32 option" where
  "extract_insert raw dst src = do {
     m \<leftarrow> GetBitfieldMask raw;
     s \<leftarrow> shr32 src (op_bf_src_bit raw);
     let s = s AND m;
     m' \<leftarrow> shl32 m (op_bf_dst_bit raw);
     s' \<leftarrow> shl32 s (op_bf_dst_bit raw);
     Some ((dst AND NOT m') OR s')
   }"

definition extract_shift_left_immediate :: "u32 \<Rightarrow> u32 \<Rightarrow> u32 \<Rightarrow> u32 option" where
  "extract_shift_left_immediate raw dst src = do {
     s \<leftarrow> shr32 src dst;
     m \<leftarrow> GetBitfieldMask raw;
     shl32 (s AND m) (op_bf_dst_bit raw)
   }"

definition extract_shift_left_register :: "u32 \<Rightarrow> u32 \<Rightarrow> u32 \<Rightarrow> u32 option" where
  "extract_shift_left_register raw dst src = do {
     s \<leftarrow> shr32 src (op_bf_src_bit raw);
     m \<leftarrow> GetBitfieldMask raw;
     shl32 (s AND m) dst
   }"

text \<open>The result of an instruction that is not a branch, and the carry flag after it.\<close>

definition macro_result :: "u32 \<Rightarrow> 'x Maxwell3D \<Rightarrow> (u32 \<times> bool) option" where
  "macro_result raw e = do {
     a \<leftarrow> GetRegister e (op_src_a raw);
     let c = mi_carry_flag (m3d_interpreter e);
     if op_operation raw = 0 then do {
       b \<leftarrow> GetRegister e (op_src_b raw);
       GetALUResult (op_alu_operation raw) a b c }
     else if op_operation raw = 1 then Some (a + op_immediate raw, c)
     else if op_operation raw = 2 then do {
       b \<leftarrow> GetRegister e (op_src_b raw); r \<leftarrow> extract_insert raw a b; Some (r, c) }
     else if op_operation raw = 3 then do {
       b \<leftarrow> GetRegister e (op_src_b raw); r \<leftarrow> extract_shift_left_immediate raw a b; Some (r, c) }
     else if op_operation raw = 4 then do {
       b \<leftarrow> GetRegister e (op_src_b raw); r \<leftarrow> extract_shift_left_register raw a b; Some (r, c) }
     else if op_operation raw = 5 then do { r \<leftarrow> GetRegisterValue e (a + op_immediate raw); Some (r, c) }
     else None
   }"

definition EvaluateBranchCondition :: "u32 \<Rightarrow> u32 \<Rightarrow> bool" where
  "EvaluateBranchCondition cond value = (if cond = 0 then value = 0 else value \<noteq> 0)"

definition GetOpcode :: "u32 \<Rightarrow> 'x Maxwell3D \<Rightarrow> u32 option" where
  "GetOpcode offset e = do {
     let pc = mi_pc (m3d_interpreter e);
     ASSERT (pc mod 4 = 0);
     ASSERT (unat (pc + offset) < MacroMemorySize * 4);
     let index = unat offset + unat pc div 4;
     if index < MacroMemorySize then Some (m3d_macro_memory e index) else None
   }"

section \<open>Steps\<close>

text \<open>How an instruction goes on: with the next one, with a jump, or with a delay slot before the jump.\<close>

datatype macro_flow = Next | Jump | Delay

definition macro_dispatch ::
    "'x engine_call \<Rightarrow> u32 \<Rightarrow> u32 \<Rightarrow> bool \<Rightarrow> 'x Maxwell3D \<Rightarrow> ('x Maxwell3D \<times> macro_flow) option" where
  "macro_dispatch call raw base_address is_delay_slot e =
     (if op_operation raw = 7 then do {
        ASSERT (\<not> is_delay_slot);
        value \<leftarrow> GetRegister e (op_src_a raw);
        if EvaluateBranchCondition (op_branch_condition raw) value
        then if op_branch_annul raw \<noteq> 0
             then Some (with_mi (\<lambda>mi. mi\<lparr>mi_pc := base_address + GetBranchTarget raw\<rparr>) e, Jump)
             else Some (with_mi (\<lambda>mi. mi\<lparr>mi_delayed_pc := Some (base_address + GetBranchTarget raw)\<rparr>) e, Delay)
        else Some (e, Next)
      }
      else do {
        (result, carry) \<leftarrow> macro_result raw e;
        let e = with_mi (\<lambda>mi. mi\<lparr>mi_carry_flag := carry\<rparr>) e;
        e \<leftarrow> ProcessResult call (op_result_operation raw) (op_dst raw) result e;
        Some (e, Next)
      })"

text \<open>The program counter moves on, to the target of a branch if this is its delay slot.\<close>

definition advance_pc :: "bool \<Rightarrow> 'x Maxwell3D \<Rightarrow> 'x Maxwell3D option" where
  "advance_pc is_delay_slot e =
     (case mi_delayed_pc (m3d_interpreter e) of
        None \<Rightarrow> Some (with_mi (\<lambda>mi. mi\<lparr>mi_pc := mi_pc mi + 4\<rparr>) e)
      | Some t \<Rightarrow> do {
          ASSERT is_delay_slot;
          Some (with_mi (\<lambda>mi. mi\<lparr>mi_pc := t, mi_delayed_pc := None\<rparr>) e)
        })"

text \<open>\<open>Step\<close> is recursive; the boolean of the result says whether to keep executing.\<close>

partial_function (option) macro_Step ::
    "'x engine_call \<Rightarrow> u32 \<Rightarrow> bool \<Rightarrow> 'x Maxwell3D \<Rightarrow> ('x Maxwell3D \<times> bool) option" where
  "macro_Step call offset is_delay_slot e = do {
     let base_address = mi_pc (m3d_interpreter e);
     raw \<leftarrow> GetOpcode offset e;
     e \<leftarrow> advance_pc is_delay_slot e;
     (e, flow) \<leftarrow> macro_dispatch call raw base_address is_delay_slot e;
     case flow of
       Jump \<Rightarrow> Some (e, True)
     | Delay \<Rightarrow> macro_Step call offset True e
     | Next \<Rightarrow>
         if op_is_exit raw \<noteq> 0
         then do { (e, _) \<leftarrow> macro_Step call offset True e; Some (e, False) }
         else Some (e, True)
   }"

partial_function (option) macro_loop :: "'x engine_call \<Rightarrow> u32 \<Rightarrow> 'x Maxwell3D \<Rightarrow> 'x Maxwell3D option" where
  "macro_loop call offset e = do {
     (e, keep_executing) \<leftarrow> macro_Step call offset False e;
     if keep_executing then macro_loop call offset e else Some e
   }"

text \<open>The state at the start of the loop; there is always a first parameter, or the access is undefined.\<close>

definition macro_start :: "u32 list \<Rightarrow> 'x Maxwell3D \<Rightarrow> 'x Maxwell3D option" where
  "macro_start parameters e = do {
     let e = with_mi MacroInterpreter_Reset e;
     first \<leftarrow> (case parameters of [] \<Rightarrow> None | p # _ \<Rightarrow> Some p);
     Some (with_mi (\<lambda>mi. mi\<lparr>mi_registers := (mi_registers mi)[1 := first], mi_parameters := parameters\<rparr>) e)
   }"

definition macro_Execute :: "'x engine_call \<Rightarrow> u32 \<Rightarrow> u32 list \<Rightarrow> 'x Maxwell3D \<Rightarrow> 'x Maxwell3D option" where
  "macro_Execute call offset parameters e = do {
     e \<leftarrow> macro_start parameters e;
     e \<leftarrow> macro_loop call offset e;
     ASSERT (unat (mi_next_parameter_index (m3d_interpreter e)) = length (mi_parameters (m3d_interpreter e)));
     Some e
   }"

section \<open>Macros in the 3D engine\<close>

text \<open>
  The registers of the engine that these functions know: those of macros, of render targets, of the depth buffer, of
  shaders and of vertex buffers, with the position of the first word of each.
\<close>

datatype Maxwell3D_register =
    macros_upload_address | macros_data | macros_entry | macros_bind | rt | zeta | vertex_attrib_format
  | zeta_width | zeta_height | zeta_enable | instanced_arrays | vertex_array | vertex_array_limit | shader_config

fun reg_index :: "Maxwell3D_register \<Rightarrow> nat" where
  "reg_index macros_upload_address = 0x45"
| "reg_index macros_data = 0x46"
| "reg_index macros_entry = 0x47"
| "reg_index macros_bind = 0x48"
| "reg_index rt = 0x200"
| "reg_index zeta = 0x3F8"
| "reg_index vertex_attrib_format = 0x458"
| "reg_index zeta_width = 0x48A"
| "reg_index zeta_height = 0x48B"
| "reg_index zeta_enable = 0x54E"
| "reg_index instanced_arrays = 0x620"
| "reg_index vertex_array = 0x700"
| "reg_index vertex_array_limit = 0x7C0"
| "reg_index shader_config = 0x800"

definition ProcessMacroUpload :: "u32 \<Rightarrow> 'x Maxwell3D \<Rightarrow> 'x Maxwell3D option" where
  "ProcessMacroUpload data e = do {
     let address = m3d_reg_array e (reg_index macros_upload_address);
     ASSERT (unat address < MacroMemorySize);
     Some (e\<lparr>m3d_reg_array := (m3d_reg_array e)(reg_index macros_upload_address := address + 1),
             m3d_macro_memory := (m3d_macro_memory e)(unat address := data)\<rparr>)
   }"

definition ProcessMacroBind :: "u32 \<Rightarrow> 'x Maxwell3D \<Rightarrow> 'x Maxwell3D" where
  "ProcessMacroBind data e =
     e\<lparr>m3d_macro_offsets := (m3d_macro_offsets e)(m3d_reg_array e (reg_index macros_entry) \<mapsto> data)\<rparr>"

definition CallMacroMethod :: "'x engine_call \<Rightarrow> u32 \<Rightarrow> u32 list \<Rightarrow> 'x Maxwell3D \<Rightarrow> 'x Maxwell3D option" where
  "CallMacroMethod call method parameters e = do {
     let e = e\<lparr>m3d_executing_macro := 0\<rparr>;
     offset \<leftarrow> m3d_macro_offsets e (drop_bit 1 (method - MacroRegistersStart));
     macro_Execute call offset parameters e
   }"

definition NumRenderTargets :: nat where "NumRenderTargets = 8"
definition NumVertexArrays :: nat where "NumVertexArrays = 32"
definition NumVertexAttributes :: nat where "NumVertexAttributes = 32"
definition MaxShaderProgram :: nat where "MaxShaderProgram = 6"

text \<open>A render target has 16 registers, the depth buffer 5, a shader 16.\<close>

definition mark_dirty :: "nat \<Rightarrow> DirtyFlags \<Rightarrow> DirtyFlags" where
  "mark_dirty method f =
     (let registers_per_rt = 16; registers_in_zeta = 5; shader_registers_count = 16 * MaxShaderProgram;
          f = (if reg_index rt \<le> method \<and> method < reg_index rt + registers_per_rt * NumRenderTargets
               then f\<lparr>df_color_buffer := set_bit ((method - reg_index rt) div registers_per_rt) (df_color_buffer f)\<rparr> else f);
          f = (if method = reg_index zeta_enable \<or> method = reg_index zeta_width \<or> method = reg_index zeta_height \<or>
                  reg_index zeta \<le> method \<and> method < reg_index zeta + registers_in_zeta
               then f\<lparr>df_zeta_buffer := True\<rparr> else f);
          f = (if reg_index shader_config \<le> method \<and> method < reg_index shader_config + shader_registers_count
               then f\<lparr>df_shaders := True\<rparr> else f);
          f = (if reg_index vertex_attrib_format \<le> method \<and> method < reg_index vertex_attrib_format + NumVertexAttributes
               then f\<lparr>df_vertex_attrib_format := True\<rparr> else f)
      in if reg_index vertex_array \<le> method \<and> method < reg_index vertex_array + 4 * NumVertexArrays
         then f\<lparr>df_vertex_array := set_bit ((method - reg_index vertex_array) div 4) (df_vertex_array f)\<rparr>
         else if reg_index vertex_array_limit \<le> method \<and> method < reg_index vertex_array_limit + 2 * NumVertexArrays
         then f\<lparr>df_vertex_array := set_bit ((method - reg_index vertex_array_limit) div 2) (df_vertex_array f)\<rparr>
         else if reg_index instanced_arrays \<le> method \<and> method < reg_index instanced_arrays + NumVertexArrays
         then f\<lparr>df_vertex_array := set_bit (method - reg_index instanced_arrays) (df_vertex_array f)\<rparr>
         else f)"

definition write_register :: "nat \<Rightarrow> u32 \<Rightarrow> 'x Maxwell3D \<Rightarrow> 'x Maxwell3D" where
  "write_register method argument e =
     (if m3d_reg_array e method \<noteq> argument
      then e\<lparr>m3d_reg_array := (m3d_reg_array e)(method := argument), m3d_dirty_flags := mark_dirty method (m3d_dirty_flags e)\<rparr>
      else e)"

definition Maxwell3D_CallMethod_step ::
    "(u32 \<Rightarrow> u32 \<Rightarrow> bool \<Rightarrow> 'x Maxwell3D \<Rightarrow> 'x Maxwell3D option) \<Rightarrow> 'x engine_call \<Rightarrow> 'x engine_call" where
  "Maxwell3D_CallMethod_step trigger call mc e = do {
     let method = mc_method mc;
     ASSERT (m3d_executing_macro e \<noteq> 0 \<longrightarrow> method = m3d_executing_macro e + 1);
     if method \<ge> MacroRegistersStart
     then do {
       e \<leftarrow> (if m3d_executing_macro e = 0
             then do { ASSERT (method mod 2 = 0); Some (e\<lparr>m3d_executing_macro := method\<rparr>) }
             else Some e);
       let e = e\<lparr>m3d_macro_params := m3d_macro_params e @ [mc_argument mc]\<rparr>;
       if IsLastCall mc
       then CallMacroMethod call (m3d_executing_macro e) (m3d_macro_params e) (e\<lparr>m3d_macro_params := []\<rparr>)
       else Some e
     }
     else do {
       ASSERT (unat method < NUM_REGS);
       let e = write_register (unat method) (mc_argument mc) e;
       if unat method = reg_index macros_data then ProcessMacroUpload (mc_argument mc) e
       else if unat method = reg_index macros_bind then Some (ProcessMacroBind (mc_argument mc) e)
       else trigger method (mc_argument mc) (IsLastCall mc) e
     }
   }"

text \<open>Macros that call macros, to a depth of \<open>n\<close>.\<close>

fun Maxwell3D_CallMethod ::
    "nat \<Rightarrow> (u32 \<Rightarrow> u32 \<Rightarrow> bool \<Rightarrow> 'x Maxwell3D \<Rightarrow> 'x Maxwell3D option) \<Rightarrow> 'x engine_call" where
  "Maxwell3D_CallMethod 0 trigger = Maxwell3D_CallMethod_step trigger (\<lambda>_ _. None)"
| "Maxwell3D_CallMethod (Suc n) trigger = Maxwell3D_CallMethod_step trigger (Maxwell3D_CallMethod n trigger)"

end
