(* ===== verification/Macro_Verifier.thy ===== *)
theory Macro_Verifier
  imports Macro_Interpreter
begin

text \<open>
  A verifier for macro code and its soundness. The interpreter asserts, or is undefined, on many
  inputs: unknown operations, shifts by 32 or more, branches in delay slots, reads of registers that
  do not exist, code that runs off its end. The verifier checks macro code once, with a type for every
  instruction that execution may come to: the set of registers whose values are below 32. Code that
  passes never gets the interpreter into any of these situations, as long as parameters are left.
\<close>

section \<open>Types\<close>

definition writes_result :: "u32 \<Rightarrow> bool" where
  "writes_result raw \<longleftrightarrow> op_result_operation raw \<in> {1, 2, 4, 6, 7}"

text \<open>The result of the instruction is below 32 whatever the registers hold.\<close>

definition small_result :: "u32 \<Rightarrow> bool" where
  "small_result raw \<longleftrightarrow>
     op_operation raw = 1 \<and> op_src_a raw = 0 \<and> op_immediate raw < 32 \<or>
     op_operation raw = 2 \<and> op_src_a raw = 0 \<and> op_bf_size raw \<le> 5 \<and> op_bf_dst_bit raw = 0 \<or>
     op_operation raw = 3 \<and> op_bf_size raw \<le> 5 \<and> op_bf_dst_bit raw = 0 \<or>
     op_operation raw = 4 \<and> op_src_a raw = 0 \<and> op_bf_size raw \<le> 5"

definition instr_ok :: "u32 \<Rightarrow> u32 set \<Rightarrow> bool" where
  "instr_ok raw S \<longleftrightarrow>
     op_operation raw = 0 \<and> op_alu_operation raw \<in> {0, 1, 2, 3, 8, 9, 10, 11, 12} \<or>
     op_operation raw = 1 \<or>
     op_operation raw = 2 \<and> op_bf_size raw \<noteq> 31 \<or>
     op_operation raw \<in> {3, 4} \<and> op_bf_size raw \<noteq> 31 \<and> op_src_a raw \<in> S \<or>
     op_operation raw = 5 \<and> op_src_a raw \<in> S \<and> op_immediate raw \<le> 0xDE0 \<or>
     op_operation raw = 7"

definition after_instr :: "u32 \<Rightarrow> u32 set \<Rightarrow> u32 set" where
  "after_instr raw S = insert 0
     (if op_operation raw = 7 then S
      else if writes_result raw \<and> small_result raw then insert (op_dst raw) S
      else S - {op_dst raw})"

text \<open>An instruction that may stand in a delay slot.\<close>

definition slot_ok :: "u32 \<Rightarrow> u32 set \<Rightarrow> bool" where
  "slot_ok raw S \<longleftrightarrow> instr_ok raw S \<and> op_operation raw \<noteq> 7 \<and> op_is_exit raw = 0"

definition entry_ok :: "(nat \<Rightarrow> u32 set option) \<Rightarrow> nat \<Rightarrow> int \<Rightarrow> u32 set \<Rightarrow> bool" where
  "entry_ok G n t S \<longleftrightarrow> 0 \<le> t \<and> t < int n \<and> (case G (nat t) of None \<Rightarrow> False | Some S' \<Rightarrow> S' \<subseteq> S)"

text \<open>\<open>code\<close> are the \<open>n\<close> words of the macro, \<open>G\<close> the types.\<close>

definition instr_typed :: "(nat \<Rightarrow> u32) \<Rightarrow> nat \<Rightarrow> (nat \<Rightarrow> u32 set option) \<Rightarrow> nat \<Rightarrow> u32 set \<Rightarrow> bool" where
  "instr_typed code n G i S \<longleftrightarrow> (let raw = code i; t = int i + sint (op_immediate raw) in
     instr_ok raw S \<and>
     (if op_is_exit raw \<noteq> 0 then i + 1 < n \<and> slot_ok (code (i + 1)) (after_instr raw S)
      else entry_ok G n (int i + 1) (after_instr raw S)) \<and>
     (op_operation raw = 7 \<longrightarrow>
        (if op_branch_annul raw \<noteq> 0 then entry_ok G n t S
         else i + 1 < n \<and> slot_ok (code (i + 1)) S \<and> entry_ok G n t (after_instr (code (i + 1)) S))))"

definition macro_typed :: "(nat \<Rightarrow> u32) \<Rightarrow> nat \<Rightarrow> (nat \<Rightarrow> u32 set option) \<Rightarrow> bool" where
  "macro_typed code n G \<longleftrightarrow> (\<forall>i<n. case G i of None \<Rightarrow> True | Some S \<Rightarrow> instr_typed code n G i S)"

section \<open>Typed states\<close>

definition regs_ok :: "u32 set \<Rightarrow> MacroInterpreter \<Rightarrow> bool" where
  "regs_ok S mi \<longleftrightarrow> length (mi_registers mi) = 8 \<and> mi_registers mi ! 0 = 0 \<and>
     (\<forall>r\<in>S. unat r < 8 \<longrightarrow> mi_registers mi ! unat r < 32)"

text \<open>At least \<open>m\<close> parameters are left.\<close>

definition params_left :: "nat \<Rightarrow> MacroInterpreter \<Rightarrow> bool" where
  "params_left m mi \<longleftrightarrow> unat (mi_next_parameter_index mi) + m \<le> length (mi_parameters mi) \<and>
     length (mi_parameters mi) < 4294967296"

text \<open>The code that the engine holds at the offset.\<close>

definition macro_code :: "u32 \<Rightarrow> 'x Maxwell3D \<Rightarrow> nat \<Rightarrow> u32" where
  "macro_code offset e i = m3d_macro_memory e (unat offset + i)"

text \<open>The verified code is in the memory of the engine, and no other macro is being fed with parameters.\<close>

definition code_at :: "u32 \<Rightarrow> (nat \<Rightarrow> u32) \<Rightarrow> nat \<Rightarrow> 'x Maxwell3D \<Rightarrow> bool" where
  "code_at offset code n e \<longleftrightarrow> unat offset + n \<le> MacroMemorySize \<and> (\<forall>i<n. macro_code offset e i = code i) \<and>
     m3d_executing_macro e = 0"

definition state_typed :: "u32 \<Rightarrow> (nat \<Rightarrow> u32) \<Rightarrow> nat \<Rightarrow> (nat \<Rightarrow> u32 set option) \<Rightarrow> 'x Maxwell3D \<Rightarrow> bool" where
  "state_typed offset code n G e \<longleftrightarrow> code_at offset code n e \<and> mi_delayed_pc (m3d_interpreter e) = None \<and>
     (\<exists>i S. i < n \<and> unat (mi_pc (m3d_interpreter e)) = 4 * i \<and> G i = Some S \<and> regs_ok S (m3d_interpreter e))"

text \<open>An engine whose methods leave the interpreter and the macro code alone, and one whose methods return.\<close>

definition engine_keeps :: "'x engine_call \<Rightarrow> bool" where
  "engine_keeps call \<longleftrightarrow> (\<forall>mc e e'. m3d_executing_macro e = 0 \<and> call mc e = Some e' \<longrightarrow>
     m3d_interpreter e' = m3d_interpreter e \<and> m3d_macro_memory e' = m3d_macro_memory e \<and> m3d_executing_macro e' = 0)"

definition engine_returns :: "'x engine_call \<Rightarrow> bool" where
  "engine_returns call \<longleftrightarrow> (\<forall>mc e. m3d_executing_macro e = 0 \<longrightarrow> call mc e \<noteq> None)"

section \<open>Fields of an opcode\<close>

lemma unat_ExtractValue:
  fixes w :: "'a::len word"
  assumes "b < LENGTH('a)"
  shows "unat (ExtractValue p b w) < 2 ^ b"
proof -
  have "ExtractValue p b w = take_bit b (ExtractValue p b w)"
    using assms by (intro bit_word_eqI) (auto simp: bit_ExtractValue bit_take_bit_iff)
  then have "unat (ExtractValue p b w) = take_bit b (unat (ExtractValue p b w))"
    by (metis unsigned_take_bit_eq)
  also have "\<dots> < 2 ^ b" by simp
  finally show ?thesis .
qed

lemma op_bounds:
  "unat (op_operation raw) < 8" "unat (op_result_operation raw) < 8" "unat (op_dst raw) < 8" "unat (op_src_a raw) < 8"
  "unat (op_src_b raw) < 8" "unat (op_bf_src_bit raw) < 32" "unat (op_bf_size raw) < 32" "unat (op_bf_dst_bit raw) < 32"
  using unat_ExtractValue [of 3 0 raw] unat_ExtractValue [of 3 4 raw] unat_ExtractValue [of 3 8 raw]
    unat_ExtractValue [of 3 11 raw] unat_ExtractValue [of 3 14 raw] unat_ExtractValue [of 5 17 raw]
    unat_ExtractValue [of 5 22 raw] unat_ExtractValue [of 5 27 raw]
  by (simp_all add: op_operation_def op_result_operation_def op_dst_def op_src_a_def op_src_b_def op_bf_src_bit_def
      op_bf_size_def op_bf_dst_bit_def)

lemma op_shifts: "op_bf_src_bit raw < 32" "op_bf_dst_bit raw < 32"
  using op_bounds by (simp_all add: word_less_nat_alt)

lemma result_operation_cases:
  "op_result_operation raw \<in> {0, 1, 2, 3, 4, 5, 6, 7}"
proof -
  have "unat (op_result_operation raw) \<in> {0, 1, 2, 3, 4, 5, 6, 7}" using op_bounds(2) [of raw] by auto
  then show ?thesis by (auto simp: word_unat_eq_iff)
qed

section \<open>Executing an instruction\<close>

lemma regs_ok_mono: "regs_ok S mi \<Longrightarrow> T \<subseteq> S \<Longrightarrow> regs_ok T mi"
  by (auto simp: regs_ok_def)

lemma GetRegister_ok:
  assumes "regs_ok S (m3d_interpreter e)" and "unat r < 8"
  shows "GetRegister e r = Some (mi_registers (m3d_interpreter e) ! unat r)"
  using assms by (simp add: GetRegister_def regs_ok_def)

lemma and_field_mask: "(x :: u32) AND (2 ^ n - 1) = take_bit n x"
  by (simp add: take_bit_eq_mask mask_eq_exp_minus_1)

lemma take_bit_small: "n \<le> 5 \<Longrightarrow> take_bit n (x :: u32) < 32"
proof -
  assume "n \<le> 5"
  then have "(2 :: nat) ^ n \<le> 32" using power_increasing [of n 5 "2 :: nat"] by simp
  moreover have "unat (take_bit n x) < 2 ^ n" by (simp add: unsigned_take_bit_eq)
  ultimately show ?thesis by (simp add: word_less_nat_alt)
qed

lemma macro_result_ok:
  assumes "instr_ok raw S" and "op_operation raw \<noteq> 7" and "regs_ok S (m3d_interpreter e)"
  obtains r c where "macro_result raw e = Some (r, c)" and "small_result raw \<Longrightarrow> r < 32"
proof -
  let ?rs = "mi_registers (m3d_interpreter e)"
  define a b where "a = ?rs ! unat (op_src_a raw)" and "b = ?rs ! unat (op_src_b raw)"
  have g: "GetRegister e (op_src_a raw) = Some a" "GetRegister e (op_src_b raw) = Some b"
    using GetRegister_ok [OF assms(3)] op_bounds by (simp_all add: a_def b_def)
  have a0: "a = 0" if "op_src_a raw = 0" using assms(3) that by (simp add: a_def regs_ok_def)
  have as: "a < 32" if "op_src_a raw \<in> S" using assms(3) that op_bounds by (auto simp: a_def regs_ok_def)
  have sz: "unat (op_bf_size raw) \<le> 5" if "op_bf_size raw \<le> 5" using that by (simp add: word_le_nat_alt)
  note sh = op_shifts [of raw] shl32_def shr32_def GetBitfieldMask_def and_field_mask
  consider (alu) "op_operation raw = 0" "op_alu_operation raw \<in> {0, 1, 2, 3, 8, 9, 10, 11, 12}"
    | (imm) "op_operation raw = 1" | (ins) "op_operation raw = 2" "op_bf_size raw \<noteq> 31"
    | (shi) "op_operation raw = 3" "op_bf_size raw \<noteq> 31" "op_src_a raw \<in> S"
    | (shr) "op_operation raw = 4" "op_bf_size raw \<noteq> 31" "op_src_a raw \<in> S"
    | (get) "op_operation raw = 5" "op_src_a raw \<in> S" "op_immediate raw \<le> 0xDE0"
    using assms(1,2) by (auto simp: instr_ok_def)
  then have "\<exists>r c. macro_result raw e = Some (r, c) \<and> (small_result raw \<longrightarrow> r < 32)"
  proof cases
    case alu
    then show ?thesis by (auto simp: macro_result_def g GetALUResult_def small_result_def Let_def)
  next
    case imm
    then show ?thesis using a0 by (auto simp: macro_result_def g small_result_def Let_def)
  next
    case ins
    then show ?thesis using a0 sz
      by (auto simp: macro_result_def g small_result_def Let_def extract_insert_def sh take_bit_small)
  next
    case shi
    then show ?thesis using as sz
      by (auto simp: macro_result_def g small_result_def Let_def extract_shift_left_immediate_def sh take_bit_small)
  next
    case shr
    then show ?thesis using as a0 sz
      by (auto simp: macro_result_def g small_result_def Let_def extract_shift_left_register_def sh take_bit_small)
  next
    case get
    have "unat a < 32" "unat (op_immediate raw) \<le> 0xDE0"
      using as [OF get(2)] get(3) by (simp_all add: word_less_nat_alt word_le_nat_alt)
    then have "unat (a + op_immediate raw) < NUM_REGS" by (subst unat_add_bounded) (simp_all add: NUM_REGS_def)
    then show ?thesis using get by (auto simp: macro_result_def g small_result_def Let_def GetRegisterValue_def)
  qed
  then show thesis using that by blast
qed

text \<open>A state in the middle of a step that began in \<open>e0\<close>.\<close>

definition running :: "'x Maxwell3D \<Rightarrow> u32 set \<Rightarrow> nat \<Rightarrow> 'x Maxwell3D \<Rightarrow> bool" where
  "running e0 S m e \<longleftrightarrow> regs_ok S (m3d_interpreter e) \<and> params_left m (m3d_interpreter e) \<and>
     mi_pc (m3d_interpreter e) = mi_pc (m3d_interpreter e0) \<and>
     mi_delayed_pc (m3d_interpreter e) = mi_delayed_pc (m3d_interpreter e0) \<and>
     m3d_macro_memory e = m3d_macro_memory e0 \<and> m3d_executing_macro e = 0"

definition set_type :: "u32 \<Rightarrow> u32 \<Rightarrow> u32 set \<Rightarrow> u32 set" where
  "set_type r v S = insert 0 (if v < 32 then insert r S else S - {r})"

lemma SetRegister_run:
  assumes "running e0 S m e" and "unat r < 8"
  obtains e' where "SetRegister r v e = Some e'" and "running e0 (set_type r v S) m e'"
proof (cases "r = 0")
  case True
  have "running e0 (set_type r v S) m e"
    using assms(1) True by (auto simp: running_def regs_ok_def set_type_def)
  then show thesis using that [of e] True by (simp add: SetRegister_def)
next
  case False
  then have "unat r \<noteq> 0" by (simp add: unat_eq_0)
  then show thesis
    using assms False
    by (intro that [of "with_mi (\<lambda>mi. mi\<lparr>mi_registers := (mi_registers mi)[unat r := v]\<rparr>) e"])
      (auto simp: SetRegister_def running_def regs_ok_def with_mi_def set_type_def params_left_def nth_list_update
        word_unat_eq_iff [symmetric] split: if_splits)
qed

lemma FetchParameter_run:
  assumes "running e0 S (Suc m) e"
  obtains e' p where "FetchParameter e = Some (e', p)" and "running e0 S m e'"
proof -
  let ?i = "mi_next_parameter_index (m3d_interpreter e)"
  have "unat (?i + 1) = unat ?i + 1"
    using assms by (subst unat_add_bounded) (auto simp: running_def params_left_def)
  then show thesis
    using assms by (intro that [of "with_mi (\<lambda>mi. mi\<lparr>mi_next_parameter_index := ?i + 1\<rparr>) e"])
      (auto simp: FetchParameter_def running_def params_left_def with_mi_def regs_ok_def Let_def)
qed

lemma params_left_mono: "params_left (Suc m) mi \<Longrightarrow> params_left m mi"
  by (simp add: params_left_def)

lemma running_mono: "running e0 S (Suc m) e \<Longrightarrow> running e0 S m e"
  by (simp add: running_def params_left_mono)

lemma SetMethodAddress_run [simp]: "running e0 S m (SetMethodAddress a e) = running e0 S m e"
  by (simp add: running_def SetMethodAddress_def with_mi_def regs_ok_def params_left_def)

definition sends :: "'x engine_call \<Rightarrow> ('x Maxwell3D \<Rightarrow> bool) \<Rightarrow> 'x Maxwell3D option \<Rightarrow> bool" where
  "sends call P r = (case r of None \<Rightarrow> \<not> engine_returns call | Some e \<Rightarrow> P e)"

lemma macro_Send_run:
  assumes "engine_keeps call" and "running e0 S m e"
  shows "sends call (running e0 S m) (macro_Send call v e)"
proof (cases "macro_Send call v e")
  case None
  then show ?thesis
    using assms(2) by (auto simp: sends_def macro_Send_def engine_returns_def running_def bind_eq_None_conv)
next
  case (Some e')
  then obtain e1 mc where e1: "call mc e = Some e1"
    "e' = with_mi (\<lambda>mi. mi\<lparr>mi_method_address := Assign 0 12 (mi_method_address mi)
         (ma_address (mi_method_address mi) + ma_increment (mi_method_address mi))\<rparr>) e1"
    by (auto simp: macro_Send_def bind_eq_Some_conv)
  then have "m3d_interpreter e1 = m3d_interpreter e" "m3d_macro_memory e1 = m3d_macro_memory e" "m3d_executing_macro e1 = 0"
    using assms by (auto simp: engine_keeps_def running_def)
  then show ?thesis
    using assms(2) Some e1(2) by (simp add: sends_def running_def with_mi_def regs_ok_def params_left_def)
qed

lemma running_sub: "running e0 S m e \<Longrightarrow> T \<subseteq> S \<Longrightarrow> running e0 T m e"
  using regs_ok_mono by (auto simp: running_def)

lemma sends_Some [simp]: "sends call P (Some e) = P e"
  by (simp add: sends_def)

lemma sends_mono: "sends call P r \<Longrightarrow> (\<And>e. P e \<Longrightarrow> Q e) \<Longrightarrow> sends call Q r"
  by (auto simp: sends_def split: option.splits)

lemma ProcessResult_result:
  assumes "engine_keeps call" and "running e0 S (Suc m) e" and "unat reg < 8" and "rop \<in> {1, 2, 4, 6, 7}"
  shows "sends call (running e0 (set_type reg result S) m) (ProcessResult call rop reg result e)"
proof -
  obtain e1 where e1: "SetRegister reg result e = Some e1" "running e0 (set_type reg result S) (Suc m) e1"
    using SetRegister_run [OF assms(2,3)] by blast
  have run: "running e0 (set_type reg result S) (Suc m) (SetMethodAddress result e1)" using e1(2) by simp
  obtain e2 p where e2: "FetchParameter (SetMethodAddress result e1) = Some (e2, p)"
    "running e0 (set_type reg result S) m e2"
    using FetchParameter_run [OF run] by blast
  show ?thesis
    using assms(4) e1 e2 running_mono [OF e1(2)] macro_Send_run [OF assms(1)]
    by (auto simp: ProcessResult_def)
qed

lemma ProcessResult_fetched:
  assumes "engine_keeps call" and "running e0 S (Suc m) e" and "unat reg < 8" and "rop \<in> {0, 3, 5}"
  shows "sends call (running e0 (insert 0 (S - {reg})) m) (ProcessResult call rop reg result e)"
proof -
  obtain e1 p where e1: "FetchParameter e = Some (e1, p)" "running e0 S m e1"
    using FetchParameter_run [OF assms(2)] by blast
  obtain e2 where e2: "SetRegister reg p e1 = Some e2" "running e0 (set_type reg p S) m e2"
    using SetRegister_run [OF e1(2) assms(3)] by blast
  have "running e0 (insert 0 (S - {reg})) m e2"
    by (rule running_sub [OF e2(2)]) (auto simp: set_type_def)
  then show ?thesis
    using assms(4) e1 e2 macro_Send_run [OF assms(1)] by (auto simp: ProcessResult_def)
qed

text \<open>An instruction that is no branch goes on with the next one and leaves the registers typed.\<close>

lemma dispatch_plain:
  assumes keeps: "engine_keeps call" and run: "running e0 S (Suc m) e"
    and ok: "instr_ok raw S" and op: "op_operation raw \<noteq> 7"
  shows "case macro_dispatch call raw b d e of None \<Rightarrow> \<not> engine_returns call
    | Some (e', flow) \<Rightarrow> flow = Next \<and> running e0 (after_instr raw S) m e'"
proof -
  obtain r c where r: "macro_result raw e = Some (r, c)" "small_result raw \<Longrightarrow> r < 32"
    using macro_result_ok [OF ok op run [unfolded running_def, THEN conjunct1]] by blast
  let ?e = "with_mi (\<lambda>mi. mi\<lparr>mi_carry_flag := c\<rparr>) e"
  have run': "running e0 S (Suc m) ?e"
    using run by (simp add: running_def with_mi_def regs_ok_def params_left_def)
  have "sends call (running e0 (after_instr raw S) m)
      (ProcessResult call (op_result_operation raw) (op_dst raw) r ?e)"
  proof (cases "writes_result raw")
    case True
    have "after_instr raw S \<subseteq> set_type (op_dst raw) r S"
      using True op r(2) by (auto simp: after_instr_def set_type_def)
    then show ?thesis
      by (rule sends_mono [OF ProcessResult_result [OF keeps run' op_bounds(3) True [unfolded writes_result_def]]
            running_sub, rotated])
  next
    case False
    then have "op_result_operation raw \<in> {0, 3, 5}"
      using result_operation_cases [of raw] by (auto simp: writes_result_def)
    then show ?thesis
      using ProcessResult_fetched [OF keeps run' op_bounds(3)] False op by (simp add: after_instr_def)
  qed
  then show ?thesis
    using op r(1) by (auto simp: macro_dispatch_def sends_def split: option.splits)
qed

section \<open>Executing a step\<close>

lemma branch_target:
  assumes "unat base = 4 * i" and "int i + sint (op_immediate raw) = int t" and "t < 2 ^ 30"
  shows "unat (base + GetBranchTarget raw) = 4 * t"
proof -
  have "base = word_of_nat (unat base)" by simp
  then have "base = word_of_int (4 * int i)" unfolding assms(1) by simp
  moreover have "GetBranchTarget raw = word_of_int (4 * sint (op_immediate raw))"
    by (simp add: GetBranchTarget_def)
  ultimately have "base + GetBranchTarget raw = word_of_int (4 * (int i + sint (op_immediate raw)))"
    by (simp add: distrib_left)
  also have "\<dots> = word_of_nat (4 * t)" by (simp add: assms(2))
  finally show ?thesis using assms(3) by (simp only: unat_of_nat) (simp add: take_bit_nat_eq_self)
qed

lemma GetOpcode_at:
  assumes "code_at offset code n e" and "unat (mi_pc (m3d_interpreter e)) = 4 * i" and "i < n"
  shows "GetOpcode offset e = Some (code i)"
proof -
  let ?pc = "mi_pc (m3d_interpreter e)"
  have "?pc mod 4 = 0" using assms(2) by (simp add: word_unat_eq_iff unat_mod)
  moreover have "unat (?pc + offset) < MacroMemorySize * 4"
    using assms by (subst unat_add_bounded) (auto simp: code_at_def MacroMemorySize_def)
  ultimately show ?thesis
    using assms by (auto simp: GetOpcode_def code_at_def macro_code_def Let_def)
qed

text \<open>The instruction in a delay slot, of a branch or of an exit.\<close>

lemma delay_slot:
  assumes keeps: "engine_keeps call" and code: "code_at offset code n e"
    and pc: "unat (mi_pc (m3d_interpreter e)) = 4 * i" "i < n" and slot: "slot_ok (code i) S"
    and regs: "regs_ok S (m3d_interpreter e)" "params_left (Suc m) (m3d_interpreter e)"
  shows "case macro_Step call offset True e of None \<Rightarrow> \<not> engine_returns call
    | Some (e', keep) \<Rightarrow> keep \<and> regs_ok (after_instr (code i) S) (m3d_interpreter e') \<and>
        params_left m (m3d_interpreter e') \<and> mi_delayed_pc (m3d_interpreter e') = None \<and>
        code_at offset code n e' \<and>
        (\<forall>t. mi_delayed_pc (m3d_interpreter e) = Some t \<longrightarrow> mi_pc (m3d_interpreter e') = t)"
proof -
  obtain e1 where e1: "advance_pc True e = Some e1" "mi_delayed_pc (m3d_interpreter e1) = None"
    "\<forall>t. mi_delayed_pc (m3d_interpreter e) = Some t \<longrightarrow> mi_pc (m3d_interpreter e1) = t"
    "code_at offset code n e1" "running e1 S (Suc m) e1"
    using regs code by (cases "mi_delayed_pc (m3d_interpreter e)")
      (auto simp: advance_pc_def with_mi_def running_def regs_ok_def params_left_def code_at_def macro_code_def)
  have ok: "instr_ok (code i) S" "op_operation (code i) \<noteq> 7" "op_is_exit (code i) = 0"
    using slot by (simp_all add: slot_ok_def)
  show ?thesis
    using dispatch_plain [OF keeps e1(5) ok(1,2), of "mi_pc (m3d_interpreter e)" True] e1(1-4) ok(3)
    by (subst macro_Step.simps)
      (auto simp: GetOpcode_at [OF code pc] running_def code_at_def macro_code_def split: option.splits prod.splits)
qed

lemma instr_typedD:
  assumes "instr_typed code n G i S"
  shows "instr_ok (code i) S"
    and "if op_is_exit (code i) \<noteq> 0 then i + 1 < n \<and> slot_ok (code (i + 1)) (after_instr (code i) S)
      else entry_ok G n (int i + 1) (after_instr (code i) S)"
    and "op_operation (code i) = 7 \<Longrightarrow> if op_branch_annul (code i) \<noteq> 0
      then entry_ok G n (int i + sint (op_immediate (code i))) S
      else i + 1 < n \<and> slot_ok (code (i + 1)) S \<and>
        entry_ok G n (int i + sint (op_immediate (code i))) (after_instr (code (i + 1)) S)"
  using assms unfolding instr_typed_def Let_def by blast+

definition stepped ::
    "'x engine_call \<Rightarrow> u32 \<Rightarrow> (nat \<Rightarrow> u32) \<Rightarrow> nat \<Rightarrow> (nat \<Rightarrow> u32 set option) \<Rightarrow> nat \<Rightarrow> ('x Maxwell3D \<times> bool) option \<Rightarrow> bool" where
  "stepped call offset code n G m r = (case r of None \<Rightarrow> \<not> engine_returns call
     | Some (e, keep) \<Rightarrow> params_left m (m3d_interpreter e) \<and> (keep \<longrightarrow> state_typed offset code n G e))"

lemma entry_typed:
  assumes "entry_ok G n t S" and "code_at offset code n e" and "mi_delayed_pc (m3d_interpreter e) = None"
    and "regs_ok S (m3d_interpreter e)" and "unat (mi_pc (m3d_interpreter e)) = 4 * nat t"
  shows "state_typed offset code n G e"
proof -
  obtain S' where S': "0 \<le> t" "t < int n" "G (nat t) = Some S'" "S' \<subseteq> S"
    using assms(1) by (auto simp: entry_ok_def split: option.splits)
  then have "nat t < n" by linarith
  then show ?thesis
    using assms(2,3,5) S' regs_ok_mono [OF assms(4) S'(4)] unfolding state_typed_def by blast
qed

text \<open>After an instruction that does not jump.\<close>

lemma go_on:
  assumes keeps: "engine_keeps call" and code: "code_at offset code n e"
    and pc: "unat (mi_pc (m3d_interpreter e)) = 4 * (i + 1)" and delayed: "mi_delayed_pc (m3d_interpreter e) = None"
    and regs: "regs_ok S (m3d_interpreter e)" "params_left (Suc m) (m3d_interpreter e)"
    and ok: "if op_is_exit raw \<noteq> 0 then i + 1 < n \<and> slot_ok (code (i + 1)) S else entry_ok G n (int i + 1) S"
  shows "stepped call offset code n G m
    (if op_is_exit raw \<noteq> 0 then do { (e, _) \<leftarrow> macro_Step call offset True e; Some (e, False) } else Some (e, True))"
proof (cases "op_is_exit raw = 0")
  case True
  then have "state_typed offset code n G e"
    using ok pc by (intro entry_typed [where t = "int i + 1", OF _ code delayed regs(1)]) (simp_all add: nat_add_distrib)
  then show ?thesis using True params_left_mono [OF regs(2)] by (simp add: stepped_def)
next
  case False
  then have "i + 1 < n" "slot_ok (code (i + 1)) S" using ok by simp_all
  from delay_slot [OF keeps code pc this regs] show ?thesis
    using False by (auto simp: stepped_def split: option.splits)
qed

lemma run_code_at: "running e0 S m e \<Longrightarrow> code_at offset code n e0 \<Longrightarrow> code_at offset code n e"
  by (simp add: running_def code_at_def macro_code_def)

lemma advance_next:
  assumes code: "code_at offset code n e" and pc: "unat (mi_pc (m3d_interpreter e)) = 4 * i" "i < n"
    and delayed: "mi_delayed_pc (m3d_interpreter e) = None"
    and regs: "regs_ok S (m3d_interpreter e)" "params_left m (m3d_interpreter e)"
  obtains e1 where "advance_pc False e = Some e1" and "running e1 S m e1" and "code_at offset code n e1"
    and "mi_delayed_pc (m3d_interpreter e1) = None" and "unat (mi_pc (m3d_interpreter e1)) = 4 * (i + 1)"
proof -
  define e1 where "e1 = with_mi (\<lambda>mi. mi\<lparr>mi_pc := mi_pc mi + 4\<rparr>) e"
  have "advance_pc False e = Some e1" using delayed by (simp add: advance_pc_def e1_def)
  moreover have "running e1 S m e1" "code_at offset code n e1" "mi_delayed_pc (m3d_interpreter e1) = None"
    using regs code delayed
    by (simp_all add: e1_def running_def with_mi_def regs_ok_def params_left_def code_at_def macro_code_def)
  moreover have "unat (mi_pc (m3d_interpreter e1)) = 4 * (i + 1)"
    using pc code by (simp add: e1_def with_mi_def code_at_def MacroMemorySize_def unat_add_bounded)
  ultimately show thesis by (rule that)
qed

lemma Step_plain:
  assumes keeps: "engine_keeps call" and code: "code_at offset code n e"
    and pc: "unat (mi_pc (m3d_interpreter e)) = 4 * i" "i < n" and delayed: "mi_delayed_pc (m3d_interpreter e) = None"
    and regs: "regs_ok S (m3d_interpreter e)" "params_left (Suc (Suc m)) (m3d_interpreter e)"
    and typed: "instr_typed code n G i S" and op: "op_operation (code i) \<noteq> 7"
  shows "stepped call offset code n G m (macro_Step call offset False e)"
proof -
  obtain e1 where adv: "advance_pc False e = Some e1" and run: "running e1 S (Suc (Suc m)) e1" "code_at offset code n e1"
      "mi_delayed_pc (m3d_interpreter e1) = None" and pc1: "unat (mi_pc (m3d_interpreter e1)) = 4 * (i + 1)"
    by (rule advance_next [OF code pc delayed regs])
  note disp = dispatch_plain [OF keeps run(1) instr_typedD(1) [OF typed] op, of "mi_pc (m3d_interpreter e)" False]
  show ?thesis
  proof (cases "macro_dispatch call (code i) (mi_pc (m3d_interpreter e)) False e1")
    case None
    then show ?thesis
      using disp adv by (subst macro_Step.simps) (simp add: GetOpcode_at [OF code pc] stepped_def)
  next
    case (Some r)
    obtain e2 flow where r: "r = (e2, flow)" by force
    have d: "flow = Next" "running e1 (after_instr (code i) S) (Suc m) e2" using disp Some r by simp_all
    have "stepped call offset code n G m (if op_is_exit (code i) \<noteq> 0
        then do { (e, _) \<leftarrow> macro_Step call offset True e2; Some (e, False) } else Some (e2, True))"
      using d(2) run(3) pc1
      by (intro go_on [OF keeps run_code_at [OF d(2) run(2)] _ _ _ _ instr_typedD(2) [OF typed]])
        (simp_all add: running_def)
    then show ?thesis
      using Some r d(1) adv by (subst macro_Step.simps) (simp add: GetOpcode_at [OF code pc])
  qed
qed

lemma entry_target:
  assumes "entry_ok G n (int i + sint (op_immediate raw)) S" and "unat base = 4 * i" and "n \<le> MacroMemorySize"
  shows "unat (base + GetBranchTarget raw) = 4 * nat (int i + sint (op_immediate raw))"
  using assms by (intro branch_target) (auto simp: entry_ok_def MacroMemorySize_def)

lemma slot_jump:
  assumes keeps: "engine_keeps call" and code: "code_at offset code n e"
    and pc: "unat (mi_pc (m3d_interpreter e)) = 4 * i" "i < n" and slot: "slot_ok (code i) S"
    and regs: "regs_ok S (m3d_interpreter e)" "params_left (Suc m) (m3d_interpreter e)"
    and delayed: "mi_delayed_pc (m3d_interpreter e) = Some target"
    and ent: "entry_ok G n t (after_instr (code i) S)" "unat target = 4 * nat t"
  shows "stepped call offset code n G m (macro_Step call offset True e)"
proof (cases "macro_Step call offset True e")
  case None
  then show ?thesis using delay_slot [OF keeps code pc slot regs] by (simp add: stepped_def)
next
  case (Some r)
  obtain e2 k where r: "r = (e2, k)" by force
  have d: "regs_ok (after_instr (code i) S) (m3d_interpreter e2)" "params_left m (m3d_interpreter e2)"
    "mi_delayed_pc (m3d_interpreter e2) = None" "code_at offset code n e2"
    "mi_pc (m3d_interpreter e2) = target"
    using delay_slot [OF keeps code pc slot regs] Some r delayed by simp_all
  then have "state_typed offset code n G e2"
    using ent(2) by (intro entry_typed [OF ent(1)]) simp_all
  then show ?thesis using Some r d(2) by (simp add: stepped_def)
qed

lemma Step_branch:
  assumes keeps: "engine_keeps call" and code: "code_at offset code n e"
    and pc: "unat (mi_pc (m3d_interpreter e)) = 4 * i" "i < n" and delayed: "mi_delayed_pc (m3d_interpreter e) = None"
    and regs: "regs_ok S (m3d_interpreter e)" "params_left (Suc (Suc m)) (m3d_interpreter e)"
    and typed: "instr_typed code n G i S" and op: "op_operation (code i) = 7"
  shows "stepped call offset code n G m (macro_Step call offset False e)"
proof -
  let ?raw = "code i" and ?base = "mi_pc (m3d_interpreter e)" and ?t = "int i + sint (op_immediate (code i))"
  obtain e1 where adv: "advance_pc False e = Some e1" and run: "running e1 S (Suc (Suc m)) e1" "code_at offset code n e1"
      "mi_delayed_pc (m3d_interpreter e1) = None" and pc1: "unat (mi_pc (m3d_interpreter e1)) = 4 * (i + 1)"
    by (rule advance_next [OF code pc delayed regs])
  have r1: "regs_ok S (m3d_interpreter e1)" "params_left (Suc (Suc m)) (m3d_interpreter e1)"
    using run(1) by (simp_all add: running_def)
  have n: "n \<le> MacroMemorySize" using code by (simp add: code_at_def)
  define v where "v = mi_registers (m3d_interpreter e1) ! unat (op_src_a ?raw)"
  have v: "GetRegister e1 (op_src_a ?raw) = Some v" using GetRegister_ok [OF r1(1) op_bounds(4)] by (simp add: v_def)
  note step = macro_Step.simps [of call offset False e] GetOpcode_at [OF code pc] adv macro_dispatch_def op v
  consider (no) "\<not> EvaluateBranchCondition (op_branch_condition ?raw) v"
    | (annul) "EvaluateBranchCondition (op_branch_condition ?raw) v" "op_branch_annul ?raw \<noteq> 0"
    | (slot) "EvaluateBranchCondition (op_branch_condition ?raw) v" "op_branch_annul ?raw = 0" by blast
  then show ?thesis
  proof cases
    case no
    have "regs_ok (after_instr ?raw S) (m3d_interpreter e1)"
      using r1(1) op by (auto simp: regs_ok_def after_instr_def)
    from go_on [OF keeps run(2) pc1 run(3) this params_left_mono [OF r1(2)] instr_typedD(2) [OF typed]] no
    show ?thesis by (auto simp: step stepped_def params_left_def split: option.splits if_splits)
  next
    case annul
    then have ent: "entry_ok G n ?t S" using instr_typedD(3) [OF typed op] by simp
    let ?e = "with_mi (\<lambda>mi. mi\<lparr>mi_pc := ?base + GetBranchTarget ?raw\<rparr>) e1"
    have "state_typed offset code n G ?e"
      using run r1 entry_target [OF ent pc(1) n]
      by (intro entry_typed [OF ent]) (simp_all add: with_mi_def code_at_def macro_code_def regs_ok_def)
    then show ?thesis using annul r1(2) by (simp add: step stepped_def with_mi_def params_left_def)
  next
    case slot
    then have ent: "i + 1 < n" "slot_ok (code (i + 1)) S" "entry_ok G n ?t (after_instr (code (i + 1)) S)"
      using instr_typedD(3) [OF typed op] by simp_all
    let ?e = "with_mi (\<lambda>mi. mi\<lparr>mi_delayed_pc := Some (?base + GetBranchTarget ?raw)\<rparr>) e1"
    have e: "code_at offset code n ?e" "unat (mi_pc (m3d_interpreter ?e)) = 4 * (i + 1)"
      "regs_ok S (m3d_interpreter ?e)" "params_left (Suc m) (m3d_interpreter ?e)"
      using run(2) pc1 r1 by (simp_all add: with_mi_def code_at_def macro_code_def regs_ok_def params_left_def)
    have "stepped call offset code n G m (macro_Step call offset True ?e)"
      using entry_target [OF ent(3) pc(1) n]
      by (intro slot_jump [OF keeps e(1,2) ent(1,2) e(3,4) _ ent(3)]) (simp_all add: with_mi_def)
    then show ?thesis using slot by (simp add: step)
  qed
qed

lemma Step_typed:
  assumes "engine_keeps call" and "macro_typed code n G" and "state_typed offset code n G e"
    and "params_left (Suc (Suc m)) (m3d_interpreter e)"
  shows "stepped call offset code n G m (macro_Step call offset False e)"
proof -
  obtain i S where i: "code_at offset code n e" "mi_delayed_pc (m3d_interpreter e) = None" "i < n"
    "unat (mi_pc (m3d_interpreter e)) = 4 * i" "G i = Some S" "regs_ok S (m3d_interpreter e)"
    using assms(3) by (auto simp: state_typed_def)
  then have "instr_typed code n G i S" using assms(2) by (auto simp: macro_typed_def split: option.splits)
  then show ?thesis
    using Step_plain [OF assms(1) i(1,4,3,2,6) assms(4)] Step_branch [OF assms(1) i(1,4,3,2,6) assms(4)] by blast
qed

section \<open>Executing a macro\<close>

text \<open>The first \<open>k\<close> rounds of the loop of \<open>Execute\<close>; the boolean says whether it goes on.\<close>

primrec macro_rounds :: "'x engine_call \<Rightarrow> u32 \<Rightarrow> nat \<Rightarrow> 'x Maxwell3D \<Rightarrow> ('x Maxwell3D \<times> bool) option" where
  "macro_rounds call offset 0 e = Some (e, True)"
| "macro_rounds call offset (Suc k) e = do {
     (e, keep) \<leftarrow> macro_Step call offset False e;
     if keep then macro_rounds call offset k e else Some (e, False)
   }"

lemma rounds_loop:
  "macro_rounds call offset k e = Some (e', False) \<Longrightarrow> macro_loop call offset e = Some e'"
proof (induction k arbitrary: e)
  case 0
  then show ?case by simp
next
  case (Suc k)
  then obtain e1 keep where e1: "macro_Step call offset False e = Some (e1, keep)"
    "(if keep then macro_rounds call offset k e1 else Some (e1, False)) = Some (e', False)"
    by (auto simp: bind_eq_Some_conv)
  then show ?case using Suc.IH [of e1] by (subst macro_loop.simps) (auto split: if_splits)
qed

lemma rounds_typed:
  assumes "engine_keeps call" and "engine_returns call" and "macro_typed code n G"
  shows "state_typed offset code n G e \<Longrightarrow> params_left (2 * k) (m3d_interpreter e) \<Longrightarrow>
    \<exists>e' keep. macro_rounds call offset k e = Some (e', keep) \<and> (keep \<longrightarrow> state_typed offset code n G e')"
proof (induction k arbitrary: e)
  case 0
  then show ?case by auto
next
  case (Suc k)
  from Step_typed [OF assms(1,3) Suc.prems(1), of "2 * k"] Suc.prems(2)
  obtain e1 keep where e1: "macro_Step call offset False e = Some (e1, keep)" "params_left (2 * k) (m3d_interpreter e1)"
    "keep \<longrightarrow> state_typed offset code n G e1"
    using assms(2) by (auto simp: stepped_def split: option.splits)
  then show ?case using Suc.IH [of e1] by (cases keep) auto
qed

lemma start_typed:
  assumes "parameters \<noteq> []" and "length parameters < 4294967296" and "2 * k < length parameters"
    and "code_at offset code n e" and "0 < n" and "G 0 = Some S" and "1 \<notin> S"
  obtains e' where "macro_start parameters e = Some e'" and "state_typed offset code n G e'"
    and "params_left (2 * k) (m3d_interpreter e')"
proof -
  obtain p ps where ps: "parameters = p # ps" using assms(1) by (cases parameters) auto
  let ?mi = "(MacroInterpreter_Reset (m3d_interpreter e))\<lparr>mi_registers := (replicate 8 0)[1 := p], mi_parameters := parameters\<rparr>"
  have start: "macro_start parameters e = Some (e\<lparr>m3d_interpreter := ?mi\<rparr>)"
    by (simp add: macro_start_def with_mi_def ps MacroInterpreter_Reset_def Let_def)
  have "unat r \<noteq> 1" if "r \<in> S" for r
  proof
    assume "unat r = 1"
    then have "r = 1" by (simp add: word_unat_eq_iff)
    then show False using that assms(7) by simp
  qed
  then have "regs_ok S ?mi" unfolding regs_ok_def by (simp add: nth_list_update) fastforce
  then have "state_typed offset code n G (e\<lparr>m3d_interpreter := ?mi\<rparr>)"
    using assms(4-6) by (auto simp: state_typed_def code_at_def macro_code_def MacroInterpreter_Reset_def)
  moreover have "params_left (2 * k) ?mi"
    using assms(2,3) by (simp add: params_left_def MacroInterpreter_Reset_def)
  moreover have "m3d_interpreter (e\<lparr>m3d_interpreter := ?mi\<rparr>) = ?mi" by simp
  ultimately show thesis using that start by metis
qed

end
