(* ===== verification/Macro_Sound.thy ===== *)
theory Macro_Sound
  imports Macro_Verifier
begin

text \<open>
  Verified macros in the 3D engine. The methods that a macro sends go to the engine that runs it. Two kinds of
  them change the interpreter or the code: a method of a macro, which runs another macro on the same
  interpreter, and the upload of code. All others only write a register and start what the register triggers.
\<close>

section \<open>More engines give more results\<close>

definition engine_le :: "'x engine_call \<Rightarrow> 'x engine_call \<Rightarrow> bool" where
  "engine_le call call' \<longleftrightarrow> (\<forall>mc e e'. call mc e = Some e' \<longrightarrow> call' mc e = Some e')"

lemma macro_Send_le:
  "engine_le call call' \<Longrightarrow> macro_Send call v e = Some e' \<Longrightarrow> macro_Send call' v e = Some e'"
  by (auto simp: engine_le_def macro_Send_def bind_eq_Some_conv)

lemma ProcessResult_le:
  assumes "engine_le call call'" and "ProcessResult call rop reg r e = Some e'"
  shows "ProcessResult call' rop reg r e = Some e'"
  using assms(2) macro_Send_le [OF assms(1)]
  by (auto simp: ProcessResult_def bind_eq_Some_conv split: if_splits)

lemma macro_dispatch_le:
  assumes "engine_le call call'" and "macro_dispatch call raw b d e = Some r"
  shows "macro_dispatch call' raw b d e = Some r"
proof (cases "op_operation raw = 7")
  case True
  then show ?thesis using assms(2) by (simp add: macro_dispatch_def)
next
  case False
  then show ?thesis
    using assms(2) ProcessResult_le [OF assms(1)]
    by (fastforce simp: macro_dispatch_def bind_eq_Some_conv)
qed

lemma macro_Step_le:
  assumes "engine_le call call'" and "macro_Step call offset d e = Some r"
  shows "macro_Step call' offset d e = Some r"
proof -
  have "call = call \<longrightarrow> macro_Step call' offset d e = Some r"
  proof (rule macro_Step.raw_induct [where P = "\<lambda>c offset d e r. c = call \<longrightarrow> macro_Step call' offset d e = Some r", OF _ assms(2)])
    fix step c offset d and e :: "'a Maxwell3D" and r
    assume IH: "\<And>c offset d e r. step c offset d e = Some r \<Longrightarrow> c = call \<longrightarrow> macro_Step call' offset d e = Some r"
      and s: "do { let base_address = mi_pc (m3d_interpreter e);
          raw \<leftarrow> GetOpcode offset e; e \<leftarrow> advance_pc d e; (e, flow) \<leftarrow> macro_dispatch c raw base_address d e;
          case flow of Jump \<Rightarrow> Some (e, True) | Delay \<Rightarrow> step c offset True e
          | Next \<Rightarrow> if op_is_exit raw \<noteq> 0 then do { (e, _) \<leftarrow> step c offset True e; Some (e, False) } else Some (e, True) } = Some r"
    show "c = call \<longrightarrow> macro_Step call' offset d e = Some r"
    proof
      assume c: "c = call"
      obtain raw e1 e2 flow where t: "GetOpcode offset e = Some raw" "advance_pc d e = Some e1"
        "macro_dispatch call raw (mi_pc (m3d_interpreter e)) d e1 = Some (e2, flow)"
        "(case flow of Jump \<Rightarrow> Some (e2, True) | Delay \<Rightarrow> step call offset True e2
          | Next \<Rightarrow> if op_is_exit raw \<noteq> 0 then do { (e, _) \<leftarrow> step call offset True e2; Some (e, False) } else Some (e2, True)) = Some r"
        using s c by (auto simp: bind_eq_Some_conv Let_def)
      have "(case flow of Jump \<Rightarrow> Some (e2, True) | Delay \<Rightarrow> macro_Step call' offset True e2
          | Next \<Rightarrow> if op_is_exit raw \<noteq> 0 then do { (e, _) \<leftarrow> macro_Step call' offset True e2; Some (e, False) } else Some (e2, True)) = Some r"
        using t(4) IH by (cases flow) (fastforce simp: bind_eq_Some_conv split: if_splits)+
      then show "macro_Step call' offset d e = Some r"
        using t(1,2) macro_dispatch_le [OF assms(1) t(3)] by (subst macro_Step.simps) simp
    qed
  qed
  then show ?thesis by simp
qed

lemma macro_rounds_le:
  "engine_le call call' \<Longrightarrow> macro_rounds call offset k e = Some r \<Longrightarrow> macro_rounds call' offset k e = Some r"
proof (induction k arbitrary: e)
  case 0
  then show ?case by simp
next
  case (Suc k)
  then obtain e1 keep where "macro_Step call offset False e = Some (e1, keep)"
    "(if keep then macro_rounds call offset k e1 else Some (e1, False)) = Some r"
    by (auto simp: bind_eq_Some_conv)
  then show ?case using Suc macro_Step_le [of call call' offset False e "(e1, keep)"] by (auto split: if_splits)
qed

section \<open>The 3D engine\<close>

definition quiet_method :: "u32 \<Rightarrow> bool" where
  "quiet_method method \<longleftrightarrow> method < MacroRegistersStart \<and> unat method \<noteq> reg_index macros_data"

text \<open>The engine as far as it is only sent such methods: no other is answered.\<close>

definition quiet_engine ::
    "(u32 \<Rightarrow> u32 \<Rightarrow> bool \<Rightarrow> 'x Maxwell3D \<Rightarrow> 'x Maxwell3D option) \<Rightarrow> 'x engine_call" where
  "quiet_engine trigger mc e = (if quiet_method (mc_method mc) then Maxwell3D_CallMethod 0 trigger mc e else None)"

text \<open>The engine with all other methods ignored.\<close>

definition patient_engine ::
    "(u32 \<Rightarrow> u32 \<Rightarrow> bool \<Rightarrow> 'x Maxwell3D \<Rightarrow> 'x Maxwell3D option) \<Rightarrow> 'x engine_call" where
  "patient_engine trigger mc e = (if quiet_method (mc_method mc) then Maxwell3D_CallMethod 0 trigger mc e else Some e)"

text \<open>What the other registers trigger returns and leaves the interpreter and the macro code alone.\<close>

definition trigger_ok :: "(u32 \<Rightarrow> u32 \<Rightarrow> bool \<Rightarrow> 'x Maxwell3D \<Rightarrow> 'x Maxwell3D option) \<Rightarrow> bool" where
  "trigger_ok trigger \<longleftrightarrow> (\<forall>method argument is_last e. \<exists>e'. trigger method argument is_last e = Some e' \<and>
     m3d_interpreter e' = m3d_interpreter e \<and> m3d_macro_memory e' = m3d_macro_memory e \<and>
     m3d_executing_macro e' = m3d_executing_macro e)"

lemma CallMethod_register:
  assumes "\<not> MacroRegistersStart \<le> mc_method mc"
  shows "Maxwell3D_CallMethod_step trigger call mc e =
    ASSERT (m3d_executing_macro e \<noteq> 0 \<longrightarrow> mc_method mc = m3d_executing_macro e + 1) \<bind> (\<lambda>_.
    ASSERT (unat (mc_method mc) < NUM_REGS) \<bind> (\<lambda>_.
      if unat (mc_method mc) = reg_index macros_data
      then ProcessMacroUpload (mc_argument mc) (write_register (unat (mc_method mc)) (mc_argument mc) e)
      else if unat (mc_method mc) = reg_index macros_bind
      then Some (ProcessMacroBind (mc_argument mc) (write_register (unat (mc_method mc)) (mc_argument mc) e))
      else trigger (mc_method mc) (mc_argument mc) (IsLastCall mc) (write_register (unat (mc_method mc)) (mc_argument mc) e)))"
  unfolding Maxwell3D_CallMethod_step_def Let_def using assms by (simp only: if_False)

lemma quiet_call:
  assumes "quiet_method (mc_method mc)"
  shows "Maxwell3D_CallMethod n trigger mc e = Maxwell3D_CallMethod 0 trigger mc e"
proof -
  have "\<not> MacroRegistersStart \<le> mc_method mc" using assms by (simp add: quiet_method_def not_le)
  then show ?thesis by (cases n) (simp_all add: CallMethod_register)
qed

lemma quiet_le: "engine_le (quiet_engine trigger) (Maxwell3D_CallMethod n trigger)"
  "engine_le (quiet_engine trigger) (patient_engine trigger)"
  using quiet_call [of _ n trigger] by (auto simp: engine_le_def quiet_engine_def patient_engine_def split: if_splits)

lemma quiet_step:
  assumes "trigger_ok trigger" and "quiet_method (mc_method mc)" and "m3d_executing_macro e = 0"
  obtains e' where "Maxwell3D_CallMethod 0 trigger mc e = Some e'" and "m3d_interpreter e' = m3d_interpreter e"
    and "m3d_macro_memory e' = m3d_macro_memory e" and "m3d_executing_macro e' = 0"
proof -
  let ?m = "mc_method mc"
  let ?e = "write_register (unat ?m) (mc_argument mc) e"
  have w: "m3d_interpreter ?e = m3d_interpreter e" "m3d_macro_memory ?e = m3d_macro_memory e"
    "m3d_executing_macro ?e = m3d_executing_macro e" by (simp_all add: write_register_def)
  have m: "\<not> MacroRegistersStart \<le> ?m" "unat ?m < NUM_REGS" "unat ?m \<noteq> reg_index macros_data"
    using assms(2) by (auto simp: quiet_method_def MacroRegistersStart_def NUM_REGS_def word_less_nat_alt word_le_nat_alt)
  obtain e' where e': "trigger ?m (mc_argument mc) (IsLastCall mc) ?e = Some e'"
    "m3d_interpreter e' = m3d_interpreter ?e" "m3d_macro_memory e' = m3d_macro_memory ?e"
    "m3d_executing_macro e' = m3d_executing_macro ?e"
    using assms(1) unfolding trigger_ok_def by blast
  show thesis
  proof (cases "unat ?m = reg_index macros_bind")
    case True
    then show ?thesis
      using m w assms(3) by (intro that [of "ProcessMacroBind (mc_argument mc) ?e"])
        (simp_all add: CallMethod_register ProcessMacroBind_def)
  next
    case False
    then show ?thesis
      using m w assms(3) e' by (intro that [of e']) (simp_all add: CallMethod_register)
  qed
qed

lemma patient_ok:
  assumes "trigger_ok trigger"
  shows "engine_keeps (patient_engine trigger)" and "engine_returns (patient_engine trigger)"
  using quiet_step [OF assms] by (fastforce simp: engine_keeps_def engine_returns_def patient_engine_def)+


text \<open>
  A macro of five instructions: it puts 5 into register 2, jumps over the next one if the first parameter is
  zero, shifts register 3 by register 2, and exits through a delay slot that fetches a parameter.
\<close>

definition example_code :: "nat \<Rightarrow> u32" where
  "example_code i = [0x14211, 0x8827, 0x40D313, 0x91, 0x401] ! i"

definition example_types :: "nat \<Rightarrow> u32 set option" where
  "example_types i = [Some {0}, Some {0, 2}, Some {0, 2}, Some {0}, None] ! i"

definition example_engine :: "unit Maxwell3D" where
  "example_engine = \<lparr>m3d_reg_array = (\<lambda>_. 0), m3d_macro_offsets = Map.empty, m3d_macro_memory = (\<lambda>i. example_code (i - 16)),
     m3d_executing_macro = 0, m3d_macro_params = [], m3d_interpreter = \<lparr>mi_pc = 0, mi_delayed_pc = None,
       mi_registers = replicate 8 0, mi_method_address = 0, mi_parameters = [], mi_next_parameter_index = 1,
       mi_carry_flag = False\<rparr>,
     m3d_dirty_flags = \<lparr>df_color_buffer = -1, df_vertex_array = -1, df_vertex_attrib_format = True, df_zeta_buffer = True,
       df_shaders = True\<rparr>, m3d_rest = ()\<rparr>"

lemma example_typed: "macro_typed example_code 5 example_types"
  by code_simp

text \<open>Registers that trigger nothing.\<close>

definition example_trigger ::
    "u32 \<Rightarrow> u32 \<Rightarrow> bool \<Rightarrow> unit Maxwell3D \<Rightarrow> unit Maxwell3D option" where
  "example_trigger method argument is_last e = Some e"

lemma example_setting:
  "code_at 16 example_code 5 example_engine" "trigger_ok example_trigger" "example_types 0 = Some {0}"
  by (simp_all add: example_types_def code_at_def macro_code_def example_engine_def MacroMemorySize_def
      trigger_ok_def example_trigger_def)


end
