(* ===== verification/Macro_Alu.thy ===== *)
theory Macro_Alu
  imports Macro_Verifier
begin

text \<open>
  The arithmetic of macros: additions and subtractions that are chained over the carry flag compute on 64
  bits, and a bit field that is extracted and inserted moves exactly the bits that the opcode names.
\<close>

section \<open>Addition and subtraction\<close>

lemma unat_ucast_u32_u64: "unat (ucast (a :: u32) :: u64) = unat a"
  using unat_bound_u32 [of a] by (simp add: unsigned_ucast_eq take_bit_nat_eq_self)

lemma unat_ucast_u64_u32: "unat (ucast (x :: u64) :: u32) = unat x mod 4294967296"
  by (simp add: unsigned_ucast_eq take_bit_eq_mod)

lemma carry_sum:
  fixes a b :: u32 and c :: u64
  assumes "unat c \<le> 1"
  defines "s \<equiv> ucast a + ucast b + c :: u64"
  shows "unat (ucast s :: u32) + (if s > 0xffffffff then 4294967296 else 0) = unat a + unat b + unat c"
proof -
  have "unat (ucast a + ucast b :: u64) = unat a + unat b"
    using unat_bound_u32 [of a] unat_bound_u32 [of b] by (subst unat_add_u64) (simp_all add: unat_ucast_u32_u64)
  then have "unat s = unat a + unat b + unat c"
    using assms(1) unat_bound_u32 [of a] unat_bound_u32 [of b] unfolding s_def by (subst unat_add_u64) simp_all
  then show ?thesis
    using assms(1) unat_bound_u32 [of a] unat_bound_u32 [of b]
    by (auto simp: unat_ucast_u64_u32 word_less_nat_alt mod_if)
qed

lemma borrow_difference:
  fixes a b :: u32 and c :: u64
  assumes "unat c \<le> 1"
  defines "s \<equiv> ucast a - ucast b - c :: u64"
  shows "unat (ucast s :: u32) + unat b + unat c = unat a + (if s < 0x100000000 then 0 else 4294967296)"
proof -
  have bc: "unat (ucast b + c :: u64) = unat b + unat c"
    using assms(1) unat_bound_u32 [of b] by (subst unat_add_u64) (simp_all add: unat_ucast_u32_u64)
  have s: "s = ucast a - (ucast b + c)" by (simp add: s_def)
  show ?thesis
  proof (cases "unat b + unat c \<le> unat a")
    case True
    then have "unat s = unat a - (unat b + unat c)"
      unfolding s by (subst unat_sub_u64) (simp_all add: bc unat_ucast_u32_u64)
    then show ?thesis
      using True unat_bound_u32 [of a] by (simp add: unat_ucast_u64_u32 word_less_nat_alt)
  next
    case False
    have "unat s = 18446744073709551616 - (unat b + unat c - unat a)"
      using False unat_bound_u32 [of a] unat_bound_u32 [of b] assms(1)
      unfolding s by (simp add: unat_sub_if_size word_size bc unat_ucast_u32_u64)
    then have us: "unat s = 4294967295 * 4294967296 + (4294967296 + unat a - (unat b + unat c))"
      using False unat_bound_u32 [of b] assms(1) by simp
    have "4294967296 + unat a - (unat b + unat c) < 4294967296" using False by simp
    then have "unat (ucast s :: u32) = 4294967296 + unat a - (unat b + unat c)"
      unfolding unat_ucast_u64_u32 us by (simp only: mod_mult_self3 mod_less)
    moreover have "\<not> s < 0x100000000" using us by (simp add: word_less_nat_alt)
    ultimately show ?thesis using False unat_bound_u32 [of b] assms(1) by simp
  qed
qed

text \<open>The halves of a 64-bit number.\<close>

definition lower_half :: "u64 \<Rightarrow> u32" where
  "lower_half x = ucast x"

definition upper_half :: "u64 \<Rightarrow> u32" where
  "upper_half x = ucast (drop_bit 32 x)"

lemma unat_halves:
  "unat (lower_half x) = unat x mod 4294967296" "unat (upper_half x) = unat x div 4294967296"
proof -
  show "unat (lower_half x) = unat x mod 4294967296" by (simp add: lower_half_def unat_ucast_u64_u32)
  have "unat x div 4294967296 < 4294967296" using unat_bound_u64 [of x] by simp
  then show "unat (upper_half x) = unat x div 4294967296"
    by (simp add: upper_half_def unat_ucast_u64_u32 unsigned_drop_bit_eq drop_bit_eq_div take_bit_nat_eq_self unat_div)
qed

lemma halves_eqI:
  assumes "4294967296 * unat h + unat l = unat (x :: u64)"
  shows "h = upper_half x" and "l = lower_half x"
  unfolding word_unat_eq_iff unat_halves assms [symmetric] using unat_bound_u32 [of l] by simp_all

lemma halves_sum: "4294967296 * unat (upper_half x) + unat (lower_half x) = unat x"
  by (simp add: unat_halves)

lemma add_halves:
  fixes x y :: u64
  assumes l: "unat l + (if k then 4294967296 else 0) = unat (lower_half x) + unat (lower_half y)"
    and h: "unat h + (if k' then 4294967296 else 0) = unat (upper_half x) + unat (upper_half y) + (if k then 1 else 0)"
  shows "h = upper_half (x + y) \<and> l = lower_half (x + y) \<and> k' = (2 ^ 64 \<le> unat x + unat y)"
proof -
  let ?n = "4294967296 * unat h + unat l"
  have n: "?n < 18446744073709551616" using unat_bound_u32 [of h] unat_bound_u32 [of l] by linarith
  have sum: "unat x + unat y = ?n + (if k' then 18446744073709551616 else 0)"
    using l h halves_sum [of x] halves_sum [of y] by (cases k; cases k') simp_all
  have "unat (x + y) = ?n"
    using sum n unat_bound_u64 [of x] unat_bound_u64 [of y]
    by (cases k') (simp_all add: unat_word_ariths mod_if)
  then show ?thesis using halves_eqI [of h l "x + y"] sum n by (cases k') simp_all
qed

lemma sub_halves:
  fixes x y :: u64
  assumes l: "unat l + unat (lower_half y) = unat (lower_half x) + (if k then 0 else 4294967296)"
    and h: "unat h + unat (upper_half y) + (if k then 0 else 1) = unat (upper_half x) + (if k' then 0 else 4294967296)"
  shows "h = upper_half (x - y) \<and> l = lower_half (x - y) \<and> k' = (y \<le> x)"
proof -
  let ?n = "4294967296 * unat h + unat l"
  have n: "?n < 18446744073709551616" using unat_bound_u32 [of h] unat_bound_u32 [of l] by linarith
  have sum: "?n + unat y = unat x + (if k' then 0 else 18446744073709551616)"
    using l h halves_sum [of x] halves_sum [of y] by (cases k; cases k') simp_all
  have k: "k' = (y \<le> x)"
    using sum n unat_bound_u64 [of x] unat_bound_u64 [of y] by (cases k') (simp_all add: word_le_nat_alt)
  have "unat (x - y) = ?n"
    using sum n k unat_bound_u64 [of x] unat_bound_u64 [of y]
    by (cases k') (auto simp: unat_sub_if_size word_size word_le_nat_alt)
  then show ?thesis using halves_eqI [of h l "x - y"] k by simp
qed

lemma GetALUResult_add:
  obtains r k where "GetALUResult 1 a b c = Some (r, k)"
    and "unat r + (if k then 4294967296 else 0) = unat a + unat b + (if c then 1 else 0)"
  using carry_sum [of 0 a b] carry_sum [of 1 a b] by (cases c) (auto simp: GetALUResult_def Let_def)

lemma GetALUResult_sub:
  obtains r k where "GetALUResult 3 a b c = Some (r, k)"
    and "unat r + unat b + (if c then 0 else 1) = unat a + (if k then 0 else 4294967296)"
  using borrow_difference [of 0 a b] borrow_difference [of 1 a b] by (cases c) (auto simp: GetALUResult_def Let_def)

lemma GetALUResult_first:
  "GetALUResult 0 a b c = GetALUResult 1 a b False" "GetALUResult 2 a b c = GetALUResult 3 a b True"
  by (simp_all add: GetALUResult_def)

section \<open>Bit fields\<close>

lemma extract_insert_bits:
  assumes "op_bf_size raw \<noteq> 31"
  obtains r where "extract_insert raw dst src = Some r"
    and "\<forall>n<32. bit r n = (let d = unat (op_bf_dst_bit raw) in
      if d \<le> n \<and> n < d + unat (op_bf_size raw) then bit src (n - d + unat (op_bf_src_bit raw)) else bit dst n)"
proof -
  let ?d = "unat (op_bf_dst_bit raw)" and ?s = "unat (op_bf_src_bit raw)" and ?m = "mask (unat (op_bf_size raw)) :: u32"
  have "GetBitfieldMask raw = Some ?m"
    using assms by (simp add: GetBitfieldMask_def mask_eq_exp_minus_1)
  then have "extract_insert raw dst src =
      Some ((dst AND NOT (push_bit ?d ?m)) OR push_bit ?d (drop_bit ?s src AND ?m))"
    by (simp add: extract_insert_def shl32_def shr32_def op_shifts)
  then show thesis
    by (rule that) (auto simp: Let_def bit_simps add.commute)
qed

text \<open>
  \<^bold>\<open>C38\<close>. The additions and the subtractions of the ALU chain over the carry flag: the lower halves of two
  64-bit numbers with \<open>Add\<close> (\<open>Subtract\<close>) and then the upper halves with \<open>AddWithCarry\<close>
  (\<open>SubtractWithBorrow\<close>) give the halves of the 64-bit sum (difference), and the carry flag at the end tells
  whether the sum overflows (the difference does not). \<open>ExtractInsert\<close> replaces exactly the bits of the
  destination field by those of the source field.
\<close>

theorem macro_arithmetic:
  "do { (l, k) \<leftarrow> GetALUResult 0 (lower_half x) (lower_half y) c;
        (h, k) \<leftarrow> GetALUResult 1 (upper_half x) (upper_half y) k;
        Some (h, l, k) } = Some (upper_half (x + y), lower_half (x + y), 2 ^ 64 \<le> unat x + unat y) \<and>
   do { (l, k) \<leftarrow> GetALUResult 2 (lower_half x) (lower_half y) c;
        (h, k) \<leftarrow> GetALUResult 3 (upper_half x) (upper_half y) k;
        Some (h, l, k) } = Some (upper_half (x - y), lower_half (x - y), y \<le> x) \<and>
   (op_bf_size raw \<noteq> 31 \<longrightarrow> (\<exists>r. extract_insert raw dst src = Some r \<and>
      (\<forall>n<32. bit r n = (let d = unat (op_bf_dst_bit raw) in
        if d \<le> n \<and> n < d + unat (op_bf_size raw) then bit src (n - d + unat (op_bf_src_bit raw)) else bit dst n))))"
proof (intro conjI impI)
  obtain l k where l: "GetALUResult 1 (lower_half x) (lower_half y) False = Some (l, k)"
    "unat l + (if k then 4294967296 else 0) = unat (lower_half x) + unat (lower_half y)"
    using GetALUResult_add [of "lower_half x" "lower_half y" False] by auto
  obtain h k' where h: "GetALUResult 1 (upper_half x) (upper_half y) k = Some (h, k')"
    "unat h + (if k' then 4294967296 else 0) = unat (upper_half x) + unat (upper_half y) + (if k then 1 else 0)"
    by (rule GetALUResult_add)
  show "do { (l, k) \<leftarrow> GetALUResult 0 (lower_half x) (lower_half y) c;
        (h, k) \<leftarrow> GetALUResult 1 (upper_half x) (upper_half y) k;
        Some (h, l, k) } = Some (upper_half (x + y), lower_half (x + y), 2 ^ 64 \<le> unat x + unat y)"
    using add_halves [OF l(2) h(2)] by (simp add: GetALUResult_first l(1) h(1))
next
  obtain l k where l: "GetALUResult 3 (lower_half x) (lower_half y) True = Some (l, k)"
    "unat l + unat (lower_half y) = unat (lower_half x) + (if k then 0 else 4294967296)"
    using GetALUResult_sub [of "lower_half x" "lower_half y" True] by auto
  obtain h k' where h: "GetALUResult 3 (upper_half x) (upper_half y) k = Some (h, k')"
    "unat h + unat (upper_half y) + (if k then 0 else 1) = unat (upper_half x) + (if k' then 0 else 4294967296)"
    by (rule GetALUResult_sub)
  show "do { (l, k) \<leftarrow> GetALUResult 2 (lower_half x) (lower_half y) c;
        (h, k) \<leftarrow> GetALUResult 3 (upper_half x) (upper_half y) k;
        Some (h, l, k) } = Some (upper_half (x - y), lower_half (x - y), y \<le> x)"
    using sub_halves [OF l(2) h(2)] by (simp add: GetALUResult_first l(1) h(1))
next
  assume "op_bf_size raw \<noteq> 31"
  then show "\<exists>r. extract_insert raw dst src = Some r \<and>
      (\<forall>n<32. bit r n = (let d = unat (op_bf_dst_bit raw) in
        if d \<le> n \<and> n < d + unat (op_bf_size raw) then bit src (n - d + unat (op_bf_src_bit raw)) else bit dst n))"
    by (rule extract_insert_bits [of raw dst src]) blast
qed

lemma example_fields: "op_bf_size 0xD20002 = 3" "op_bf_dst_bit 0xD20002 = 0" "op_bf_src_bit 0xD20002 = 9"
  by code_simp+

theorem macro_arithmetic_witness:
  "\<exists>r. extract_insert 0xD20002 0xFF 0xA00 = Some r \<and> \<not> bit r 1 \<and> bit r 2 \<and> bit r 3"
proof -
  obtain r where r: "extract_insert 0xD20002 0xFF 0xA00 = Some r"
    "\<forall>n<32. bit r n = (if n < 3 then bit (0xA00 :: u32) (n + 9) else bit (0xFF :: u32) n)"
    using macro_arithmetic [of 0 0 False "0xD20002" "0xFF" "0xA00"] by (auto simp: example_fields)
  have "\<not> bit (0xA00 :: u32) 10" "bit (0xA00 :: u32) 11" "bit (0xFF :: u32) 3" by code_simp+
  then show ?thesis using r(1) r(2) [rule_format, of 1] r(2) [rule_format, of 2] r(2) [rule_format, of 3] by simp
qed

end
