(* ===== verification/Gpu_Puller.thy ===== *)
theory Gpu_Puller
  imports Gpu_Memory Macro_Interpreter
begin

text \<open>
  The front of the GPU (\<^verbatim>\<open>video_core/gpu.cpp\<close>): a method call goes to the engine that is bound to its
  subchannel, or, for the lowest method numbers, to the puller, which binds engines and handles semaphores in
  GPU memory. The engines and the puller share the memory manager, the memory behind it and the engines other
  than the 3D engine (\<open>gpu_shared\<close>, which the 3D engine carries as the rest of its state).
\<close>

record 'y gpu_shared =
  gs_memory_manager :: GpuMemoryManager
  gs_host :: host_mem
  gs_rest :: 'y

text \<open>\<open>reg_array\<close> has 256 words; the registers behind it are separate fields. An enumeration value is its number.\<close>

record 'y GPU =
  gpu_reg_array :: "nat \<Rightarrow> u32"
  gpu_acquire_mode :: u32
  gpu_acquire_source :: u32
  gpu_acquire_active :: u32
  gpu_acquire_value :: u32
  gpu_bound_engines :: "u32 list"
  gpu_maxwell_3d :: "'y gpu_shared Maxwell3D"

text \<open>
  What the front calls: the rasterizer, the clock of core timing, the registers of the 3D engine other than
  those of macros, the methods of the other engines, the depth of macros in macros, whether the emulator is
  powered on, and the places of a local variable and of a buffer in host memory.
\<close>

record 'y gpu_env =
  env_rasterizer :: gpu_cache
  env_ticks :: "'y \<Rightarrow> u64"
  env_trigger :: "u32 \<Rightarrow> u32 \<Rightarrow> bool \<Rightarrow> 'y gpu_shared Maxwell3D \<Rightarrow> 'y gpu_shared Maxwell3D option"
  env_engine :: "u32 \<Rightarrow> 'y gpu_shared engine_call"
  env_depth :: nat
  env_powered_on :: "'y GPU \<Rightarrow> bool"
  env_block :: host_ptr
  env_command_headers :: host_ptr

abbreviation gpu_memory :: "'y GPU \<Rightarrow> 'y gpu_shared" where
  "gpu_memory g \<equiv> m3d_rest (gpu_maxwell_3d g)"

definition with_memory :: "('y gpu_shared \<Rightarrow> 'y gpu_shared) \<Rightarrow> 'y GPU \<Rightarrow> 'y GPU" where
  "with_memory f g = g\<lparr>gpu_maxwell_3d := (gpu_maxwell_3d g)\<lparr>m3d_rest := f (gpu_memory g)\<rparr>\<rparr>"

section \<open>Registers and methods\<close>

datatype BufferMethods =
    BindObject | Nop | SemaphoreAddressHigh | SemaphoreAddressLow | SemaphoreSequence | SemaphoreTrigger
  | NotifyIntr | WrcacheFlush | Unk28 | Unk2c | RefCnt | SemaphoreAcquire | SemaphoreRelease
  | Unk70 | Unk74 | Unk78 | Unk7c | YieldMethod | NonPullerMethods

fun method_number :: "BufferMethods \<Rightarrow> u32" where
  "method_number BindObject = 0x0"
| "method_number Nop = 0x2"
| "method_number SemaphoreAddressHigh = 0x4"
| "method_number SemaphoreAddressLow = 0x5"
| "method_number SemaphoreSequence = 0x6"
| "method_number SemaphoreTrigger = 0x7"
| "method_number NotifyIntr = 0x8"
| "method_number WrcacheFlush = 0x9"
| "method_number Unk28 = 0xA"
| "method_number Unk2c = 0xB"
| "method_number RefCnt = 0x14"
| "method_number SemaphoreAcquire = 0x1A"
| "method_number SemaphoreRelease = 0x1B"
| "method_number Unk70 = 0x1C"
| "method_number Unk74 = 0x1D"
| "method_number Unk78 = 0x1E"
| "method_number Unk7c = 0x1F"
| "method_number YieldMethod = 0x20"
| "method_number NonPullerMethods = 0x40"

datatype GpuSemaphoreOperation = AcquireEqual | WriteLong | AcquireGequal | AcquireMask

fun operation_number :: "GpuSemaphoreOperation \<Rightarrow> u32" where
  "operation_number AcquireEqual = 0x1"
| "operation_number WriteLong = 0x2"
| "operation_number AcquireGequal = 0x4"
| "operation_number AcquireMask = 0x8"

datatype EngineID = FERMI_TWOD_A | MAXWELL_B | KEPLER_COMPUTE_B | KEPLER_INLINE_TO_MEMORY_B | MAXWELL_DMA_COPY_A

fun engine_number :: "EngineID \<Rightarrow> u32" where
  "engine_number FERMI_TWOD_A = 0x902D"
| "engine_number MAXWELL_B = 0xB197"
| "engine_number KEPLER_COMPUTE_B = 0xB1C0"
| "engine_number KEPLER_INLINE_TO_MEMORY_B = 0xA140"
| "engine_number MAXWELL_DMA_COPY_A = 0xB0B5"

definition SemaphoreAddress :: "'y GPU \<Rightarrow> GPUVAddr" where
  "SemaphoreAddress g = push_bit 32 (ucast (gpu_reg_array g 4)) OR ucast (gpu_reg_array g 5)"

definition semaphore_sequence :: "'y GPU \<Rightarrow> u32" where "semaphore_sequence g = gpu_reg_array g 6"
definition semaphore_trigger :: "'y GPU \<Rightarrow> u32" where "semaphore_trigger g = gpu_reg_array g 7"
definition semaphore_acquire :: "'y GPU \<Rightarrow> u32" where "semaphore_acquire g = gpu_reg_array g 0x1A"
definition semaphore_release :: "'y GPU \<Rightarrow> u32" where "semaphore_release g = gpu_reg_array g 0x1B"

section \<open>Semaphores\<close>

definition read_semaphore :: "'y GPU \<Rightarrow> u32 option" where
  "read_semaphore g = do {
     bs \<leftarrow> gpu_Read (gs_memory_manager (gpu_memory g)) (gs_host (gpu_memory g)) (SemaphoreAddress g) 4;
     Some (le_value bs)
   }"

text \<open>The local variable \<open>block\<close> is written to its place before \<open>WriteBlock\<close> copies it from there.\<close>

definition ProcessSemaphoreTriggerMethod :: "'y gpu_env \<Rightarrow> 'y GPU \<Rightarrow> 'y GPU option" where
  "ProcessSemaphoreTriggerMethod env g = do {
     let op = semaphore_trigger g AND 0xF;
     if op = operation_number WriteLong
     then do {
       let block = le_bytes 4 (semaphore_sequence g) @ replicate 4 0 @ le_bytes 8 (env_ticks env (gs_rest (gpu_memory g)));
       h \<leftarrow> gpu_WriteBlock (env_rasterizer env) (gs_memory_manager (gpu_memory g)) (SemaphoreAddress g) (env_block env) 16
             (host_write (env_block env) block (gs_host (gpu_memory g)));
       Some (with_memory (\<lambda>s. s\<lparr>gs_host := h\<rparr>) g)
     }
     else do {
       word \<leftarrow> read_semaphore g;
       if op = operation_number AcquireEqual \<and> word = semaphore_sequence g \<or>
          op = operation_number AcquireGequal \<and> sint (word - semaphore_sequence g) > 0 \<or>
          op = operation_number AcquireMask \<and> word AND semaphore_sequence g \<noteq> 0
       then Some g
       else do {
         let g = g\<lparr>gpu_acquire_source := 1, gpu_acquire_value := semaphore_sequence g\<rparr>;
         if op = operation_number AcquireEqual then Some (g\<lparr>gpu_acquire_active := 1, gpu_acquire_mode := 0\<rparr>)
         else if op = operation_number AcquireGequal then Some (g\<lparr>gpu_acquire_active := 1, gpu_acquire_mode := 1\<rparr>)
         else Some g
       }
     }
   }"

definition ProcessSemaphoreRelease :: "'y GPU \<Rightarrow> 'y GPU option" where
  "ProcessSemaphoreRelease g = do {
     h \<leftarrow> gpu_Write (gs_memory_manager (gpu_memory g)) (gs_host (gpu_memory g)) (SemaphoreAddress g)
           (le_bytes 4 (semaphore_release g));
     Some (with_memory (\<lambda>s. s\<lparr>gs_host := h\<rparr>) g)
   }"

definition ProcessSemaphoreAcquire :: "'y GPU \<Rightarrow> 'y GPU option" where
  "ProcessSemaphoreAcquire g = do {
     word \<leftarrow> read_semaphore g;
     let v = semaphore_acquire g;
     if word \<noteq> v
     then Some (g\<lparr>gpu_acquire_active := 1, gpu_acquire_value := v, gpu_acquire_mode := 0, gpu_acquire_source := 0\<rparr>)
     else Some g
   }"

section \<open>Calls\<close>

definition ProcessBindMethod :: "MethodCall \<Rightarrow> 'y GPU \<Rightarrow> 'y GPU" where
  "ProcessBindMethod mc g = g\<lparr>gpu_bound_engines := (gpu_bound_engines g)[unat (mc_subchannel mc) := mc_argument mc]\<rparr>"

text \<open>All other methods of the puller have no effect beyond their register.\<close>

definition CallPullerMethod :: "'y gpu_env \<Rightarrow> MethodCall \<Rightarrow> 'y GPU \<Rightarrow> 'y GPU option" where
  "CallPullerMethod env mc g = do {
     i \<leftarrow> (if unat (mc_method mc) < 0x100 then Some (unat (mc_method mc)) else None);
     let g = g\<lparr>gpu_reg_array := (gpu_reg_array g)(i := mc_argument mc)\<rparr>;
     if mc_method mc = method_number BindObject then Some (ProcessBindMethod mc g)
     else if mc_method mc = method_number SemaphoreTrigger then ProcessSemaphoreTriggerMethod env g
     else if mc_method mc = method_number SemaphoreAcquire then ProcessSemaphoreAcquire g
     else if mc_method mc = method_number SemaphoreRelease then ProcessSemaphoreRelease g
     else Some g
   }"

definition CallEngineMethod :: "'y gpu_env \<Rightarrow> MethodCall \<Rightarrow> 'y GPU \<Rightarrow> 'y GPU option" where
  "CallEngineMethod env mc g = do {
     let engine = gpu_bound_engines g ! unat (mc_subchannel mc);
     m \<leftarrow> (if engine = engine_number MAXWELL_B then Maxwell3D_CallMethod (env_depth env) (env_trigger env) mc (gpu_maxwell_3d g)
           else if engine \<in> engine_number ` {FERMI_TWOD_A, KEPLER_COMPUTE_B, MAXWELL_DMA_COPY_A, KEPLER_INLINE_TO_MEMORY_B}
           then env_engine env engine mc (gpu_maxwell_3d g)
           else None);
     Some (g\<lparr>gpu_maxwell_3d := m\<rparr>)
   }"

text \<open>The numbers are compared as values of an enumeration, which are signed.\<close>

definition ExecuteMethodOnEngine :: "MethodCall \<Rightarrow> bool" where
  "ExecuteMethodOnEngine mc \<longleftrightarrow> sint (mc_method mc) \<ge> sint (method_number NonPullerMethods)"

definition GPU_CallMethod :: "'y gpu_env \<Rightarrow> MethodCall \<Rightarrow> 'y GPU \<Rightarrow> 'y GPU option" where
  "GPU_CallMethod env mc g = do {
     ASSERT (unat (mc_subchannel mc) < length (gpu_bound_engines g));
     if ExecuteMethodOnEngine mc then CallEngineMethod env mc g else CallPullerMethod env mc g
   }"

fun gpu_calls :: "'y gpu_env \<Rightarrow> MethodCall list \<Rightarrow> 'y GPU \<Rightarrow> 'y GPU option" where
  "gpu_calls env [] g = Some g"
| "gpu_calls env (mc # mcs) g = do { g \<leftarrow> GPU_CallMethod env mc g; gpu_calls env mcs g }"

end
