(* ===== verification/Dma_Pusher.thy ===== *)
theory Dma_Pusher
  imports Gpu_Puller
begin

text \<open>
  The DMA pusher (\<^verbatim>\<open>video_core/dma_pusher.cpp\<close>) turns command lists into method calls. A command list is
  a list of entries, each of which names a block of GPU memory. The words of the blocks, one after the other,
  form a stream of commands, and a command may begin in one block and end in another.
\<close>

record DmaPusher =
  dma_pushbuffer :: "u64 list list"
  dma_pushbuffer_subindex :: nat
  ds_method :: u32
  ds_subchannel :: u32
  ds_method_count :: u32
  ds_length_pending :: u32
  ds_non_incrementing :: bool
  dma_increment_once :: bool
  dma_mget :: GPUVAddr
  ib_enable :: bool

section \<open>Headers\<close>

definition clh_addr :: "u64 \<Rightarrow> GPUVAddr" where "clh_addr raw = ExtractValue 0 40 raw"
definition clh_is_non_main :: "u64 \<Rightarrow> u64" where "clh_is_non_main raw = ExtractValue 41 1 raw"
definition clh_size :: "u64 \<Rightarrow> u64" where "clh_size raw = ExtractValue 42 21 raw"

definition ch_method :: "u32 \<Rightarrow> u32" where "ch_method raw = ExtractValue 0 13 raw"
definition ch_method_count_long :: "u32 \<Rightarrow> u32" where "ch_method_count_long raw = ExtractValue 0 24 raw"
definition ch_subchannel :: "u32 \<Rightarrow> u32" where "ch_subchannel raw = ExtractValue 13 3 raw"
definition ch_arg_count :: "u32 \<Rightarrow> u32" where "ch_arg_count raw = ExtractValue 16 13 raw"
definition ch_method_count :: "u32 \<Rightarrow> u32" where "ch_method_count raw = ExtractValue 16 13 raw"
definition ch_mode :: "u32 \<Rightarrow> u32" where "ch_mode raw = ExtractValue 29 3 raw"

datatype SubmissionMode = IncreasingOld | ModeIncreasing | NonIncreasingOld | ModeNonIncreasing | ModeInline | ModeIncreaseOnce

fun mode_number :: "SubmissionMode \<Rightarrow> u32" where
  "mode_number IncreasingOld = 0"
| "mode_number ModeIncreasing = 1"
| "mode_number NonIncreasingOld = 2"
| "mode_number ModeNonIncreasing = 3"
| "mode_number ModeInline = 4"
| "mode_number ModeIncreaseOnce = 5"

section \<open>Operations\<close>

definition DmaPusher_Push :: "u64 list \<Rightarrow> DmaPusher \<Rightarrow> DmaPusher" where
  "DmaPusher_Push entries d = d\<lparr>dma_pushbuffer := dma_pushbuffer d @ [entries]\<rparr>"

definition SetState :: "u32 \<Rightarrow> DmaPusher \<Rightarrow> DmaPusher" where
  "SetState header d = d\<lparr>ds_method := ch_method header, ds_subchannel := ch_subchannel header,
     ds_method_count := ch_method_count header\<rparr>"

definition DmaPusher_CallMethod ::
    "'y gpu_env \<Rightarrow> u32 \<Rightarrow> DmaPusher \<times> 'y GPU \<Rightarrow> (DmaPusher \<times> 'y GPU) option" where
  "DmaPusher_CallMethod env argument s = do {
     let d = fst s;
     g \<leftarrow> GPU_CallMethod env \<lparr>mc_method = ds_method d, mc_argument = argument, mc_subchannel = ds_subchannel d,
           mc_method_count = ds_method_count d\<rparr> (snd s);
     Some (d, g)
   }"

text \<open>The body of the loop over the words of a block.\<close>

definition dma_word :: "'y gpu_env \<Rightarrow> u32 \<Rightarrow> DmaPusher \<times> 'y GPU \<Rightarrow> (DmaPusher \<times> 'y GPU) option" where
  "dma_word env header s = (let d = fst s in
     if ds_length_pending d \<noteq> 0
     then Some (d\<lparr>ds_length_pending := 0, ds_method_count := ch_method_count_long header\<rparr>, snd s)
     else if ds_method_count d \<noteq> 0
     then do {
       (d, g) \<leftarrow> DmaPusher_CallMethod env header s;
       let d = (if \<not> ds_non_incrementing d then d\<lparr>ds_method := ds_method d + 1\<rparr> else d);
       let d = (if dma_increment_once d then d\<lparr>ds_non_incrementing := True\<rparr> else d);
       Some (d\<lparr>ds_method_count := ds_method_count d - 1\<rparr>, g)
     }
     else if ch_mode header = mode_number ModeIncreasing
     then Some ((SetState header d)\<lparr>ds_non_incrementing := False, dma_increment_once := False\<rparr>, snd s)
     else if ch_mode header = mode_number ModeNonIncreasing
     then Some ((SetState header d)\<lparr>ds_non_incrementing := True, dma_increment_once := False\<rparr>, snd s)
     else if ch_mode header = mode_number ModeInline
     then do {
       (d, g) \<leftarrow> DmaPusher_CallMethod env (ch_arg_count header)
                  (d\<lparr>ds_method := ch_method header, ds_subchannel := ch_subchannel header\<rparr>, snd s);
       Some (d\<lparr>ds_non_incrementing := True, dma_increment_once := False\<rparr>, g)
     }
     else if ch_mode header = mode_number ModeIncreaseOnce
     then Some ((SetState header d)\<lparr>ds_non_incrementing := False, dma_increment_once := True\<rparr>, snd s)
     else Some s)"

fun dma_words :: "'y gpu_env \<Rightarrow> u32 list \<Rightarrow> DmaPusher \<times> 'y GPU \<Rightarrow> (DmaPusher \<times> 'y GPU) option" where
  "dma_words env [] s = Some s"
| "dma_words env (w # ws) s = do { s \<leftarrow> dma_word env w s; dma_words env ws s }"

text \<open>
  The words of an entry: \<open>ReadBlockUnsafe\<close> copies them to the buffer \<open>command_headers\<close>. Nothing but the pusher
  has access to the buffer, so what it holds is not kept in the memory of the GPU.
\<close>

definition dma_fetch :: "'y gpu_env \<Rightarrow> 'y GPU \<Rightarrow> u64 \<Rightarrow> u32 list option" where
  "dma_fetch env g header = do {
     let n = clh_size header * 4;
     h \<leftarrow> gpu_ReadBlockUnsafe (gs_memory_manager (gpu_memory g)) (clh_addr header) (env_command_headers env) n
           (gs_host (gpu_memory g));
     Some (map (\<lambda>i. le_value (host_read h (env_command_headers env + of_nat (4 * i)) 4)) [0..<unat (clh_size header)])
   }"

definition DmaPusher_Step :: "'y gpu_env \<Rightarrow> DmaPusher \<times> 'y GPU \<Rightarrow> ((DmaPusher \<times> 'y GPU) \<times> bool) option" where
  "DmaPusher_Step env s = (let d = fst s; g = snd s in
     if \<not> ib_enable d then Some (s, False)
     else case dma_pushbuffer d of
       [] \<Rightarrow> Some (s, False)
     | command_list # rest \<Rightarrow> do {
         ASSERT (command_list \<noteq> []);
         header \<leftarrow> (if dma_pushbuffer_subindex d < length command_list
                    then Some (command_list ! dma_pushbuffer_subindex d) else None);
         let d = d\<lparr>dma_pushbuffer_subindex := dma_pushbuffer_subindex d + 1\<rparr>;
         let dma_put = clh_addr header + clh_size header * 4;
         let d = (if dma_pushbuffer_subindex d \<ge> length command_list
                  then d\<lparr>dma_pushbuffer := rest, dma_pushbuffer_subindex := 0\<rparr> else d);
         if clh_size header = 0 then Some ((d, g), True)
         else do {
           ws \<leftarrow> dma_fetch env g header;
           (d, g) \<leftarrow> dma_words env ws (d, g);
           Some ((if clh_is_non_main header = 0 then d\<lparr>dma_mget := dma_put\<rparr> else d, g), True)
         }
       })"

partial_function (option) dispatch_loop ::
    "'y gpu_env \<Rightarrow> DmaPusher \<times> 'y GPU \<Rightarrow> (DmaPusher \<times> 'y GPU) option" where
  "dispatch_loop env s =
     (if env_powered_on env (snd s)
      then do {
        (s, go_on) \<leftarrow> DmaPusher_Step env s;
        if go_on then dispatch_loop env s else Some s
      }
      else Some s)"

text \<open>On entering GPU code, all memory may have been touched by the CPU.\<close>

definition memory_touched :: "'y GPU \<Rightarrow> 'y GPU" where
  "memory_touched g =
     g\<lparr>gpu_maxwell_3d := (gpu_maxwell_3d g)\<lparr>m3d_dirty_flags := OnMemoryWrite (m3d_dirty_flags (gpu_maxwell_3d g))\<rparr>\<rparr>"

definition DispatchCalls :: "'y gpu_env \<Rightarrow> DmaPusher \<times> 'y GPU \<Rightarrow> (DmaPusher \<times> 'y GPU) option" where
  "DispatchCalls env s = dispatch_loop env ((fst s)\<lparr>dma_pushbuffer_subindex := 0\<rparr>, memory_touched (snd s))"

end
