(* ===== verification/Dma_Correct.thy ===== *)
theory Dma_Correct
  imports Dma_Pusher
begin

text \<open>
  The DMA pusher executes the commands of the stream: however the words of the encoded commands are divided into
  blocks and the blocks into command lists, the calls that reach the GPU are those of the commands, in order.
\<close>

section \<open>Commands\<close>

datatype dma_command =
    Increasing u32 u32 "u32 list"
  | NonIncreasing u32 u32 "u32 list"
  | IncreaseOnce u32 u32 "u32 list"
  | InlineCommand u32 u32 u32

definition command_header :: "u32 \<Rightarrow> u32 \<Rightarrow> u32 \<Rightarrow> u32 \<Rightarrow> u32" where
  "command_header mode method subchannel count =
     Assign 29 3 (Assign 16 13 (Assign 13 3 (Assign 0 13 0 method) subchannel) count) mode"

fun encode :: "dma_command \<Rightarrow> u32 list" where
  "encode (Increasing m s args) = command_header 1 m s (of_nat (length args)) # args"
| "encode (NonIncreasing m s args) = command_header 3 m s (of_nat (length args)) # args"
| "encode (IncreaseOnce m s args) = command_header 5 m s (of_nat (length args)) # args"
| "encode (InlineCommand m s arg) = [command_header 4 m s arg]"

fun command_ok :: "dma_command \<Rightarrow> bool" where
  "command_ok (Increasing m s args) \<longleftrightarrow> m < 0x2000 \<and> s < 8 \<and> length args < 0x2000"
| "command_ok (NonIncreasing m s args) \<longleftrightarrow> m < 0x2000 \<and> s < 8 \<and> length args < 0x2000"
| "command_ok (IncreaseOnce m s args) \<longleftrightarrow> m < 0x2000 \<and> s < 8 \<and> length args < 0x2000"
| "command_ok (InlineCommand m s arg) \<longleftrightarrow> m < 0x2000 \<and> s < 8 \<and> arg < 0x2000"

text \<open>The calls of a command: the method number of each argument is given by its position.\<close>

definition calls_from :: "(nat \<Rightarrow> u32) \<Rightarrow> u32 \<Rightarrow> u32 list \<Rightarrow> MethodCall list" where
  "calls_from method subchannel args =
     map (\<lambda>i. \<lparr>mc_method = method i, mc_argument = args ! i, mc_subchannel = subchannel,
               mc_method_count = of_nat (length args - i)\<rparr>) [0..<length args]"

fun command_calls :: "dma_command \<Rightarrow> MethodCall list" where
  "command_calls (Increasing m s args) = calls_from (\<lambda>i. m + of_nat i) s args"
| "command_calls (NonIncreasing m s args) = calls_from (\<lambda>i. m) s args"
| "command_calls (IncreaseOnce m s args) = calls_from (\<lambda>i. if i = 0 then m else m + 1) s args"
| "command_calls (InlineCommand m s arg) =
     [\<lparr>mc_method = m, mc_argument = arg, mc_subchannel = s, mc_method_count = 0\<rparr>]"

section \<open>One command\<close>

definition dma_idle :: "DmaPusher \<Rightarrow> bool" where
  "dma_idle d \<longleftrightarrow> ds_length_pending d = 0 \<and> ds_method_count d = 0"

lemma take_bit_less: "unat w < 2 ^ n \<Longrightarrow> take_bit n (w :: u32) = w"
  by (simp add: word_unat_eq_iff unsigned_take_bit_eq take_bit_nat_eq_self)

lemma header_fields:
  assumes "m < 0x2000" and "s < 8" and "c < 0x2000" and "mode < 8"
  shows "ch_method (command_header mode m s c) = m" and "ch_subchannel (command_header mode m s c) = s"
    and "ch_method_count (command_header mode m s c) = c" and "ch_arg_count (command_header mode m s c) = c"
    and "ch_mode (command_header mode m s c) = mode"
  using assms take_bit_less [of m 13] take_bit_less [of s 3] take_bit_less [of c 13] take_bit_less [of mode 3]
  by (simp_all add: word_less_nat_alt ch_method_def ch_subchannel_def ch_method_count_def ch_arg_count_def ch_mode_def
      command_header_def ExtractValue_Assign ExtractValue_Assign_other)

lemma calls_from_Nil [simp]: "calls_from f s [] = []"
  by (simp add: calls_from_def)

lemma calls_from_Cons:
  "calls_from f s (a # args) =
     \<lparr>mc_method = f 0, mc_argument = a, mc_subchannel = s, mc_method_count = of_nat (Suc (length args))\<rparr> #
     calls_from (\<lambda>i. f (Suc i)) s args"
proof -
  have "[0..<length (a # args)] = 0 # map Suc [0..<length args]" by (simp add: map_Suc_upt upt_conv_Cons del: upt_Suc)
  then show ?thesis by (simp add: calls_from_def del: upt_Suc)
qed

text \<open>The parts of the pusher that have to do with the queue of command lists.\<close>

definition same_queue :: "DmaPusher \<Rightarrow> DmaPusher \<Rightarrow> bool" where
  "same_queue d d' \<longleftrightarrow> dma_pushbuffer d' = dma_pushbuffer d \<and>
     dma_pushbuffer_subindex d' = dma_pushbuffer_subindex d \<and> ib_enable d' = ib_enable d"

lemma same_queue_trans: "same_queue d1 d2 \<Longrightarrow> same_queue d2 d3 \<Longrightarrow> same_queue d1 d3"
  by (simp add: same_queue_def)

definition method_seq :: "DmaPusher \<Rightarrow> nat \<Rightarrow> u32" where
  "method_seq d i = (if ds_non_incrementing d then ds_method d
     else if dma_increment_once d then (if i = 0 then ds_method d else ds_method d + 1)
     else ds_method d + of_nat i)"

text \<open>What a word makes the pusher do, apart from what the calls do: the calls and the next state.\<close>

definition pusher_word :: "u32 \<Rightarrow> DmaPusher \<Rightarrow> MethodCall list \<times> DmaPusher" where
  "pusher_word w d =
     (if ds_length_pending d \<noteq> 0 then ([], d\<lparr>ds_length_pending := 0, ds_method_count := ch_method_count_long w\<rparr>)
      else if ds_method_count d \<noteq> 0
      then ([\<lparr>mc_method = ds_method d, mc_argument = w, mc_subchannel = ds_subchannel d, mc_method_count = ds_method_count d\<rparr>],
            d\<lparr>ds_method := (if ds_non_incrementing d then ds_method d else ds_method d + 1),
              ds_non_incrementing := (dma_increment_once d \<or> ds_non_incrementing d),
              ds_method_count := ds_method_count d - 1\<rparr>)
      else if ch_mode w = mode_number ModeInline
      then ([\<lparr>mc_method = ch_method w, mc_argument = ch_arg_count w, mc_subchannel = ch_subchannel w, mc_method_count = 0\<rparr>],
            d\<lparr>ds_method := ch_method w, ds_subchannel := ch_subchannel w, ds_non_incrementing := True,
              dma_increment_once := False\<rparr>)
      else if ch_mode w \<in> {mode_number ModeIncreasing, mode_number ModeNonIncreasing, mode_number ModeIncreaseOnce}
      then ([], (SetState w d)\<lparr>ds_non_incrementing := (ch_mode w = mode_number ModeNonIncreasing),
              dma_increment_once := (ch_mode w = mode_number ModeIncreaseOnce)\<rparr>)
      else ([], d))"

fun pusher_run :: "u32 list \<Rightarrow> DmaPusher \<Rightarrow> MethodCall list \<times> DmaPusher" where
  "pusher_run [] d = ([], d)"
| "pusher_run (w # ws) d = (let (cs, d1) = pusher_word w d; (ds, d2) = pusher_run ws d1 in (cs @ ds, d2))"

lemma dma_word_calls:
  assumes "pusher_word w d = (cs, d')"
  shows "dma_word env w (d, g) = map_option (Pair d') (gpu_calls env cs g)"
proof -
  let ?data = "\<lparr>mc_method = ds_method d, mc_argument = w, mc_subchannel = ds_subchannel d, mc_method_count = ds_method_count d\<rparr>"
    and ?inl = "\<lparr>mc_method = ch_method w, mc_argument = ch_arg_count w, mc_subchannel = ch_subchannel w, mc_method_count = 0\<rparr>"
  show ?thesis
    using assms
    by (cases "GPU_CallMethod env ?data g"; cases "GPU_CallMethod env ?inl g"; cases d)
      (auto simp: pusher_word_def dma_word_def DmaPusher_CallMethod_def SetState_def Let_def split: if_splits)
qed

lemma gpu_calls_append: "gpu_calls env (xs @ ys) g = do { g \<leftarrow> gpu_calls env xs g; gpu_calls env ys g }"
  by (induction env xs g rule: gpu_calls.induct) (auto intro: Option.bind_cong)

lemma dma_words_calls:
  assumes "pusher_run ws d = (cs, d')"
  shows "dma_words env ws (d, g) = map_option (Pair d') (gpu_calls env cs g)"
  using assms
proof (induction ws arbitrary: d g cs)
  case (Cons w ws)
  obtain c1 d1 where w: "pusher_word w d = (c1, d1)" by force
  then obtain c2 where ws: "pusher_run ws d1 = (c2, d')" "cs = c1 @ c2"
    using Cons.prems by (auto split: prod.splits)
  show ?case
    by (cases "gpu_calls env c1 g") (auto simp: ws(2) gpu_calls_append dma_word_calls [OF w] Cons.IH [OF ws(1)])
qed simp

lemma pusher_run_append:
  "pusher_run (xs @ ys) d = (let (cs, d1) = pusher_run xs d; (ds, d2) = pusher_run ys d1 in (cs @ ds, d2))"
  by (induction xs arbitrary: d) (auto split: prod.splits)

lemma pusher_run_queue: "pusher_run ws d = (cs, d') \<Longrightarrow> same_queue d d'"
proof (induction ws arbitrary: d cs)
  case (Cons w ws)
  obtain c1 d1 where w: "pusher_word w d = (c1, d1)" by force
  then obtain c2 where "pusher_run ws d1 = (c2, d')" using Cons.prems by (auto split: prod.splits)
  moreover have "same_queue d d1"
    using w by (auto simp: pusher_word_def same_queue_def SetState_def split: if_splits)
  ultimately show ?case using Cons.IH same_queue_trans by blast
qed (simp add: same_queue_def)

lemma data_words:
  assumes "ds_length_pending d = 0" and "ds_method_count d = of_nat (length args)" and "length args < 2 ^ 32"
  shows "\<exists>d'. dma_idle d' \<and> pusher_run args d = (calls_from (method_seq d) (ds_subchannel d) args, d')"
  using assms
proof (induction args arbitrary: d)
  case Nil
  then show ?case by (auto simp: dma_idle_def)
next
  case (Cons a args)
  define d1 where "d1 = snd (pusher_word a d)"
  have nz: "ds_method_count d \<noteq> 0"
    using Cons.prems(2,3) by (simp add: word_unat_eq_iff unat_of_nat take_bit_nat_eq_self del: of_nat_Suc)
  have w: "pusher_word a d = ([\<lparr>mc_method = ds_method d, mc_argument = a, mc_subchannel = ds_subchannel d,
      mc_method_count = ds_method_count d\<rparr>], d1)"
    and d1: "ds_length_pending d1 = 0" "ds_method_count d1 = of_nat (length args)" "ds_subchannel d1 = ds_subchannel d"
    and seq: "method_seq d1 = (\<lambda>i. method_seq d (Suc i))"
    using Cons.prems(1,2) nz by (auto simp: pusher_word_def d1_def fun_eq_iff method_seq_def)
  obtain d' where d': "dma_idle d'" "pusher_run args d1 = (calls_from (method_seq d1) (ds_subchannel d1) args, d')"
    using Cons.IH [OF d1(1,2)] Cons.prems(3) by auto
  have "method_seq d 0 = ds_method d" by (simp add: method_seq_def)
  then show ?case using d' Cons.prems(2) by (auto simp: w calls_from_Cons seq d1(3))
qed

lemma unat_count: "n < 0x2000 \<Longrightarrow> (of_nat n :: u32) < 0x2000"
  by (simp add: word_less_nat_alt unat_of_nat take_bit_nat_eq_self)

text \<open>A header and the words after it, for the modes that take arguments.\<close>

lemma argument_command:
  assumes "dma_idle d" and "m < 0x2000" and "s < 8" and "length args < 0x2000"
    and "(mode, ni, once) \<in> {(1, False, False), (3, True, False), (5, False, True)}"
  defines "d1 \<equiv> d\<lparr>ds_method := m, ds_subchannel := s, ds_method_count := of_nat (length args),
    ds_non_incrementing := ni, dma_increment_once := once\<rparr>"
  shows "\<exists>d'. dma_idle d' \<and>
    pusher_run (command_header mode m s (of_nat (length args)) # args) d = (calls_from (method_seq d1) s args, d')"
proof -
  note fields = header_fields [OF assms(2,3) unat_count [OF assms(4)]]
  have "pusher_word (command_header mode m s (of_nat (length args))) d = ([], d1)"
    using assms(1,5) unfolding d1_def
    by (auto simp: pusher_word_def dma_idle_def fields SetState_def)
  moreover have "ds_length_pending d1 = 0" "ds_method_count d1 = of_nat (length args)" "ds_subchannel d1 = s"
    using assms(1) by (simp_all add: d1_def dma_idle_def)
  ultimately show ?thesis using data_words [of d1 args] assms(4) by auto
qed

lemma command_words:
  assumes "dma_idle d" and "command_ok c"
  shows "\<exists>d'. dma_idle d' \<and> pusher_run (encode c) d = (command_calls c, d')"
proof (cases c)
  case (Increasing m s args)
  then show ?thesis
    using assms argument_command [where mode = 1 and ni = False and once = False, of d m s args]
    by (simp add: method_seq_def [abs_def])
next
  case (NonIncreasing m s args)
  then show ?thesis
    using assms argument_command [where mode = 3 and ni = True and once = False, of d m s args]
    by (simp add: method_seq_def [abs_def])
next
  case (IncreaseOnce m s args)
  then show ?thesis
    using assms argument_command [where mode = 5 and ni = False and once = True, of d m s args]
    by (simp add: method_seq_def [abs_def] cong: if_cong)
next
  case (InlineCommand m s arg)
  then show ?thesis
    using assms by (auto simp: pusher_word_def dma_idle_def header_fields)
qed

lemma stream_words:
  assumes "dma_idle d" and "list_all command_ok cmds"
  shows "\<exists>d'. dma_idle d' \<and> pusher_run (concat (map encode cmds)) d = (concat (map command_calls cmds), d')"
  using assms
proof (induction cmds arbitrary: d)
  case (Cons c cmds)
  then obtain d1 where d1: "dma_idle d1" "pusher_run (encode c) d = (command_calls c, d1)"
    using command_words by force
  then obtain d' where "dma_idle d'" "pusher_run (concat (map encode cmds)) d1 = (concat (map command_calls cmds), d')"
    using Cons.IH Cons.prems(2) by auto
  then show ?case using d1(2) by (auto simp: pusher_run_append)
qed simp

section \<open>Entries and command lists\<close>

text \<open>The words of an entry; an empty one is not read.\<close>

definition entry_words :: "'y gpu_env \<Rightarrow> 'y GPU \<Rightarrow> u64 \<Rightarrow> u32 list option" where
  "entry_words env g header = (if clh_size header = 0 then Some [] else dma_fetch env g header)"

fun entries_left :: "u64 list list \<Rightarrow> nat \<Rightarrow> u64 list" where
  "entries_left [] i = []"
| "entries_left (l # ls) i = drop i l @ concat ls"

definition queue_ok :: "u64 list list \<Rightarrow> nat \<Rightarrow> bool" where
  "queue_ok q i \<longleftrightarrow> list_all (\<lambda>l. l \<noteq> []) q \<and> (q \<noteq> [] \<longrightarrow> i < length (hd q))"

definition requeue :: "u64 list list \<Rightarrow> nat \<Rightarrow> GPUVAddr \<Rightarrow> DmaPusher \<Rightarrow> DmaPusher" where
  "requeue q i m d = d\<lparr>dma_pushbuffer := q, dma_pushbuffer_subindex := i, dma_mget := m\<rparr>"

lemma pusher_word_requeue:
  "pusher_word w (requeue q i m d) = (fst (pusher_word w d), requeue q i m (snd (pusher_word w d)))"
  by (auto simp: pusher_word_def requeue_def SetState_def)

lemma pusher_run_requeue:
  "pusher_run ws (requeue q i m d) = (fst (pusher_run ws d), requeue q i m (snd (pusher_run ws d)))"
  by (induction ws arbitrary: d) (auto simp: pusher_word_requeue split: prod.splits)

lemma next_entry:
  assumes "queue_ok q i" and "entries_left q i = e # es"
  obtains l ls where "q = l # ls" and "i < length l" and "l ! i = e"
    and "queue_ok (if Suc i \<ge> length l then ls else q) (if Suc i \<ge> length l then 0 else Suc i)"
    and "entries_left (if Suc i \<ge> length l then ls else q) (if Suc i \<ge> length l then 0 else Suc i) = es"
proof -
  obtain l ls where q: "q = l # ls" using assms(2) by (cases q) auto
  then have i: "i < length l" using assms(1) by (simp add: queue_ok_def)
  then have d: "drop i l = l ! i # drop (Suc i) l" by (simp add: Cons_nth_drop_Suc)
  have "entries_left ls 0 = concat ls" by (cases ls) simp_all
  moreover have "queue_ok ls 0" using assms(1) by (cases ls) (auto simp: q queue_ok_def)
  ultimately show thesis
    using assms i d by (intro that [of l ls]) (auto simp: q queue_ok_def)
qed

lemma Step_entry:
  assumes "ib_enable d" and "queue_ok q i" and "entries_left q i = e # es"
  obtains q' i' m' where "queue_ok q' i'" and "entries_left q' i' = es"
    and "DmaPusher_Step env (requeue q i m d, g) = do {
      ws \<leftarrow> entry_words env g e;
      (d, g) \<leftarrow> dma_words env ws (d, g);
      Some ((requeue q' i' m' d, g), True) }"
proof -
  obtain l ls where l: "q = l # ls" "i < length l" "l ! i = e"
    "queue_ok (if Suc i \<ge> length l then ls else q) (if Suc i \<ge> length l then 0 else Suc i)"
    "entries_left (if Suc i \<ge> length l then ls else q) (if Suc i \<ge> length l then 0 else Suc i) = es"
    using next_entry [OF assms(2,3)] by blast
  define q' i' where "q' = (if Suc i \<ge> length l then ls else q)" and "i' = (if Suc i \<ge> length l then 0 else Suc i)"
  define m' where "m' = (if clh_size e \<noteq> 0 \<and> clh_is_non_main e = 0 then clh_addr e + clh_size e * 4 else m)"
  have f: "dma_words env ws (d, g) =
      map_option (Pair (snd (pusher_run ws d))) (gpu_calls env (fst (pusher_run ws d)) g)"
    "dma_words env ws (requeue q' i' m d, g) =
      map_option (Pair (requeue q' i' m (snd (pusher_run ws d)))) (gpu_calls env (fst (pusher_run ws d)) g)" for ws
    by (rule dma_words_calls; simp add: pusher_run_requeue)+
  have step: "DmaPusher_Step env (requeue q i m d, g) =
      (if clh_size e = 0 then Some ((requeue q' i' m d, g), True)
       else do { ws \<leftarrow> dma_fetch env g e;
         (d, g) \<leftarrow> dma_words env ws (requeue q' i' m d, g);
         Some ((if clh_is_non_main e = 0 then d\<lparr>dma_mget := clh_addr e + clh_size e * 4\<rparr> else d, g), True) })"
  proof -
    have "l \<noteq> []" using l(2) by auto
    then show ?thesis
      using assms(1) l(1-3) by (cases d) (auto simp: DmaPusher_Step_def requeue_def q'_def i'_def Let_def)
  qed
  have "DmaPusher_Step env (requeue q i m d, g) = do {
      ws \<leftarrow> entry_words env g e;
      (d, g) \<leftarrow> dma_words env ws (d, g);
      Some ((requeue q' i' m' d, g), True) }"
  proof (cases "clh_size e = 0")
    case True
    then show ?thesis by (simp add: step entry_words_def m'_def)
  next
    case False
    then show ?thesis
      unfolding step f
      by (cases "dma_fetch env g e") (auto simp: entry_words_def m'_def requeue_def map_option_case split: option.splits)
  qed
  then show thesis using that l(4,5) by (auto simp: q'_def i'_def)
qed

text \<open>Whatever part of the calls has been made, the blocks of the entries hold the words.\<close>

definition memory_holds ::
    "'y gpu_env \<Rightarrow> u64 list \<Rightarrow> u32 list list \<Rightarrow> MethodCall list \<Rightarrow> 'y GPU \<Rightarrow> bool" where
  "memory_holds env es chunks calls g \<longleftrightarrow>
     (\<forall>k g'. gpu_calls env (take k calls) g = Some g' \<longrightarrow> list_all2 (\<lambda>e ws. entry_words env g' e = Some ws) es chunks)"

lemma memory_holds_later:
  assumes "memory_holds env (e # es) (ws # chunks) (cs1 @ cs2) g" and "gpu_calls env cs1 g = Some g1"
  shows "memory_holds env es chunks cs2 g1"
  unfolding memory_holds_def
proof (intro allI impI)
  fix k g'
  assume "gpu_calls env (take k cs2) g1 = Some g'"
  then have "gpu_calls env (take (length cs1 + k) (cs1 @ cs2)) g = Some g'"
    using assms(2) by (simp add: gpu_calls_append)
  then show "list_all2 (\<lambda>e ws. entry_words env g' e = Some ws) es chunks"
    using assms(1) unfolding memory_holds_def by fastforce
qed

lemma dispatch_entries:
  assumes "\<And>g. env_powered_on env g" and "ib_enable d" and "queue_ok q i" and "entries_left q i = es"
    and "memory_holds env es chunks calls g" and "length chunks = length es"
    and "pusher_run (concat chunks) d = (calls, d')"
  shows "\<exists>m' i'. dispatch_loop env (requeue q i m d, g) = map_option (Pair (requeue [] i' m' d')) (gpu_calls env calls g)"
  using assms(2-7)
proof (induction es arbitrary: d q i m g chunks calls)
  case Nil
  have "q = []"
  proof (cases q)
    case (Cons l ls)
    then show ?thesis using Nil.prems(2,3) by (auto simp: queue_ok_def)
  qed
  moreover have "calls = []" "d' = d" using Nil.prems(5,6) by simp_all
  ultimately have "dispatch_loop env (requeue q i m d, g) = map_option (Pair (requeue [] i m d')) (gpu_calls env calls g)"
    using assms(1) Nil.prems(1)
    by (subst dispatch_loop.simps) (simp add: DmaPusher_Step_def requeue_def)
  then show ?case by blast
next
  case (Cons e es)
  obtain ws cks where ck: "chunks = ws # cks" using Cons.prems(5) by (cases chunks) auto
  obtain cs1 d1 where r1: "pusher_run ws d = (cs1, d1)" by force
  then obtain cs2 where r2: "pusher_run (concat cks) d1 = (cs2, d')" "calls = cs1 @ cs2"
    using Cons.prems(6) by (auto simp: ck pusher_run_append split: prod.splits)
  obtain q' i' m' where st: "queue_ok q' i'" "entries_left q' i' = es"
    "DmaPusher_Step env (requeue q i m d, g) = do {
      ws \<leftarrow> entry_words env g e; (d, g) \<leftarrow> dma_words env ws (d, g); Some ((requeue q' i' m' d, g), True) }"
    using Step_entry [OF Cons.prems(1-3)] by blast
  have "entry_words env g e = Some ws"
    using Cons.prems(4) unfolding memory_holds_def ck by (elim allE [of _ 0]) simp
  then have step: "DmaPusher_Step env (requeue q i m d, g) =
      map_option (\<lambda>g. ((requeue q' i' m' d1, g), True)) (gpu_calls env cs1 g)"
    using st(3) dma_words_calls [OF r1, of env g] by (cases "gpu_calls env cs1 g") simp_all
  show ?case
  proof (cases "gpu_calls env cs1 g")
    case None
    then show ?thesis
      using step assms(1) by (subst dispatch_loop.simps) (simp add: r2(2) gpu_calls_append)
  next
    case (Some g1)
    have "ib_enable d1" using Cons.prems(1) pusher_run_queue [OF r1] by (simp add: same_queue_def)
    moreover have "memory_holds env es cks cs2 g1" using memory_holds_later Cons.prems(4) Some by (auto simp: ck r2(2))
    ultimately obtain m'' i'' where "dispatch_loop env (requeue q' i' m' d1, g1) =
        map_option (Pair (requeue [] i'' m'' d')) (gpu_calls env cs2 g1)"
      using Cons.IH [of d1 q' i' cks cs2 g1 m'] st(1,2) Cons.prems(5) r2(1) by (auto simp: ck)
    then have "dispatch_loop env (requeue q i m d, g) = map_option (Pair (requeue [] i'' m'' d')) (gpu_calls env calls g)"
      using step Some assms(1) by (subst dispatch_loop.simps) (simp add: r2(2) gpu_calls_append)
    then show ?thesis by blast
  qed
qed

text \<open>
  \<^bold>\<open>C39\<close>. The words of a sequence of commands may be divided into blocks of GPU memory at any place, also in
  the middle of a command, and the blocks distributed over command lists. As long as no call changes these blocks,
  \<open>DispatchCalls\<close> comes back exactly if the calls do, has made exactly the calls of the commands, in order, with the
  method numbers and remaining counts that the modes of the commands ask for, and leaves the pusher idle with an
  empty queue.
\<close>

theorem DispatchCalls_correct:
  assumes "list_all command_ok cmds" and "concat chunks = concat (map encode cmds)"
    and "dma_idle d" and "ib_enable d" and "list_all (\<lambda>l. l \<noteq> []) (dma_pushbuffer d)"
    and "length chunks = length (concat (dma_pushbuffer d))"
    and "memory_holds env (concat (dma_pushbuffer d)) chunks (concat (map command_calls cmds)) (memory_touched g)"
    and "\<And>g. env_powered_on env g"
  shows "\<exists>d'. dma_idle d' \<and> dma_pushbuffer d' = [] \<and>
    DispatchCalls env (d, g) = map_option (Pair d') (gpu_calls env (concat (map command_calls cmds)) (memory_touched g))"
proof -
  obtain d' where d': "dma_idle d'" "pusher_run (concat chunks) d = (concat (map command_calls cmds), d')"
    using stream_words [OF assms(3,1)] assms(2) by auto
  have q: "queue_ok (dma_pushbuffer d) 0" "entries_left (dma_pushbuffer d) 0 = concat (dma_pushbuffer d)"
    using assms(5) by (cases "dma_pushbuffer d"; simp add: queue_ok_def)+
  have "d\<lparr>dma_pushbuffer_subindex := 0\<rparr> = requeue (dma_pushbuffer d) 0 (dma_mget d) d" by (simp add: requeue_def)
  then obtain m' i' where "DispatchCalls env (d, g) =
      map_option (Pair (requeue [] i' m' d')) (gpu_calls env (concat (map command_calls cmds)) (memory_touched g))"
    using dispatch_entries [OF assms(8,4) q assms(7,6) d'(2)] by (fastforce simp: DispatchCalls_def)
  moreover have "dma_idle (requeue [] i' m' d')" "dma_pushbuffer (requeue [] i' m' d') = []"
    using d'(1) by (simp_all add: requeue_def dma_idle_def)
  ultimately show ?thesis by blast
qed

end
