(* ===== verification/Puller_Correct.thy ===== *)
theory Puller_Correct
  imports Gpu_Puller
begin

text \<open>
  Semaphores of the puller: what is released at an address is what an acquisition of the address compares with.
\<close>

text \<open>A word of GPU memory with a host page behind it.\<close>

definition semaphore_mapped :: "'y GPU \<Rightarrow> GPUVAddr \<Rightarrow> bool" where
  "semaphore_mapped g addr \<longleftrightarrow> gpu_IsAddressValid (gs_memory_manager (gpu_memory g)) addr \<and>
     pt_pointers (gm_page_table (gs_memory_manager (gpu_memory g))) (unat (drop_bit gpu_page_bits addr)) \<noteq> 0"

text \<open>A call of a method of the puller.\<close>

definition puller_call :: "u32 \<Rightarrow> u32 \<Rightarrow> u32 \<Rightarrow> MethodCall" where
  "puller_call subchannel method argument =
     \<lparr>mc_method = method, mc_argument = argument, mc_subchannel = subchannel, mc_method_count = 1\<rparr>"

definition at_address :: "u32 \<Rightarrow> GPUVAddr \<Rightarrow> MethodCall list" where
  "at_address subchannel addr =
     [puller_call subchannel (method_number SemaphoreAddressHigh) (ucast (drop_bit 32 addr)),
      puller_call subchannel (method_number SemaphoreAddressLow) (ucast addr)]"

definition release_at :: "u32 \<Rightarrow> GPUVAddr \<Rightarrow> u32 \<Rightarrow> MethodCall list" where
  "release_at subchannel addr v = at_address subchannel addr @ [puller_call subchannel (method_number SemaphoreRelease) v]"

definition set_reg :: "nat \<Rightarrow> u32 \<Rightarrow> 'y GPU \<Rightarrow> 'y GPU" where
  "set_reg i v g = g\<lparr>gpu_reg_array := (gpu_reg_array g)(i := v)\<rparr>"

lemma puller_steps:
  assumes "unat s < length (gpu_bound_engines g)"
  shows "GPU_CallMethod env (puller_call s (method_number SemaphoreAddressHigh) v) g = Some (set_reg 4 v g)"
    and "GPU_CallMethod env (puller_call s (method_number SemaphoreAddressLow) v) g = Some (set_reg 5 v g)"
    and "GPU_CallMethod env (puller_call s (method_number SemaphoreSequence) v) g = Some (set_reg 6 v g)"
    and "GPU_CallMethod env (puller_call s (method_number SemaphoreTrigger) v) g =
      ProcessSemaphoreTriggerMethod env (set_reg 7 v g)"
    and "GPU_CallMethod env (puller_call s (method_number SemaphoreAcquire) v) g = ProcessSemaphoreAcquire (set_reg 0x1A v g)"
    and "GPU_CallMethod env (puller_call s (method_number SemaphoreRelease) v) g = ProcessSemaphoreRelease (set_reg 0x1B v g)"
  using assms
  by (simp_all add: GPU_CallMethod_def puller_call_def ExecuteMethodOnEngine_def CallPullerMethod_def set_reg_def)

lemmas puller_calls = puller_steps [unfolded method_number.simps]

lemma address_halves: "push_bit 32 (ucast (ucast (drop_bit 32 addr) :: u32)) OR ucast (ucast addr :: u32) = (addr :: u64)"
  by (rule bit_word_eqI) (auto simp: bit_simps)

lemma set_reg_simps [simp]:
  "gpu_bound_engines (set_reg i v g) = gpu_bound_engines g" "gpu_maxwell_3d (set_reg i v g) = gpu_maxwell_3d g"
  "gpu_reg_array (set_reg i v g) = (gpu_reg_array g)(i := v)" "gpu_acquire_active (set_reg i v g) = gpu_acquire_active g"
  by (simp_all add: set_reg_def)

text \<open>Writing a word at the address of the semaphore and reading it back.\<close>

lemma release_semaphore:
  assumes "semaphore_mapped g (SemaphoreAddress g)"
  obtains h where "ProcessSemaphoreRelease g = Some (with_memory (\<lambda>s. s\<lparr>gs_host := h\<rparr>) g)"
    and "gpu_Read (gs_memory_manager (gpu_memory g)) h (SemaphoreAddress g) 4 = Some (le_bytes 4 (semaphore_release g))"
proof -
  let ?a = "SemaphoreAddress g" and ?pt = "gm_page_table (gs_memory_manager (gpu_memory g))"
  let ?p = "pt_pointers ?pt (unat (drop_bit gpu_page_bits ?a))"
  let ?h = "host_write (?p + (?a AND gpu_page_mask)) (le_bytes 4 (semaphore_release g)) (gs_host (gpu_memory g))"
  have "host_read ?h (?p + (?a AND gpu_page_mask)) 4 = le_bytes 4 (semaphore_release g)"
    using host_read_write [of "le_bytes 4 (semaphore_release g)"] by simp
  then show thesis
    using assms by (intro that [of ?h]) (simp_all add: ProcessSemaphoreRelease_def semaphore_mapped_def gpu_Write_def gpu_Read_def Let_def)
qed

text \<open>The state after a release: the word at the address is what was released.\<close>

definition released :: "GPUVAddr \<Rightarrow> u32 \<Rightarrow> 'y GPU \<Rightarrow> 'y GPU \<Rightarrow> bool" where
  "released addr v g g' \<longleftrightarrow> SemaphoreAddress g' = addr \<and> gpu_bound_engines g' = gpu_bound_engines g \<and>
     gpu_acquire_active g' = gpu_acquire_active g \<and>
     gpu_Read (gs_memory_manager (gpu_memory g')) (gs_host (gpu_memory g')) addr 4 = Some (le_bytes 4 v)"

lemma release_calls:
  assumes "unat s < length (gpu_bound_engines g)" and "semaphore_mapped g addr"
  obtains g' where "gpu_calls env (at_address s addr @ [puller_call s (method_number SemaphoreRelease) v]) g = Some g'"
    and "released addr v g g'"
proof -
  let ?g = "set_reg 0x1B v (set_reg 5 (ucast addr) (set_reg 4 (ucast (drop_bit 32 addr)) g))"
  have a: "SemaphoreAddress ?g = addr" by (simp add: SemaphoreAddress_def address_halves)
  have "semaphore_mapped ?g (SemaphoreAddress ?g)" using assms(2) unfolding a by (simp add: semaphore_mapped_def)
  then obtain h where h: "ProcessSemaphoreRelease ?g = Some (with_memory (\<lambda>s. s\<lparr>gs_host := h\<rparr>) ?g)"
    "gpu_Read (gs_memory_manager (gpu_memory ?g)) h (SemaphoreAddress ?g) 4 = Some (le_bytes 4 (semaphore_release ?g))"
    by (rule release_semaphore)
  show thesis
  proof (rule that)
    show "gpu_calls env (at_address s addr @ [puller_call s (method_number SemaphoreRelease) v]) g =
        Some (with_memory (\<lambda>s. s\<lparr>gs_host := h\<rparr>) ?g)"
      using assms(1) by (simp add: at_address_def puller_calls h(1))
    show "released addr v g (with_memory (\<lambda>s. s\<lparr>gs_host := h\<rparr>) ?g)"
      using h(2) a by (simp add: released_def with_memory_def SemaphoreAddress_def semaphore_release_def)
  qed
qed

lemma read_released:
  assumes "released addr v g g'" and "SemaphoreAddress g'' = addr" and "gpu_maxwell_3d g'' = gpu_maxwell_3d g'"
  shows "read_semaphore g'' = Some v"
  using assms by (simp add: released_def read_semaphore_def le_value_bytes)

lemma gpu_calls_Cons_append:
  assumes "gpu_calls env xs g = Some g'"
  shows "gpu_calls env (xs @ ys) g = gpu_calls env ys g'"
  using assms
proof (induction xs arbitrary: g)
  case (Cons x xs)
  then show ?case by (cases "GPU_CallMethod env x g") auto
qed simp


end
