(* ===== verification/Dma_Examples.thy ===== *)
theory Dma_Examples
  imports Dma_Correct Puller_Correct
begin

text \<open>
  A GPU with one page of memory, which holds a command list of two entries: the second one begins in the middle of
  a command.
\<close>

definition example_words :: "u32 list" where
  "example_words = [command_header 1 4 0 2, 0, 0x100]"

definition example_gpu_memory :: "unit gpu_shared" where
  "example_gpu_memory = \<lparr>gs_memory_manager = \<lparr>gm_map = [], gm_page_table =
       \<lparr>pt_page_bits = 16, pt_entries = 16, pt_pointers = (\<lambda>i. if i = 0 then 0x10000 else 0),
        pt_attributes = (\<lambda>i. if i = 0 then PT_Memory else PT_Unmapped), pt_backing_addr = (\<lambda>_. 0), pt_special = []\<rparr>\<rparr>,
     gs_host = host_write 0x10000 (concat (map (le_bytes 4) example_words)) (\<lambda>_. 0), gs_rest = ()\<rparr>"

definition example_gpu :: "unit GPU" where
  "example_gpu = \<lparr>gpu_reg_array = (\<lambda>_. 0), gpu_acquire_mode = 0, gpu_acquire_source = 0, gpu_acquire_active = 0,
     gpu_acquire_value = 0, gpu_bound_engines = replicate 8 0,
     gpu_maxwell_3d = \<lparr>m3d_reg_array = (\<lambda>_. 0), m3d_macro_offsets = Map.empty, m3d_macro_memory = (\<lambda>_. 0),
       m3d_executing_macro = 0, m3d_macro_params = [], m3d_interpreter = \<lparr>mi_pc = 0, mi_delayed_pc = None,
         mi_registers = replicate 8 0, mi_method_address = 0, mi_parameters = [], mi_next_parameter_index = 0,
         mi_carry_flag = False\<rparr>,
       m3d_dirty_flags = \<lparr>df_color_buffer = -1, df_vertex_array = -1, df_vertex_attrib_format = True,
         df_zeta_buffer = True, df_shaders = True\<rparr>, m3d_rest = example_gpu_memory\<rparr>\<rparr>"

definition example_env :: "unit gpu_env" where
  "example_env = \<lparr>env_rasterizer = \<lparr>flush_region = (\<lambda>_ _ h. h), invalidate_region = (\<lambda>_ _ h. h)\<rparr>, env_ticks = (\<lambda>_. 0),
     env_trigger = (\<lambda>_ _ _ e. Some e), env_engine = (\<lambda>_ _ e. Some e), env_depth = 0, env_powered_on = (\<lambda>_. True),
     env_block = 0x100000, env_command_headers = 0x200000\<rparr>"

text \<open>The entries: two words at address 0, and one word at address 8.\<close>

definition example_entries :: "u64 list" where
  "example_entries = [0x80000000000, 0x40000000008]"

definition example_pusher :: DmaPusher where
  "example_pusher = \<lparr>dma_pushbuffer = [example_entries], dma_pushbuffer_subindex = 0, ds_method = 0, ds_subchannel = 0,
     ds_method_count = 0, ds_length_pending = 0, ds_non_incrementing = False, dma_increment_once = False, dma_mget = 0,
     ib_enable = True\<rparr>"

lemma example_headers:
  "clh_addr 0x80000000000 = 0" "clh_size 0x80000000000 = 2" "clh_addr 0x40000000008 = 8" "clh_size 0x40000000008 = 1"
  "command_header 1 4 0 2 = 0x20020004"
  by code_simp+

lemma example_bytes:
  "concat (map (le_bytes 4) example_words) = [4, 0, 2, 0x20, 0, 0, 0, 0, 0, 1, 0, 0]"
  unfolding example_words_def example_headers by code_simp

lemma example_fetch:
  assumes "gpu_memory g = example_gpu_memory"
  shows "entry_words example_env g 0x80000000000 = Some [0x20020004, 0]"
    and "entry_words example_env g 0x40000000008 = Some [0x100]"
proof -
  show "entry_words example_env g 0x80000000000 = Some [0x20020004, 0]"
    unfolding entry_words_def dma_fetch_def assms example_headers example_gpu_memory_def example_bytes
    by (simp add: example_env_def gpu_ReadBlockUnsafe_def block_loop.simps gpu_ReadBlockUnsafe_page_def page_pointer_def
        gpu_page_bits_def gpu_page_size_def gpu_page_mask_def host_read_def host_write_def upt_conv_Cons)
  show "entry_words example_env g 0x40000000008 = Some [0x100]"
    unfolding entry_words_def dma_fetch_def assms example_headers example_gpu_memory_def example_bytes
    by (simp add: example_env_def gpu_ReadBlockUnsafe_def block_loop.simps gpu_ReadBlockUnsafe_page_def page_pointer_def
        gpu_page_bits_def gpu_page_size_def gpu_page_mask_def host_read_def host_write_def upt_conv_Cons)
qed

definition example_calls :: "MethodCall list" where
  "example_calls = [\<lparr>mc_method = 4, mc_argument = 0, mc_subchannel = 0, mc_method_count = 2\<rparr>,
     \<lparr>mc_method = 5, mc_argument = 0x100, mc_subchannel = 0, mc_method_count = 1\<rparr>]"

lemma example_command_calls: "concat (map command_calls [Increasing 4 0 [0, 0x100]]) = example_calls"
  by (simp add: calls_from_Cons example_calls_def)

lemma example_call:
  assumes "mc \<in> set example_calls" and "length (gpu_bound_engines g) = 8"
  shows "GPU_CallMethod example_env mc g = Some (set_reg (unat (mc_method mc)) (mc_argument mc) g)"
  using assms by (auto simp: example_calls_def GPU_CallMethod_def ExecuteMethodOnEngine_def CallPullerMethod_def
      set_reg_def)

lemma example_memory:
  assumes "length (gpu_bound_engines g) = 8" and "gpu_calls example_env mcs g = Some g'" and "set mcs \<subseteq> set example_calls"
  shows "gpu_memory g' = gpu_memory g"
  using assms
proof (induction mcs arbitrary: g)
  case (Cons mc mcs)
  let ?g = "set_reg (unat (mc_method mc)) (mc_argument mc) g"
  have "gpu_calls example_env mcs ?g = Some g'"
    using Cons.prems example_call [of mc g] by simp
  then show ?case using Cons.IH [of ?g] Cons.prems(1,3) by simp
qed simp

lemma example_holds:
  "memory_holds example_env example_entries [[0x20020004, 0], [0x100]] example_calls (memory_touched example_gpu)"
  unfolding memory_holds_def
proof (intro allI impI)
  fix k g'
  assume "gpu_calls example_env (take k example_calls) (memory_touched example_gpu) = Some g'"
  then have "gpu_memory g' = gpu_memory (memory_touched example_gpu)"
    by (rule example_memory [rotated]) (auto simp: memory_touched_def example_gpu_def dest: in_set_takeD)
  then have "gpu_memory g' = example_gpu_memory" by (simp add: memory_touched_def example_gpu_def)
  then show "list_all2 (\<lambda>e ws. entry_words example_env g' e = Some ws) example_entries [[0x20020004, 0], [0x100]]"
    by (simp add: example_entries_def example_fetch)
qed

theorem DispatchCalls_correct_witness:
  "\<exists>d'. dma_idle d' \<and> dma_pushbuffer d' = [] \<and> DispatchCalls example_env (example_pusher, example_gpu) =
    map_option (Pair d') (gpu_calls example_env example_calls (memory_touched example_gpu))"
proof -
  have "memory_holds example_env (concat (dma_pushbuffer example_pusher)) [[0x20020004, 0], [0x100]]
      (concat (map command_calls [Increasing 4 0 [0, 0x100]])) (memory_touched example_gpu)"
    unfolding example_command_calls using example_holds by (simp add: example_pusher_def)
  from DispatchCalls_correct [OF _ _ _ _ _ _ this] show ?thesis
    unfolding example_command_calls
    by (simp add: example_headers example_pusher_def dma_idle_def example_entries_def example_env_def)
qed


end
