(* ===== verification/Core_Timing_Util.thy ===== *)
theory Core_Timing_Util
  imports Yuzu_Prelude "HOL-Library.Signed_Division"
begin

text \<open>
  \<^verbatim>\<open>common/uint128.cpp\<close> and the conversions between wall-clock time and CPU cycles of
  \<^verbatim>\<open>core/core_timing_util.{h,cpp}\<close>.

  An \<open>s64\<close> or \<open>int\<close> is an \<open>int\<close> of the logic; arithmetic on it that leaves its range is
  undefined behaviour, \<open>None\<close>. A \<open>u64\<close> is a word, and where C++ mixes the two, the signed operand
  is converted, as the usual arithmetic conversions do.
\<close>

section \<open>Signed arithmetic\<close>

definition s64_range :: "int \<Rightarrow> int option" where
  "s64_range i = (if - (2 ^ 63) \<le> i \<and> i < 2 ^ 63 then Some i else None)"

definition s32_range :: "int \<Rightarrow> int option" where
  "s32_range i = (if - (2 ^ 31) \<le> i \<and> i < 2 ^ 31 then Some i else None)"

lemma s64_range_Some: "- 9223372036854775808 \<le> i \<Longrightarrow> i < 9223372036854775808 \<Longrightarrow> s64_range i = Some i"
  by (simp add: s64_range_def)

lemma s32_range_Some: "- 2147483648 \<le> i \<Longrightarrow> i < 2147483648 \<Longrightarrow> s32_range i = Some i"
  by (simp add: s32_range_def)

text \<open>The conversion from \<open>u64\<close> to \<open>s64\<close> and from \<open>s64\<close> to \<open>int\<close>.\<close>

abbreviation to_s64 :: "u64 \<Rightarrow> int" where
  "to_s64 \<equiv> sint"

abbreviation to_s32 :: "int \<Rightarrow> int" where
  "to_s32 i \<equiv> signed_take_bit 31 i"

section \<open>128-bit arithmetic\<close>

text \<open>A \<open>u128\<close> is an array of two \<open>u64\<close>, the low half first.\<close>

type_synonym u128 = "u64 \<times> u64"

definition u128_val :: "u128 \<Rightarrow> nat" where
  "u128_val v = unat (snd v) * 2 ^ 64 + unat (fst v)"

definition Multiply64Into128 :: "u64 \<Rightarrow> u64 \<Rightarrow> u128" where
  "Multiply64Into128 a b =
     (let tmp = (ucast a :: 128 word) * ucast b
      in (ucast tmp, ucast (drop_bit 64 tmp)))"

definition Divide128On32 :: "u128 \<Rightarrow> u32 \<Rightarrow> (u64 \<times> u64) option" where
  "Divide128On32 dividend divisor =
     (if divisor = 0 then None
      else
        let d = (ucast divisor :: u64);
            remainder = fst dividend mod d;
            accum = fst dividend div d
        in if snd dividend = 0 then Some (accum, remainder)
           else
             let first_segment = push_bit 32 (snd dividend mod d);
                 accum = accum + push_bit 32 (first_segment div d);
                 second_segment = push_bit 32 (first_segment mod d);
                 accum = accum + second_segment div d;
                 remainder = remainder + second_segment mod d
             in if remainder \<ge> d then Some (accum + 1, remainder - d)
                else Some (accum, remainder))"

section \<open>Conversions\<close>

definition BASE_CLOCK_RATE :: u64 where "BASE_CLOCK_RATE = 1019215872"

definition CNTFREQ :: u64 where "CNTFREQ = 19200000"

definition MAX_VALUE_TO_MULTIPLY :: u64 where
  "MAX_VALUE_TO_MULTIPLY = (2 ^ 63 - 1) div BASE_CLOCK_RATE"

definition s64_max :: int where "s64_max = 2 ^ 63 - 1"

definition msToCycles_int :: "int \<Rightarrow> int" where
  "msToCycles_int ms = to_s64 (BASE_CLOCK_RATE * word_of_int ms div 1000)"

definition usToCycles_int :: "int \<Rightarrow> int" where
  "usToCycles_int us = to_s64 (BASE_CLOCK_RATE * word_of_int us div 1000000)"

definition nsToCycles_int :: "int \<Rightarrow> int" where
  "nsToCycles_int ns = to_s64 (BASE_CLOCK_RATE * word_of_int ns div 1000000000)"

definition usToCycles_s64 :: "int \<Rightarrow> int" where
  "usToCycles_s64 us =
     (if word_of_int (us sdiv 1000000) > MAX_VALUE_TO_MULTIPLY then s64_max
      else if word_of_int us > MAX_VALUE_TO_MULTIPLY
      then to_s64 (BASE_CLOCK_RATE * word_of_int (us sdiv 1000000))
      else to_s64 (BASE_CLOCK_RATE * word_of_int us div 1000000))"

definition usToCycles_u64 :: "u64 \<Rightarrow> int" where
  "usToCycles_u64 us =
     (if us div 1000000 > MAX_VALUE_TO_MULTIPLY then s64_max
      else if us > MAX_VALUE_TO_MULTIPLY
      then to_s64 (BASE_CLOCK_RATE * word_of_int (to_s64 (us div 1000000)))
      else to_s64 (BASE_CLOCK_RATE * word_of_int (to_s64 us) div 1000000))"

definition nsToCycles_s64 :: "int \<Rightarrow> int" where
  "nsToCycles_s64 ns =
     (if word_of_int (ns sdiv 1000000000) > MAX_VALUE_TO_MULTIPLY then s64_max
      else if word_of_int ns > MAX_VALUE_TO_MULTIPLY
      then to_s64 (BASE_CLOCK_RATE * word_of_int (ns sdiv 1000000000))
      else to_s64 (BASE_CLOCK_RATE * word_of_int ns div 1000000000))"

definition nsToCycles_u64 :: "u64 \<Rightarrow> int" where
  "nsToCycles_u64 ns =
     (if ns div 1000000000 > MAX_VALUE_TO_MULTIPLY then s64_max
      else if ns > MAX_VALUE_TO_MULTIPLY
      then to_s64 (BASE_CLOCK_RATE * word_of_int (to_s64 ns sdiv 1000000000))
      else to_s64 (BASE_CLOCK_RATE * word_of_int (to_s64 ns) div 1000000000))"

definition cyclesToNs :: "int \<Rightarrow> u64 option" where
  "cyclesToNs cycles = do {
     p \<leftarrow> s64_range (cycles * 1000000000);
     Some (word_of_int p div BASE_CLOCK_RATE)
   }"

definition cyclesToUs :: "int \<Rightarrow> int option" where
  "cyclesToUs cycles = do {
     p \<leftarrow> s64_range (cycles * 1000000);
     Some (to_s64 (word_of_int p div BASE_CLOCK_RATE))
   }"

definition cyclesToMs :: "int \<Rightarrow> u64 option" where
  "cyclesToMs cycles = do {
     p \<leftarrow> s64_range (cycles * 1000);
     Some (word_of_int p div BASE_CLOCK_RATE)
   }"

definition CpuCyclesToClockCycles :: "u64 \<Rightarrow> u64 option" where
  "CpuCyclesToClockCycles ticks = do {
     let temporal = Multiply64Into128 ticks CNTFREQ;
     r \<leftarrow> Divide128On32 temporal (ucast BASE_CLOCK_RATE);
     Some (fst r)
   }"

section \<open>Correctness\<close>

lemma unat_push_bit_32:
  fixes x :: u64
  assumes "unat x < 4294967296"
  shows "unat (push_bit 32 x) = unat x * 4294967296"
proof -
  have "take_bit 64 (push_bit 32 (unat x)) = push_bit 32 (unat x)"
    by (rule take_bit_nat_eq_self) (use assms in \<open>simp add: push_bit_eq_mult\<close>)
  then have "unat (push_bit 32 x) = push_bit 32 (unat x)"
    by (simp only: unsigned_push_bit_eq len_bit0 len_num1) simp
  then show ?thesis by (simp only: push_bit_eq_mult) simp
qed

lemma Multiply64Into128_val: "u128_val (Multiply64Into128 a b) = unat a * unat b"
proof -
  let ?t = "(ucast a :: 128 word) * ucast b"
  have c: "unat (ucast x :: 128 word) = unat x" for x :: u64
    using unat_bound_u64 [of x] by (simp add: unsigned_ucast_eq take_bit_nat_eq_self)
  have "unat a * unat b < 2 ^ 64 * 2 ^ 64"
    using unat_bound_u64 [of a] unat_bound_u64 [of b] by (intro mult_strict_mono) auto
  then have lt: "unat a * unat b < 2 ^ 128" by simp
  have "unat ?t = (unat a * unat b) mod 2 ^ 128" by (simp add: unat_word_ariths c)
  then have t: "unat ?t = unat a * unat b" using lt by simp
  have "unat (ucast ?t :: u64) = unat a * unat b mod 2 ^ 64"
    by (simp add: unsigned_ucast_eq t take_bit_eq_mod)
  moreover have "unat (ucast (drop_bit 64 ?t) :: u64) = (unat a * unat b) div 2 ^ 64 mod 2 ^ 64"
    by (simp add: unsigned_ucast_eq unat_drop_bit t take_bit_eq_mod)
  moreover have "(unat a * unat b) div 2 ^ 64 < 2 ^ 64"
    using lt by (intro less_mult_imp_div_less) simp
  ultimately show ?thesis by (simp add: u128_val_def Multiply64Into128_def Let_def)
qed

text \<open>Long division in base \<open>2 ^ 32\<close>.\<close>

lemma long_division:
  fixes hi lo d B :: nat
  assumes d: "0 < d"
  defines "f \<equiv> (hi mod d) * B"
  defines "s \<equiv> (f mod d) * B"
  shows "(hi * (B * B) + lo) mod d = (lo mod d + s mod d) mod d"
    and "(hi * (B * B) + lo) div d =
      (hi div d) * (B * B) + (lo div d + (f div d) * B + s div d + (lo mod d + s mod d) div d)"
proof -
  have "hi * (B * B) = (hi div d * d + hi mod d) * (B * B)" by simp
  also have "\<dots> = d * ((hi div d) * (B * B)) + f * B" by (simp only: f_def algebra_simps)
  also have "f * B = (f div d * d + f mod d) * B" by simp
  also have "\<dots> = d * ((f div d) * B) + s" by (simp only: s_def algebra_simps)
  also have "s = d * (s div d) + s mod d" by simp
  finally have "hi * (B * B) + lo =
      d * ((hi div d) * (B * B) + (f div d) * B + s div d + lo div d) + (lo mod d + s mod d)"
    using mult_div_mod_eq [of d lo] by (simp only: distrib_left)
  then show "(hi * (B * B) + lo) mod d = (lo mod d + s mod d) mod d"
    and "(hi * (B * B) + lo) div d =
      (hi div d) * (B * B) + (lo div d + (f div d) * B + s div d + (lo mod d + s mod d) div d)"
    using d by simp_all
qed

lemma word_eq_of_nat: "unat x = n \<Longrightarrow> x = of_nat n"
  by auto

lemma Divide128On32_high:
  fixes lo hi :: u64 and divisor :: u32
  assumes nz: "divisor \<noteq> 0" "hi \<noteq> 0"
  defines "d \<equiv> unat divisor"
  defines "f \<equiv> (unat hi mod d) * 4294967296"
  defines "s \<equiv> (f mod d) * 4294967296"
  defines "R \<equiv> unat lo mod d + s mod d"
  shows "Divide128On32 (lo, hi) divisor =
    Some (of_nat (unat lo div d + (f div d) * 4294967296 + s div d + R div d), of_nat (R mod d))"
proof -
  let ?w = "ucast divisor :: u64"
  have w: "unat ?w = d" by (simp add: d_def unat_u32_u64)
  have d: "0 < d" "d < 4294967296" using nz unat_bound_u32 [of divisor] by (simp_all add: d_def unat_gt_0)
  have small: "x mod d < 4294967296" for x using d by (meson mod_less_divisor order_less_trans)
  define F where "F = push_bit 32 (hi mod ?w)"
  define S where "S = push_bit 32 (F mod ?w)"
  define r where "r = lo mod ?w + S mod ?w"
  have F: "unat F = f"
    unfolding F_def using small by (subst unat_push_bit_32) (simp_all add: unat_mod w f_def)
  have S: "unat S = s"
    unfolding S_def using small by (subst unat_push_bit_32) (simp_all add: unat_mod w F s_def)
  have r: "unat r = R"
    unfolding r_def using small [of "unat lo"] small [of s] by (subst unat_add_u64) (simp_all add: unat_mod w S R_def)
  have "f div d < 4294967296" unfolding f_def using d by (intro less_mult_imp_div_less) simp
  then have "push_bit 32 (F div ?w) = of_nat ((f div d) * 4294967296)"
    by (intro word_eq_of_nat, subst unat_push_bit_32) (simp_all add: unat_div w F)
  then have N: "lo div ?w + push_bit 32 (F div ?w) + S div ?w =
      of_nat (unat lo div d + (f div d) * 4294967296 + s div d)" (is "_ = of_nat ?N")
    using word_eq_of_nat [OF unat_div [of lo ?w]] word_eq_of_nat [OF unat_div [of S ?w]]
    by (simp add: w S)
  have eq: "Divide128On32 (lo, hi) divisor =
      (if ?w \<le> r then Some (of_nat ?N + 1, r - ?w) else Some (of_nat ?N, r))"
    using nz unfolding N [symmetric] r_def S_def F_def by (simp add: Divide128On32_def Let_def)
  have "R < 2 * d"
    using d(1) mod_less_divisor [of d "unat lo"] mod_less_divisor [of d s] unfolding R_def by linarith
  moreover have "r - ?w = of_nat (R - d)" if "d \<le> R"
    using that by (intro word_eq_of_nat) (simp add: unat_sub_u64 r w)
  moreover have "r = of_nat R" using r by (rule word_eq_of_nat)
  moreover have "?w \<le> r \<longleftrightarrow> d \<le> R" by (simp add: word_le_nat_alt w r)
  moreover have "R div d = 1" "R mod d = R - d" if "d \<le> R" "R < 2 * d"
    using that less_diff_conv2 [of d R d] by (simp_all add: div_nat_eqI le_mod_geq)
  ultimately show ?thesis
    unfolding eq by (cases "d \<le> R") simp_all
qed

lemma Divide128On32_val:
  "(case Divide128On32 dividend divisor of
      None \<Rightarrow> divisor = 0
    | Some (q, r) \<Rightarrow> divisor \<noteq> 0 \<and> unat q = u128_val dividend div unat divisor mod 2 ^ 64 \<and>
        unat r = u128_val dividend mod unat divisor)"
proof (cases "divisor = 0")
  case False
  obtain lo hi where v: "dividend = (lo, hi)" by fastforce
  have d: "0 < unat divisor" "unat divisor < 4294967296"
    using False unat_bound_u32 [of divisor] by (simp_all add: unat_gt_0)
  show ?thesis
  proof (cases "hi = 0")
    case True
    have "unat lo div unat divisor < 2 ^ 64"
      using order_le_less_trans [OF div_le_dividend unat_bound_u64 [of lo]] by simp
    then show ?thesis
      using False True by (simp add: v Divide128On32_def u128_val_def unat_div unat_mod unat_u32_u64 Let_def)
  next
    case hi: False
    have V: "u128_val dividend = unat hi * (4294967296 * 4294967296) + unat lo" by (simp add: v u128_val_def)
    have "x mod unat divisor < 18446744073709551616" for x
      using mod_less_divisor [OF d(1), of x] d(2) by linarith
    then show ?thesis
      using False
      by (simp only: v Divide128On32_high [OF False hi] V [unfolded v] long_division [OF d(1)] option.case prod.case
          unat_of_nat_u64 unat_of_nat) (simp add: mod_mult_self4)
  qed
qed (simp add: Divide128On32_def)

text \<open>
  \<^bold>\<open>C28\<close>. \<open>Multiply64Into128\<close> multiplies exactly. \<open>Divide128On32\<close> returns, for every
  dividend and every divisor but zero, the remainder and the quotient modulo \<open>2 ^ 64\<close>; for zero
  its behaviour is undefined. \<open>CpuCyclesToClockCycles\<close>, which is built from the two, converts
  CPU cycles to cycles of the 19.2 MHz system counter exactly, rounding down, for every \<open>u64\<close>.
\<close>

theorem CpuCyclesToClockCycles_correct:
  "u128_val (Multiply64Into128 a b) = unat a * unat b \<and>
   (case Divide128On32 dividend divisor of
      None \<Rightarrow> divisor = 0
    | Some (q, r) \<Rightarrow> divisor \<noteq> 0 \<and> unat q = u128_val dividend div unat divisor mod 2 ^ 64 \<and>
        unat r = u128_val dividend mod unat divisor) \<and>
   (\<exists>r. CpuCyclesToClockCycles ticks = Some r \<and> unat r = unat ticks * 19200000 div 1019215872)"
proof -
  have V: "u128_val (Multiply64Into128 ticks CNTFREQ) = unat ticks * 19200000"
    by (simp add: Multiply64Into128_val CNTFREQ_def)
  have d: "unat (ucast BASE_CLOCK_RATE :: u32) = 1019215872" "(ucast BASE_CLOCK_RATE :: u32) \<noteq> 0"
    by (simp_all add: BASE_CLOCK_RATE_def)
  have "unat ticks * 19200000 div 1019215872 < 18446744073709551616"
    using unat_bound_u64 [of ticks] by (intro less_mult_imp_div_less) simp
  then have "\<exists>r. CpuCyclesToClockCycles ticks = Some r \<and> unat r = unat ticks * 19200000 div 1019215872"
    using Divide128On32_val [where dividend = "Multiply64Into128 ticks CNTFREQ" and divisor = "ucast BASE_CLOCK_RATE"] d
    by (auto simp: CpuCyclesToClockCycles_def V Let_def split: option.splits)
  then show ?thesis using Multiply64Into128_val Divide128On32_val by blast
qed

subsection \<open>Time to cycles\<close>

lemma MAX_VALUE: "MAX_VALUE_TO_MULTIPLY = 9049478417"
  by (simp add: MAX_VALUE_TO_MULTIPLY_def BASE_CLOCK_RATE_def)

lemma sint_nonneg:
  fixes x :: u64
  assumes "unat x < 9223372036854775808"
  shows "sint x = int (unat x)"
proof -
  have "uint x < 9223372036854775808" using of_nat_less_iff [of "unat x" 9223372036854775808, where 'a = int] assms by simp
  moreover have "- 9223372036854775808 \<le> uint x" by (rule order_trans [of _ 0]) simp_all
  ultimately show ?thesis unfolding sint_uint by (subst signed_take_bit_int_eq_self) auto
qed

text \<open>What the four conversions compute for a time \<open>t\<close> of which a second has \<open>u\<close> units.\<close>

definition cycles_of :: "nat \<Rightarrow> nat \<Rightarrow> nat" where
  "cycles_of u t = (if t div u > 9049478417 then 2 ^ 63 - 1
     else if t > 9049478417 then 1019215872 * (t div u) else 1019215872 * t div u)"

lemma cycles_of_bound: "0 < u \<Longrightarrow> cycles_of u t < 9223372036854775808"
  by (auto simp: cycles_of_def not_less intro: less_mult_imp_div_less)

lemma to_cycles_at:
  fixes t u :: u64
  assumes u: "u \<noteq> 0"
  shows "int (cycles_of (unat u) (unat t)) =
    (if t div u > MAX_VALUE_TO_MULTIPLY then s64_max
     else if t > MAX_VALUE_TO_MULTIPLY then to_s64 (BASE_CLOCK_RATE * (t div u))
     else to_s64 (BASE_CLOCK_RATE * t div u))"
proof -
  have m: "unat (BASE_CLOCK_RATE * x) = 1019215872 * unat x" if "x \<le> MAX_VALUE_TO_MULTIPLY" for x
    using that by (simp add: MAX_VALUE BASE_CLOCK_RATE_def word_le_nat_alt unat_word_ariths)
  have s: "to_s64 x = int n" if "unat x = n" "n < 9223372036854775808" for x :: u64 and n
    using that by (metis sint_nonneg)
  consider "t div u > MAX_VALUE_TO_MULTIPLY" | "t div u \<le> MAX_VALUE_TO_MULTIPLY" "t > MAX_VALUE_TO_MULTIPLY"
    | "t \<le> MAX_VALUE_TO_MULTIPLY" "t div u \<le> MAX_VALUE_TO_MULTIPLY" by force
  then show ?thesis
  proof cases
    case 1
    then show ?thesis by (simp add: cycles_of_def MAX_VALUE word_less_nat_alt unat_div s64_max_def)
  next
    case 2
    then have "to_s64 (BASE_CLOCK_RATE * (t div u)) = int (1019215872 * (unat t div unat u))"
      by (intro s) (simp_all add: m unat_div MAX_VALUE word_le_nat_alt)
    then show ?thesis using 2 by (simp add: cycles_of_def MAX_VALUE word_less_nat_alt word_le_nat_alt unat_div)
  next
    case 3
    have "1019215872 * unat t div unat u \<le> 1019215872 * unat t" by (rule div_le_dividend)
    also have "\<dots> < 9223372036854775808" using 3(1) by (simp add: MAX_VALUE word_le_nat_alt)
    finally have "to_s64 (BASE_CLOCK_RATE * t div u) = int (1019215872 * unat t div unat u)"
      using 3(1) by (intro s) (simp_all add: m unat_div)
    then show ?thesis using 3 by (simp add: cycles_of_def MAX_VALUE word_less_nat_alt word_le_nat_alt unat_div)
  qed
qed

lemma s64_word:
  assumes "0 \<le> i" "i < 9223372036854775808"
  shows "unat (word_of_int i :: u64) = nat i" "to_s64 (word_of_int i) = i"
proof -
  show "unat (word_of_int i :: u64) = nat i"
    using assms by (simp only: unat_eq_nat_uint uint_word_of_int_eq, subst take_bit_int_eq_self) simp_all
  then have "unat (word_of_int i :: u64) < 9223372036854775808" using assms by simp
  then have "to_s64 (word_of_int i) = int (nat i)"
    using \<open>unat (word_of_int i :: u64) = nat i\<close> by (simp only: sint_nonneg)
  then show "to_s64 (word_of_int i) = i" using assms by simp
qed

lemma s64_div:
  fixes u :: u64
  assumes "0 \<le> i" "i < 9223372036854775808" "unat u = nat k" "0 < k"
  shows "(word_of_int (i sdiv k) :: u64) = word_of_int i div u"
proof -
  have "i sdiv k = i div k" using assms by (simp add: signed_divide_int_def sgn_if)
  moreover have "0 \<le> i div k" "i div k < 9223372036854775808"
    using assms pos_imp_zdiv_nonneg_iff [of k i] div_le_dividend [of "nat i" "nat k"]
    by (simp_all add: nat_div_distrib [symmetric])
  ultimately show ?thesis
    using assms by (intro word_eq_unatI) (simp add: s64_word unat_div nat_div_distrib)
qed

lemma cycles_of_exact:
  assumes u: "0 < u" and t: "t div u \<le> 9049478417"
  shows "cycles_of u t \<le> 1019215872 * t div u" "1019215872 * t div u < cycles_of u t + 1019215872"
proof -
  have "1019215872 * (t div u) \<le> 1019215872 * t div u"
    using u by (simp add: less_eq_div_iff_mult_less_eq)
  moreover have "t < u * (t div u) + u" using u by (metis add.commute dividend_less_div_times mult.commute)
  then have "1019215872 * t < (1019215872 * (t div u) + 1019215872) * u" by (simp add: algebra_simps)
  then have "1019215872 * t div u < 1019215872 * (t div u) + 1019215872"
    by (rule less_mult_imp_div_less)
  ultimately show "cycles_of u t \<le> 1019215872 * t div u"
    "1019215872 * t div u < cycles_of u t + 1019215872"
    using t by (simp_all add: cycles_of_def)
qed


text \<open>
  A negative signed time of a second or more is compared as an unsigned number
  and therefore converted to the largest number of cycles, not to a time in the past.
\<close>

theorem negative_time_saturates:
  assumes "- (2 ^ 63) \<le> ns" "ns \<le> - 1000000000"
  shows "nsToCycles_s64 ns = 2 ^ 63 - 1"
proof -
  have q: "- 9223372037 \<le> ns sdiv 1000000000" "ns sdiv 1000000000 \<le> - 1"
    using assms by (simp_all add: signed_divide_int_def sgn_if)
  have "uint (word_of_int (ns sdiv 1000000000) :: u64) = ns sdiv 1000000000 + 18446744073709551616"
    using q mod_pos_pos_trivial [of "ns sdiv 1000000000 + 18446744073709551616" 18446744073709551616]
    by (simp add: uint_word_of_int)
  then have "MAX_VALUE_TO_MULTIPLY < word_of_int (ns sdiv 1000000000)"
    using q by (simp add: word_less_def MAX_VALUE)
  then show ?thesis by (simp add: nsToCycles_s64_def s64_max_def)
qed

theorem negative_time_saturates_witness: "nsToCycles_s64 (- 2000000000) = 2 ^ 63 - 1"
  using negative_time_saturates [of "- 2000000000"] by simp


end
