(* ===== verification/Core_Timing.thy ===== *)
theory Core_Timing
  imports Core_Timing_Util "HOL-Library.Product_Lexorder"
begin

text \<open>
  The event scheduler of \<^verbatim>\<open>core/core_timing.{h,cpp}\<close>.

  A pointer to an event type is the name under which the type is registered, or \<open>None\<close> for
  \<open>nullptr\<close>. The heap \<open>event_queue\<close>, of which the code only uses the least element, the
  emptiness test and the removal of matching elements, is the list of its elements in the
  order of \<open>operator<\<close>. The two queues from other threads are lists, the oldest element first.
  The callbacks are named, and what they do is a parameter of \<open>Advance\<close>: they may change the
  rest of the emulator, of type \<open>'w\<close>, and the scheduler itself.
\<close>

definition MAX_SLICE_LENGTH :: int where "MAX_SLICE_LENGTH = 20000"

type_synonym EventTypePtr = "string option"

record Event =
  ev_time :: int
  ev_fifo_order :: u64
  ev_userdata :: u64
  ev_type :: EventTypePtr

definition ev_key :: "Event \<Rightarrow> int \<times> u64" where
  "ev_key e = (ev_time e, ev_fifo_order e)"

datatype 'cb TimedCallback = empty_timed_callback | Callback 'cb

record 'cb CoreTiming =
  ct_global_timer :: int
  ct_idled_cycles :: int
  ct_slice_length :: int
  ct_downcount :: int
  ct_is_global_timer_sane :: bool
  ct_event_queue :: "Event list"
  ct_event_fifo_id :: u64
  ct_event_types :: "string \<rightharpoonup> 'cb TimedCallback"
  ct_ts_queue :: "Event list"
  ct_unschedule_queue :: "(EventTypePtr \<times> u64) list"
  ct_ev_lost :: EventTypePtr

definition CoreTiming_create :: "'cb CoreTiming" where
  "CoreTiming_create = \<lparr>ct_global_timer = 0, ct_idled_cycles = 0, ct_slice_length = 0, ct_downcount = 0,
     ct_is_global_timer_sane = False, ct_event_queue = [], ct_event_fifo_id = 0,
     ct_event_types = Map.empty, ct_ts_queue = [], ct_unschedule_queue = [], ct_ev_lost = None\<rparr>"

definition RegisterEvent ::
    "'cb CoreTiming \<Rightarrow> string \<Rightarrow> 'cb TimedCallback \<Rightarrow> ('cb CoreTiming \<times> EventTypePtr) option" where
  "RegisterEvent ct name callback = do {
     ASSERT (ct_event_types ct name = None);
     Some (ct\<lparr>ct_event_types := (ct_event_types ct)(name \<mapsto> callback)\<rparr>, Some name)
   }"

definition UnregisterAllEvents :: "'cb CoreTiming \<Rightarrow> 'cb CoreTiming option" where
  "UnregisterAllEvents ct = do {
     ASSERT (ct_event_queue ct = []);
     Some (ct\<lparr>ct_event_types := Map.empty\<rparr>)
   }"

definition CoreTiming_Initialize :: "'cb CoreTiming \<Rightarrow> 'cb CoreTiming option" where
  "CoreTiming_Initialize ct = do {
     let ct = ct\<lparr>ct_downcount := MAX_SLICE_LENGTH, ct_slice_length := MAX_SLICE_LENGTH,
       ct_global_timer := 0, ct_idled_cycles := 0, ct_is_global_timer_sane := True,
       ct_event_fifo_id := 0\<rparr>;
     (ct, ev) \<leftarrow> RegisterEvent ct ''_lost_event'' empty_timed_callback;
     Some (ct\<lparr>ct_ev_lost := ev\<rparr>)
   }"

definition GetTicks :: "'cb CoreTiming \<Rightarrow> u64 option" where
  "GetTicks ct = do {
     let ticks = word_of_int (ct_global_timer ct);
     if \<not> ct_is_global_timer_sane ct then do {
       d \<leftarrow> s32_range (ct_slice_length ct - ct_downcount ct);
       Some (ticks + word_of_int d)
     }
     else Some ticks
   }"

definition GetIdleTicks :: "'cb CoreTiming \<Rightarrow> u64" where
  "GetIdleTicks ct = word_of_int (ct_idled_cycles ct)"

definition AddTicks :: "'cb CoreTiming \<Rightarrow> u64 \<Rightarrow> 'cb CoreTiming option" where
  "AddTicks ct ticks = do {
     d \<leftarrow> s32_range (ct_downcount ct - to_s32 (uint ticks));
     Some (ct\<lparr>ct_downcount := d\<rparr>)
   }"

definition ForceExceptionCheck :: "'cb CoreTiming \<Rightarrow> int \<Rightarrow> 'cb CoreTiming option" where
  "ForceExceptionCheck ct cycles = do {
     let cycles = max 0 cycles;
     if ct_downcount ct \<le> cycles then Some ct
     else do {
       d \<leftarrow> s32_range (ct_downcount ct - to_s32 cycles);
       s \<leftarrow> s32_range (ct_slice_length ct - d);
       Some (ct\<lparr>ct_slice_length := s, ct_downcount := to_s32 cycles\<rparr>)
     }
   }"

definition push_event :: "'cb CoreTiming \<Rightarrow> Event \<Rightarrow> 'cb CoreTiming" where
  "push_event ct e = ct\<lparr>ct_event_queue := insort_key ev_key e (ct_event_queue ct),
     ct_event_fifo_id := ct_event_fifo_id ct + 1\<rparr>"

definition ScheduleEvent :: "'cb CoreTiming \<Rightarrow> int \<Rightarrow> EventTypePtr \<Rightarrow> u64 \<Rightarrow> 'cb CoreTiming option" where
  "ScheduleEvent ct cycles_into_future event_type userdata = do {
     ASSERT (event_type \<noteq> None);
     ticks \<leftarrow> GetTicks ct;
     let timeout = to_s64 (ticks + word_of_int cycles_into_future);
     ct \<leftarrow> (if \<not> ct_is_global_timer_sane ct then ForceExceptionCheck ct cycles_into_future else Some ct);
     Some (push_event ct \<lparr>ev_time = timeout, ev_fifo_order = ct_event_fifo_id ct,
       ev_userdata = userdata, ev_type = event_type\<rparr>)
   }"

definition ScheduleEventThreadsafe ::
    "'cb CoreTiming \<Rightarrow> int \<Rightarrow> EventTypePtr \<Rightarrow> u64 \<Rightarrow> 'cb CoreTiming option" where
  "ScheduleEventThreadsafe ct cycles_into_future event_type userdata = do {
     t \<leftarrow> s64_range (ct_global_timer ct + cycles_into_future);
     Some (ct\<lparr>ct_ts_queue := ct_ts_queue ct @ [\<lparr>ev_time = t, ev_fifo_order = 0,
       ev_userdata = userdata, ev_type = event_type\<rparr>]\<rparr>)
   }"

definition UnscheduleEvent :: "'cb CoreTiming \<Rightarrow> EventTypePtr \<Rightarrow> u64 \<Rightarrow> 'cb CoreTiming" where
  "UnscheduleEvent ct event_type userdata = ct\<lparr>ct_event_queue :=
     filter (\<lambda>e. \<not> (ev_type e = event_type \<and> ev_userdata e = userdata)) (ct_event_queue ct)\<rparr>"

definition UnscheduleEventThreadsafe :: "'cb CoreTiming \<Rightarrow> EventTypePtr \<Rightarrow> u64 \<Rightarrow> 'cb CoreTiming" where
  "UnscheduleEventThreadsafe ct event_type userdata =
     ct\<lparr>ct_unschedule_queue := ct_unschedule_queue ct @ [(event_type, userdata)]\<rparr>"

definition ClearPendingEvents :: "'cb CoreTiming \<Rightarrow> 'cb CoreTiming" where
  "ClearPendingEvents ct = ct\<lparr>ct_event_queue := []\<rparr>"

definition RemoveEvent :: "'cb CoreTiming \<Rightarrow> EventTypePtr \<Rightarrow> 'cb CoreTiming" where
  "RemoveEvent ct event_type =
     ct\<lparr>ct_event_queue := filter (\<lambda>e. ev_type e \<noteq> event_type) (ct_event_queue ct)\<rparr>"

fun move_events :: "Event list \<Rightarrow> 'cb CoreTiming \<Rightarrow> 'cb CoreTiming" where
  "move_events [] ct = ct"
| "move_events (ev # q) ct = move_events q (push_event ct (ev\<lparr>ev_fifo_order := ct_event_fifo_id ct\<rparr>))"

definition MoveEvents :: "'cb CoreTiming \<Rightarrow> 'cb CoreTiming" where
  "MoveEvents ct = (move_events (ct_ts_queue ct) ct)\<lparr>ct_ts_queue := []\<rparr>"

definition RemoveNormalAndThreadsafeEvent :: "'cb CoreTiming \<Rightarrow> EventTypePtr \<Rightarrow> 'cb CoreTiming" where
  "RemoveNormalAndThreadsafeEvent ct event_type = RemoveEvent (MoveEvents ct) event_type"

definition CoreTiming_Shutdown :: "'cb CoreTiming \<Rightarrow> 'cb CoreTiming option" where
  "CoreTiming_Shutdown ct = UnregisterAllEvents (ClearPendingEvents (MoveEvents ct))"

fun unschedule_all :: "(EventTypePtr \<times> u64) list \<Rightarrow> 'cb CoreTiming \<Rightarrow> 'cb CoreTiming" where
  "unschedule_all [] ct = ct"
| "unschedule_all (ev # q) ct = unschedule_all q (UnscheduleEvent ct (fst ev) (snd ev))"

section \<open>Running the events\<close>

text \<open>What a callback does: userdata, cycles late, and the state before.\<close>

type_synonym ('w, 'cb) runner = "'cb \<Rightarrow> u64 \<Rightarrow> int \<Rightarrow> 'w \<times> 'cb CoreTiming \<Rightarrow> ('w \<times> 'cb CoreTiming) option"

definition run_callback ::
    "('w, 'cb) runner \<Rightarrow> Event \<Rightarrow> int \<Rightarrow> 'w \<times> 'cb CoreTiming \<Rightarrow> ('w \<times> 'cb CoreTiming) option" where
  "run_callback run evt late s = do {
     name \<leftarrow> ev_type evt;
     callback \<leftarrow> ct_event_types (snd s) name;
     (case callback of empty_timed_callback \<Rightarrow> Some s | Callback cb \<Rightarrow> run cb (ev_userdata evt) late s)
   }"

text \<open>One round of the loop of \<open>Advance\<close>: the event leaves the queue before its callback runs.\<close>

definition fire ::
    "('w, 'cb) runner \<Rightarrow> Event \<Rightarrow> Event list \<Rightarrow> 'w \<times> 'cb CoreTiming \<Rightarrow> ('w \<times> 'cb CoreTiming) option" where
  "fire run evt rest s = do {
     late \<leftarrow> s64_range (ct_global_timer (snd s) - ev_time evt);
     run_callback run evt late (fst s, (snd s)\<lparr>ct_event_queue := rest\<rparr>)
   }"

partial_function (option) advance_loop ::
    "('w, 'cb) runner \<Rightarrow> 'w \<times> 'cb CoreTiming \<Rightarrow> ('w \<times> 'cb CoreTiming) option" where
  "advance_loop run s =
     (case ct_event_queue (snd s) of
        [] \<Rightarrow> Some s
      | evt # rest \<Rightarrow>
          if ev_time evt \<le> ct_global_timer (snd s)
          then do { s' \<leftarrow> fire run evt rest s; advance_loop run s' }
          else Some s)"

definition begin_slice :: "'cb CoreTiming \<Rightarrow> 'cb CoreTiming option" where
  "begin_slice ct = do {
     let ct = MoveEvents ct;
     let ct = (unschedule_all (ct_unschedule_queue ct) ct)\<lparr>ct_unschedule_queue := []\<rparr>;
     cycles_executed \<leftarrow> s32_range (ct_slice_length ct - ct_downcount ct);
     timer \<leftarrow> s64_range (ct_global_timer ct + cycles_executed);
     Some (ct\<lparr>ct_global_timer := timer, ct_slice_length := MAX_SLICE_LENGTH, ct_is_global_timer_sane := True\<rparr>)
   }"

definition end_slice :: "'cb CoreTiming \<Rightarrow> 'cb CoreTiming option" where
  "end_slice ct = do {
     let ct = ct\<lparr>ct_is_global_timer_sane := False\<rparr>;
     ct \<leftarrow> (case ct_event_queue ct of
              [] \<Rightarrow> Some ct
            | e # _ \<Rightarrow> do {
                t \<leftarrow> s64_range (ev_time e - ct_global_timer ct);
                Some (ct\<lparr>ct_slice_length := to_s32 (min t MAX_SLICE_LENGTH)\<rparr>)
              });
     Some (ct\<lparr>ct_downcount := ct_slice_length ct\<rparr>)
   }"

definition Advance :: "('w, 'cb) runner \<Rightarrow> 'w \<times> 'cb CoreTiming \<Rightarrow> ('w \<times> 'cb CoreTiming) option" where
  "Advance run s = do {
     ct \<leftarrow> begin_slice (snd s);
     (w, ct) \<leftarrow> advance_loop run (fst s, ct);
     ct \<leftarrow> end_slice ct;
     Some (w, ct)
   }"

definition Idle :: "'cb CoreTiming \<Rightarrow> 'cb CoreTiming option" where
  "Idle ct = do {
     i \<leftarrow> s64_range (ct_idled_cycles ct + ct_downcount ct);
     Some (ct\<lparr>ct_idled_cycles := i, ct_downcount := 0\<rparr>)
   }"

definition GetGlobalTimeUs :: "'cb CoreTiming \<Rightarrow> u64 option" where
  "GetGlobalTimeUs ct = do {
     t \<leftarrow> GetTicks ct;
     Some (t * 1000000 div BASE_CLOCK_RATE)
   }"

definition GetDowncount :: "'cb CoreTiming \<Rightarrow> int" where
  "GetDowncount ct = ct_downcount ct"

end
