(* ===== verification/Core_Timing_Correct.thy ===== *)
theory Core_Timing_Correct
  imports Core_Timing
begin

text \<open>
  The event scheduler runs exactly the events that are due, in the order of their time and,
  for equal times, in the order in which they were scheduled; and it runs them on time.
\<close>

section \<open>Pending events\<close>

definition registered :: "'cb CoreTiming \<Rightarrow> EventTypePtr \<Rightarrow> bool" where
  "registered ct p \<longleftrightarrow> (\<exists>name. p = Some name \<and> ct_event_types ct name \<noteq> None)"

definition timely :: "'cb CoreTiming \<Rightarrow> Event \<Rightarrow> bool" where
  "timely ct e \<longleftrightarrow> - (2 ^ 62) < ev_time e \<and> ev_time e < 2 ^ 62 \<and> registered ct (ev_type e)"

text \<open>The queue is in order, its events are of registered types, and no time is near overflow.\<close>

definition events_ok :: "'cb CoreTiming \<Rightarrow> bool" where
  "events_ok ct \<longleftrightarrow> sorted (map ev_key (ct_event_queue ct)) \<and> 0 \<le> ct_global_timer ct \<and>
     ct_global_timer ct < 2 ^ 61 \<and> (\<forall>e\<in>set (ct_event_queue ct). timely ct e)"

definition due_events :: "'cb CoreTiming \<Rightarrow> Event list" where
  "due_events ct = filter (\<lambda>e. ev_time e \<le> ct_global_timer ct) (ct_event_queue ct)"

definition slice_ok :: "'cb CoreTiming \<Rightarrow> bool" where
  "slice_ok ct \<longleftrightarrow> 0 \<le> ct_slice_length ct \<and> ct_slice_length ct \<le> MAX_SLICE_LENGTH \<and>
     ct_downcount ct \<le> ct_slice_length ct \<and> - (2 ^ 30) < ct_downcount ct"

lemma events_ok_slice [simp]:
  "events_ok (ct\<lparr>ct_is_global_timer_sane := b, ct_slice_length := l, ct_downcount := d\<rparr>) = events_ok ct"
  by (simp add: events_ok_def timely_def registered_def)

text \<open>Every event whose time is up, and only those, stand at the front of the queue.\<close>

lemma due_prefix:
  assumes "sorted (map ev_key q)"
  shows "\<exists>later. q = filter (\<lambda>e. ev_time e \<le> t) q @ later \<and> (\<forall>e\<in>set later. t < ev_time e)"
  using assms
proof (induction q)
  case (Cons e q)
  show ?case
  proof (cases "ev_time e \<le> t")
    case True
    with Cons show ?thesis by auto
  next
    case False
    have "t < ev_time x" if "x \<in> set (e # q)" for x
      using that Cons.prems False by (auto simp: ev_key_def less_eq_prod_def)
    then show ?thesis by (intro exI [of _ "e # q"]) (auto simp: not_le [symmetric] filter_eq_Nil_iff)
  qed
qed simp

lemma due_Nil_iff:
  assumes "events_ok ct"
  shows "due_events ct = [] \<longleftrightarrow> (\<forall>e\<in>set (ct_event_queue ct). ct_global_timer ct < ev_time e)"
  by (auto simp: due_events_def filter_eq_Nil_iff)

section \<open>The loop of Advance\<close>

text \<open>Running a list of events, each taken from the front of the queue.\<close>

fun fire_all ::
    "('w, 'cb) runner \<Rightarrow> Event list \<Rightarrow> 'w \<times> 'cb CoreTiming \<Rightarrow> ('w \<times> 'cb CoreTiming) option" where
  "fire_all run [] s = Some s"
| "fire_all run (e # es) s = do {
     s' \<leftarrow> fire run e (tl (ct_event_queue (snd s))) s;
     fire_all run es s'
   }"

text \<open>
  What the loop relies on: a callback comes back, and leaves the clock, the registered types and
  the events that are due alone. It may schedule and cancel later events.
\<close>

definition lets_due_run :: "(string \<rightharpoonup> 'cb TimedCallback) \<Rightarrow> ('w, 'cb) runner \<Rightarrow> bool" where
  "lets_due_run types run \<longleftrightarrow> (\<forall>cb userdata late w ct. Callback cb \<in> ran types \<and> ct_event_types ct = types \<and>
     events_ok ct \<and> ct_is_global_timer_sane ct \<longrightarrow>
     (\<exists>w' ct'. run cb userdata late (w, ct) = Some (w', ct') \<and> events_ok ct' \<and>
        ct_is_global_timer_sane ct' \<and> ct_global_timer ct' = ct_global_timer ct \<and>
        ct_slice_length ct' = ct_slice_length ct \<and> ct_event_types ct' = types \<and>
        due_events ct' = due_events ct))"

lemma fire_at:
  assumes run: "lets_due_run (ct_event_types ct) run" and ok: "events_ok ct" "ct_is_global_timer_sane ct"
    and q: "ct_event_queue ct = e # rest" and due: "ev_time e \<le> ct_global_timer ct"
  shows "\<exists>w' ct'. fire run e rest (w, ct) = Some (w', ct') \<and> events_ok ct' \<and>
    ct_is_global_timer_sane ct' \<and> ct_global_timer ct' = ct_global_timer ct \<and>
    ct_slice_length ct' = ct_slice_length ct \<and> ct_event_types ct' = ct_event_types ct \<and>
    due_events ct = e # due_events ct'"
proof -
  let ?ct = "ct\<lparr>ct_event_queue := rest\<rparr>"
  have t: "- (2 ^ 62) < ev_time e" "registered ct (ev_type e)" "0 \<le> ct_global_timer ct" "ct_global_timer ct < 2 ^ 61"
    using ok(1) q by (auto simp: events_ok_def timely_def)
  have late: "s64_range (ct_global_timer ct - ev_time e) = Some (ct_global_timer ct - ev_time e)"
    using t due by (intro s64_range_Some) simp_all
  have ok': "events_ok ?ct" "ct_is_global_timer_sane ?ct"
    using ok q by (auto simp: events_ok_def timely_def registered_def)
  have d: "due_events ct = e # due_events ?ct" using due q by (simp add: due_events_def)
  obtain name cb where n: "ev_type e = Some name" "ct_event_types ct name = Some cb"
    using t(2) by (auto simp: registered_def)
  show ?thesis
  proof (cases cb)
    case empty_timed_callback
    then show ?thesis using ok' d n by (auto simp: fire_def run_callback_def late)
  next
    case (Callback c)
    have "Callback c \<in> ran (ct_event_types ct)" using n Callback by (auto intro: ranI)
    then obtain w' ct' where "run c (ev_userdata e) (ct_global_timer ct - ev_time e) (w, ?ct) = Some (w', ct')"
      "events_ok ct'" "ct_is_global_timer_sane ct'" "ct_global_timer ct' = ct_global_timer ct"
      "ct_slice_length ct' = ct_slice_length ct" "ct_event_types ct' = ct_event_types ct"
      "due_events ct' = due_events ?ct"
      using run [unfolded lets_due_run_def, rule_format, of c ?ct "ev_userdata e" "ct_global_timer ct - ev_time e" w] ok'
      by auto
    then show ?thesis using d n Callback by (auto simp: fire_def run_callback_def late)
  qed
qed

lemma advance_loop_at:
  shows "lets_due_run (ct_event_types ct) run \<Longrightarrow> events_ok ct \<Longrightarrow> ct_is_global_timer_sane ct \<Longrightarrow> due_events ct = es \<Longrightarrow>
    \<exists>w' ct'. fire_all run es (w, ct) = Some (w', ct') \<and> advance_loop run (w, ct) = Some (w', ct') \<and>
      events_ok ct' \<and> ct_is_global_timer_sane ct' \<and> ct_global_timer ct' = ct_global_timer ct \<and>
      ct_slice_length ct' = ct_slice_length ct \<and> due_events ct' = []"
proof (induction es arbitrary: w ct)
  case Nil
  have "advance_loop run (w, ct) = Some (w, ct)"
    using Nil due_Nil_iff [of ct]
    by (subst advance_loop.simps) (auto split: list.split)
  then show ?case using Nil by simp
next
  case (Cons e es)
  obtain later where l: "ct_event_queue ct = e # es @ later"
    using due_prefix [of "ct_event_queue ct" "ct_global_timer ct"] Cons.prems
    by (auto simp: events_ok_def due_events_def)
  have due: "ev_time e \<le> ct_global_timer ct"
    using arg_cong [OF Cons.prems(4), of set] by (auto simp: due_events_def)
  obtain w1 ct1 where f: "fire run e (es @ later) (w, ct) = Some (w1, ct1)" "events_ok ct1"
    "ct_is_global_timer_sane ct1" "ct_global_timer ct1 = ct_global_timer ct"
    "ct_slice_length ct1 = ct_slice_length ct" "ct_event_types ct1 = ct_event_types ct"
    "due_events ct = e # due_events ct1"
    using fire_at [OF Cons.prems(1,2,3) l due] by blast
  have "due_events ct1 = es" using f(7) Cons.prems(4) by simp
  moreover have "advance_loop run (w, ct) = advance_loop run (w1, ct1)"
    using l due f(1) by (subst advance_loop.simps) simp
  ultimately show ?case using Cons.IH [of ct1 w1] Cons.prems(1) f l by simp
qed

section \<open>The slice boundary\<close>

text \<open>The events from other threads, numbered in the order in which they came.\<close>

fun renumber :: "u64 \<Rightarrow> Event list \<Rightarrow> Event list" where
  "renumber n [] = []"
| "renumber n (e # q) = e\<lparr>ev_fifo_order := n\<rparr> # renumber (n + 1) q"

lemma renumber_timely: "\<forall>e\<in>set q. timely ct e \<Longrightarrow> e \<in> set (renumber n q) \<Longrightarrow> timely ct e"
  by (induction q arbitrary: n) (auto simp: timely_def)

lemma move_events_at:
  assumes "sorted (map ev_key (ct_event_queue ct))"
  shows "\<exists>q' n'. move_events q ct = ct\<lparr>ct_event_queue := q', ct_event_fifo_id := n'\<rparr> \<and>
    sorted (map ev_key q') \<and> set q' = set (ct_event_queue ct) \<union> set (renumber (ct_event_fifo_id ct) q)"
  using assms
proof (induction q arbitrary: ct)
  case Nil
  show ?case
    by (rule exI [of _ "ct_event_queue ct"], rule exI [of _ "ct_event_fifo_id ct"]) (use Nil in simp)
next
  case (Cons e q)
  let ?ct = "push_event ct (e\<lparr>ev_fifo_order := ct_event_fifo_id ct\<rparr>)"
  have "sorted (map ev_key (ct_event_queue ?ct))"
    using Cons.prems by (simp add: push_event_def sorted_insort_key)
  from Cons.IH [OF this] obtain q' n' where
    "move_events q ?ct = ?ct\<lparr>ct_event_queue := q', ct_event_fifo_id := n'\<rparr>" "sorted (map ev_key q')"
    "set q' = set (ct_event_queue ?ct) \<union> set (renumber (ct_event_fifo_id ?ct) q)"
    by blast
  then show ?case
    by (intro exI [of _ q'] exI [of _ n']) (auto simp: push_event_def set_insort_key)
qed

lemma unschedule_all_at:
  "unschedule_all us ct =
     ct\<lparr>ct_event_queue := filter (\<lambda>e. (ev_type e, ev_userdata e) \<notin> set us) (ct_event_queue ct)\<rparr>"
proof (induction us arbitrary: ct)
  case (Cons u us)
  show ?case
    by (simp add: Cons.IH UnscheduleEvent_def conj_commute)
      (rule arg_cong [where f = "\<lambda>q. ct\<lparr>ct_event_queue := q\<rparr>"], rule filter_cong, auto simp: prod_eq_iff)
qed simp

definition pending :: "'cb CoreTiming \<Rightarrow> Event set" where
  "pending ct = {e \<in> set (ct_event_queue ct) \<union> set (renumber (ct_event_fifo_id ct) (ct_ts_queue ct)).
     (ev_type e, ev_userdata e) \<notin> set (ct_unschedule_queue ct)}"

definition now :: "'cb CoreTiming \<Rightarrow> int" where
  "now ct = ct_global_timer ct + (ct_slice_length ct - ct_downcount ct)"

lemma begin_slice_at:
  assumes ok: "events_ok ct" "slice_ok ct" and ts: "\<forall>e\<in>set (ct_ts_queue ct). timely ct e"
    and t: "now ct < 2 ^ 61"
  shows "\<exists>ct'. begin_slice ct = Some ct' \<and> events_ok ct' \<and> ct_is_global_timer_sane ct' \<and>
    ct_global_timer ct' = now ct \<and> ct_slice_length ct' = MAX_SLICE_LENGTH \<and>
    ct_event_types ct' = ct_event_types ct \<and> set (ct_event_queue ct') = pending ct"
proof -
  let ?F = "\<lambda>e. (ev_type e, ev_userdata e) \<notin> set (ct_unschedule_queue ct)"
  obtain q n where m: "move_events (ct_ts_queue ct) ct = ct\<lparr>ct_event_queue := q, ct_event_fifo_id := n\<rparr>"
    "sorted (map ev_key q)" "set q = set (ct_event_queue ct) \<union> set (renumber (ct_event_fifo_id ct) (ct_ts_queue ct))"
    using move_events_at [of ct "ct_ts_queue ct"] ok(1) by (auto simp: events_ok_def)
  have r: "s32_range (ct_slice_length ct - ct_downcount ct) = Some (ct_slice_length ct - ct_downcount ct)"
    "s64_range (now ct) = Some (now ct)" "0 \<le> now ct"
    using ok t by (auto simp: slice_ok_def events_ok_def now_def MAX_SLICE_LENGTH_def s32_range_def s64_range_def)
  have tm: "timely ct e" if "e \<in> set q" for e
    using that m(3) ok(1) renumber_timely [OF ts] by (auto simp: events_ok_def)
  let ?ct = "ct\<lparr>ct_global_timer := now ct, ct_slice_length := MAX_SLICE_LENGTH, ct_is_global_timer_sane := True,
    ct_event_queue := filter ?F q, ct_event_fifo_id := n, ct_ts_queue := [], ct_unschedule_queue := []\<rparr>"
  have "begin_slice ct = Some ?ct"
    using r unfolding now_def by (simp add: begin_slice_def MoveEvents_def m(1) unschedule_all_at Let_def)
  moreover have "sorted (map ev_key (filter ?F q))" using m(2) by (rule sorted_filter)
  then have "events_ok ?ct" using r t tm by (auto simp: events_ok_def timely_def registered_def)
  moreover have "set (filter ?F q) = pending ct" using m(3) by (auto simp: pending_def)
  ultimately show ?thesis by (intro exI [of _ ?ct]) simp
qed

lemma end_slice_at:
  assumes ok: "events_ok ct" and due: "due_events ct = []" and sl: "ct_slice_length ct = MAX_SLICE_LENGTH"
  shows "\<exists>l. end_slice ct = Some (ct\<lparr>ct_is_global_timer_sane := False, ct_slice_length := l, ct_downcount := l\<rparr>) \<and>
    0 < l \<and> l \<le> MAX_SLICE_LENGTH \<and> (\<forall>e\<in>set (ct_event_queue ct). ct_global_timer ct + l \<le> ev_time e) \<and>
    (l = MAX_SLICE_LENGTH \<or> (\<exists>e\<in>set (ct_event_queue ct). ct_global_timer ct + l = ev_time e))"
proof (cases "ct_event_queue ct")
  case Nil
  have "ct\<lparr>ct_is_global_timer_sane := False, ct_downcount := MAX_SLICE_LENGTH\<rparr> =
      ct\<lparr>ct_is_global_timer_sane := False, ct_slice_length := MAX_SLICE_LENGTH, ct_downcount := MAX_SLICE_LENGTH\<rparr>"
    using sl by simp
  then show ?thesis
    using Nil sl by (intro exI [of _ MAX_SLICE_LENGTH]) (simp add: end_slice_def MAX_SLICE_LENGTH_def)
next
  case (Cons e q)
  let ?l = "min (ev_time e - ct_global_timer ct) MAX_SLICE_LENGTH"
  have e: "ct_global_timer ct < ev_time e" "ev_time e < 2 ^ 62" "0 \<le> ct_global_timer ct"
    using ok due Cons due_Nil_iff [OF ok] by (auto simp: events_ok_def timely_def)
  have le: "ev_time e \<le> ev_time x" if "x \<in> set (ct_event_queue ct)" for x
    using that ok Cons by (auto simp: events_ok_def ev_key_def less_eq_prod_def)
  have r: "s64_range (ev_time e - ct_global_timer ct) = Some (ev_time e - ct_global_timer ct)"
    using e by (intro s64_range_Some) simp_all
  have c: "to_s32 ?l = ?l" by (rule signed_take_bit_int_eq_self) (use e in \<open>auto simp: MAX_SLICE_LENGTH_def\<close>)
  have "end_slice ct = Some (ct\<lparr>ct_is_global_timer_sane := False, ct_slice_length := ?l, ct_downcount := ?l\<rparr>)"
    using Cons by (simp add: end_slice_def r c)
  moreover have "ct_global_timer ct + ?l \<le> ev_time x" if "x \<in> set (ct_event_queue ct)" for x
    using le [OF that] by linarith
  ultimately show ?thesis
    using e Cons by (intro exI [of _ ?l]) (auto simp: MAX_SLICE_LENGTH_def min_def)
qed

lemma Advance_at:
  assumes run: "lets_due_run (ct_event_types ct) run" and ok: "events_ok ct" "slice_ok ct"
    and ts: "\<forall>e\<in>set (ct_ts_queue ct). timely ct e" and t: "now ct < 2 ^ 61"
  shows "\<exists>ct1 w' ct2 l. begin_slice ct = Some ct1 \<and> ct_global_timer ct1 = now ct \<and>
    set (due_events ct1) = {e \<in> pending ct. ev_time e \<le> now ct} \<and> sorted (map ev_key (due_events ct1)) \<and>
    fire_all run (due_events ct1) (w, ct1) = Some (w', ct2) \<and> events_ok ct2 \<and> ct_global_timer ct2 = now ct \<and>
    Advance run (w, ct) =
      Some (w', ct2\<lparr>ct_is_global_timer_sane := False, ct_slice_length := l, ct_downcount := l\<rparr>) \<and>
    0 < l \<and> l \<le> MAX_SLICE_LENGTH \<and> (\<forall>e\<in>set (ct_event_queue ct2). now ct + l \<le> ev_time e) \<and>
    (l = MAX_SLICE_LENGTH \<or> (\<exists>e\<in>set (ct_event_queue ct2). now ct + l = ev_time e))"
proof -
  obtain ct1 where b: "begin_slice ct = Some ct1" "events_ok ct1" "ct_is_global_timer_sane ct1"
    "ct_global_timer ct1 = now ct" "ct_slice_length ct1 = MAX_SLICE_LENGTH"
    "ct_event_types ct1 = ct_event_types ct" "set (ct_event_queue ct1) = pending ct"
    using begin_slice_at [OF ok ts t] by blast
  obtain w' ct2 where f: "fire_all run (due_events ct1) (w, ct1) = Some (w', ct2)"
    "advance_loop run (w, ct1) = Some (w', ct2)" "events_ok ct2" "ct_global_timer ct2 = now ct"
    "ct_slice_length ct2 = MAX_SLICE_LENGTH" "due_events ct2 = []"
    using advance_loop_at [OF _ b(2,3) refl, of run w] run b(4-6) by auto
  obtain l where l: "end_slice ct2 = Some (ct2\<lparr>ct_is_global_timer_sane := False, ct_slice_length := l, ct_downcount := l\<rparr>)"
    "0 < l" "l \<le> MAX_SLICE_LENGTH" "\<forall>e\<in>set (ct_event_queue ct2). ct_global_timer ct2 + l \<le> ev_time e"
    "l = MAX_SLICE_LENGTH \<or> (\<exists>e\<in>set (ct_event_queue ct2). ct_global_timer ct2 + l = ev_time e)"
    using end_slice_at [OF f(3,6,5)] by blast
  have "Advance run (w, ct) = Some (w', ct2\<lparr>ct_is_global_timer_sane := False, ct_slice_length := l, ct_downcount := l\<rparr>)"
    using b(1) f(2) l(1) by (simp add: Advance_def)
  moreover have "sorted (map ev_key (due_events ct1))"
    using b(2) by (simp add: events_ok_def due_events_def sorted_filter)
  moreover have "set (due_events ct1) = {e \<in> pending ct. ev_time e \<le> now ct}"
    using b(4,7) by (auto simp: due_events_def)
  ultimately show ?thesis
    using b f(1,3,4) l by (intro exI [of _ ct1] exI [of _ w'] exI [of _ ct2] exI [of _ l]) simp
qed

text \<open>
  \<^bold>\<open>C26\<close>. \<open>Advance\<close>, called at a slice boundary while every callback comes back and
  leaves the clock and the events that are already due alone, returns. It moves the clock
  forward by the cycles executed; takes over the events of other threads and drops the
  cancelled ones; runs exactly the pending events whose time is up, each once, in the order of
  their time and then of their sequence number; and begins a slice of 1 to 20000 cycles that
  ends at the earliest event left, if that is not further away.
\<close>

theorem Advance_correct:
  assumes run: "lets_due_run (ct_event_types ct) run" and ok: "events_ok ct" "slice_ok ct"
    and ts: "\<forall>e\<in>set (ct_ts_queue ct). timely ct e" and t: "now ct < 2 ^ 61"
  shows "\<exists>ct1 w' ct'. begin_slice ct = Some ct1 \<and> ct_global_timer ct1 = now ct \<and>
    set (due_events ct1) = {e \<in> pending ct. ev_time e \<le> now ct} \<and> sorted (map ev_key (due_events ct1)) \<and>
    Advance run (w, ct) = Some (w', ct') \<and>
    (\<exists>ct2. fire_all run (due_events ct1) (w, ct1) = Some (w', ct2) \<and> ct_event_queue ct' = ct_event_queue ct2) \<and>
    events_ok ct' \<and> slice_ok ct' \<and> \<not> ct_is_global_timer_sane ct' \<and>
    ct_global_timer ct' = now ct \<and> now ct' = now ct \<and> 0 < ct_downcount ct' \<and>
    (\<forall>e\<in>set (ct_event_queue ct'). now ct + ct_downcount ct' \<le> ev_time e) \<and>
    (ct_downcount ct' = 20000 \<or> (\<exists>e\<in>set (ct_event_queue ct'). now ct + ct_downcount ct' = ev_time e))"
proof -
  obtain ct1 w' ct2 l where a: "begin_slice ct = Some ct1" "ct_global_timer ct1 = now ct"
    "set (due_events ct1) = {e \<in> pending ct. ev_time e \<le> now ct}" "sorted (map ev_key (due_events ct1))"
    "fire_all run (due_events ct1) (w, ct1) = Some (w', ct2)" "events_ok ct2" "ct_global_timer ct2 = now ct"
    "Advance run (w, ct) = Some (w', ct2\<lparr>ct_is_global_timer_sane := False, ct_slice_length := l, ct_downcount := l\<rparr>)"
    "0 < l" "l \<le> MAX_SLICE_LENGTH" "\<forall>e\<in>set (ct_event_queue ct2). now ct + l \<le> ev_time e"
    "l = MAX_SLICE_LENGTH \<or> (\<exists>e\<in>set (ct_event_queue ct2). now ct + l = ev_time e)"
    using Advance_at [OF assms, of w] by blast
  let ?ct = "ct2\<lparr>ct_is_global_timer_sane := False, ct_slice_length := l, ct_downcount := l\<rparr>"
  show ?thesis
    using a by (intro exI [of _ ct1] exI [of _ w'] exI [of _ ?ct])
      (auto simp: slice_ok_def now_def MAX_SLICE_LENGTH_def)
qed

section \<open>Punctuality\<close>

text \<open>
  The operations of the emulator thread within a slice: it schedules events that are not in the
  past, removes events, and counts executed cycles, at most up to the downcount, as the CPU does.
\<close>

inductive slice_step :: "'cb CoreTiming \<Rightarrow> 'cb CoreTiming \<Rightarrow> bool" where
  "0 \<le> c \<Longrightarrow> c < 2 ^ 60 \<Longrightarrow> registered ct p \<Longrightarrow> ScheduleEvent ct c p u = Some ct' \<Longrightarrow> slice_step ct ct'"
| "slice_step ct (UnscheduleEvent ct p u)"
| "slice_step ct (RemoveEvent ct p)"
| "0 \<le> c \<Longrightarrow> ForceExceptionCheck ct c = Some ct' \<Longrightarrow> slice_step ct ct'"
| "int (unat n) \<le> ct_downcount ct \<Longrightarrow> AddTicks ct n = Some ct' \<Longrightarrow> slice_step ct ct'"
| "Idle ct = Some ct' \<Longrightarrow> slice_step ct ct'"

text \<open>Inside a slice no pending event is earlier than the end of the slice.\<close>

definition slice_inv :: "'cb CoreTiming \<Rightarrow> bool" where
  "slice_inv ct \<longleftrightarrow> events_ok ct \<and> \<not> ct_is_global_timer_sane ct \<and> 0 \<le> ct_downcount ct \<and>
     ct_downcount ct \<le> ct_slice_length ct \<and> ct_slice_length ct \<le> MAX_SLICE_LENGTH \<and>
     (\<forall>e\<in>set (ct_event_queue ct). ct_global_timer ct + ct_slice_length ct \<le> ev_time e)"

lemma GetTicks_at:
  assumes "slice_inv ct"
  shows "\<exists>t. GetTicks ct = Some t \<and> t = word_of_int (now ct)" "0 \<le> now ct" "now ct < 2 ^ 61 + 20000"
  using assms by (auto simp: slice_inv_def events_ok_def GetTicks_def now_def MAX_SLICE_LENGTH_def s32_range_def)

lemma ForceExceptionCheck_at:
  assumes "slice_inv ct" and "0 \<le> c"
  shows "\<exists>l d. ForceExceptionCheck ct c = Some (ct\<lparr>ct_slice_length := l, ct_downcount := d\<rparr>) \<and> 0 \<le> d \<and> d \<le> l \<and>
    l \<le> ct_slice_length ct \<and> ct_global_timer ct + l \<le> now ct + c \<and> l - d = ct_slice_length ct - ct_downcount ct"
proof (cases "ct_downcount ct \<le> c")
  case True
  then show ?thesis
    using assms by (intro exI [of _ "ct_slice_length ct"] exI [of _ "ct_downcount ct"])
      (simp add: ForceExceptionCheck_def slice_inv_def now_def)
next
  case False
  have b: "ct_downcount ct \<le> ct_slice_length ct" "ct_slice_length ct \<le> 20000"
    using assms by (simp_all add: slice_inv_def MAX_SLICE_LENGTH_def)
  have c: "to_s32 c = c" by (rule signed_take_bit_int_eq_self) (use False assms b in auto)
  have r: "s32_range (ct_downcount ct - c) = Some (ct_downcount ct - c)"
    "s32_range (ct_slice_length ct - (ct_downcount ct - c)) = Some (ct_slice_length ct - (ct_downcount ct - c))"
    using False assms b by (auto intro!: s32_range_Some)
  show ?thesis
    using False assms b
    by (intro exI [of _ "ct_slice_length ct - (ct_downcount ct - c)"] exI [of _ c])
      (simp add: ForceExceptionCheck_def c r now_def)
qed

lemma ScheduleEvent_at:
  assumes inv: "slice_inv ct" and c: "0 \<le> c" "c < 2 ^ 60" and p: "registered ct p"
  shows "\<exists>ct'. ScheduleEvent ct c p u = Some ct' \<and> slice_inv ct' \<and> now ct' = now ct \<and>
    set (ct_event_queue ct') = insert \<lparr>ev_time = now ct + c, ev_fifo_order = ct_event_fifo_id ct,
      ev_userdata = u, ev_type = p\<rparr> (set (ct_event_queue ct)) \<and>
    ct_event_types ct' = ct_event_types ct \<and> ct_ts_queue ct' = ct_ts_queue ct"
proof -
  obtain l d where f: "ForceExceptionCheck ct c = Some (ct\<lparr>ct_slice_length := l, ct_downcount := d\<rparr>)"
    "0 \<le> d" "d \<le> l" "l \<le> ct_slice_length ct" "ct_global_timer ct + l \<le> now ct + c"
    "l - d = ct_slice_length ct - ct_downcount ct"
    using ForceExceptionCheck_at [OF inv c(1)] by blast
  have n: "GetTicks ct = Some (word_of_int (now ct))" "0 \<le> now ct" "now ct < 2 ^ 61 + 20000"
    using GetTicks_at [OF inv] by blast+
  have "(word_of_int (now ct) :: u64) + word_of_int c = word_of_int (now ct + c)" by simp
  then have w: "to_s64 ((word_of_int (now ct) :: u64) + word_of_int c) = now ct + c"
    using n c by (simp add: s64_word del: of_int_add)
  let ?e = "\<lparr>ev_time = now ct + c, ev_fifo_order = ct_event_fifo_id ct, ev_userdata = u, ev_type = p\<rparr>"
  let ?ct = "push_event (ct\<lparr>ct_slice_length := l, ct_downcount := d\<rparr>) ?e"
  have "ScheduleEvent ct c p u = Some ?ct"
    using inv n w f(1) p by (auto simp: ScheduleEvent_def slice_inv_def registered_def Let_def)
  moreover have "timely ct ?e" using n c p by (simp add: timely_def)
  then have "slice_inv ?ct"
    using inv f by (auto simp: slice_inv_def events_ok_def push_event_def sorted_insort_key set_insort_key
        timely_def registered_def)
  moreover have "now ?ct = now ct" using f(6) by (simp add: now_def push_event_def)
  ultimately show ?thesis by (intro exI [of _ ?ct]) (simp add: push_event_def set_insort_key)
qed

lemma slice_step_inv:
  assumes "slice_step ct ct'" and inv: "slice_inv ct"
  shows "slice_inv ct' \<and> ct_ts_queue ct' = ct_ts_queue ct"
  using assms
proof cases
  case (1 c p u)
  then show ?thesis using ScheduleEvent_at [OF inv 1(1-3), of u] by auto
next
  case (2 p u)
  then show ?thesis using inv
    by (auto simp: slice_inv_def UnscheduleEvent_def events_ok_def timely_def registered_def sorted_filter)
next
  case (3 p)
  then show ?thesis using inv
    by (auto simp: slice_inv_def RemoveEvent_def events_ok_def timely_def registered_def sorted_filter)
next
  case (4 c)
  then show ?thesis using ForceExceptionCheck_at [OF inv 4(1)] inv
    by (fastforce simp: slice_inv_def events_ok_def timely_def registered_def)
next
  case (5 n)
  then have "int (unat n) \<le> 20000" using inv by (simp add: slice_inv_def MAX_SLICE_LENGTH_def)
  then have "to_s32 (uint n) = uint n"
    using order_trans [of "- 2147483648" 0 "uint n"] by (intro signed_take_bit_int_eq_self) auto
  moreover have "ct_downcount ct - uint n \<le> ct_slice_length ct" 
    using inv uint_ge_0 [of n] unfolding slice_inv_def by linarith
  ultimately show ?thesis using 5 inv
    by (auto simp: AddTicks_def slice_inv_def events_ok_def timely_def registered_def s32_range_def split: if_splits)
next
  case 6
  then show ?thesis using inv
    by (auto simp: Idle_def slice_inv_def events_ok_def timely_def registered_def s64_range_def split: if_splits)
qed

lemma slice_steps_inv:
  assumes "slice_step\<^sup>*\<^sup>* ct ct'" and "slice_inv ct"
  shows "slice_inv ct' \<and> ct_ts_queue ct' = ct_ts_queue ct"
  using assms by (induction rule: rtranclp_induct) (auto dest: slice_step_inv)

text \<open>
  \<^bold>\<open>C27\<close>. Events run on time. After \<open>Advance\<close>, let the emulator thread do any number of
  steps: schedule events that are not in the past, remove events, force a check, execute cycles
  up to the downcount, or idle. Then, unless other threads have scheduled something, every event
  that the next \<open>Advance\<close> finds due is due at exactly that cycle: its callback is told that it is
  0 cycles late.
\<close>

theorem events_on_time:
  assumes run: "lets_due_run (ct_event_types ct) run" and ok: "events_ok ct" "slice_ok ct"
    and ts: "\<forall>e\<in>set (ct_ts_queue ct). timely ct e" and t: "now ct < 2 ^ 61"
    and adv: "Advance run (w, ct) = Some (w', ct1)" and steps: "slice_step\<^sup>*\<^sup>* ct1 ct2"
    and quiet: "ct_ts_queue ct1 = []"
    and e: "e \<in> pending ct2" "ev_time e \<le> now ct2"
  shows "ev_time e = now ct2"
proof -
  obtain l where l: "ct_slice_length ct1 = l" "ct_downcount ct1 = l" "0 < l" "l \<le> MAX_SLICE_LENGTH"
    "\<forall>e\<in>set (ct_event_queue ct1). ct_global_timer ct1 + l \<le> ev_time e" "events_ok ct1" "\<not> ct_is_global_timer_sane ct1"
    using Advance_at [OF run ok ts t, of w] adv by auto
  then have "slice_inv ct1" by (simp add: slice_inv_def)
  then have inv: "slice_inv ct2" "ct_ts_queue ct2 = []" using slice_steps_inv [OF steps] quiet by auto
  then have "ct_global_timer ct2 + ct_slice_length ct2 \<le> ev_time e"
    using e(1) by (auto simp: slice_inv_def pending_def)
  then show ?thesis using e(2) inv(1) by (simp add: now_def slice_inv_def)
qed

section \<open>An example\<close>

text \<open>A callback that logs its userdata and schedules the event again 1000 cycles later.\<close>

definition tick :: "(u64 list, unit) runner" where
  "tick cb userdata late s = do {
     ct \<leftarrow> ScheduleEvent (snd s) 1000 (Some ''tick'') userdata;
     Some (fst s @ [userdata], ct)
   }"

definition tick_ct :: "unit CoreTiming" where
  "tick_ct = CoreTiming_create\<lparr>ct_event_types := Map.empty(''tick'' \<mapsto> Callback ()), ct_slice_length := 500,
     ct_event_queue := [\<lparr>ev_time = 500, ev_fifo_order = 0, ev_userdata = 7, ev_type = Some ''tick''\<rparr>],
     ct_event_fifo_id := 1\<rparr>"

lemma tick_lets_due_run: "lets_due_run (ct_event_types tick_ct) tick"
  unfolding lets_due_run_def
proof (intro allI impI, elim conjE)
  fix cb userdata late w and ct :: "unit CoreTiming"
  assume types: "ct_event_types ct = ct_event_types tick_ct" and ok: "events_ok ct" and sane: "ct_is_global_timer_sane ct"
  have g: "0 \<le> ct_global_timer ct" "ct_global_timer ct < 2 ^ 61" using ok by (simp_all add: events_ok_def)
  have "(word_of_int (ct_global_timer ct) :: u64) + 1000 = word_of_int (ct_global_timer ct + 1000)" by simp
  then have w: "to_s64 ((word_of_int (ct_global_timer ct) :: u64) + 1000) = ct_global_timer ct + 1000"
    using g by (simp add: s64_word del: of_int_add)
  let ?e = "\<lparr>ev_time = ct_global_timer ct + 1000, ev_fifo_order = ct_event_fifo_id ct, ev_userdata = userdata,
    ev_type = Some ''tick''\<rparr>"
  have "tick cb userdata late (w, ct) = Some (w @ [userdata], push_event ct ?e)"
    using sane w by (simp add: tick_def ScheduleEvent_def GetTicks_def)
  moreover have "timely ct ?e" using g types by (simp add: timely_def registered_def tick_ct_def)
  then have "events_ok (push_event ct ?e)"
    using ok by (auto simp: events_ok_def push_event_def sorted_insort_key set_insort_key timely_def registered_def)
  moreover have "due_events (push_event ct ?e) = due_events ct"
    by (simp add: due_events_def push_event_def filter_insort_triv)
  ultimately show "\<exists>w' ct'. tick cb userdata late (w, ct) = Some (w', ct') \<and> events_ok ct' \<and>
        ct_is_global_timer_sane ct' \<and> ct_global_timer ct' = ct_global_timer ct \<and>
        ct_slice_length ct' = ct_slice_length ct \<and> ct_event_types ct' = ct_event_types tick_ct \<and>
        due_events ct' = due_events ct"
    using sane types by (simp add: push_event_def)
qed

lemma tick_ct_ok:
  "events_ok tick_ct" "slice_ok tick_ct" "ct_ts_queue tick_ct = []" "now tick_ct = 500" "ct_unschedule_queue tick_ct = []"
  by (simp_all add: tick_ct_def CoreTiming_create_def events_ok_def slice_ok_def now_def timely_def registered_def
      MAX_SLICE_LENGTH_def)

lemma tick_Advance:
  "Advance tick ([], tick_ct) = Some ([7], tick_ct\<lparr>ct_global_timer := 500, ct_slice_length := 1000, ct_downcount := 1000,
     ct_event_queue := [\<lparr>ev_time = 1500, ev_fifo_order = 1, ev_userdata = 7, ev_type = Some ''tick''\<rparr>],
     ct_event_fifo_id := 2\<rparr>)"
  unfolding Advance_def begin_slice_def MoveEvents_def tick_ct_def CoreTiming_create_def
  by (simp add: s32_range_def s64_range_def, subst advance_loop.simps)
    (simp add: fire_def run_callback_def tick_def ScheduleEvent_def GetTicks_def s64_range_def push_event_def
      end_slice_def, subst advance_loop.simps, simp add: s64_range_def MAX_SLICE_LENGTH_def)

lemma tick_pending: "pending tick_ct = set (ct_event_queue tick_ct)"
  by (simp add: pending_def tick_ct_def CoreTiming_create_def)

theorem Advance_correct_witness:
  "lets_due_run (ct_event_types tick_ct) tick \<and> events_ok tick_ct \<and> slice_ok tick_ct \<and> now tick_ct = 500 \<and>
   (\<exists>ct1 ct'. begin_slice tick_ct = Some ct1 \<and> set (due_events ct1) = set (ct_event_queue tick_ct) \<and>
      Advance tick ([], tick_ct) = Some ([7], ct') \<and> ct_global_timer ct' = 500 \<and> ct_downcount ct' = 1000)"
proof -
  have "set (ct_event_queue tick_ct) = {e \<in> pending tick_ct. ev_time e \<le> 500}"
    by (auto simp: tick_pending) (simp add: tick_ct_def)
  then show ?thesis
    using Advance_correct [OF tick_lets_due_run tick_ct_ok(1,2), of "[]"] tick_lets_due_run tick_ct_ok tick_Advance
    by auto
qed

theorem events_on_time_witness:
  "\<exists>ct1 ct2 e. Advance tick ([], tick_ct) = Some ([7], ct1) \<and> slice_step\<^sup>*\<^sup>* ct1 ct2 \<and> e \<in> pending ct2 \<and>
     ev_time e \<le> now ct2 \<and> ev_time e = 1500 \<and> ev_time e = now ct2"
proof -
  let ?e = "\<lparr>ev_time = 1500, ev_fifo_order = 1, ev_userdata = 7, ev_type = Some ''tick''\<rparr>"
  obtain ct1 where a: "Advance tick ([], tick_ct) = Some ([7], ct1)" "ct_global_timer ct1 = 500"
    "ct_slice_length ct1 = 1000" "ct_downcount ct1 = 1000" "ct_event_queue ct1 = [?e]"
    "ct_ts_queue ct1 = []" "ct_unschedule_queue ct1 = []"
    using tick_Advance tick_ct_ok by simp
  let ?ct = "ct1\<lparr>ct_downcount := 0\<rparr>"
  have s: "slice_step\<^sup>*\<^sup>* ct1 ?ct"
    using slice_step.intros(5) [of 1000 ct1 ?ct] a(4) by (intro r_into_rtranclp) (simp add: AddTicks_def s32_range_def)
  have e: "?e \<in> pending ?ct" "ev_time ?e \<le> now ?ct" using a by (simp_all add: pending_def now_def)
  have "ev_time ?e = now ?ct"
    by (rule events_on_time [OF tick_lets_due_run tick_ct_ok(1,2) _ _ a(1) s a(6) e]) (simp_all add: tick_ct_ok)
  then show ?thesis using a(1) s e by (metis Event.select_convs(1))
qed

end
