(* ===== verification/Spsc_Queue.thy ===== *)
theory Spsc_Queue
  imports Yuzu_Prelude "HOL-Library.Sublist"
begin

text \<open>
  The lock-free queue for one reader and one writer of \<^verbatim>\<open>common/threadsafe_queue.h\<close>, and the
  queue for several writers that is built on it.

  The nodes live in an explicit store: a node that has been deleted is not in the store any
  more, and touching it, or a null pointer, is undefined behaviour, \<open>None\<close>. Each function is
  split at the points where it touches memory that the other thread can see. The threads
  interleave at these points, sequentially consistently.
\<close>

section \<open>The model\<close>

record 'a ElementPtr =
  el_current :: "'a option"
  el_next :: "nat option"

text \<open>\<open>sq_fresh\<close> is the next address that \<open>new\<close> returns.\<close>

record 'a SPSCQueue =
  sq_nodes :: "nat \<rightharpoonup> 'a ElementPtr"
  sq_fresh :: nat
  sq_write_ptr :: nat
  sq_read_ptr :: nat
  sq_size :: nat

definition new_node :: "'a ElementPtr" where
  "new_node = \<lparr>el_current = None, el_next = None\<rparr>"

definition SPSC_create :: "'a SPSCQueue" where
  "SPSC_create = \<lparr>sq_nodes = [0 \<mapsto> new_node], sq_fresh = 1, sq_write_ptr = 0, sq_read_ptr = 0, sq_size = 0\<rparr>"

definition SPSC_Size :: "'a SPSCQueue \<Rightarrow> nat" where
  "SPSC_Size q = sq_size q"

definition SPSC_Empty :: "'a SPSCQueue \<Rightarrow> bool" where
  "SPSC_Empty q = (SPSC_Size q = 0)"

definition SPSC_Front :: "'a SPSCQueue \<Rightarrow> 'a option" where
  "SPSC_Front q = do { n \<leftarrow> sq_nodes q (sq_read_ptr q); el_current n }"

text \<open>The steps of \<open>Push\<close>: store the element, link a new node, advance, count.\<close>

definition push_store :: "'a \<Rightarrow> 'a SPSCQueue \<Rightarrow> 'a SPSCQueue option" where
  "push_store t q = do {
     n \<leftarrow> sq_nodes q (sq_write_ptr q);
     Some (q\<lparr>sq_nodes := (sq_nodes q)(sq_write_ptr q \<mapsto> n\<lparr>el_current := Some t\<rparr>)\<rparr>)
   }"

definition push_link :: "'a SPSCQueue \<Rightarrow> ('a SPSCQueue \<times> nat) option" where
  "push_link q = do {
     let new_ptr = sq_fresh q;
     n \<leftarrow> sq_nodes q (sq_write_ptr q);
     Some (q\<lparr>sq_nodes := (sq_nodes q)(new_ptr \<mapsto> new_node, sq_write_ptr q \<mapsto> n\<lparr>el_next := Some new_ptr\<rparr>),
             sq_fresh := sq_fresh q + 1\<rparr>, new_ptr)
   }"

definition push_advance :: "nat \<Rightarrow> 'a SPSCQueue \<Rightarrow> 'a SPSCQueue" where
  "push_advance new_ptr q = q\<lparr>sq_write_ptr := new_ptr\<rparr>"

definition push_count :: "'a SPSCQueue \<Rightarrow> 'a SPSCQueue" where
  "push_count q = q\<lparr>sq_size := sq_size q + 1\<rparr>"

definition SPSC_Push :: "'a SPSCQueue \<Rightarrow> 'a \<Rightarrow> 'a SPSCQueue option" where
  "SPSC_Push q t = do {
     q \<leftarrow> push_store t q;
     (q, new_ptr) \<leftarrow> push_link q;
     Some (push_count (push_advance new_ptr q))
   }"

text \<open>The steps of \<open>Pop\<close> after the test for emptiness.\<close>

definition pop_count :: "'a SPSCQueue \<Rightarrow> 'a SPSCQueue" where
  "pop_count q = q\<lparr>sq_size := sq_size q - 1\<rparr>"

definition pop_unlink :: "'a SPSCQueue \<Rightarrow> ('a SPSCQueue \<times> nat) option" where
  "pop_unlink q = do {
     let tmpptr = sq_read_ptr q;
     n \<leftarrow> sq_nodes q tmpptr;
     next \<leftarrow> el_next n;
     Some (q\<lparr>sq_read_ptr := next\<rparr>, tmpptr)
   }"

definition pop_take :: "nat \<Rightarrow> 'a SPSCQueue \<Rightarrow> ('a SPSCQueue \<times> 'a) option" where
  "pop_take tmpptr q = do {
     n \<leftarrow> sq_nodes q tmpptr;
     t \<leftarrow> el_current n;
     Some (q\<lparr>sq_nodes := (sq_nodes q)(tmpptr := None)\<rparr>, t)
   }"

definition SPSC_Pop :: "'a SPSCQueue \<Rightarrow> ('a SPSCQueue \<times> 'a option) option" where
  "SPSC_Pop q =
     (if SPSC_Empty q then Some (q, None)
      else do {
        (q, tmpptr) \<leftarrow> pop_unlink (pop_count q);
        (q, t) \<leftarrow> pop_take tmpptr q;
        Some (q, Some t)
      })"

text \<open>The overload that discards the element; on an empty queue it leaves a null \<open>read_ptr\<close>.\<close>

definition SPSC_Pop_discard :: "'a SPSCQueue \<Rightarrow> 'a SPSCQueue option" where
  "SPSC_Pop_discard q = do {
     (q, tmpptr) \<leftarrow> pop_unlink (pop_count q);
     Some (q\<lparr>sq_nodes := (sq_nodes q)(tmpptr := None)\<rparr>)
   }"

text \<open>\<open>PopWait\<close> on a queue that stays empty does not come back.\<close>

definition SPSC_PopWait :: "'a SPSCQueue \<Rightarrow> ('a SPSCQueue \<times> 'a) option" where
  "SPSC_PopWait q =
     (if SPSC_Empty q then None
      else do {
        (q, t) \<leftarrow> SPSC_Pop q;
        t \<leftarrow> t;
        Some (q, t)
      })"

text \<open>The destructor of a node deletes all nodes that follow it.\<close>

fun delete_chain :: "nat \<Rightarrow> nat \<Rightarrow> (nat \<rightharpoonup> 'a ElementPtr) \<Rightarrow> (nat \<rightharpoonup> 'a ElementPtr)" where
  "delete_chain 0 p m = m"
| "delete_chain (Suc fuel) p m =
     (case m p of
        None \<Rightarrow> m
      | Some n \<Rightarrow> (case el_next n of None \<Rightarrow> m(p := None) | Some p' \<Rightarrow> (delete_chain fuel p' m)(p := None)))"

definition SPSC_Clear :: "'a SPSCQueue \<Rightarrow> 'a SPSCQueue" where
  "SPSC_Clear q =
     (let m = delete_chain (sq_fresh q) (sq_read_ptr q) (sq_nodes q);
          p = sq_fresh q
      in \<lparr>sq_nodes = m(p \<mapsto> new_node), sq_fresh = p + 1, sq_write_ptr = p, sq_read_ptr = p, sq_size = 0\<rparr>)"

text \<open>
  The queue for several writers: \<open>Push\<close> takes a lock, so that writers follow one another, and
  everything else is passed on.
\<close>

definition MPSC_Size :: "'a SPSCQueue \<Rightarrow> nat" where
  "MPSC_Size q = SPSC_Size q"

definition MPSC_Empty :: "'a SPSCQueue \<Rightarrow> bool" where
  "MPSC_Empty q = SPSC_Empty q"

definition MPSC_Push :: "'a SPSCQueue \<Rightarrow> 'a \<Rightarrow> 'a SPSCQueue option" where
  "MPSC_Push q t = SPSC_Push q t"

definition MPSC_Pop :: "'a SPSCQueue \<Rightarrow> ('a SPSCQueue \<times> 'a option) option" where
  "MPSC_Pop q = SPSC_Pop q"

section \<open>Two threads\<close>

text \<open>
  Where the writer is in \<open>Push\<close>, and the reader in \<open>Pop\<close> or \<open>PopWait\<close>. A reader in \<open>RSleep\<close>
  waits on the condition variable; \<open>notify_one\<close> makes it test the condition again.
\<close>

datatype pc_writer = WIdle | WStored | WLinked nat | WAdvanced | WNotified

datatype pc_reader = RIdle | RWait | RSleep | RPop | RChecked | RCounted | RUnlinked nat

text \<open>The queue, the two program counters, all that was pushed and all that was popped so far.\<close>

record 'a spsc_state =
  st_q :: "'a SPSCQueue"
  st_w :: pc_writer
  st_r :: pc_reader
  st_pushed :: "'a list"
  st_popped :: "'a list"

definition notify_one :: "pc_reader \<Rightarrow> pc_reader" where
  "notify_one r = (if r = RSleep then RWait else r)"

definition writer_step :: "'a \<Rightarrow> 'a spsc_state \<Rightarrow> 'a spsc_state option" where
  "writer_step t s = (case st_w s of
     WIdle \<Rightarrow> do { q \<leftarrow> push_store t (st_q s); Some (s\<lparr>st_q := q, st_w := WStored, st_pushed := st_pushed s @ [t]\<rparr>) }
   | WStored \<Rightarrow> do { (q, p) \<leftarrow> push_link (st_q s); Some (s\<lparr>st_q := q, st_w := WLinked p\<rparr>) }
   | WLinked p \<Rightarrow> Some (s\<lparr>st_q := push_advance p (st_q s), st_w := WAdvanced\<rparr>)
   | WAdvanced \<Rightarrow> Some (s\<lparr>st_r := notify_one (st_r s), st_w := WNotified\<rparr>)
   | WNotified \<Rightarrow> Some (s\<lparr>st_q := push_count (st_q s), st_w := WIdle\<rparr>))"

text \<open>The flag says whether a reader that is idle calls \<open>PopWait\<close> or \<open>Pop\<close>.\<close>

definition reader_step :: "bool \<Rightarrow> 'a spsc_state \<Rightarrow> 'a spsc_state option" where
  "reader_step waits s = (case st_r s of
     RIdle \<Rightarrow> Some (if waits then s\<lparr>st_r := if SPSC_Empty (st_q s) then RWait else RPop\<rparr>
                    else if SPSC_Empty (st_q s) then s else s\<lparr>st_r := RChecked\<rparr>)
   | RWait \<Rightarrow> Some (s\<lparr>st_r := if SPSC_Empty (st_q s) then RSleep else RPop\<rparr>)
   | RSleep \<Rightarrow> Some s
   | RPop \<Rightarrow> Some (s\<lparr>st_r := if SPSC_Empty (st_q s) then RIdle else RChecked\<rparr>)
   | RChecked \<Rightarrow> Some (s\<lparr>st_q := pop_count (st_q s), st_r := RCounted\<rparr>)
   | RCounted \<Rightarrow> do { (q, p) \<leftarrow> pop_unlink (st_q s); Some (s\<lparr>st_q := q, st_r := RUnlinked p\<rparr>) }
   | RUnlinked p \<Rightarrow> do {
       (q, t) \<leftarrow> pop_take p (st_q s);
       Some (s\<lparr>st_q := q, st_r := RIdle, st_popped := st_popped s @ [t]\<rparr>)
     })"

datatype 'a thread_step = Writer 'a | Reader bool

fun run_threads :: "'a thread_step list \<Rightarrow> 'a spsc_state \<Rightarrow> 'a spsc_state option" where
  "run_threads [] s = Some s"
| "run_threads (Writer t # sched) s = do { s \<leftarrow> writer_step t s; run_threads sched s }"
| "run_threads (Reader waits # sched) s = do { s \<leftarrow> reader_step waits s; run_threads sched s }"

definition threads_init :: "'a spsc_state" where
  "threads_init = \<lparr>st_q = SPSC_create, st_w = WIdle, st_r = RIdle, st_pushed = [], st_popped = []\<rparr>"

section \<open>Correctness\<close>

text \<open>\<open>linked m p xs e\<close>: the nodes from \<open>p\<close> on hold \<open>xs\<close> and lead to the node \<open>e\<close>.\<close>

fun linked :: "(nat \<rightharpoonup> 'a ElementPtr) \<Rightarrow> nat \<Rightarrow> (nat \<times> 'a) list \<Rightarrow> nat \<Rightarrow> bool" where
  "linked m p [] e \<longleftrightarrow> p = e"
| "linked m p ((a, x) # xs) e \<longleftrightarrow> p = a \<and> (\<exists>a'. m a = Some \<lparr>el_current = Some x, el_next = Some a'\<rparr> \<and> linked m a' xs e)"

lemma linked_cong:
  "\<forall>a\<in>fst ` set xs. m' a = m a \<Longrightarrow> linked m' p xs e = linked m p xs e"
  by (induction m p xs e rule: linked.induct) auto

lemma linked_snoc:
  "linked m p (xs @ [(e, x)]) e' \<longleftrightarrow> linked m p xs e \<and> m e = Some \<lparr>el_current = Some x, el_next = Some e'\<rparr>"
  by (induction xs arbitrary: p) auto

definition tail :: "'a spsc_state \<Rightarrow> nat" where
  "tail s = (case st_w s of WLinked p \<Rightarrow> p | _ \<Rightarrow> sq_write_ptr (st_q s))"

text \<open>Elements that are linked and not yet counted, and counted out and not yet unlinked.\<close>

definition uncounted :: "'a spsc_state \<Rightarrow> nat" where
  "uncounted s = (case st_w s of WIdle \<Rightarrow> 0 | WStored \<Rightarrow> 0 | _ \<Rightarrow> 1)"

definition claimed :: "'a spsc_state \<Rightarrow> nat" where
  "claimed s = (if st_r s = RCounted then 1 else 0)"

text \<open>What the reader holds, and what the writer has stored in the last node.\<close>

definition held :: "'a spsc_state \<Rightarrow> 'a list \<Rightarrow> bool" where
  "held s ys \<longleftrightarrow> (case st_r s of
     RUnlinked p \<Rightarrow> (\<exists>y n. ys = [y] \<and> sq_nodes (st_q s) p = Some n \<and> el_current n = Some y)
   | _ \<Rightarrow> ys = [])"

definition stored :: "'a spsc_state \<Rightarrow> 'a list \<Rightarrow> bool" where
  "stored s zs \<longleftrightarrow> (\<exists>n. sq_nodes (st_q s) (tail s) = Some n \<and> el_next n = None \<and>
     (if st_w s = WStored then \<exists>z. zs = [z] \<and> el_current n = Some z else zs = []))"

definition out_of :: "'a spsc_state \<Rightarrow> nat set" where
  "out_of s = (case st_r s of RUnlinked p \<Rightarrow> {p} | _ \<Rightarrow> {})"

definition spsc_inv :: "'a spsc_state \<Rightarrow> (nat \<times> 'a) list \<Rightarrow> 'a list \<Rightarrow> 'a list \<Rightarrow> bool" where
  "spsc_inv s xs ys zs \<longleftrightarrow> linked (sq_nodes (st_q s)) (sq_read_ptr (st_q s)) xs (tail s) \<and>
     distinct (map fst xs) \<and> tail s \<notin> fst ` set xs \<and> out_of s \<inter> insert (tail s) (fst ` set xs) = {} \<and>
     (\<forall>a \<in> insert (tail s) (fst ` set xs) \<union> out_of s. a < sq_fresh (st_q s)) \<and>
     length xs = sq_size (st_q s) + uncounted s + claimed s \<and>
     (st_r s = RChecked \<longrightarrow> 0 < sq_size (st_q s)) \<and>
     held s ys \<and> stored s zs \<and> st_pushed s = st_popped s @ ys @ map snd xs @ zs"

lemmas spsc_defs = tail_def uncounted_def claimed_def held_def stored_def out_of_def

text \<open>The reader is not between the decrement of the size and the deletion of a node.\<close>

definition outside :: "pc_reader \<Rightarrow> bool" where
  "outside r \<longleftrightarrow> r \<in> {RIdle, RWait, RSleep, RPop, RChecked}"

lemma outside_simps:
  assumes "outside (st_r s)"
  shows "held s ys \<longleftrightarrow> ys = []" "out_of s = {}" "claimed s = 0"
  using assms by (auto simp: outside_def held_def out_of_def claimed_def)

lemma reader_frame:
  "tail (s\<lparr>st_r := r\<rparr>) = tail s" "uncounted (s\<lparr>st_r := r\<rparr>) = uncounted s" "stored (s\<lparr>st_r := r\<rparr>) = stored s"
proof -
  show t: "tail (s\<lparr>st_r := r\<rparr>) = tail s" by (cases "st_w s") (simp_all add: tail_def)
  show "uncounted (s\<lparr>st_r := r\<rparr>) = uncounted s" by (simp add: uncounted_def)
  show "stored (s\<lparr>st_r := r\<rparr>) = stored s" by (simp add: fun_eq_iff stored_def t)
qed

lemma writer_step_inv:
  assumes inv: "spsc_inv s xs ys zs"
  shows "\<exists>s' xs' ys' zs'. writer_step t s = Some s' \<and> spsc_inv s' xs' ys' zs'"
proof (cases "st_w s")
  case WIdle
  let ?p = "sq_write_ptr (st_q s)"
  obtain n where n: "sq_nodes (st_q s) ?p = Some n" "el_next n = None" "zs = []"
    using inv WIdle by (auto simp: spsc_inv_def stored_def tail_def)
  let ?m = "(sq_nodes (st_q s))(?p \<mapsto> n\<lparr>el_current := Some t\<rparr>)"
  have "?p \<notin> fst ` set xs" using inv WIdle by (simp add: spsc_inv_def tail_def)
  then have "linked ?m r xs e = linked (sq_nodes (st_q s)) r xs e" for r e
    by (intro linked_cong) (metis fun_upd_other)
  moreover have "p \<noteq> ?p" if "st_r s = RUnlinked p" for p
    using that inv WIdle by (auto simp: spsc_inv_def tail_def out_of_def)
  ultimately show ?thesis
    using inv WIdle n
    by (intro exI [of _ "s\<lparr>st_q := (st_q s)\<lparr>sq_nodes := ?m\<rparr>, st_w := WStored, st_pushed := st_pushed s @ [t]\<rparr>"]
        exI [of _ xs] exI [of _ ys] exI [of _ "[t]"])
      (auto simp: writer_step_def push_store_def spsc_inv_def spsc_defs split: pc_reader.splits)
next
  case WStored
  let ?p = "sq_write_ptr (st_q s)" and ?f = "sq_fresh (st_q s)"
  obtain n z where n: "sq_nodes (st_q s) ?p = Some n" "el_next n = None" "zs = [z]" "el_current n = Some z"
    using inv WStored by (auto simp: spsc_inv_def stored_def tail_def)
  let ?m = "(sq_nodes (st_q s))(?f \<mapsto> new_node, ?p \<mapsto> n\<lparr>el_next := Some ?f\<rparr>)"
  have f: "?p < ?f" "?f \<notin> fst ` set xs" "\<forall>a\<in>fst ` set xs. a < ?f" "?p \<notin> fst ` set xs"
    using inv WStored by (auto simp: spsc_inv_def tail_def)
  have "linked ?m r xs e = linked (sq_nodes (st_q s)) r xs e" for r e
    using f(2,4) by (intro linked_cong) (metis fun_upd_other)
  moreover have "?m ?p = Some \<lparr>el_current = Some z, el_next = Some ?f\<rparr>" using n by simp
  ultimately have "linked ?m (sq_read_ptr (st_q s)) (xs @ [(?p, z)]) ?f"
    using inv WStored by (simp only: linked_snoc) (simp add: spsc_inv_def tail_def)
  moreover have "p \<noteq> ?p \<and> p < ?f" if "st_r s = RUnlinked p" for p
    using that inv WStored by (auto simp: spsc_inv_def tail_def out_of_def)
  ultimately show ?thesis
    using inv WStored n f
    by (intro exI [of _ "s\<lparr>st_q := (st_q s)\<lparr>sq_nodes := ?m, sq_fresh := ?f + 1\<rparr>, st_w := WLinked ?f\<rparr>"]
        exI [of _ "xs @ [(?p, z)]"] exI [of _ ys] exI [of _ "[]"])
      (auto simp: writer_step_def push_link_def spsc_inv_def spsc_defs new_node_def less_Suc_eq Let_def
        split: pc_reader.splits)
next
  case (WLinked p)
  then show ?thesis
    using inv by (intro exI [of _ "s\<lparr>st_q := push_advance p (st_q s), st_w := WAdvanced\<rparr>"] exI [of _ xs] exI [of _ ys] exI [of _ zs])
      (auto simp: writer_step_def push_advance_def spsc_inv_def spsc_defs split: pc_reader.splits)
next
  case WAdvanced
  then show ?thesis
    using inv by (intro exI [of _ "s\<lparr>st_r := notify_one (st_r s), st_w := WNotified\<rparr>"] exI [of _ xs] exI [of _ ys] exI [of _ zs])
      (auto simp: writer_step_def notify_one_def spsc_inv_def spsc_defs split: pc_reader.splits)
next
  case WNotified
  then show ?thesis
    using inv by (intro exI [of _ "s\<lparr>st_q := push_count (st_q s), st_w := WIdle\<rparr>"] exI [of _ xs] exI [of _ ys] exI [of _ zs])
      (auto simp: writer_step_def push_count_def spsc_inv_def spsc_defs split: pc_reader.splits)
qed

lemma reader_step_inv:
  assumes inv: "spsc_inv s xs ys zs"
  shows "\<exists>s' xs' ys' zs'. reader_step b s = Some s' \<and> spsc_inv s' xs' ys' zs'"
proof -
  have idle: "spsc_inv (s\<lparr>st_r := r\<rparr>) xs ys zs"
    if "outside (st_r s)" "outside r" "r = RChecked \<longrightarrow> \<not> SPSC_Empty (st_q s)" for r
    using inv that by (auto simp: spsc_inv_def outside_simps reader_frame SPSC_Empty_def SPSC_Size_def)
  show ?thesis
  proof (cases "st_r s")
    case RChecked
    then show ?thesis
      using inv by (intro exI [of _ "s\<lparr>st_q := pop_count (st_q s), st_r := RCounted\<rparr>"] exI [of _ xs] exI [of _ ys] exI [of _ zs])
        (auto simp: reader_step_def pop_count_def spsc_inv_def spsc_defs split: pc_writer.splits)
  next
    case RCounted
    then obtain a x xs' where xs: "xs = (a, x) # xs'" using inv by (cases xs) (auto simp: spsc_inv_def claimed_def)
    then obtain a' where a: "sq_read_ptr (st_q s) = a" "sq_nodes (st_q s) a = Some \<lparr>el_current = Some x, el_next = Some a'\<rparr>"
      using inv by (auto simp: spsc_inv_def)
    show ?thesis
      using inv RCounted xs a
      by (intro exI [of _ "s\<lparr>st_q := (st_q s)\<lparr>sq_read_ptr := a'\<rparr>, st_r := RUnlinked a\<rparr>"] exI [of _ xs'] exI [of _ "[x]"] exI [of _ zs])
        (auto simp: reader_step_def pop_unlink_def spsc_inv_def spsc_defs Let_def split: pc_writer.splits)
  next
    case (RUnlinked p)
    then obtain y n where n: "ys = [y]" "sq_nodes (st_q s) p = Some n" "el_current n = Some y"
      using inv by (auto simp: spsc_inv_def held_def)
    have p: "p \<noteq> tail s" "p \<notin> fst ` set xs" using inv RUnlinked by (auto simp: spsc_inv_def out_of_def)
    let ?s = "s\<lparr>st_q := (st_q s)\<lparr>sq_nodes := (sq_nodes (st_q s))(p := None)\<rparr>, st_r := RIdle, st_popped := st_popped s @ [y]\<rparr>"
    have "linked ((sq_nodes (st_q s))(p := None)) r xs e = linked (sq_nodes (st_q s)) r xs e" for r e
      using p by (intro linked_cong) (metis fun_upd_other)
    moreover have "tail ?s = tail s" by (cases "st_w s") (simp_all add: tail_def)
    moreover have "uncounted ?s = uncounted s" by (simp add: uncounted_def)
    ultimately have "spsc_inv ?s xs [] zs"
      using inv RUnlinked n p by (simp add: spsc_inv_def held_def stored_def out_of_def claimed_def)
    then show ?thesis using RUnlinked n by (auto simp: reader_step_def pop_take_def)
  qed (use idle inv in \<open>auto simp: reader_step_def outside_def\<close>)
qed

lemma run_threads_inv:
  "spsc_inv s xs ys zs \<Longrightarrow> \<exists>s' xs' ys' zs'. run_threads sched s = Some s' \<and> spsc_inv s' xs' ys' zs'"
proof (induction sched arbitrary: s xs ys zs)
  case (Cons c sched)
  show ?case
  proof (cases c)
    case (Writer t)
    obtain s' xs' ys' zs' where "writer_step t s = Some s'" "spsc_inv s' xs' ys' zs'"
      using writer_step_inv [OF Cons.prems] by blast
    then show ?thesis using Cons.IH Writer by simp
  next
    case (Reader b)
    obtain s' xs' ys' zs' where "reader_step b s = Some s'" "spsc_inv s' xs' ys' zs'"
      using reader_step_inv [OF Cons.prems] by blast
    then show ?thesis using Cons.IH Reader by simp
  qed
qed auto

lemma threads_init_inv: "spsc_inv threads_init [] [] []"
  by (simp add: spsc_inv_def threads_init_def spsc_defs SPSC_create_def new_node_def)

text \<open>
  \<^bold>\<open>C31\<close>. However the steps of one writer and one reader interleave, no step touches
  memory that has been freed or follows a null pointer, and what the reader has received is a
  prefix of what the writer has pushed. When both are between two calls, \<open>Size\<close> is the number of
  elements pushed and not yet received.
\<close>

theorem spsc_fifo:
  "\<exists>s. run_threads sched threads_init = Some s \<and> prefix (st_popped s) (st_pushed s) \<and>
     (st_w s = WIdle \<and> st_r s = RIdle \<longrightarrow> SPSC_Size (st_q s) + length (st_popped s) = length (st_pushed s))"
proof -
  obtain s xs ys zs where s: "run_threads sched threads_init = Some s" "spsc_inv s xs ys zs"
    using run_threads_inv [OF threads_init_inv] by blast
  moreover have "prefix (st_popped s) (st_pushed s)" using s(2) by (auto simp: spsc_inv_def)
  moreover have "SPSC_Size (st_q s) + length (st_popped s) = length (st_pushed s)"
    if "st_w s = WIdle" "st_r s = RIdle"
    using s(2) that by (auto simp: spsc_inv_def SPSC_Size_def spsc_defs)
  ultimately show ?thesis by auto
qed

lemma example_run:
  "\<exists>s. run_threads (replicate 5 (Writer (1 :: nat)) @ replicate 5 (Writer 2) @ replicate 4 (Reader False)) threads_init = Some s \<and>
     st_w s = WIdle \<and> st_r s = RIdle \<and> st_popped s = [1] \<and> st_pushed s = [1, 2]"
  by (simp add: numeral_eq_Suc threads_init_def reader_step_def writer_step_def SPSC_create_def SPSC_Empty_def
      SPSC_Size_def push_store_def push_link_def push_advance_def push_count_def notify_one_def pop_count_def
      pop_unlink_def pop_take_def new_node_def Let_def)

theorem spsc_fifo_witness:
  "\<exists>s. run_threads (replicate 5 (Writer (1 :: nat)) @ replicate 5 (Writer 2) @ replicate 4 (Reader False)) threads_init = Some s \<and>
     st_w s = WIdle \<and> st_r s = RIdle \<and> prefix (st_popped s) (st_pushed s) \<and> SPSC_Size (st_q s) = 1"
  using example_run
    spsc_fifo [of "replicate 5 (Writer (1 :: nat)) @ replicate 5 (Writer 2) @ replicate 4 (Reader False)"]
  by auto


section \<open>The sequential view\<close>

text \<open>A queue that no call is working on holds a list.\<close>

definition at_rest :: "'a SPSCQueue \<Rightarrow> 'a list \<Rightarrow> 'a spsc_state" where
  "at_rest q l = \<lparr>st_q = q, st_w = WIdle, st_r = RIdle, st_pushed = l, st_popped = []\<rparr>"

definition spsc_holds :: "'a SPSCQueue \<Rightarrow> 'a list \<Rightarrow> bool" where
  "spsc_holds q l \<longleftrightarrow> (\<exists>xs. spsc_inv (at_rest q l) xs [] [])"

text \<open>What the users of such a queue rely on, whoever implements it.\<close>

locale fifo =
  fixes holds :: "'q \<Rightarrow> 'a list \<Rightarrow> bool"
    and is_empty :: "'q \<Rightarrow> bool"
    and push :: "'q \<Rightarrow> 'a \<Rightarrow> 'q option"
    and pop :: "'q \<Rightarrow> ('q \<times> 'a option) option"
  assumes is_empty: "holds q l \<Longrightarrow> is_empty q \<longleftrightarrow> l = []"
    and push: "holds q l \<Longrightarrow> \<exists>q'. push q x = Some q' \<and> holds q' (l @ [x])"
    and pop_Nil: "holds q [] \<Longrightarrow> pop q = Some (q, None)"
    and pop_Cons: "holds q (x # l) \<Longrightarrow> \<exists>q'. pop q = Some (q', Some x) \<and> holds q' l"
begin

text \<open>A loop \<open>for (T t; queue.Pop(t);)\<close>, cut off after \<open>n\<close> rounds.\<close>

fun drain :: "nat \<Rightarrow> 'q \<Rightarrow> ('q \<times> 'a list) option" where
  "drain 0 q = None"
| "drain (Suc n) q = (case pop q of
     None \<Rightarrow> None
   | Some (q', None) \<Rightarrow> Some (q', [])
   | Some (q', Some x) \<Rightarrow> (case drain n q' of None \<Rightarrow> None | Some (q'', xs) \<Rightarrow> Some (q'', x # xs)))"

lemma drain_all:
  "holds q l \<Longrightarrow> length l < n \<Longrightarrow> \<exists>q'. drain n q = Some (q', l) \<and> holds q' []"
proof (induction l arbitrary: q n)
  case Nil
  then show ?case by (cases n) (simp_all add: pop_Nil)
next
  case (Cons x l)
  then obtain m where m: "n = Suc m" "length l < m" by (cases n) auto
  obtain q' where "pop q = Some (q', Some x)" "holds q' l" using pop_Cons [OF Cons.prems(1)] by blast
  then show ?case using Cons.IH [OF _ m(2), of q'] m(1) by auto
qed

end

lemma spsc_push:
  assumes "spsc_holds q l"
  shows "\<exists>q'. SPSC_Push q x = Some q' \<and> spsc_holds q' (l @ [x])"
proof -
  let ?steps = "replicate 5 (Writer x)"
  obtain xs where xs: "spsc_inv (at_rest q l) xs [] []" using assms by (auto simp: spsc_holds_def)
  obtain s ys zs xs' where s: "run_threads ?steps (at_rest q l) = Some s" "spsc_inv s xs' ys zs"
    using run_threads_inv [OF xs] by blast
  obtain q1 where q1: "push_store x q = Some q1"
    using s(1) by (auto simp: numeral_eq_Suc at_rest_def writer_step_def bind_eq_Some_conv)
  obtain q2 p where q2: "push_link q1 = Some (q2, p)"
    using s(1) q1 by (auto simp: numeral_eq_Suc at_rest_def writer_step_def bind_eq_Some_conv)
  have eq: "s = at_rest (push_count (push_advance p q2)) (l @ [x])"
    using s(1) q1 q2 by (simp add: numeral_eq_Suc at_rest_def writer_step_def notify_one_def)
  then have "ys = []" "zs = []"
    using s(2) by (auto simp: spsc_inv_def at_rest_def held_def stored_def)
  then show ?thesis using s(2) q1 q2 eq by (auto simp: SPSC_Push_def spsc_holds_def)
qed

lemma spsc_pop:
  assumes "spsc_holds q (x # l)"
  shows "\<exists>q'. SPSC_Pop q = Some (q', Some x) \<and> spsc_holds q' l"
proof -
  let ?steps = "replicate 4 (Reader False)"
  obtain xs where xs: "spsc_inv (at_rest q (x # l)) xs [] []" using assms by (auto simp: spsc_holds_def)
  then have ne: "\<not> SPSC_Empty q"
    by (auto simp: spsc_inv_def at_rest_def spsc_defs SPSC_Empty_def SPSC_Size_def)
  obtain s ys zs xs' where s: "run_threads ?steps (at_rest q (x # l)) = Some s" "spsc_inv s xs' ys zs"
    using run_threads_inv [OF xs] by blast
  obtain q1 p where q1: "pop_unlink (pop_count q) = Some (q1, p)"
    using s(1) ne by (auto simp: numeral_eq_Suc at_rest_def reader_step_def bind_eq_Some_conv)
  obtain q2 t where q2: "pop_take p q1 = Some (q2, t)"
    using s(1) ne q1 by (auto simp: numeral_eq_Suc at_rest_def reader_step_def bind_eq_Some_conv)
  have eq: "s = \<lparr>st_q = q2, st_w = WIdle, st_r = RIdle, st_pushed = x # l, st_popped = [t]\<rparr>"
    using s(1) ne q1 q2 by (simp add: numeral_eq_Suc at_rest_def reader_step_def)
  then have "t = x" "spsc_inv (at_rest q2 l) xs' [] []"
    using s(2) by (auto simp: spsc_inv_def at_rest_def spsc_defs)
  then show ?thesis using ne q1 q2 by (auto simp: SPSC_Pop_def spsc_holds_def)
qed

interpretation spsc: fifo spsc_holds MPSC_Empty MPSC_Push MPSC_Pop
proof
  fix q :: "'a SPSCQueue" and l :: "'a list" and x :: 'a
  show "MPSC_Empty q \<longleftrightarrow> l = []" if "spsc_holds q l"
    using that by (auto simp: spsc_holds_def spsc_inv_def at_rest_def spsc_defs MPSC_Empty_def SPSC_Empty_def SPSC_Size_def)
  show "\<exists>q'. MPSC_Push q x = Some q' \<and> spsc_holds q' (l @ [x])" if "spsc_holds q l"
    using spsc_push [OF that] by (simp add: MPSC_Push_def)
  show "MPSC_Pop q = Some (q, None)" if "spsc_holds q []"
    using that by (auto simp: spsc_holds_def spsc_inv_def at_rest_def spsc_defs MPSC_Pop_def SPSC_Pop_def
        SPSC_Empty_def SPSC_Size_def)
  show "\<exists>q'. MPSC_Pop q = Some (q', Some x) \<and> spsc_holds q' l" if "spsc_holds q (x # l)"
    using spsc_pop [OF that] by (simp add: MPSC_Pop_def)
qed

end
