(* ===== verification/Handle_Table.thy ===== *)
theory Handle_Table
  imports Result_Code
begin

text \<open>
  The table of kernel handles of a process (\<^verbatim>\<open>core/hle/kernel/handle_table.{h,cpp}\<close>). An array
  of 1024 elements is a function from indices; every access of the source is below
  \<open>table_size\<close>, which the invariant \<open>ht_ok\<close> bounds by 1024. Objects are of a type parameter; the
  null pointer is \<open>None\<close>.
\<close>

type_synonym Handle = u32

definition MAX_COUNT :: nat where "MAX_COUNT = 1024"

definition InvalidHandle :: Handle where "InvalidHandle = 0"
definition CurrentThread :: Handle where "CurrentThread = 0xFFFF8000"
definition CurrentProcess :: Handle where "CurrentProcess = 0xFFFF8001"

record 'o HandleTable =
  ht_objects :: "nat \<Rightarrow> 'o option"
  ht_generations :: "nat \<Rightarrow> u16"
  ht_table_size :: u16
  ht_next_generation :: u16
  ht_next_free_slot :: u16

definition GetSlot :: "Handle \<Rightarrow> u16" where
  "GetSlot handle = ucast (drop_bit 15 handle)"

definition GetGeneration :: "Handle \<Rightarrow> u16" where
  "GetGeneration handle = ucast (handle AND 0x7FFF)"

definition HandleTable_Clear :: "'o HandleTable \<Rightarrow> 'o HandleTable" where
  "HandleTable_Clear t = t
     \<lparr>ht_generations := (\<lambda>i. if i < unat (ht_table_size t) then of_nat (i + 1) else ht_generations t i),
      ht_objects := (\<lambda>i. if i < unat (ht_table_size t) then None else ht_objects t i),
      ht_next_free_slot := 0\<rparr>"

text \<open>The members' initial values; the arrays are filled by the constructor's \<open>Clear\<close>.\<close>

definition HandleTable_create :: "(nat \<Rightarrow> u16) \<Rightarrow> 'o HandleTable" where
  "HandleTable_create uninitialized = HandleTable_Clear
     \<lparr>ht_objects = (\<lambda>_. None), ht_generations = uninitialized, ht_table_size = of_nat MAX_COUNT,
      ht_next_generation = 1, ht_next_free_slot = 0\<rparr>"

definition HandleTable_SetSize :: "'o HandleTable \<Rightarrow> 32 word \<Rightarrow> 'o HandleTable \<times> ResultCode" where
  "HandleTable_SetSize t handle_table_size =
     (if unat handle_table_size > MAX_COUNT then (t, ERR_OUT_OF_MEMORY)
      else if sint handle_table_size > 0
      then (t\<lparr>ht_table_size := ucast handle_table_size\<rparr>, RESULT_SUCCESS)
      else (t, RESULT_SUCCESS))"

definition HandleTable_Create :: "'o HandleTable \<Rightarrow> 'o \<Rightarrow> 'o HandleTable \<times> Handle ResultVal" where
  "HandleTable_Create t obj =
     (let slot = ht_next_free_slot t
      in if slot \<ge> ht_table_size t then (t, Inl ERR_HANDLE_TABLE_FULL)
         else
           let generation = ht_next_generation t;
               next_generation = ht_next_generation t + 1;
               next_generation = (if next_generation \<ge> 0x8000 then 1 else next_generation)
           in (t\<lparr>ht_next_free_slot := ht_generations t (unat slot),
                 ht_next_generation := next_generation,
                 ht_generations := (ht_generations t)(unat slot := generation),
                 ht_objects := (ht_objects t)(unat slot := Some obj)\<rparr>,
               Inr (ucast generation OR push_bit 15 (ucast slot))))"

definition HandleTable_IsValid :: "'o HandleTable \<Rightarrow> Handle \<Rightarrow> bool" where
  "HandleTable_IsValid t handle \<longleftrightarrow>
     (let slot = GetSlot handle; generation = GetGeneration handle
      in slot < ht_table_size t \<and> ht_objects t (unat slot) \<noteq> None \<and>
         ht_generations t (unat slot) = generation)"

text \<open>\<open>thread\<close> and \<open>process\<close> are the current thread and process.\<close>

definition HandleTable_GetGeneric :: "'o option \<Rightarrow> 'o option \<Rightarrow> 'o HandleTable \<Rightarrow> Handle \<Rightarrow> 'o option" where
  "HandleTable_GetGeneric thread process t handle =
     (if handle = CurrentThread then thread
      else if handle = CurrentProcess then process
      else if \<not> HandleTable_IsValid t handle then None
      else ht_objects t (unat (GetSlot handle)))"

definition HandleTable_Duplicate ::
  "'o option \<Rightarrow> 'o option \<Rightarrow> 'o HandleTable \<Rightarrow> Handle \<Rightarrow> 'o HandleTable \<times> Handle ResultVal" where
  "HandleTable_Duplicate thread process t handle =
     (case HandleTable_GetGeneric thread process t handle of
        None \<Rightarrow> (t, Inl ERR_INVALID_HANDLE)
      | Some obj \<Rightarrow> HandleTable_Create t obj)"

definition HandleTable_Close :: "'o HandleTable \<Rightarrow> Handle \<Rightarrow> 'o HandleTable \<times> ResultCode" where
  "HandleTable_Close t handle =
     (if \<not> HandleTable_IsValid t handle then (t, ERR_INVALID_HANDLE)
      else let slot = GetSlot handle
           in (t\<lparr>ht_objects := (ht_objects t)(unat slot := None),
                 ht_generations := (ht_generations t)(unat slot := ht_next_free_slot t),
                 ht_next_free_slot := slot\<rparr>, RESULT_SUCCESS))"

end
