(* ===== verification/Multi_Level_Queue.thy ===== *)
theory Multi_Level_Queue
  imports Yuzu_Prelude
begin

text \<open>
  The priority queue of \<^verbatim>\<open>common/multi_level_queue.h\<close>, which the scheduler keeps its ready
  threads in, and the bit counting functions of \<^verbatim>\<open>common/bit_util.h\<close> that it uses. The template
  parameter \<open>Depth\<close> is an argument of the operations. A level is a list; an iterator is its
  \<open>current_priority\<close> and the position in that level, the level's length being the level's end.

  Shifting a 64-bit value by 64 or more, indexing a level at or beyond \<open>Depth\<close>, dereferencing the
  end of a level and splicing from the end of a list are undefined behaviour, hence \<open>None\<close>.
\<close>

definition CountTrailingZeroes64 :: "u64 \<Rightarrow> nat" where
  "CountTrailingZeroes64 v = length (takeWhile (\<lambda>i. \<not> bit v i) [0..<64])"

definition CountLeadingZeroes64 :: "u64 \<Rightarrow> nat" where
  "CountLeadingZeroes64 v = length (takeWhile (\<lambda>i. \<not> bit v (63 - i)) [0..<64])"

text \<open>\<^verbatim>\<open>1ULL << n\<close>\<close>

definition shl1 :: "nat \<Rightarrow> u64 option" where
  "shl1 n = (if n < 64 then Some (2 ^ n) else None)"

record 'a MultiLevelQueue =
  mlq_levels :: "nat \<Rightarrow> 'a list"
  mlq_used :: u64

definition mlq_init :: "'a MultiLevelQueue" where
  "mlq_init = \<lparr>mlq_levels = (\<lambda>_. []), mlq_used = 0\<rparr>"

subsection \<open>Adding and removing\<close>

definition mlq_add ::
  "nat \<Rightarrow> 'a MultiLevelQueue \<Rightarrow> 'a \<Rightarrow> nat \<Rightarrow> bool \<Rightarrow> 'a MultiLevelQueue option" where
  "mlq_add depth q element priority send_back = do {
     ASSERT (priority < depth);
     b \<leftarrow> shl1 priority;
     Some (q\<lparr>mlq_levels := (mlq_levels q)(priority :=
               if send_back then mlq_levels q priority @ [element] else element # mlq_levels q priority),
             mlq_used := mlq_used q OR b\<rparr>)
   }"

definition mlq_clear_if_empty :: "'a MultiLevelQueue \<Rightarrow> nat \<Rightarrow> 'a MultiLevelQueue option" where
  "mlq_clear_if_empty q priority =
     (if mlq_levels q priority = []
      then do { b \<leftarrow> shl1 priority; Some (q\<lparr>mlq_used := mlq_used q AND NOT b\<rparr>) }
      else Some q)"

definition mlq_remove ::
  "nat \<Rightarrow> 'a MultiLevelQueue \<Rightarrow> 'a \<Rightarrow> nat \<Rightarrow> 'a MultiLevelQueue option" where
  "mlq_remove depth q element priority = do {
     ASSERT (priority < depth);
     if element \<notin> set (mlq_levels q priority) then Some q
     else mlq_clear_if_empty
            (q\<lparr>mlq_levels := (mlq_levels q)(priority := remove1 element (mlq_levels q priority))\<rparr>) priority
   }"

definition mlq_adjust ::
  "nat \<Rightarrow> 'a MultiLevelQueue \<Rightarrow> 'a \<Rightarrow> nat \<Rightarrow> nat \<Rightarrow> bool \<Rightarrow> 'a MultiLevelQueue option" where
  "mlq_adjust depth q element old_priority new_priority adjust_front = do {
     q \<leftarrow> mlq_remove depth q element old_priority;
     mlq_add depth q element new_priority (\<not> adjust_front)
   }"

text \<open>Moving an element from a level of one queue to the same level of another queue.\<close>

definition mlq_transfer ::
  "('a list \<Rightarrow> 'a \<Rightarrow> 'a list) \<Rightarrow> nat \<Rightarrow> 'a MultiLevelQueue \<Rightarrow> 'a \<Rightarrow> nat \<Rightarrow> 'a MultiLevelQueue \<Rightarrow>
   ('a MultiLevelQueue \<times> 'a MultiLevelQueue) option" where
  "mlq_transfer ins depth q element priority other = do {
     ASSERT (priority < depth);
     ASSERT (element \<in> set (mlq_levels q priority));
     b \<leftarrow> shl1 priority;
     let other = other\<lparr>mlq_levels := (mlq_levels other)(priority := ins (mlq_levels other priority) element),
                       mlq_used := mlq_used other OR b\<rparr>;
     q \<leftarrow> mlq_clear_if_empty
            (q\<lparr>mlq_levels := (mlq_levels q)(priority := remove1 element (mlq_levels q priority))\<rparr>) priority;
     Some (q, other)
   }"

definition mlq_transfer_to_front ::
  "nat \<Rightarrow> 'a MultiLevelQueue \<Rightarrow> 'a \<Rightarrow> nat \<Rightarrow> 'a MultiLevelQueue \<Rightarrow>
   ('a MultiLevelQueue \<times> 'a MultiLevelQueue) option" where
  "mlq_transfer_to_front = mlq_transfer (\<lambda>l e. e # l)"

definition mlq_transfer_to_back ::
  "nat \<Rightarrow> 'a MultiLevelQueue \<Rightarrow> 'a \<Rightarrow> nat \<Rightarrow> 'a MultiLevelQueue \<Rightarrow>
   ('a MultiLevelQueue \<times> 'a MultiLevelQueue) option" where
  "mlq_transfer_to_back = mlq_transfer (\<lambda>l e. l @ [e])"

definition ListShiftForward :: "'a list \<Rightarrow> nat \<Rightarrow> 'a list" where
  "ListShiftForward l shift = (if shift \<ge> length l then l else drop shift l @ take shift l)"

definition mlq_yield :: "nat \<Rightarrow> 'a MultiLevelQueue \<Rightarrow> nat \<Rightarrow> nat \<Rightarrow> 'a MultiLevelQueue option" where
  "mlq_yield depth q priority n = do {
     ASSERT (priority < depth);
     Some (q\<lparr>mlq_levels := (mlq_levels q)(priority := ListShiftForward (mlq_levels q priority) n)\<rparr>)
   }"

subsection \<open>Queries\<close>

definition mlq_size_at :: "nat \<Rightarrow> 'a MultiLevelQueue \<Rightarrow> nat \<Rightarrow> nat option" where
  "mlq_size_at depth q priority = do { ASSERT (priority < depth); Some (length (mlq_levels q priority)) }"

partial_function (option) mlq_size_loop :: "'a MultiLevelQueue \<Rightarrow> u64 \<Rightarrow> nat \<Rightarrow> nat option" where
  "mlq_size_loop q priorities n =
     (if priorities \<noteq> 0
      then Option.bind (shl1 (CountTrailingZeroes64 priorities)) (\<lambda>b.
             mlq_size_loop q (priorities AND NOT b)
               (n + length (mlq_levels q (CountTrailingZeroes64 priorities))))
      else Some n)"

definition mlq_size :: "'a MultiLevelQueue \<Rightarrow> nat option" where
  "mlq_size q = mlq_size_loop q (mlq_used q) 0"

definition mlq_empty :: "'a MultiLevelQueue \<Rightarrow> bool" where
  "mlq_empty q \<longleftrightarrow> mlq_used q = 0"

definition mlq_empty_at :: "'a MultiLevelQueue \<Rightarrow> nat \<Rightarrow> bool option" where
  "mlq_empty_at q priority = map_option (\<lambda>b. mlq_used q AND b = 0) (shl1 priority)"

definition highest_priority_set :: "nat \<Rightarrow> 'a MultiLevelQueue \<Rightarrow> nat \<Rightarrow> nat option" where
  "highest_priority_set depth q max_priority = do {
     priorities \<leftarrow> (if max_priority = 0 then Some (mlq_used q)
                    else map_option (\<lambda>b. mlq_used q AND NOT (b - 1)) (shl1 max_priority));
     Some (if priorities = 0 then depth else CountTrailingZeroes64 priorities)
   }"

definition lowest_priority_set :: "nat \<Rightarrow> 'a MultiLevelQueue \<Rightarrow> nat \<Rightarrow> nat option" where
  "lowest_priority_set depth q min_priority = do {
     priorities \<leftarrow> (if min_priority \<ge> depth - 1 then Some (mlq_used q)
                    else map_option (\<lambda>b. mlq_used q AND (b - 1)) (shl1 (min_priority + 1)));
     Some (if priorities = 0 then depth else 63 - CountLeadingZeroes64 priorities)
   }"

definition mlq_front :: "nat \<Rightarrow> 'a MultiLevelQueue \<Rightarrow> nat \<Rightarrow> 'a option" where
  "mlq_front depth q max_priority = do {
     priority \<leftarrow> highest_priority_set depth q max_priority;
     case mlq_levels q (if priority = depth then 0 else priority) of
       [] \<Rightarrow> None
     | x # _ \<Rightarrow> Some x
   }"

definition mlq_back :: "nat \<Rightarrow> 'a MultiLevelQueue \<Rightarrow> nat \<Rightarrow> 'a option" where
  "mlq_back depth q min_priority = do {
     priority \<leftarrow> lowest_priority_set depth q min_priority;
     ASSERT (priority \<noteq> depth \<or> 63 < depth);
     let l = mlq_levels q (if priority = depth then 63 else priority);
     if l = [] then None else Some (last l)
   }"

subsection \<open>Iterators\<close>

record mlq_iter =
  it_prio :: nat
  it_pos :: nat

definition mlq_IsEnd :: "nat \<Rightarrow> mlq_iter \<Rightarrow> bool" where
  "mlq_IsEnd depth it \<longleftrightarrow> it_prio it = depth"

definition mlq_iter_eq :: "nat \<Rightarrow> mlq_iter \<Rightarrow> mlq_iter \<Rightarrow> bool" where
  "mlq_iter_eq depth x y \<longleftrightarrow> mlq_IsEnd depth x \<and> mlq_IsEnd depth y \<or> x = y"

definition mlq_deref :: "'a MultiLevelQueue \<Rightarrow> mlq_iter \<Rightarrow> 'a option" where
  "mlq_deref q it =
     (if it_pos it < length (mlq_levels q (it_prio it)) then Some (mlq_levels q (it_prio it) ! it_pos it)
      else None)"

text \<open>The prefix \<open>++\<close> and \<open>--\<close>.\<close>

definition mlq_next :: "nat \<Rightarrow> 'a MultiLevelQueue \<Rightarrow> mlq_iter \<Rightarrow> mlq_iter option" where
  "mlq_next depth q it =
     (if mlq_IsEnd depth it then Some it
      else
        let it = it\<lparr>it_pos := it_pos it + 1\<rparr>
        in if it_pos it = length (mlq_levels q (it_prio it))
           then do {
             b \<leftarrow> shl1 (it_prio it + 1);
             let prios = mlq_used q AND NOT (b - 1);
             Some (if prios = 0 then it\<lparr>it_prio := depth\<rparr>
                   else \<lparr>it_prio = CountTrailingZeroes64 prios, it_pos = 0\<rparr>)
           }
           else Some it)"

definition mlq_prev :: "nat \<Rightarrow> 'a MultiLevelQueue \<Rightarrow> mlq_iter \<Rightarrow> mlq_iter option" where
  "mlq_prev depth q it =
     (if mlq_IsEnd depth it
      then (if mlq_used q \<noteq> 0
            then let p = 63 - CountLeadingZeroes64 (mlq_used q)
                 in Some \<lparr>it_prio = p, it_pos = length (mlq_levels q p) - 1\<rparr>
            else Some it)
      else if it_pos it = 0
      then do {
        b \<leftarrow> shl1 (it_prio it);
        let prios = mlq_used q AND (b - 1);
        Some (if prios \<noteq> 0
              then let p = CountTrailingZeroes64 prios
                   in \<lparr>it_prio = p, it_pos = length (mlq_levels q p) - 1\<rparr>
              else it)
      }
      else Some (it\<lparr>it_pos := it_pos it - 1\<rparr>))"

definition mlq_begin :: "nat \<Rightarrow> 'a MultiLevelQueue \<Rightarrow> nat \<Rightarrow> mlq_iter option" where
  "mlq_begin depth q max_prio = do {
     priority \<leftarrow> highest_priority_set depth q max_prio;
     Some \<lparr>it_prio = priority, it_pos = 0\<rparr>
   }"

definition mlq_end :: "nat \<Rightarrow> 'a MultiLevelQueue \<Rightarrow> nat \<Rightarrow> mlq_iter option" where
  "mlq_end depth q min_prio =
     (if min_prio = depth - 1 then Some \<lparr>it_prio = depth, it_pos = 0\<rparr>
      else mlq_begin depth q (min_prio + 1))"

text \<open>
  A range-based \<^verbatim>\<open>for\<close> over the queue with a body that returns out of the loop at the first
  element that satisfies \<open>P\<close> (\<open>Some (Some x)\<close>) or runs through it (\<open>Some None\<close>).
\<close>

partial_function (option) mlq_find_loop ::
  "nat \<Rightarrow> 'a MultiLevelQueue \<Rightarrow> ('a \<Rightarrow> bool) \<Rightarrow> mlq_iter \<Rightarrow> 'a option option" where
  "mlq_find_loop depth q P it =
     (if mlq_IsEnd depth it then Some None
      else Option.bind (mlq_deref q it) (\<lambda>x.
             if P x then Some (Some x)
             else Option.bind (mlq_next depth q it) (mlq_find_loop depth q P)))"

definition mlq_find :: "nat \<Rightarrow> 'a MultiLevelQueue \<Rightarrow> ('a \<Rightarrow> bool) \<Rightarrow> 'a option option" where
  "mlq_find depth q P = do { it \<leftarrow> mlq_begin depth q 0; mlq_find_loop depth q P it }"

end
