(* ===== verification/Kernel_State.thy ===== *)
theory Kernel_State
  imports Result_Code Handle_Table Multi_Level_Queue Core_Timing Guest_Memory
begin

text \<open>
  The state that threads, schedulers and synchronization objects share, and the operations of
  \<^verbatim>\<open>core/hle/kernel/scheduler.cpp\<close> that only look at one scheduler.

  A pointer to a thread is the number of the thread in the store \<open>k_threads\<close>, a pointer to a
  scheduler or CPU core the index of the core. Priorities, on which the code does no arithmetic,
  are natural numbers. The reference counts of \<open>SharedPtr\<close> are not part of the state: nothing is
  freed while something points to it.
\<close>

section \<open>Threads\<close>

definition THREADPRIO_HIGHEST :: nat where "THREADPRIO_HIGHEST = 0"
definition THREADPRIO_LOWEST :: nat where "THREADPRIO_LOWEST = 63"
definition THREADPRIO_COUNT :: nat where "THREADPRIO_COUNT = 64"
definition THREADPROCESSORID_MAX :: int where "THREADPROCESSORID_MAX = 4"
definition NUM_CPU_CORES :: nat where "NUM_CPU_CORES = 4"

datatype ThreadStatus =
  Running | Ready | Paused | WaitHLEEvent | WaitSleep | WaitIPC | WaitSynch | WaitMutex
  | WaitCondVar | WaitArb | Dormant | Dead

datatype ThreadWakeupReason = Signal | Timeout

datatype ThreadActivity = ActivityNormal | ActivityPaused

type_synonym tid = nat

text \<open>Objects a thread can wait for: another thread, or the readable end of an event.\<close>

datatype wait_object = WThread tid | WEvent nat

text \<open>The callbacks a waiting thread can have: the one of \<open>WaitSynchronization\<close>, or another.\<close>

datatype 'w WakeupCallback = DefaultThreadWakeupCallback | OtherWakeupCallback 'w

record ThreadContext =
  ctx_cpu_registers :: "nat \<Rightarrow> u64"
  ctx_sp :: u64
  ctx_pc :: u64
  ctx_pstate :: u32
  ctx_vector_registers :: "nat \<Rightarrow> u128"
  ctx_fpcr :: u32
  ctx_fpsr :: u32
  ctx_tpidr :: u64

record 'w Thread =
  th_context :: ThreadContext
  th_thread_id :: u64
  th_status :: ThreadStatus
  th_entry_point :: VAddr
  th_stack_top :: VAddr
  th_nominal_priority :: nat
  th_current_priority :: nat
  th_total_cpu_time_ticks :: u64
  th_last_running_ticks :: u64
  th_processor_id :: int
  th_tls_address :: VAddr
  th_tpidr_el0 :: u64
  th_owner_process :: nat
  th_wait_objects :: "wait_object list"
  th_wait_mutex_threads :: "tid list"
  th_lock_owner :: "tid option"
  th_condvar_wait_address :: VAddr
  th_mutex_wait_address :: VAddr
  th_wait_handle :: Handle
  th_arb_wait_address :: VAddr
  th_callback_handle :: Handle
  th_wakeup_callback :: "'w WakeupCallback option"
  th_scheduler :: nat
  th_ideal_core :: u32
  th_affinity_mask :: u64
  th_activity :: ThreadActivity

section \<open>Events\<close>

datatype ResetType = Automatic | Manual

record ReadableEvent =
  ev_reset_type :: ResetType
  ev_signaled :: bool

section \<open>Processes\<close>

text \<open>The part of a process that its threads use.\<close>

record Process =
  pr_vm_manager :: VMManager
  pr_handle_table :: "tid HandleTable"
  pr_thread_list :: "tid list"
  pr_tls_slots :: "bool list list"
  pr_total_process_running_time_ticks :: u64

section \<open>Schedulers and CPU cores\<close>

record Scheduler =
  sc_thread_list :: "tid list"
  sc_ready_queue :: "tid MultiLevelQueue"
  sc_current_thread :: "tid option"
  sc_last_context_switch_time :: u64

text \<open>The registers of a CPU core and whether it has been asked to reschedule.\<close>

record Cpu =
  cpu_context :: ThreadContext
  cpu_tls_address :: VAddr
  cpu_tpidr_el0 :: u64
  cpu_reschedule_pending :: bool

datatype kcallback = ThreadWakeupCallbackEvent | OtherEvent nat

record 'w Kernel =
  k_threads :: "tid \<rightharpoonup> 'w Thread"
  k_waiting_threads :: "wait_object \<Rightarrow> tid list"
  k_events :: "nat \<rightharpoonup> ReadableEvent"
  k_processes :: "nat \<rightharpoonup> Process"
  k_current_process :: "nat option"
  k_schedulers :: "nat \<Rightarrow> Scheduler"
  k_cpus :: "nat \<Rightarrow> Cpu"
  k_current_core :: nat
  k_core_timing :: "kcallback CoreTiming"
  k_thread_wakeup_event_type :: EventTypePtr
  k_thread_wakeup_callback_handle_table :: "tid HandleTable"
  k_next_thread_id :: u64
  k_memory :: host_mem

text \<open>Dereferencing a thread, and the scheduler or core of an index, which \<open>at\<close> checks.\<close>

abbreviation thread_at :: "'w Kernel \<Rightarrow> tid \<Rightarrow> 'w Thread option" where
  "thread_at k t \<equiv> k_threads k t"

definition upd_thread :: "tid \<Rightarrow> ('w Thread \<Rightarrow> 'w Thread) \<Rightarrow> 'w Kernel \<Rightarrow> 'w Kernel option" where
  "upd_thread t f k = do {
     th \<leftarrow> thread_at k t;
     Some (k\<lparr>k_threads := (k_threads k)(t \<mapsto> f th)\<rparr>)
   }"

text \<open>\<open>GetPriority\<close>.\<close>

definition thread_prio :: "'w Kernel \<Rightarrow> tid \<Rightarrow> nat" where
  "thread_prio k t = (case thread_at k t of None \<Rightarrow> 0 | Some th \<Rightarrow> th_current_priority th)"

definition sched_at :: "'w Kernel \<Rightarrow> nat \<Rightarrow> Scheduler option" where
  "sched_at k c = (if c < NUM_CPU_CORES then Some (k_schedulers k c) else None)"

definition set_sched :: "nat \<Rightarrow> Scheduler \<Rightarrow> 'w Kernel \<Rightarrow> 'w Kernel" where
  "set_sched c s k = k\<lparr>k_schedulers := (k_schedulers k)(c := s)\<rparr>"

definition PrepareReschedule :: "'w Kernel \<Rightarrow> nat \<Rightarrow> 'w Kernel option" where
  "PrepareReschedule k c =
     (if c < NUM_CPU_CORES
      then Some (k\<lparr>k_cpus := (k_cpus k)(c := (k_cpus k c)\<lparr>cpu_reschedule_pending := True\<rparr>)\<rparr>)
      else None)"

section \<open>One scheduler\<close>

text \<open>The depth of the ready queue: \<open>THREADPRIO_LOWEST + 1\<close>.\<close>

abbreviation ready_depth :: nat where
  "ready_depth \<equiv> THREADPRIO_LOWEST + 1"

definition HaveReadyThreads :: "Scheduler \<Rightarrow> bool" where
  "HaveReadyThreads s = (\<not> mlq_empty (sc_ready_queue s))"

definition GetCurrentThread :: "Scheduler \<Rightarrow> tid option" where
  "GetCurrentThread s = sc_current_thread s"

definition GetLastContextSwitchTicks :: "Scheduler \<Rightarrow> u64" where
  "GetLastContextSwitchTicks s = sc_last_context_switch_time s"

definition PopNextReadyThread :: "'w Kernel \<Rightarrow> nat \<Rightarrow> tid option option" where
  "PopNextReadyThread k c = do {
     s \<leftarrow> sched_at k c;
     running \<leftarrow> (case GetCurrentThread s of
         None \<Rightarrow> Some None
       | Some t \<Rightarrow> do {
           th \<leftarrow> thread_at k t;
           Some (if th_status th = Running then Some (t, th) else None)
         });
     (case running of
        Some (t, th) \<Rightarrow>
          if mlq_empty (sc_ready_queue s) then Some (Some t)
          else do {
            n \<leftarrow> mlq_front ready_depth (sc_ready_queue s) 0;
            nth \<leftarrow> thread_at k n;
            Some (Some (if th_current_priority nth \<ge> th_current_priority th then t else n))
          }
      | None \<Rightarrow>
          if mlq_empty (sc_ready_queue s) then Some None
          else do {
            n \<leftarrow> mlq_front ready_depth (sc_ready_queue s) 0;
            Some (Some n)
          })
   }"

definition AddThread :: "'w Kernel \<Rightarrow> nat \<Rightarrow> tid \<Rightarrow> 'w Kernel option" where
  "AddThread k c t = do {
     s \<leftarrow> sched_at k c;
     Some (set_sched c (s\<lparr>sc_thread_list := sc_thread_list s @ [t]\<rparr>) k)
   }"

definition RemoveThread :: "'w Kernel \<Rightarrow> nat \<Rightarrow> tid \<Rightarrow> 'w Kernel option" where
  "RemoveThread k c t = do {
     s \<leftarrow> sched_at k c;
     Some (set_sched c (s\<lparr>sc_thread_list := filter (\<lambda>x. x \<noteq> t) (sc_thread_list s)\<rparr>) k)
   }"

definition ScheduleThread :: "'w Kernel \<Rightarrow> nat \<Rightarrow> tid \<Rightarrow> nat \<Rightarrow> 'w Kernel option" where
  "ScheduleThread k c t priority = do {
     s \<leftarrow> sched_at k c;
     th \<leftarrow> thread_at k t;
     ASSERT (th_status th = Ready);
     q \<leftarrow> mlq_add ready_depth (sc_ready_queue s) t priority True;
     Some (set_sched c (s\<lparr>sc_ready_queue := q\<rparr>) k)
   }"

definition UnscheduleThread :: "'w Kernel \<Rightarrow> nat \<Rightarrow> tid \<Rightarrow> nat \<Rightarrow> 'w Kernel option" where
  "UnscheduleThread k c t priority = do {
     s \<leftarrow> sched_at k c;
     th \<leftarrow> thread_at k t;
     ASSERT (th_status th = Ready);
     q \<leftarrow> mlq_remove ready_depth (sc_ready_queue s) t priority;
     Some (set_sched c (s\<lparr>sc_ready_queue := q\<rparr>) k)
   }"

definition SetThreadPriority :: "'w Kernel \<Rightarrow> nat \<Rightarrow> tid \<Rightarrow> nat \<Rightarrow> 'w Kernel option" where
  "SetThreadPriority k c t priority = do {
     s \<leftarrow> sched_at k c;
     th \<leftarrow> thread_at k t;
     if th_current_priority th = priority then Some k
     else if th_status th = Ready then do {
       q \<leftarrow> mlq_adjust ready_depth (sc_ready_queue s) t (th_current_priority th) priority False;
       Some (set_sched c (s\<lparr>sc_ready_queue := q\<rparr>) k)
     }
     else Some k
   }"

text \<open>The loop over the ready queue in \<open>GetNextSuggestedThread\<close>.\<close>

definition suggested :: "'w Kernel \<Rightarrow> nat \<Rightarrow> nat \<Rightarrow> tid \<Rightarrow> bool" where
  "suggested k core maximum_priority t = (case thread_at k t of
     None \<Rightarrow> False
   | Some th \<Rightarrow> (th_affinity_mask th AND push_bit core 1) \<noteq> 0 \<and> th_current_priority th < maximum_priority)"

definition GetNextSuggestedThread :: "'w Kernel \<Rightarrow> nat \<Rightarrow> nat \<Rightarrow> nat \<Rightarrow> tid option option" where
  "GetNextSuggestedThread k c core maximum_priority = do {
     s \<leftarrow> sched_at k c;
     ASSERT (core < 32);
     mlq_find ready_depth (sc_ready_queue s) (suggested k core maximum_priority)
   }"

end
