(* ===== verification/Kernel_Thread.thy ===== *)
theory Kernel_Thread
  imports Kernel_State
begin

text \<open>
  \<^verbatim>\<open>core/hle/kernel/thread.cpp\<close> and the operations of \<^verbatim>\<open>scheduler.cpp\<close> that change threads:
  priority inheritance, sleeping and resuming, the choice of a core, and context switches.
\<close>

section \<open>Status and timers\<close>

definition SetStatus :: "'w Kernel \<Rightarrow> tid \<Rightarrow> ThreadStatus \<Rightarrow> 'w Kernel option" where
  "SetStatus k t new_status = do {
     th \<leftarrow> thread_at k t;
     if new_status = th_status th then Some k
     else do {
       th \<leftarrow> (if th_status th = Running
              then do { ticks \<leftarrow> GetTicks (k_core_timing k); Some (th\<lparr>th_last_running_ticks := ticks\<rparr>) }
              else Some th);
       Some (k\<lparr>k_threads := (k_threads k)(t \<mapsto> th\<lparr>th_status := new_status\<rparr>)\<rparr>)
     }
   }"

definition WakeAfterDelay :: "'w Kernel \<Rightarrow> tid \<Rightarrow> int \<Rightarrow> 'w Kernel option" where
  "WakeAfterDelay k t nanoseconds = do {
     th \<leftarrow> thread_at k t;
     if nanoseconds = -1 then Some k
     else do {
       ct \<leftarrow> ScheduleEventThreadsafe (k_core_timing k) (nsToCycles_s64 nanoseconds)
         (k_thread_wakeup_event_type k) (ucast (th_callback_handle th));
       Some (k\<lparr>k_core_timing := ct\<rparr>)
     }
   }"

definition CancelWakeupTimer :: "'w Kernel \<Rightarrow> tid \<Rightarrow> 'w Kernel option" where
  "CancelWakeupTimer k t = do {
     th \<leftarrow> thread_at k t;
     Some (k\<lparr>k_core_timing := UnscheduleEventThreadsafe (k_core_timing k)
       (k_thread_wakeup_event_type k) (ucast (th_callback_handle th))\<rparr>)
   }"

definition Sleep :: "'w Kernel \<Rightarrow> tid \<Rightarrow> int \<Rightarrow> 'w Kernel option" where
  "Sleep k t nanoseconds = do {
     k \<leftarrow> SetStatus k t WaitSleep;
     WakeAfterDelay k t nanoseconds
   }"

definition SetWaitSynchronizationResult :: "'w Kernel \<Rightarrow> tid \<Rightarrow> ResultCode \<Rightarrow> 'w Kernel option" where
  "SetWaitSynchronizationResult k t result = upd_thread t (\<lambda>th. th\<lparr>th_context := (th_context th)\<lparr>
     ctx_cpu_registers := (ctx_cpu_registers (th_context th))(0 := ucast result)\<rparr>\<rparr>) k"

definition SetWaitSynchronizationOutput :: "'w Kernel \<Rightarrow> tid \<Rightarrow> int \<Rightarrow> 'w Kernel option" where
  "SetWaitSynchronizationOutput k t output = upd_thread t (\<lambda>th. th\<lparr>th_context := (th_context th)\<lparr>
     ctx_cpu_registers := (ctx_cpu_registers (th_context th))(1 := word_of_int output)\<rparr>\<rparr>) k"

definition GetWaitObjectIndex :: "'w Kernel \<Rightarrow> tid \<Rightarrow> wait_object \<Rightarrow> int option" where
  "GetWaitObjectIndex k t obj = do {
     th \<leftarrow> thread_at k t;
     ASSERT (th_wait_objects th \<noteq> []);
     let back = takeWhile (\<lambda>x. x \<noteq> obj) (rev (th_wait_objects th));
     Some (int (length (th_wait_objects th)) - int (length back) - 1)
   }"

section \<open>Priority inheritance\<close>

text \<open>The first part of \<open>RemoveMutexWaiter\<close>: all but the final \<open>UpdatePriority\<close>.\<close>

definition remove_waiter :: "'w Kernel \<Rightarrow> tid \<Rightarrow> tid \<Rightarrow> 'w Kernel option" where
  "remove_waiter k this thread = do {
     th \<leftarrow> thread_at k thread;
     me \<leftarrow> thread_at k this;
     ASSERT (th_lock_owner th = Some this);
     ASSERT (thread \<in> set (th_wait_mutex_threads me));
     k \<leftarrow> upd_thread this (\<lambda>me. me\<lparr>th_wait_mutex_threads := remove1 thread (th_wait_mutex_threads me)\<rparr>) k;
     upd_thread thread (\<lambda>th. th\<lparr>th_lock_owner := None\<rparr>) k
   }"

text \<open>\<open>std::find_if\<close> over the waiters for the first one of a larger priority value.\<close>

fun insert_waiter :: "'w Kernel \<Rightarrow> tid \<Rightarrow> nat \<Rightarrow> tid list \<Rightarrow> tid list option" where
  "insert_waiter k thread p [] = Some [thread]"
| "insert_waiter k thread p (entry # rest) = do {
     e \<leftarrow> thread_at k entry;
     if th_current_priority e > p then Some (thread # entry # rest)
     else do { rest' \<leftarrow> insert_waiter k thread p rest; Some (entry # rest') }
   }"

text \<open>The part of \<open>AddMutexWaiter\<close> after the early return, without the final \<open>UpdatePriority\<close>.\<close>

definition add_waiter :: "'w Kernel \<Rightarrow> tid \<Rightarrow> tid \<Rightarrow> 'w Kernel option" where
  "add_waiter k this thread = do {
     th \<leftarrow> thread_at k thread;
     me \<leftarrow> thread_at k this;
     ASSERT (th_lock_owner th = None);
     ASSERT (thread \<notin> set (th_wait_mutex_threads me));
     ws \<leftarrow> insert_waiter k thread (th_current_priority th) (th_wait_mutex_threads me);
     k \<leftarrow> upd_thread this (\<lambda>me. me\<lparr>th_wait_mutex_threads := ws\<rparr>) k;
     upd_thread thread (\<lambda>th. th\<lparr>th_lock_owner := Some this\<rparr>) k
   }"

definition inherited_priority :: "'w Kernel \<Rightarrow> 'w Thread \<Rightarrow> nat option" where
  "inherited_priority k th =
     (case th_wait_mutex_threads th of
        [] \<Rightarrow> Some (th_nominal_priority th)
      | w # _ \<Rightarrow> do {
          wth \<leftarrow> thread_at k w;
          Some (if th_current_priority wth < th_nominal_priority th then th_current_priority wth
                else th_nominal_priority th)
        })"

text \<open>
  \<open>UpdatePriority\<close> calls \<open>RemoveMutexWaiter\<close> and \<open>AddMutexWaiter\<close> on the owner of the lock, each
  of which ends with an \<open>UpdatePriority\<close> of the owner, and then \<open>UpdatePriority\<close> of the owner once
  more. It need not terminate if the threads wait for one another in a circle.
\<close>

partial_function (option) UpdatePriority :: "'w Kernel \<Rightarrow> tid \<Rightarrow> 'w Kernel option" where
  "UpdatePriority k this = do {
     th \<leftarrow> thread_at k this;
     new_priority \<leftarrow> inherited_priority k th;
     if new_priority = th_current_priority th then Some k
     else do {
       k \<leftarrow> SetThreadPriority k (th_scheduler th) this new_priority;
       k \<leftarrow> upd_thread this (\<lambda>th. th\<lparr>th_current_priority := new_priority\<rparr>) k;
       (case th_lock_owner th of
          None \<Rightarrow> Some k
        | Some owner \<Rightarrow> do {
            k \<leftarrow> remove_waiter k owner this;
            k \<leftarrow> UpdatePriority k owner;
            k \<leftarrow> add_waiter k owner this;
            k \<leftarrow> UpdatePriority k owner;
            UpdatePriority k owner
          })
     }
   }"

definition RemoveMutexWaiter :: "'w Kernel \<Rightarrow> tid \<Rightarrow> tid \<Rightarrow> 'w Kernel option" where
  "RemoveMutexWaiter k this thread = do {
     k \<leftarrow> remove_waiter k this thread;
     UpdatePriority k this
   }"

definition AddMutexWaiter :: "'w Kernel \<Rightarrow> tid \<Rightarrow> tid \<Rightarrow> 'w Kernel option" where
  "AddMutexWaiter k this thread = do {
     th \<leftarrow> thread_at k thread;
     me \<leftarrow> thread_at k this;
     if th_lock_owner th = Some this then do {
       ASSERT (thread \<in> set (th_wait_mutex_threads me));
       Some k
     }
     else do {
       k \<leftarrow> add_waiter k this thread;
       UpdatePriority k this
     }
   }"

definition SetPriority :: "'w Kernel \<Rightarrow> tid \<Rightarrow> nat \<Rightarrow> 'w Kernel option" where
  "SetPriority k this priority = do {
     ASSERT (priority \<le> THREADPRIO_LOWEST \<and> priority \<ge> THREADPRIO_HIGHEST);
     k \<leftarrow> upd_thread this (\<lambda>th. th\<lparr>th_nominal_priority := priority\<rparr>) k;
     UpdatePriority k this
   }"

section \<open>Choosing a core\<close>

definition core_idle :: "'w Kernel \<Rightarrow> nat \<Rightarrow> bool" where
  "core_idle k c \<longleftrightarrow> GetCurrentThread (k_schedulers k c) = None"

definition GetNextProcessorId :: "'w Kernel \<Rightarrow> u64 \<Rightarrow> nat option" where
  "GetNextProcessorId k m = List.find (\<lambda>index. bit m index \<and> core_idle k index) [0..<NUM_CPU_CORES]"

definition ChangeScheduler :: "'w Kernel \<Rightarrow> tid \<Rightarrow> 'w Kernel option" where
  "ChangeScheduler k this = do {
     th \<leftarrow> thread_at k this;
     if th_status th \<noteq> Ready then Some k
     else do {
       let new_processor_id = (case GetNextProcessorId k (th_affinity_mask th) of
         Some c \<Rightarrow> int c | None \<Rightarrow> th_processor_id th);
       ideal_idle \<leftarrow> (if th_ideal_core th \<noteq> -1 then do {
           s \<leftarrow> sched_at k (unat (th_ideal_core th));
           Some (GetCurrentThread s = None)
         } else Some False);
       let new_processor_id = (if ideal_idle then sint (th_ideal_core th) else new_processor_id);
       ASSERT (new_processor_id < 4);
       ASSERT (0 \<le> new_processor_id);
       let next_scheduler = nat new_processor_id;
       k \<leftarrow> (if new_processor_id \<noteq> th_processor_id th then do {
           k \<leftarrow> RemoveThread k (th_scheduler th) this;
           AddThread k next_scheduler this
         } else Some k);
       k \<leftarrow> upd_thread this (\<lambda>th. th\<lparr>th_processor_id := new_processor_id\<rparr>) k;
       k \<leftarrow> UnscheduleThread k (th_scheduler th) this (th_current_priority th);
       k \<leftarrow> ScheduleThread k next_scheduler this (th_current_priority th);
       k \<leftarrow> upd_thread this (\<lambda>th. th\<lparr>th_scheduler := next_scheduler\<rparr>) k;
       PrepareReschedule k next_scheduler
     }
   }"

definition ChangeCore :: "'w Kernel \<Rightarrow> tid \<Rightarrow> u32 \<Rightarrow> u64 \<Rightarrow> 'w Kernel option" where
  "ChangeCore k this core m = do {
     k \<leftarrow> upd_thread this (\<lambda>th. th\<lparr>th_ideal_core := core, th_affinity_mask := m\<rparr>) k;
     ChangeScheduler k this
   }"

section \<open>Resuming and pausing\<close>

text \<open>
  \<open>DEBUG_ASSERT\<close> does nothing in a release build: a thread that is already running or dead is
  left alone.
\<close>

definition ResumeFromWait :: "'w Kernel \<Rightarrow> tid \<Rightarrow> 'w Kernel option" where
  "ResumeFromWait k this = do {
     th \<leftarrow> thread_at k this;
     ASSERT (th_wait_objects th = []);
     (case th_status th of
        Ready \<Rightarrow> do { ASSERT (th_wakeup_callback th = None); Some k }
      | Running \<Rightarrow> Some k
      | Dead \<Rightarrow> Some k
      | _ \<Rightarrow> do {
          k \<leftarrow> upd_thread this (\<lambda>th. th\<lparr>th_wakeup_callback := None\<rparr>) k;
          if th_activity th = ActivityPaused
          then upd_thread this (\<lambda>th. th\<lparr>th_status := Paused\<rparr>) k
          else do {
            k \<leftarrow> upd_thread this (\<lambda>th. th\<lparr>th_status := Ready\<rparr>) k;
            ChangeScheduler k this
          }
        })
   }"

definition CancelWait :: "'w Kernel \<Rightarrow> tid \<Rightarrow> 'w Kernel option" where
  "CancelWait k this = do {
     th \<leftarrow> thread_at k this;
     ASSERT (th_status th = WaitSynch);
     k \<leftarrow> SetWaitSynchronizationResult k this ERR_SYNCHRONIZATION_CANCELED;
     ResumeFromWait k this
   }"

definition SetActivity :: "'w Kernel \<Rightarrow> tid \<Rightarrow> ThreadActivity \<Rightarrow> 'w Kernel option" where
  "SetActivity k this v = do {
     th \<leftarrow> thread_at k this;
     k \<leftarrow> upd_thread this (\<lambda>th. th\<lparr>th_activity := v\<rparr>) k;
     if v = ActivityPaused then
       (if th_status th = Ready then upd_thread this (\<lambda>th. th\<lparr>th_status := Paused\<rparr>) k
        else if th_status th = Running then do {
          k \<leftarrow> upd_thread this (\<lambda>th. th\<lparr>th_status := Paused\<rparr>) k;
          ASSERT (0 \<le> th_processor_id th);
          PrepareReschedule k (nat (th_processor_id th))
        }
        else Some k)
     else if th_status th = Paused then ResumeFromWait k this
     else Some k
   }"

section \<open>Context switches\<close>

definition UpdateLastContextSwitchTime :: "'w Kernel \<Rightarrow> nat \<Rightarrow> tid option \<Rightarrow> nat option \<Rightarrow> 'w Kernel option" where
  "UpdateLastContextSwitchTime k c thread process = do {
     s \<leftarrow> sched_at k c;
     most_recent_switch_ticks \<leftarrow> GetTicks (k_core_timing k);
     let update_ticks = most_recent_switch_ticks - sc_last_context_switch_time s;
     k \<leftarrow> (case thread of
         None \<Rightarrow> Some k
       | Some t \<Rightarrow> upd_thread t (\<lambda>th. th\<lparr>th_total_cpu_time_ticks := th_total_cpu_time_ticks th + update_ticks\<rparr>) k);
     k \<leftarrow> (case process of
         None \<Rightarrow> Some k
       | Some p \<Rightarrow> do {
           pr \<leftarrow> k_processes k p;
           Some (k\<lparr>k_processes := (k_processes k)(p \<mapsto> pr\<lparr>pr_total_process_running_time_ticks :=
             pr_total_process_running_time_ticks pr + update_ticks\<rparr>)\<rparr>)
         });
     Some (set_sched c (s\<lparr>sc_last_context_switch_time := most_recent_switch_ticks\<rparr>) k)
   }"

text \<open>Saving the context of the thread that leaves the core.\<close>

definition save_previous :: "'w Kernel \<Rightarrow> nat \<Rightarrow> tid \<Rightarrow> 'w Kernel option" where
  "save_previous k c previous = do {
     k \<leftarrow> upd_thread previous (\<lambda>th. th\<lparr>th_context := cpu_context (k_cpus k c),
       th_tpidr_el0 := cpu_tpidr_el0 (k_cpus k c)\<rparr>) k;
     th \<leftarrow> thread_at k previous;
     if th_status th = Running then do {
       s \<leftarrow> sched_at k c;
       q \<leftarrow> mlq_add ready_depth (sc_ready_queue s) previous (th_current_priority th) False;
       let k = set_sched c (s\<lparr>sc_ready_queue := q\<rparr>) k;
       SetStatus k previous Ready
     }
     else Some k
   }"

text \<open>Loading the context of the thread that gets the core.\<close>

definition load_next :: "'w Kernel \<Rightarrow> nat \<Rightarrow> nat option \<Rightarrow> tid \<Rightarrow> 'w Kernel option" where
  "load_next k c previous_process new_thread = do {
     th \<leftarrow> thread_at k new_thread;
     ASSERT (th_status th = Ready);
     k \<leftarrow> CancelWakeupTimer k new_thread;
     s \<leftarrow> sched_at k c;
     q \<leftarrow> mlq_remove ready_depth (sc_ready_queue s) new_thread (th_current_priority th);
     let k = set_sched c (s\<lparr>sc_current_thread := Some new_thread, sc_ready_queue := q\<rparr>) k;
     k \<leftarrow> SetStatus k new_thread Running;
     let k = (if previous_process \<noteq> Some (th_owner_process th)
              then k\<lparr>k_current_process := Some (th_owner_process th)\<rparr> else k);
     Some (k\<lparr>k_cpus := (k_cpus k)(c := (k_cpus k c)\<lparr>cpu_context := th_context th,
       cpu_tls_address := th_tls_address th, cpu_tpidr_el0 := th_tpidr_el0 th\<rparr>)\<rparr>)
   }"

definition SwitchContext :: "'w Kernel \<Rightarrow> nat \<Rightarrow> tid option \<Rightarrow> 'w Kernel option" where
  "SwitchContext k c new_thread = do {
     s \<leftarrow> sched_at k c;
     let previous_thread = GetCurrentThread s;
     let previous_process = k_current_process k;
     k \<leftarrow> UpdateLastContextSwitchTime k c previous_thread previous_process;
     k \<leftarrow> (case previous_thread of None \<Rightarrow> Some k | Some p \<Rightarrow> save_previous k c p);
     (case new_thread of
        Some n \<Rightarrow> load_next k c previous_process n
      | None \<Rightarrow> do {
          s \<leftarrow> sched_at k c;
          Some (set_sched c (s\<lparr>sc_current_thread := None\<rparr>) k)
        })
   }"

definition Reschedule :: "'w Kernel \<Rightarrow> nat \<Rightarrow> 'w Kernel option" where
  "Reschedule k c = do {
     n \<leftarrow> PopNextReadyThread k c;
     SwitchContext k c n
   }"

text \<open>\<open>Cpu::Reschedule\<close> of \<^verbatim>\<open>core/core_cpu.cpp\<close>.\<close>

definition Cpu_Reschedule :: "'w Kernel \<Rightarrow> nat \<Rightarrow> 'w Kernel option" where
  "Cpu_Reschedule k c =
     (if \<not> cpu_reschedule_pending (k_cpus k c) then Some k
      else Reschedule (k\<lparr>k_cpus := (k_cpus k)(c := (k_cpus k c)\<lparr>cpu_reschedule_pending := False\<rparr>)\<rparr>) c)"

section \<open>Yielding\<close>

definition YieldWithoutLoadBalancing :: "'w Kernel \<Rightarrow> nat \<Rightarrow> tid option \<Rightarrow> 'w Kernel option" where
  "YieldWithoutLoadBalancing k c thread = do {
     ASSERT (thread \<noteq> None);
     t \<leftarrow> thread;
     th \<leftarrow> thread_at k t;
     ASSERT (th_status th = Running);
     ASSERT (th_current_priority th < THREADPRIO_COUNT);
     s \<leftarrow> sched_at k c;
     cur \<leftarrow> GetCurrentThread s;
     Sleep k cur 0
   }"

fun best_suggestion ::
    "'w Kernel \<Rightarrow> nat \<Rightarrow> nat \<Rightarrow> nat list \<Rightarrow> tid option \<Rightarrow> tid option option" where
  "best_suggestion k core priority [] best = Some best"
| "best_suggestion k core priority (c # cs) best = do {
     res \<leftarrow> GetNextSuggestedThread k c core priority;
     best \<leftarrow> (case res of
         None \<Rightarrow> Some best
       | Some r \<Rightarrow> (case best of
           None \<Rightarrow> Some (Some r)
         | Some b \<Rightarrow> do {
             bth \<leftarrow> thread_at k b;
             rth \<leftarrow> thread_at k r;
             Some (Some (if th_current_priority bth > th_current_priority rth then r else b))
           }));
     best_suggestion k core priority cs best
   }"

definition YieldWithLoadBalancing :: "'w Kernel \<Rightarrow> nat \<Rightarrow> tid option \<Rightarrow> 'w Kernel option" where
  "YieldWithLoadBalancing k c thread = do {
     ASSERT (thread \<noteq> None);
     t \<leftarrow> thread;
     th \<leftarrow> thread_at k t;
     let priority = th_current_priority th;
     let core = (word_of_int (th_processor_id th) :: u32);
     ASSERT (th_status th = Running);
     ASSERT (priority < THREADPRIO_COUNT);
     s \<leftarrow> sched_at k c;
     cur \<leftarrow> GetCurrentThread s;
     k \<leftarrow> Sleep k cur 0;
     best \<leftarrow> best_suggestion k (unat core) priority [0..<NUM_CPU_CORES] None;
     (case best of
        None \<Rightarrow> Some k
      | Some b \<Rightarrow> do {
          bth \<leftarrow> thread_at k b;
          ChangeCore k b core (th_affinity_mask bth)
        })
   }"

end
