(* ===== verification/Multi_Level_Queue_Correct.thy ===== *)
theory Multi_Level_Queue_Correct
  imports Multi_Level_Queue
begin

text \<open>
  The multi-level queue as a list of lists: \<open>mlq_ok\<close> says that the bit mask of used priorities
  marks exactly the levels that are not empty. The queries are read off the concatenation of the
  levels (\<open>mlq_elems\<close>), and the iterators walk along it.
\<close>

subsection \<open>Bits\<close>

lemma takeWhile_first:
  assumes "i < n" and "P i" and "\<And>j. j < i \<Longrightarrow> \<not> P j"
  shows "length (takeWhile (\<lambda>j. \<not> P j) [0..<n]) = i"
proof -
  have "[0..<n] = [0..<i] @ i # [Suc i..<n]"
    using assms(1) upt_add_eq_append [of 0 i "n - i"] upt_conv_Cons by auto
  moreover have "takeWhile (\<lambda>j. \<not> P j) ([0..<i] @ i # [Suc i..<n]) = [0..<i]"
    using assms(2,3) by (subst takeWhile_append2) auto
  ultimately show ?thesis by simp
qed

lemma CountTrailingZeroes64_first:
  assumes "bit v i" and "\<And>j. j < i \<Longrightarrow> \<not> bit v j"
  shows "CountTrailingZeroes64 v = i"
proof -
  have "i < 64" using assms(1) by (auto dest: bit_imp_le_length)
  then show ?thesis unfolding CountTrailingZeroes64_def using assms by (intro takeWhile_first) auto
qed

lemma CountLeadingZeroes64_last:
  assumes "bit v i" and "\<And>j. i < j \<Longrightarrow> \<not> bit v j"
  shows "CountLeadingZeroes64 v = 63 - i"
proof -
  have i: "i < 64" using assms(1) by (auto dest: bit_imp_le_length)
  have "\<not> bit v (63 - j)" if "j < 63 - i" for j using assms(2) [of "63 - j"] that by simp
  with i assms(1) show ?thesis unfolding CountLeadingZeroes64_def by (intro takeWhile_first) auto
qed

lemma word64_nonzero_bit: "v \<noteq> 0 \<longleftrightarrow> (\<exists>i < 64. bit (v :: u64) i)"
  by (auto simp: bit_eq_iff dest: bit_imp_le_length)

lemma CountTrailingZeroes64_nonzero:
  assumes "v \<noteq> 0"
  shows "bit v (CountTrailingZeroes64 v)" and "j < CountTrailingZeroes64 v \<Longrightarrow> \<not> bit v j"
proof -
  define i where "i = (LEAST i. bit v i)"
  obtain k where "bit v k" using assms by (auto simp: word64_nonzero_bit)
  then have i: "bit v i" and least: "\<And>j. j < i \<Longrightarrow> \<not> bit v j"
    unfolding i_def by (auto intro: LeastI dest: not_less_Least)
  then have "CountTrailingZeroes64 v = i" by (rule CountTrailingZeroes64_first)
  with i least show "bit v (CountTrailingZeroes64 v)" "j < CountTrailingZeroes64 v \<Longrightarrow> \<not> bit v j" by auto
qed

lemma CountLeadingZeroes64_nonzero:
  assumes "v \<noteq> 0"
  shows "bit v (63 - CountLeadingZeroes64 v)" and "63 - CountLeadingZeroes64 v < j \<Longrightarrow> \<not> bit v j"
proof -
  define i where "i = Max {i. bit v i}"
  have fin: "finite {i. bit v i}" by (rule finite_subset [of _ "{..<64}"]) (auto dest: bit_imp_le_length)
  obtain k where "bit v k" using assms by (auto simp: word64_nonzero_bit)
  then have i: "bit v i" using Max_in [OF fin] by (auto simp: i_def)
  have last: "\<not> bit v j" if "i < j" for j using Max_ge [OF fin, of j] that unfolding i_def by fastforce
  have "i < 64" using i by (auto dest: bit_imp_le_length)
  then have "63 - CountLeadingZeroes64 v = i" using CountLeadingZeroes64_last [OF i last] by simp
  with i last show "bit v (63 - CountLeadingZeroes64 v)" "63 - CountLeadingZeroes64 v < j \<Longrightarrow> \<not> bit v j" by auto
qed

lemma shl1_Some: "n < 64 \<Longrightarrow> shl1 n = Some (2 ^ n)"
  by (simp add: shl1_def)

lemma bit_shl1: "n < 64 \<Longrightarrow> bit (2 ^ n :: u64) i \<longleftrightarrow> i = n"
  by (auto simp: bit_simps)

lemma bit_below: "n < 64 \<Longrightarrow> bit (2 ^ n - 1 :: u64) i \<longleftrightarrow> i < n"
  by (simp add: bit_mask_iff flip: mask_eq_exp_minus_1) linarith

subsection \<open>The invariant\<close>

definition mlq_ok :: "nat \<Rightarrow> 'a MultiLevelQueue \<Rightarrow> bool" where
  "mlq_ok depth q \<longleftrightarrow> depth \<le> 64 \<and> (\<forall>p. bit (mlq_used q) p \<longleftrightarrow> p < depth \<and> mlq_levels q p \<noteq> [])"

definition mlq_elems :: "nat \<Rightarrow> 'a MultiLevelQueue \<Rightarrow> nat \<Rightarrow> 'a list" where
  "mlq_elems depth q p = concat (map (mlq_levels q) [p..<depth])"

lemma mlq_ok_depth: "mlq_ok depth q \<Longrightarrow> depth \<le> 64"
  by (simp add: mlq_ok_def)

lemma mlq_init_ok: "depth \<le> 64 \<Longrightarrow> mlq_ok depth mlq_init"
  by (simp add: mlq_ok_def mlq_init_def)

lemma mlq_add_at:
  assumes "mlq_ok depth q" and "p < depth"
  shows "\<exists>q'. mlq_add depth q x p sb = Some q' \<and> mlq_ok depth q' \<and>
    mlq_levels q' = (mlq_levels q)(p := if sb then mlq_levels q p @ [x] else x # mlq_levels q p)"
proof -
  have p: "p < 64" using assms by (simp add: mlq_ok_def)
  have u: "bit (mlq_used q) i \<longleftrightarrow> i < depth \<and> mlq_levels q i \<noteq> []" for i
    using assms(1) by (simp add: mlq_ok_def)
  show ?thesis
    using assms(2) mlq_ok_depth [OF assms(1)]
    by (simp add: mlq_add_def shl1_Some [OF p] mlq_ok_def bit_or_iff bit_shl1 [OF p] u)
qed

lemma mlq_clear_if_empty_at:
  assumes "depth \<le> 64" and "p < depth" and "\<And>i. bit (mlq_used q) i \<longleftrightarrow> i < depth \<and> (i = p \<or> mlq_levels q i \<noteq> [])"
  shows "\<exists>q'. mlq_clear_if_empty q p = Some q' \<and> mlq_ok depth q' \<and> mlq_levels q' = mlq_levels q"
proof -
  have p: "p < 64" using assms(1,2) by simp
  have "bit (mlq_used q AND NOT (2 ^ p)) i \<longleftrightarrow> i < depth \<and> mlq_levels q i \<noteq> []"
    if "mlq_levels q p = []" for i
  proof -
    have "bit (NOT (2 ^ p) :: u64) i \<longleftrightarrow> i < 64 \<and> i \<noteq> p" by (simp add: bit_not_iff bit_shl1 [OF p])
    then show ?thesis using that assms(1,2) by (auto simp: bit_and_iff assms(3))
  qed
  moreover have "bit (mlq_used q) i \<longleftrightarrow> i < depth \<and> mlq_levels q i \<noteq> []" if "mlq_levels q p \<noteq> []" for i
    using that assms(2) by (auto simp: assms(3))
  ultimately show ?thesis
    using assms(1) by (cases "mlq_levels q p = []") (simp_all add: mlq_clear_if_empty_def shl1_Some [OF p] mlq_ok_def)
qed

lemma mlq_remove_at:
  assumes ok: "mlq_ok depth q" and "p < depth"
  shows "\<exists>q'. mlq_remove depth q x p = Some q' \<and> mlq_ok depth q' \<and>
    mlq_levels q' = (mlq_levels q)(p := remove1 x (mlq_levels q p))"
proof (cases "x \<in> set (mlq_levels q p)")
  case False
  then show ?thesis using assms by (simp add: mlq_remove_def remove1_idem)
next
  case True
  let ?q = "q\<lparr>mlq_levels := (mlq_levels q)(p := remove1 x (mlq_levels q p))\<rparr>"
  have "bit (mlq_used ?q) i \<longleftrightarrow> i < depth \<and> (i = p \<or> mlq_levels ?q i \<noteq> [])" for i
  proof -
    have "mlq_levels q p \<noteq> []" using True by auto
    then show ?thesis using ok assms(2) unfolding mlq_ok_def by simp
  qed
  then show ?thesis
    using mlq_clear_if_empty_at [OF mlq_ok_depth [OF ok] assms(2), of ?q] assms(2) True
    by (simp add: mlq_remove_def)
qed

lemma mlq_adjust_at:
  assumes ok: "mlq_ok depth q" and p: "p < depth" "p' < depth"
  shows "\<exists>r. mlq_adjust depth q x p p' af = Some r \<and> mlq_ok depth r \<and>
    (p \<noteq> p' \<longrightarrow> mlq_levels r = (mlq_levels q)(p := remove1 x (mlq_levels q p),
       p' := if af then x # mlq_levels q p' else mlq_levels q p' @ [x]))"
proof -
  obtain q1 where q1: "mlq_remove depth q x p = Some q1" "mlq_ok depth q1"
    "mlq_levels q1 = (mlq_levels q)(p := remove1 x (mlq_levels q p))"
    using mlq_remove_at [OF ok p(1)] by blast
  with mlq_add_at [OF q1(2) p(2), of x "\<not> af"] show ?thesis by (auto simp: mlq_adjust_def)
qed

lemma mlq_yield_at:
  assumes "mlq_ok depth q" and "p < depth"
  shows "\<exists>r. mlq_yield depth q p n = Some r \<and> mlq_ok depth r \<and>
    mlq_levels r = (mlq_levels q)(p := ListShiftForward (mlq_levels q p) n)"
proof -
  have "ListShiftForward l n = [] \<longleftrightarrow> l = []" for l :: "'a list" by (auto simp: ListShiftForward_def)
  with assms show ?thesis by (simp add: mlq_yield_def mlq_ok_def)
qed

lemma mlq_transfer_at:
  assumes ok: "mlq_ok depth q" "p < depth" and "mlq_ok depth other" "x \<in> set (mlq_levels q p)"
    and ins: "\<And>l. ins l x \<noteq> []"
  shows "\<exists>r o'. mlq_transfer ins depth q x p other = Some (r, o') \<and> mlq_ok depth r \<and> mlq_ok depth o' \<and>
    mlq_levels r = (mlq_levels q)(p := remove1 x (mlq_levels q p)) \<and>
    mlq_levels o' = (mlq_levels other)(p := ins (mlq_levels other p) x)"
proof -
  have p: "p < 64" using ok by (simp add: mlq_ok_def)
  let ?q = "q\<lparr>mlq_levels := (mlq_levels q)(p := remove1 x (mlq_levels q p))\<rparr>"
  let ?o = "other\<lparr>mlq_levels := (mlq_levels other)(p := ins (mlq_levels other p) x),
    mlq_used := mlq_used other OR 2 ^ p\<rparr>"
  have "mlq_levels q p \<noteq> []" using assms(4) by auto
  then have "bit (mlq_used ?q) i \<longleftrightarrow> i < depth \<and> (i = p \<or> mlq_levels ?q i \<noteq> [])" for i
    using ok unfolding mlq_ok_def by simp
  then obtain r where "mlq_clear_if_empty ?q p = Some r" "mlq_ok depth r" "mlq_levels r = mlq_levels ?q"
    using mlq_clear_if_empty_at [OF mlq_ok_depth [OF ok(1)] ok(2), of ?q] by blast
  moreover have "mlq_ok depth ?o"
    using assms(2,3) ins unfolding mlq_ok_def by (simp add: bit_or_iff bit_shl1 [OF p])
  ultimately show ?thesis using assms(2,4) by (simp add: mlq_transfer_def shl1_Some [OF p])
qed

subsection \<open>The next used level\<close>

definition next_level :: "nat \<Rightarrow> 'a MultiLevelQueue \<Rightarrow> nat \<Rightarrow> nat" where
  "next_level depth q m = (case List.find (\<lambda>p. mlq_levels q p \<noteq> []) [m..<depth] of None \<Rightarrow> depth | Some p \<Rightarrow> p)"

lemma next_level_cases:
  obtains (none) "next_level depth q m = depth" "\<And>p. m \<le> p \<Longrightarrow> p < depth \<Longrightarrow> mlq_levels q p = []"
  | (some) p where "next_level depth q m = p" "m \<le> p" "p < depth" "mlq_levels q p \<noteq> []"
      "\<And>i. m \<le> i \<Longrightarrow> i < p \<Longrightarrow> mlq_levels q i = []"
proof (cases "List.find (\<lambda>p. mlq_levels q p \<noteq> []) [m..<depth]")
  case None
  then have "next_level depth q m = depth" by (simp add: next_level_def)
  moreover have "mlq_levels q p = []" if "m \<le> p" "p < depth" for p
    using None that by (auto simp: find_None_iff)
  ultimately show thesis by (rule that(1))
next
  case (Some p)
  then obtain k where k: "k < length [m..<depth]" "p = [m..<depth] ! k" "mlq_levels q p \<noteq> []"
    "\<And>j. j < k \<Longrightarrow> mlq_levels q ([m..<depth] ! j) = []"
    unfolding find_Some_iff by blast
  then have "p = m + k" by simp
  moreover have "mlq_levels q i = []" if "m \<le> i" "i < p" for i
    using k(4) [of "i - m"] that calculation k(1) by simp
  ultimately show thesis using that(2) [of p] k(1,3) Some by (simp add: next_level_def)
qed

lemma mlq_elems_skip:
  assumes "m \<le> n" and "n \<le> depth" and "\<And>i. m \<le> i \<Longrightarrow> i < n \<Longrightarrow> mlq_levels q i = []"
  shows "mlq_elems depth q m = mlq_elems depth q n"
proof -
  have "[m..<depth] = [m..<n] @ [n..<depth]" using assms(1,2) upt_add_eq_append [of m n "depth - n"] by simp
  moreover have "concat (map (mlq_levels q) [m..<n]) = []" using assms(3) by auto
  ultimately show ?thesis by (simp add: mlq_elems_def)
qed

lemma mlq_elems_next: "m \<le> depth \<Longrightarrow> mlq_elems depth q m = mlq_elems depth q (next_level depth q m)"
  by (rule next_level_cases [of depth q m]) (auto intro!: mlq_elems_skip)

lemma mlq_elems_Cons: "p < depth \<Longrightarrow> mlq_elems depth q p = mlq_levels q p @ mlq_elems depth q (Suc p)"
  by (simp add: mlq_elems_def upt_conv_Cons)

lemma mlq_elems_end: "mlq_elems depth q depth = []"
  by (simp add: mlq_elems_def)

text \<open>The lowest set bit at or above \<open>m\<close>, in the mask with the lower bits cleared.\<close>

lemma ctz_next_level:
  assumes ok: "mlq_ok depth q" and v: "\<And>i. bit v i \<longleftrightarrow> bit (mlq_used q) i \<and> m \<le> i"
  shows "(if v = 0 then depth else CountTrailingZeroes64 v) = next_level depth q m"
proof (cases rule: next_level_cases [of depth q m])
  case none
  then have "v = 0" using ok by (intro bit_word_eqI) (auto simp: v mlq_ok_def)
  with none show ?thesis by simp
next
  case (some p)
  have b: "bit v p" using some ok by (simp add: v mlq_ok_def)
  moreover have "\<not> bit v j" if "j < p" for j using some(5) [of j] that ok by (auto simp: v mlq_ok_def)
  ultimately have "CountTrailingZeroes64 v = p" by (rule CountTrailingZeroes64_first)
  then show ?thesis using some b by auto
qed

lemma highest_priority_set_at:
  assumes ok: "mlq_ok depth q" and m: "m < 64"
  shows "highest_priority_set depth q m = Some (next_level depth q m)"
proof (cases "m = 0")
  case True
  then show ?thesis using ctz_next_level [OF ok, of "mlq_used q" 0] by (simp add: highest_priority_set_def)
next
  case False
  have "bit (mlq_used q AND NOT (2 ^ m - 1)) i \<longleftrightarrow> bit (mlq_used q) i \<and> m \<le> i" for i
  proof -
    have "bit (NOT (2 ^ m - 1) :: u64) i \<longleftrightarrow> i < 64 \<and> m \<le> i" by (simp add: bit_not_iff bit_below [OF m] not_less)
    then show ?thesis by (auto simp: bit_and_iff dest: bit_imp_le_length)
  qed
  from ctz_next_level [OF ok this] False show ?thesis
    by (simp add: highest_priority_set_def shl1_Some [OF m])
qed

lemma mlq_next_at:
  assumes ok: "mlq_ok depth q" and p: "p < depth" "p < 63" "i < length (mlq_levels q p)"
  shows "mlq_next depth q \<lparr>it_prio = p, it_pos = i\<rparr> =
    Some (if Suc i < length (mlq_levels q p) then \<lparr>it_prio = p, it_pos = Suc i\<rparr>
          else \<lparr>it_prio = next_level depth q (Suc p),
                it_pos = (if next_level depth q (Suc p) = depth then Suc i else 0)\<rparr>)"
proof (cases "Suc i < length (mlq_levels q p)")
  case True
  then show ?thesis using p(1) by (simp add: mlq_next_def mlq_IsEnd_def)
next
  case False
  have p1: "Suc p < 64" using p(2) by simp
  have b: "bit (mlq_used q AND NOT (2 ^ Suc p - 1)) i \<longleftrightarrow> bit (mlq_used q) i \<and> Suc p \<le> i" for i
  proof -
    have "bit (NOT (2 ^ Suc p - 1) :: u64) i \<longleftrightarrow> i < 64 \<and> Suc p \<le> i"
      by (simp only: bit_not_iff bit_below [OF p1]) (simp add: not_less)
    then show ?thesis by (auto simp: bit_and_iff dest: bit_imp_le_length)
  qed
  define v where "v = mlq_used q AND NOT (2 ^ Suc p - 1)"
  have v: "(if v = 0 then depth else CountTrailingZeroes64 v) = next_level depth q (Suc p)"
    unfolding v_def by (rule ctz_next_level [OF ok b])
  have nz: "next_level depth q (Suc p) = depth \<longleftrightarrow> v = 0"
  proof (cases "v = 0")
    case False
    then have "bit (mlq_used q) (CountTrailingZeroes64 v)"
      using CountTrailingZeroes64_nonzero(1) [OF False] b by (simp add: v_def)
    then show ?thesis using False v ok by (auto simp: mlq_ok_def)
  qed (use v in simp)
  have last: "Suc i = length (mlq_levels q p)" using False p(3) by simp
  have "mlq_next depth q \<lparr>it_prio = p, it_pos = i\<rparr> =
      Some (if v = 0 then \<lparr>it_prio = depth, it_pos = Suc i\<rparr>
            else \<lparr>it_prio = CountTrailingZeroes64 v, it_pos = 0\<rparr>)"
    using p(1) last shl1_Some [OF p1] by (simp add: mlq_next_def mlq_IsEnd_def v_def)
  then show ?thesis using False v nz by auto
qed

subsection \<open>Queries\<close>

lemma mlq_front_at:
  assumes ok: "mlq_ok depth q" and ne: "mlq_elems depth q 0 \<noteq> []"
  shows "mlq_front depth q 0 = Some (hd (mlq_elems depth q 0))"
proof (cases rule: next_level_cases [of depth q 0])
  case none
  then show ?thesis using ne by (simp add: mlq_elems_def)
next
  case (some p)
  have "mlq_elems depth q 0 = mlq_levels q p @ mlq_elems depth q (Suc p)"
    using mlq_elems_next [of 0 depth q] some by (simp add: mlq_elems_Cons)
  then show ?thesis
    using highest_priority_set_at [OF ok, of 0] some
    by (cases "mlq_levels q p") (simp_all add: mlq_front_def)
qed

lemma mlq_empty_at_iff: "mlq_ok depth q \<Longrightarrow> mlq_empty q \<longleftrightarrow> mlq_elems depth q 0 = []"
  by (auto simp: mlq_empty_def mlq_elems_def mlq_ok_def bit_eq_iff [of "mlq_used q" 0])

text \<open>No element is in the last of 64 levels.\<close>

definition mlq_iterable :: "'a MultiLevelQueue \<Rightarrow> bool" where
  "mlq_iterable q \<longleftrightarrow> mlq_levels q 63 = []"

lemma mlq_find_loop_end: "mlq_find_loop depth q P \<lparr>it_prio = depth, it_pos = i\<rparr> = Some None"
  by (subst mlq_find_loop.simps) (simp add: mlq_IsEnd_def)

lemma mlq_find_loop_at:
  assumes ok: "mlq_ok depth q" and it: "mlq_iterable q"
  shows "p < depth \<Longrightarrow> i < length (mlq_levels q p) \<Longrightarrow>
    mlq_find_loop depth q P \<lparr>it_prio = p, it_pos = i\<rparr> =
      Some (List.find P (drop i (mlq_levels q p) @ mlq_elems depth q (Suc p)))"
proof (induction "length (drop i (mlq_levels q p) @ mlq_elems depth q (Suc p))" arbitrary: p i rule: less_induct)
  case less
  let ?l = "mlq_levels q p"
  have p63: "p < 63" using it less.prems mlq_ok_depth [OF ok] by (cases "p = 63") (auto simp: mlq_iterable_def)
  have d: "drop i ?l = ?l ! i # drop (Suc i) ?l" using less.prems(2) by (simp add: Cons_nth_drop_Suc)
  have unf: "mlq_find_loop depth q P \<lparr>it_prio = p, it_pos = i\<rparr> =
      (if P (?l ! i) then Some (Some (?l ! i))
       else Option.bind (mlq_next depth q \<lparr>it_prio = p, it_pos = i\<rparr>) (mlq_find_loop depth q P))"
    using less.prems by (subst mlq_find_loop.simps) (simp add: mlq_IsEnd_def mlq_deref_def)
  note nx = mlq_next_at [OF ok less.prems(1) p63 less.prems(2)]
  show ?case
  proof (cases "P (?l ! i)")
    case True
    then show ?thesis by (simp add: unf d)
  next
    case nP: False
    show ?thesis
    proof (cases "Suc i < length ?l")
      case True
      then show ?thesis using less.hyps [of "Suc i" p] less.prems(1) nP by (simp add: unf nx d)
    next
      case False
      then have last: "drop (Suc i) ?l = []" by simp
      define p' where "p' = next_level depth q (Suc p)"
      have skip: "mlq_elems depth q (Suc p) = mlq_elems depth q p'"
        unfolding p'_def using less.prems(1) by (intro mlq_elems_next) simp
      show ?thesis
      proof (cases rule: next_level_cases [of depth q "Suc p"])
        case none
        then have "next_level depth q (Suc p) = depth" "p' = depth" by (simp_all add: p'_def)
        then show ?thesis
          using nP False by (simp add: unf nx d last skip mlq_elems_end mlq_find_loop_end)
      next
        case (some p1)
        then have p': "p' < depth" "p' \<noteq> depth" "0 < length (mlq_levels q p')" by (auto simp: p'_def)
        have e: "mlq_elems depth q p' = drop 0 (mlq_levels q p') @ mlq_elems depth q (Suc p')"
          using p'(1) by (simp add: mlq_elems_Cons)
        have "mlq_find_loop depth q P \<lparr>it_prio = p', it_pos = 0\<rparr> = Some (List.find P (mlq_elems depth q p'))"
          unfolding e by (rule less.hyps) (use p' in \<open>simp_all add: d last skip e\<close>)
        then show ?thesis using nP False p'(2) by (simp add: unf nx d last skip p'_def [symmetric])
      qed
    qed
  qed
qed

lemma mlq_find_at:
  assumes ok: "mlq_ok depth q" and it: "mlq_iterable q"
  shows "mlq_find depth q P = Some (List.find P (mlq_elems depth q 0))"
proof (cases rule: next_level_cases [of depth q 0])
  case none
  then have "mlq_elems depth q 0 = []" by (simp add: mlq_elems_def)
  then show ?thesis
    using none(1) highest_priority_set_at [OF ok, of 0]
    by (simp add: mlq_find_def mlq_begin_def mlq_find_loop_end)
next
  case (some p)
  have "mlq_elems depth q 0 = mlq_levels q p @ mlq_elems depth q (Suc p)"
    using mlq_elems_next [of 0 depth q] some by (simp add: mlq_elems_Cons)
  then show ?thesis
    using some highest_priority_set_at [OF ok, of 0] mlq_find_loop_at [OF ok it some(3), of 0 P]
    by (simp add: mlq_find_def mlq_begin_def)
qed

lemma mlq_size_loop_at:
  "mlq_size_loop q v n = Some (n + (\<Sum>p | bit v p. length (mlq_levels q p)))"
proof (induction "card {p. bit v p}" arbitrary: v n)
  have fin: "finite {p. bit v p}" for v :: u64
    by (rule finite_subset [of _ "{..<64}"]) (auto dest: bit_imp_le_length)
  case 0
  then have "v = 0" using fin by (intro bit_word_eqI) simp
  then show ?case by (simp add: mlq_size_loop.simps)
next
  case (Suc k)
  have fin: "finite {p. bit v p}" for v :: u64
    by (rule finite_subset [of _ "{..<64}"]) (auto dest: bit_imp_le_length)
  have nz: "v \<noteq> 0"
  proof
    assume "v = 0"
    then have "{p. bit v p} = {}" by simp
    with Suc.hyps(2) show False by (metis card.empty nat.distinct(1))
  qed
  define p where "p = CountTrailingZeroes64 v"
  have b: "bit v p" unfolding p_def by (rule CountTrailingZeroes64_nonzero(1) [OF nz])
  then have p: "p < 64" by (auto dest: bit_imp_le_length)
  define v' where "v' = v AND NOT (2 ^ p)"
  have v': "{i. bit v' i} = {i. bit v i} - {p}"
    by (auto simp: v'_def bit_and_iff bit_not_iff bit_shl1 [OF p] dest: bit_imp_le_length)
  have ins: "{i. bit v i} = insert p {i. bit v' i}" and nin: "p \<notin> {i. bit v' i}" using v' b by auto
  have "k = card {i. bit v' i}" using Suc.hyps(2) fin [of v'] nin unfolding ins by simp
  from Suc.hyps(1) [OF this]
  have "mlq_size_loop q v n = Some (n + length (mlq_levels q p) + (\<Sum>i | bit v' i. length (mlq_levels q i)))"
    using nz by (subst mlq_size_loop.simps) (simp add: p_def [symmetric] shl1_Some [OF p] v'_def)
  also have "\<dots> = Some (n + (\<Sum>i | bit v i. length (mlq_levels q i)))"
    unfolding ins using fin [of v'] nin by simp
  finally show ?case .
qed

lemma mlq_size_at_all:
  assumes "mlq_ok depth q"
  shows "mlq_size q = Some (length (mlq_elems depth q 0))"
proof -
  have "(\<Sum>p | bit (mlq_used q) p. length (mlq_levels q p)) = (\<Sum>p\<in>{0..<depth}. length (mlq_levels q p))"
    using assms by (intro sum.mono_neutral_left) (simp_all add: mlq_ok_def subset_iff)
  also have "\<dots> = length (mlq_elems depth q 0)"
    by (simp add: mlq_elems_def length_concat comp_def interv_sum_list_conv_sum_set_nat)
  finally show ?thesis by (simp add: mlq_size_def mlq_size_loop_at)
qed

lemma lowest_priority_set_at:
  assumes ok: "mlq_ok depth q"
  shows "lowest_priority_set depth q (depth - 1) =
    Some (if mlq_elems depth q 0 = [] then depth else Max {p. p < depth \<and> mlq_levels q p \<noteq> []})"
proof (cases "mlq_used q = 0")
  case True
  then show ?thesis using mlq_empty_at_iff [OF ok] by (simp add: lowest_priority_set_def mlq_empty_def)
next
  case False
  let ?S = "{p. p < depth \<and> mlq_levels q p \<noteq> []}" and ?p = "63 - CountLeadingZeroes64 (mlq_used q)"
  have bits: "bit (mlq_used q) p \<longleftrightarrow> p \<in> ?S" for p using ok by (simp add: mlq_ok_def)
  have "Max ?S = ?p"
  proof (rule Max_eqI)
    show "?p \<in> ?S" using CountLeadingZeroes64_nonzero(1) [OF False] bits by blast
    show "p \<le> ?p" if "p \<in> ?S" for p
      using CountLeadingZeroes64_nonzero(2) [OF False, of p] bits that by (meson not_le)
  qed simp
  then show ?thesis
    using False mlq_empty_at_iff [OF ok] by (simp add: lowest_priority_set_def mlq_empty_def)
qed

lemma mlq_back_at:
  assumes ok: "mlq_ok depth q" and ne: "mlq_elems depth q 0 \<noteq> []"
  shows "mlq_back depth q (depth - 1) = Some (last (mlq_elems depth q 0))"
proof -
  let ?S = "{p. p < depth \<and> mlq_levels q p \<noteq> []}"
  define p where "p = Max ?S"
  have "?S \<noteq> {}" using ne by (auto simp: mlq_elems_def)
  then have p: "p < depth" "mlq_levels q p \<noteq> []" using Max_in [of ?S] by (auto simp: p_def)
  have "mlq_levels q i = []" if "p < i" "i < depth" for i
    using Max_ge [of ?S i] that by (fastforce simp: p_def)
  then have "mlq_elems depth q (Suc p) = mlq_elems depth q depth"
    using p(1) by (intro mlq_elems_skip) auto
  moreover have "mlq_elems depth q 0 = concat (map (mlq_levels q) [0..<p]) @ mlq_elems depth q p"
    using p(1) upt_add_eq_append [of 0 p "depth - p"] by (simp add: mlq_elems_def flip: concat_append map_append)
  ultimately have "last (mlq_elems depth q 0) = last (mlq_levels q p)"
    using p by (simp add: mlq_elems_Cons mlq_elems_end)
  then show ?thesis
    using lowest_priority_set_at [OF ok] ne p by (simp add: mlq_back_def p_def Let_def)
qed

text \<open>
  \<^bold>\<open>C16\<close>. The queries of a queue whose mask of used priorities agrees with its
  levels: \<open>empty\<close> says whether there is an element and \<open>size\<close> how many; \<open>front\<close> is the first
  element of the most urgent level in use and \<open>back\<close> the last one of the least urgent;
  \<open>highest_priority_set\<close> is the first used level from the given one on, or \<open>Depth\<close>; and a
  range-based loop over the queue visits the elements level by level, in the order of each
  level, and comes to an end, provided that level 63 is empty.
\<close>

theorem mlq_queries:
  assumes ok: "mlq_ok depth q"
  shows "(mlq_empty q \<longleftrightarrow> mlq_elems depth q 0 = []) \<and>
    mlq_size q = Some (length (mlq_elems depth q 0)) \<and>
    (mlq_elems depth q 0 \<noteq> [] \<longrightarrow> mlq_front depth q 0 = Some (hd (mlq_elems depth q 0)) \<and>
       mlq_back depth q (depth - 1) = Some (last (mlq_elems depth q 0))) \<and>
    (m < 64 \<longrightarrow> highest_priority_set depth q m = Some (next_level depth q m)) \<and>
    (mlq_iterable q \<longrightarrow> mlq_find depth q P = Some (List.find P (mlq_elems depth q 0)))"
  using mlq_empty_at_iff [OF ok] mlq_size_at_all [OF ok] mlq_front_at [OF ok] mlq_back_at [OF ok]
    highest_priority_set_at [OF ok] mlq_find_at [OF ok]
  by blast

subsection \<open>Updates\<close>

text \<open>
  \<^bold>\<open>C17\<close>. Every operation that changes a queue keeps the mask in agreement with the
  levels, fails on no valid priority, and changes only the levels it is about: \<open>add\<close> puts the
  element at the chosen end of its level, \<open>remove\<close> takes its first occurrence out, \<open>adjust\<close>
  moves it to another level, \<open>yield\<close> rotates a level, and the transfers move it to the chosen
  end of the same level of the other queue.
\<close>

theorem mlq_updates:
  assumes ok: "mlq_ok depth q" and p: "p < depth" "p' < depth"
  shows "(\<exists>r. mlq_add depth q x p sb = Some r \<and> mlq_ok depth r \<and>
       mlq_levels r = (mlq_levels q)(p := if sb then mlq_levels q p @ [x] else x # mlq_levels q p)) \<and>
    (\<exists>r. mlq_remove depth q x p = Some r \<and> mlq_ok depth r \<and>
       mlq_levels r = (mlq_levels q)(p := remove1 x (mlq_levels q p))) \<and>
    (\<exists>r. mlq_adjust depth q x p p' af = Some r \<and> mlq_ok depth r \<and>
       (p \<noteq> p' \<longrightarrow> mlq_levels r = (mlq_levels q)(p := remove1 x (mlq_levels q p),
          p' := if af then x # mlq_levels q p' else mlq_levels q p' @ [x]))) \<and>
    (\<exists>r. mlq_yield depth q p n = Some r \<and> mlq_ok depth r \<and>
       mlq_levels r = (mlq_levels q)(p := ListShiftForward (mlq_levels q p) n)) \<and>
    (mlq_ok depth other \<and> x \<in> set (mlq_levels q p) \<longrightarrow>
       (\<exists>r o'. mlq_transfer_to_front depth q x p other = Some (r, o') \<and> mlq_ok depth r \<and> mlq_ok depth o' \<and>
          mlq_levels r = (mlq_levels q)(p := remove1 x (mlq_levels q p)) \<and>
          mlq_levels o' = (mlq_levels other)(p := x # mlq_levels other p)) \<and>
       (\<exists>r o'. mlq_transfer_to_back depth q x p other = Some (r, o') \<and> mlq_ok depth r \<and> mlq_ok depth o' \<and>
          mlq_levels r = (mlq_levels q)(p := remove1 x (mlq_levels q p)) \<and>
          mlq_levels o' = (mlq_levels other)(p := mlq_levels other p @ [x])))"
proof (intro conjI impI)
  show "\<exists>r. mlq_add depth q x p sb = Some r \<and> mlq_ok depth r \<and>
       mlq_levels r = (mlq_levels q)(p := if sb then mlq_levels q p @ [x] else x # mlq_levels q p)"
    by (rule mlq_add_at [OF ok p(1)])
  show "\<exists>r. mlq_remove depth q x p = Some r \<and> mlq_ok depth r \<and>
       mlq_levels r = (mlq_levels q)(p := remove1 x (mlq_levels q p))"
    by (rule mlq_remove_at [OF ok p(1)])
  show "\<exists>r. mlq_adjust depth q x p p' af = Some r \<and> mlq_ok depth r \<and>
       (p \<noteq> p' \<longrightarrow> mlq_levels r = (mlq_levels q)(p := remove1 x (mlq_levels q p),
          p' := if af then x # mlq_levels q p' else mlq_levels q p' @ [x]))"
    by (rule mlq_adjust_at [OF ok p])
  show "\<exists>r. mlq_yield depth q p n = Some r \<and> mlq_ok depth r \<and>
       mlq_levels r = (mlq_levels q)(p := ListShiftForward (mlq_levels q p) n)"
    by (rule mlq_yield_at [OF ok p(1)])
  assume o: "mlq_ok depth other \<and> x \<in> set (mlq_levels q p)"
  show "\<exists>r o'. mlq_transfer_to_front depth q x p other = Some (r, o') \<and> mlq_ok depth r \<and> mlq_ok depth o' \<and>
          mlq_levels r = (mlq_levels q)(p := remove1 x (mlq_levels q p)) \<and>
          mlq_levels o' = (mlq_levels other)(p := x # mlq_levels other p)"
    using mlq_transfer_at [OF ok p(1), of other x "\<lambda>l e. e # l"] o by (simp add: mlq_transfer_to_front_def)
  show "\<exists>r o'. mlq_transfer_to_back depth q x p other = Some (r, o') \<and> mlq_ok depth r \<and> mlq_ok depth o' \<and>
          mlq_levels r = (mlq_levels q)(p := remove1 x (mlq_levels q p)) \<and>
          mlq_levels o' = (mlq_levels other)(p := mlq_levels other p @ [x])"
    using mlq_transfer_at [OF ok p(1), of other x "\<lambda>l e. l @ [e]"] o by (simp add: mlq_transfer_to_back_def)
qed

subsection \<open>Where the iterators go wrong\<close>

text \<open>
  In a queue of depth 64, the depth the scheduler uses, stepping an iterator
  past the last element of level 63 shifts a 64-bit one by 64, which is undefined behaviour: a
  loop over a queue with an element of the lowest priority does not reach its end.
\<close>

theorem mlq_next_undefined:
  assumes "Suc i = length (mlq_levels q 63)"
  shows "mlq_next 64 q \<lparr>it_prio = 63, it_pos = i\<rparr> = None"
  using assms by (simp add: mlq_next_def mlq_IsEnd_def shl1_def)

text \<open>
  Stepping an iterator back from the first element of a level goes to the last
  element of the most urgent level in use, skipping all levels in between.
\<close>

theorem mlq_prev_skips:
  assumes ok: "mlq_ok depth q" and p: "p < depth" "next_level depth q 0 < p"
  shows "mlq_prev depth q \<lparr>it_prio = p, it_pos = 0\<rparr> =
    Some \<lparr>it_prio = next_level depth q 0, it_pos = length (mlq_levels q (next_level depth q 0)) - 1\<rparr>"
proof -
  have p64: "p < 64" using p(1) mlq_ok_depth [OF ok] by simp
  have bits: "bit (mlq_used q AND (2 ^ p - 1)) i \<longleftrightarrow> bit (mlq_used q) i \<and> i < p" for i
    by (simp add: bit_and_iff bit_below [OF p64])
  obtain p0 where p0: "next_level depth q 0 = p0" "p0 < depth" "mlq_levels q p0 \<noteq> []"
    "\<And>i. i < p0 \<Longrightarrow> mlq_levels q i = []"
    using p by (cases rule: next_level_cases [of depth q 0]) auto
  have b: "bit (mlq_used q AND (2 ^ p - 1)) p0" using p0 p(2) ok bits by (simp add: mlq_ok_def)
  then have "CountTrailingZeroes64 (mlq_used q AND (2 ^ p - 1)) = p0"
    using p0(4) ok bits by (intro CountTrailingZeroes64_first) (auto simp: mlq_ok_def)
  moreover have "mlq_used q AND (2 ^ p - 1) \<noteq> 0" using b by auto
  ultimately show ?thesis
    using p(1) p0(1) by (simp add: mlq_prev_def mlq_IsEnd_def shl1_Some [OF p64] Let_def)
qed

end
