(* ===== verification/Ready_Queue.thy ===== *)
theory Ready_Queue
  imports Multi_Level_Queue_Correct
begin

text \<open>
  What a scheduler relies on of its ready queue, as a locale over the operations it calls, and
  the multi-level queue of depth 64 as its instance. A queue is described by how often an element
  stands on a level.
\<close>

locale ready_queue =
  fixes ok :: "'q \<Rightarrow> bool"
    and cnt :: "'q \<Rightarrow> nat \<Rightarrow> 'a \<Rightarrow> nat"
    and depth :: nat
    and add :: "'q \<Rightarrow> 'a \<Rightarrow> nat \<Rightarrow> bool \<Rightarrow> 'q option"
    and remove :: "'q \<Rightarrow> 'a \<Rightarrow> nat \<Rightarrow> 'q option"
    and adjust :: "'q \<Rightarrow> 'a \<Rightarrow> nat \<Rightarrow> nat \<Rightarrow> bool \<Rightarrow> 'q option"
    and front :: "'q \<Rightarrow> 'a option"
    and is_empty :: "'q \<Rightarrow> bool"
  assumes add: "ok q \<Longrightarrow> p < depth \<Longrightarrow>
      \<exists>r. add q x p b = Some r \<and> ok r \<and> (\<forall>i y. cnt r i y = cnt q i y + (if i = p \<and> y = x then 1 else 0))"
    and remove: "ok q \<Longrightarrow> p < depth \<Longrightarrow>
      \<exists>r. remove q x p = Some r \<and> ok r \<and> (\<forall>i y. cnt r i y = cnt q i y - (if i = p \<and> y = x then 1 else 0))"
    and adjust: "adjust q x p p' b = (case remove q x p of None \<Rightarrow> None | Some r \<Rightarrow> add r x p' (\<not> b))"
    and front: "ok q \<Longrightarrow> \<not> is_empty q \<Longrightarrow> \<exists>p x. p < depth \<and> front q = Some x \<and> 0 < cnt q p x \<and>
      (\<forall>i y. i < p \<longrightarrow> cnt q i y = 0)"
    and is_empty: "ok q \<Longrightarrow> is_empty q \<longleftrightarrow> (\<forall>i<depth. \<forall>y. cnt q i y = 0)"
begin

lemma adjust_ok:
  assumes "ok q" "p < depth" "p' < depth"
  shows "\<exists>r. adjust q x p p' b = Some r \<and> ok r \<and>
    (\<forall>i y. cnt r i y = cnt q i y - (if i = p \<and> y = x then 1 else 0) + (if i = p' \<and> y = x then 1 else 0))"
proof -
  obtain r where r: "remove q x p = Some r" "ok r"
    "\<forall>i y. cnt r i y = cnt q i y - (if i = p \<and> y = x then 1 else 0)"
    using remove [OF assms(1,2)] by blast
  then show ?thesis using add [OF r(2) assms(3), of x "\<not> b"] by (auto simp: adjust)
qed

text \<open>A queue in which every element knows its level: the front is of the most urgent level.\<close>

lemma front_most_urgent:
  assumes q: "ok q" and lv: "\<And>i y. i < depth \<Longrightarrow> 0 < cnt q i y \<longleftrightarrow> P y \<and> level y = i" and x: "P x" "level x < depth"
  shows "\<not> is_empty q" "\<exists>y. front q = Some y \<and> P y \<and> level y < depth \<and> (\<forall>z. P z \<longrightarrow> level y \<le> level z)"
proof -
  have "0 < cnt q (level x) x" using lv x by blast
  then show ne: "\<not> is_empty q" using is_empty [OF q] x(2) by auto
  obtain p y where p: "p < depth" "front q = Some y" "0 < cnt q p y" "\<forall>i z. i < p \<longrightarrow> cnt q i z = 0"
    using front [OF q ne] by blast
  have "P y" "level y = p" using lv [OF p(1)] p(3) by auto
  moreover have "p \<le> level z" if "P z" for z
  proof (rule ccontr)
    assume "\<not> p \<le> level z"
    then have "0 < cnt q (level z) z" "level z < p" using lv that p(1) by auto
    then show False using p(4) by simp
  qed
  ultimately show "\<exists>y. front q = Some y \<and> P y \<and> level y < depth \<and> (\<forall>z. P z \<longrightarrow> level y \<le> level z)"
    using p by auto
qed

end

definition mlq_count :: "'a MultiLevelQueue \<Rightarrow> nat \<Rightarrow> 'a \<Rightarrow> nat" where
  "mlq_count q p x = count_list (mlq_levels q p) x"

lemma count_list_remove1: "count_list (remove1 x xs) y = count_list xs y - (if y = x then 1 else 0)"
proof (induction xs)
  case (Cons a xs)
  have "x \<in> set xs \<Longrightarrow> 0 < count_list xs x" by (metis count_list_0_iff gr0I)
  with Cons show ?case by (auto simp: count_notin)
qed simp

lemma count_list_0: "count_list xs x = 0 \<longleftrightarrow> x \<notin> set xs"
  by (rule count_list_0_iff)

lemma mlq_front_level:
  assumes ok: "mlq_ok 64 q" and ne: "\<not> mlq_empty q"
  shows "\<exists>p x. p < 64 \<and> mlq_front 64 q 0 = Some x \<and> x \<in> set (mlq_levels q p) \<and> (\<forall>i<p. mlq_levels q i = [])"
proof -
  have e: "mlq_elems 64 q 0 \<noteq> []" using ne mlq_empty_at_iff [OF ok] by simp
  obtain p where p: "p < 64" "mlq_levels q p \<noteq> []" "\<And>i. i < p \<Longrightarrow> mlq_levels q i = []"
    "next_level 64 q 0 = p"
    using e by (cases rule: next_level_cases [of 64 q 0]) (auto simp: mlq_elems_def)
  have "mlq_elems 64 q 0 = mlq_elems 64 q p" using p by (intro mlq_elems_skip) auto
  then have "hd (mlq_elems 64 q 0) = hd (mlq_levels q p)"
    using p by (simp add: mlq_elems_Cons)
  then show ?thesis using mlq_front_at [OF ok e] p by (intro exI [of _ p]) auto
qed

interpretation rq: ready_queue "mlq_ok 64" mlq_count 64 "mlq_add 64" "mlq_remove 64" "mlq_adjust 64"
  "\<lambda>q. mlq_front 64 q 0" mlq_empty
proof
  fix q :: "'a MultiLevelQueue" and p p' :: nat and x :: 'a and b :: bool
  show "\<exists>r. mlq_add 64 q x p b = Some r \<and> mlq_ok 64 r \<and>
      (\<forall>i y. mlq_count r i y = mlq_count q i y + (if i = p \<and> y = x then 1 else 0))"
    if "mlq_ok 64 q" "p < 64"
    using mlq_add_at [OF that, of x b] by (force simp: mlq_count_def)
  show "\<exists>r. mlq_remove 64 q x p = Some r \<and> mlq_ok 64 r \<and>
      (\<forall>i y. mlq_count r i y = mlq_count q i y - (if i = p \<and> y = x then 1 else 0))"
    if "mlq_ok 64 q" "p < 64"
    using mlq_remove_at [OF that, of x] by (force simp: mlq_count_def count_list_remove1)
  show "mlq_adjust 64 q x p p' b =
      (case mlq_remove 64 q x p of None \<Rightarrow> None | Some r \<Rightarrow> mlq_add 64 r x p' (\<not> b))"
    by (simp add: mlq_adjust_def split: option.split)
  show "\<exists>p x. p < 64 \<and> mlq_front 64 q 0 = Some x \<and> 0 < mlq_count q p x \<and> (\<forall>i y. i < p \<longrightarrow> mlq_count q i y = 0)"
    if "mlq_ok 64 q" "\<not> mlq_empty q"
    using mlq_front_level [OF that] by (force simp: mlq_count_def count_list_0 simp flip: neq0_conv)
  show "mlq_empty q \<longleftrightarrow> (\<forall>i<64. \<forall>y. mlq_count q i y = 0)" if "mlq_ok 64 q"
    using mlq_empty_at_iff [OF that] by (force simp: mlq_elems_def mlq_count_def count_list_0)
qed

end
