(* ===== verification/Kernel_Invariant.thy ===== *)
theory Kernel_Invariant
  imports Kernel_Thread Ready_Queue
begin

text \<open>
  The invariant of threads and schedulers: who waits for whom, which priorities threads have
  inherited, and that the ready queues hold exactly the ready threads, each once, on the level of
  its priority.
\<close>

lemma ready_depth_eq [simp]: "Suc THREADPRIO_LOWEST = 64"
  by (simp add: THREADPRIO_LOWEST_def)

lemma ASSERT_eq_Some [simp]: "ASSERT b = Some u \<longleftrightarrow> b"
  by (cases b) simp_all

section \<open>Views of the state\<close>

definition lock_owner :: "'w Kernel \<Rightarrow> tid \<Rightarrow> tid option" where
  "lock_owner k t = (case thread_at k t of None \<Rightarrow> None | Some th \<Rightarrow> th_lock_owner th)"

definition waiters :: "'w Kernel \<Rightarrow> tid \<Rightarrow> tid list" where
  "waiters k t = (case thread_at k t of None \<Rightarrow> [] | Some th \<Rightarrow> th_wait_mutex_threads th)"

definition nominal :: "'w Kernel \<Rightarrow> tid \<Rightarrow> nat" where
  "nominal k t = (case thread_at k t of None \<Rightarrow> 0 | Some th \<Rightarrow> th_nominal_priority th)"

lemmas view_defs = lock_owner_def waiters_def nominal_def thread_prio_def

text \<open>A pair \<open>(o, t)\<close>: thread \<open>t\<close> waits for a mutex that \<open>o\<close> holds.\<close>

definition lock_rel :: "'w Kernel \<Rightarrow> (tid \<times> tid) set" where
  "lock_rel k = {(own, t). lock_owner k t = Some own}"

text \<open>The two directions of the pointers agree, and the waiters are in order of priority.\<close>

definition links_ok :: "'w Kernel \<Rightarrow> bool" where
  "links_ok k \<longleftrightarrow> (\<forall>t own. t \<in> set (waiters k own) \<longleftrightarrow> lock_owner k t = Some own) \<and> (\<forall>own. distinct (waiters k own))"

definition waiters_sorted :: "'w Kernel \<Rightarrow> bool" where
  "waiters_sorted k \<longleftrightarrow> (\<forall>own. sorted (map (thread_prio k) (waiters k own)))"

text \<open>A thread runs at its nominal priority or at that of its most urgent waiter.\<close>

definition inherits :: "'w Kernel \<Rightarrow> tid \<Rightarrow> bool" where
  "inherits k t \<longleftrightarrow> thread_prio k t =
     (case waiters k t of [] \<Rightarrow> nominal k t | w # _ \<Rightarrow> min (nominal k t) (thread_prio k w))"

definition prios_ok :: "'w Kernel \<Rightarrow> bool" where
  "prios_ok k \<longleftrightarrow> (\<forall>t th. thread_at k t = Some th \<longrightarrow>
     th_current_priority th < 64 \<and> th_nominal_priority th < 64 \<and> th_scheduler th < 4)"

definition is_queued :: "'w Kernel \<Rightarrow> nat \<Rightarrow> nat \<Rightarrow> tid \<Rightarrow> bool" where
  "is_queued k c p t = (case thread_at k t of None \<Rightarrow> False
     | Some th \<Rightarrow> th_status th = Ready \<and> th_scheduler th = c \<and> th_current_priority th = p)"

abbreviation ready_of :: "'w Kernel \<Rightarrow> nat \<Rightarrow> tid MultiLevelQueue" where
  "ready_of k c \<equiv> sc_ready_queue (k_schedulers k c)"

definition ready_ok :: "'w Kernel \<Rightarrow> bool" where
  "ready_ok k \<longleftrightarrow> (\<forall>c<4. mlq_ok 64 (ready_of k c) \<and>
     (\<forall>p<64. \<forall>t. mlq_count (ready_of k c) p t = (if is_queued k c p t then 1 else 0)))"

definition sched_inv :: "'w Kernel \<Rightarrow> bool" where
  "sched_inv k \<longleftrightarrow> links_ok k \<and> waiters_sorted k \<and> (\<forall>t. inherits k t) \<and> prios_ok k \<and> ready_ok k \<and>
     finite (lock_rel k) \<and> acyclic (lock_rel k)"

section \<open>Frame rules\<close>

lemma ready_ok_cong:
  assumes "\<And>c. c < 4 \<Longrightarrow> ready_of k' c = ready_of k c" and "\<And>c p t. is_queued k' c p t = is_queued k c p t"
  shows "ready_ok k' = ready_ok k"
  using assms by (simp add: ready_ok_def)

lemma thread_exists: "lock_owner k t = Some own \<Longrightarrow> \<exists>th. thread_at k t = Some th \<and> th_lock_owner th = Some own"
  by (auto simp: lock_owner_def split: option.splits)

lemma waiter_exists:
  assumes "links_ok k" "w \<in> set (waiters k t)"
  shows "\<exists>th. thread_at k w = Some th \<and> th_lock_owner th = Some t"
  using assms thread_exists [of k w t] by (simp add: links_ok_def)

section \<open>Changing the priority of a thread\<close>

text \<open>Only the ready queues of the schedulers differ.\<close>

definition same_but_queues :: "(nat \<Rightarrow> Scheduler) \<Rightarrow> (nat \<Rightarrow> Scheduler) \<Rightarrow> bool" where
  "same_but_queues S S' \<longleftrightarrow> (\<forall>c. sc_thread_list (S' c) = sc_thread_list (S c) \<and>
     sc_current_thread (S' c) = sc_current_thread (S c) \<and>
     sc_last_context_switch_time (S' c) = sc_last_context_switch_time (S c))"

lemma same_but_queues_refl [simp]: "same_but_queues S S"
  by (simp add: same_but_queues_def)

lemma same_but_queues_trans: "same_but_queues S S' \<Longrightarrow> same_but_queues S' S'' \<Longrightarrow> same_but_queues S S''"
  by (simp add: same_but_queues_def)

lemma set_current_at:
  assumes ok: "ready_ok k" "prios_ok k" and th: "thread_at k t = Some th" and p: "p < 64" "p \<noteq> th_current_priority th"
  shows "\<exists>S. SetThreadPriority k (th_scheduler th) t p = Some (k\<lparr>k_schedulers := S\<rparr>) \<and>
    same_but_queues (k_schedulers k) S \<and>
    ready_ok (k\<lparr>k_schedulers := S, k_threads := (k_threads k)(t \<mapsto> th\<lparr>th_current_priority := p\<rparr>)\<rparr>)"
proof -
  let ?c = "th_scheduler th" and ?o = "th_current_priority th"
  have b: "?c < 4" "?o < 64" using ok(2) th by (auto simp: prios_ok_def)
  show ?thesis
  proof (cases "th_status th = Ready")
    case True
    obtain q where q: "mlq_adjust 64 (ready_of k ?c) t ?o p False = Some q" "mlq_ok 64 q"
      "\<forall>i y. mlq_count q i y = mlq_count (ready_of k ?c) i y - (if i = ?o \<and> y = t then 1 else 0) +
         (if i = p \<and> y = t then 1 else 0)"
      using rq.adjust_ok [OF _ b(2) p(1), of "ready_of k ?c" t False] ok(1) b(1) by (auto simp: ready_ok_def)
    let ?S = "(k_schedulers k)(?c := (k_schedulers k ?c)\<lparr>sc_ready_queue := q\<rparr>)"
    let ?k = "k\<lparr>k_schedulers := ?S, k_threads := (k_threads k)(t \<mapsto> th\<lparr>th_current_priority := p\<rparr>)\<rparr>"
    have "SetThreadPriority k ?c t p = Some (k\<lparr>k_schedulers := ?S\<rparr>)"
      using th True p b q(1) by (simp add: SetThreadPriority_def sched_at_def set_sched_def NUM_CPU_CORES_def)
    moreover have "same_but_queues (k_schedulers k) ?S"
      by (simp add: same_but_queues_def)
    moreover have "mlq_count (ready_of ?k c) i y = (if is_queued ?k c i y then 1 else 0)" if "c < 4" "i < 64" for c i y
      using ok(1) that q(3) th True p(2) by (auto simp: ready_ok_def is_queued_def)
    then have "ready_ok ?k" using ok(1) q(2) by (auto simp: ready_ok_def)
    ultimately show ?thesis by blast
  next
    case False
    have "is_queued (k\<lparr>k_threads := (k_threads k)(t \<mapsto> th\<lparr>th_current_priority := p\<rparr>)\<rparr>) c i u = is_queued k c i u" for c i u
      using th False by (simp add: is_queued_def)
    then have "ready_ok (k\<lparr>k_threads := (k_threads k)(t \<mapsto> th\<lparr>th_current_priority := p\<rparr>)\<rparr>)"
      using ok(1) by (subst ready_ok_cong [of _ k]) simp_all
    then show ?thesis
      using th False p b by (intro exI [of _ "k_schedulers k"])
        (simp add: SetThreadPriority_def sched_at_def NUM_CPU_CORES_def same_but_queues_refl)
  qed
qed

end
