(* ===== verification/Kernel_Priority.thy ===== *)
theory Kernel_Priority
  imports Kernel_Invariant
begin

text \<open>
  Priority inheritance: \<open>SetPriority\<close>, \<open>AddMutexWaiter\<close> and \<open>RemoveMutexWaiter\<close> come back, keep the
  invariant, and give every thread exactly the most urgent of its own nominal priority and those
  of all threads that wait for it, directly or indirectly.
\<close>

section \<open>What priority updates leave alone\<close>

definition strip :: "'w Thread \<Rightarrow> 'w Thread" where
  "strip th = th\<lparr>th_current_priority := 0, th_wait_mutex_threads := [], th_lock_owner := None\<rparr>"

definition prio_frame :: "'w Kernel \<Rightarrow> 'w Kernel \<Rightarrow> bool" where
  "prio_frame k k' \<longleftrightarrow> (\<exists>T S. k' = k\<lparr>k_threads := T, k_schedulers := S\<rparr> \<and> same_but_queues (k_schedulers k) S \<and>
     (\<forall>u. map_option strip (T u) = map_option strip (k_threads k u)))"

lemma prio_frame_refl [simp]: "prio_frame k k"
  unfolding prio_frame_def by (intro exI [of _ "k_threads k"] exI [of _ "k_schedulers k"]) simp

lemma prio_frame_trans: "prio_frame k k' \<Longrightarrow> prio_frame k' k'' \<Longrightarrow> prio_frame k k''"
  unfolding prio_frame_def
proof (elim exE conjE)
  fix T S T' S'
  assume "k' = k\<lparr>k_threads := T, k_schedulers := S\<rparr>" "k'' = k'\<lparr>k_threads := T', k_schedulers := S'\<rparr>"
    "same_but_queues (k_schedulers k) S" "same_but_queues (k_schedulers k') S'"
    "\<forall>u. map_option strip (T u) = map_option strip (k_threads k u)"
    "\<forall>u. map_option strip (T' u) = map_option strip (k_threads k' u)"
  then show "\<exists>T S. k'' = k\<lparr>k_threads := T, k_schedulers := S\<rparr> \<and> same_but_queues (k_schedulers k) S \<and>
     (\<forall>u. map_option strip (T u) = map_option strip (k_threads k u))"
    by (intro exI [of _ T'] exI [of _ S']) (auto intro: same_but_queues_trans)
qed

lemma strip_eq:
  assumes "strip b = strip a"
  shows "b = a\<lparr>th_current_priority := th_current_priority b, th_wait_mutex_threads := th_wait_mutex_threads b,
    th_lock_owner := th_lock_owner b\<rparr>"
  using assms by (cases a, cases b) (simp add: strip_def)

lemma prio_frame_thread:
  assumes "prio_frame k k'"
  shows "thread_at k t = Some th \<Longrightarrow> \<exists>p ws l. thread_at k' t = Some (th\<lparr>th_current_priority := p,
      th_wait_mutex_threads := ws, th_lock_owner := l\<rparr>)"
    and "thread_at k' t = None \<longleftrightarrow> thread_at k t = None"
proof -
  have "map_option strip (k_threads k' t) = map_option strip (k_threads k t)"
    using assms by (auto simp: prio_frame_def)
  then show "thread_at k t = Some th \<Longrightarrow> \<exists>p ws l. thread_at k' t = Some (th\<lparr>th_current_priority := p,
      th_wait_mutex_threads := ws, th_lock_owner := l\<rparr>)"
    and "thread_at k' t = None \<longleftrightarrow> thread_at k t = None"
    using strip_eq by (cases "k_threads k' t"; cases "k_threads k t"; fastforce)+
qed

lemma prio_frame_nominal:
  assumes "prio_frame k k'"
  shows "nominal k' = nominal k"
proof
  fix u
  show "nominal k' u = nominal k u"
    using prio_frame_thread [OF assms, of u] by (cases "k_threads k u") (auto simp: nominal_def)
qed

section \<open>Entering and leaving the list of waiters\<close>

lemma insert_waiter_at:
  assumes "\<forall>w\<in>set ws. thread_at k w \<noteq> None" and "sorted (map (thread_prio k) ws)" and "thread_prio k t = p"
  shows "\<exists>ws'. insert_waiter k t p ws = Some ws' \<and> set ws' = insert t (set ws) \<and>
    (distinct ws \<and> t \<notin> set ws \<longrightarrow> distinct ws') \<and> sorted (map (thread_prio k) ws')"
  using assms
proof (induction ws)
  case (Cons w ws)
  obtain wth where w: "thread_at k w = Some wth" using Cons.prems(1) by auto
  show ?case
  proof (cases "th_current_priority wth > p")
    case True
    then have "insert_waiter k t p (w # ws) = Some (t # w # ws)" using w by simp
    moreover have "p < thread_prio k w" using w True by (simp add: thread_prio_def)
    ultimately show ?thesis using Cons.prems by fastforce
  next
    case False
    obtain ws' where ws': "insert_waiter k t p ws = Some ws'" "set ws' = insert t (set ws)"
      "distinct ws \<and> t \<notin> set ws \<longrightarrow> distinct ws'" "sorted (map (thread_prio k) ws')"
      using Cons by auto
    have "thread_prio k w \<le> p" using w False by (simp add: thread_prio_def)
    then show ?thesis using ws' w False Cons.prems by auto
  qed
qed simp

lemma remove_waiter_at:
  assumes links: "links_ok k" and lo: "lock_owner k t = Some own" and ne: "own \<noteq> t"
  shows "\<exists>k'. remove_waiter k own t = Some k' \<and> prio_frame k k' \<and> k_schedulers k' = k_schedulers k \<and>
    lock_owner k' = (lock_owner k)(t := None) \<and> waiters k' = (waiters k)(own := remove1 t (waiters k own)) \<and>
    thread_prio k' = thread_prio k \<and> is_queued k' = is_queued k \<and> links_ok k' \<and>
    (\<forall>u. u \<noteq> own \<and> u \<noteq> t \<longrightarrow> thread_at k' u = thread_at k u) \<and> thread_at k' own \<noteq> None"
proof -
  obtain th where th: "thread_at k t = Some th" "th_lock_owner th = Some own" using thread_exists [OF lo] by blast
  have w: "t \<in> set (waiters k own)" using links lo by (simp add: links_ok_def)
  then obtain oth where oth: "thread_at k own = Some oth" by (cases "thread_at k own") (auto simp: waiters_def)
  let ?T = "(k_threads k)(own \<mapsto> oth\<lparr>th_wait_mutex_threads := remove1 t (th_wait_mutex_threads oth)\<rparr>,
    t \<mapsto> th\<lparr>th_lock_owner := None\<rparr>)"
  let ?k = "k\<lparr>k_threads := ?T\<rparr>"
  have "remove_waiter k own t = Some ?k"
    using th oth w ne by (simp add: remove_waiter_def upd_thread_def waiters_def)
  moreover have "prio_frame k ?k"
    unfolding prio_frame_def
    by (intro exI [of _ ?T] exI [of _ "k_schedulers k"]) (use th oth in \<open>auto simp: strip_def\<close>)
  moreover have v: "lock_owner ?k = (lock_owner k)(t := None)"
    "waiters ?k = (waiters k)(own := remove1 t (waiters k own))"
    "thread_prio ?k = thread_prio k" "is_queued ?k = is_queued k"
    using th oth ne by (auto simp: fun_eq_iff view_defs is_queued_def)
  moreover have "links_ok ?k"
    using links lo unfolding links_ok_def v by (auto simp: set_remove1_eq distinct_remove1)
  ultimately show ?thesis using ne by (intro exI [of _ ?k]) simp
qed

lemma add_waiter_at:
  assumes links: "links_ok k" and srt: "waiters_sorted k" and lo: "lock_owner k t = None" and ne: "own \<noteq> t"
    and ex: "thread_at k t \<noteq> None" "thread_at k own \<noteq> None"
  shows "\<exists>k' ws. add_waiter k own t = Some k' \<and> prio_frame k k' \<and> k_schedulers k' = k_schedulers k \<and>
    lock_owner k' = (lock_owner k)(t \<mapsto> own) \<and> waiters k' = (waiters k)(own := ws) \<and>
    thread_prio k' = thread_prio k \<and> is_queued k' = is_queued k \<and> links_ok k' \<and> waiters_sorted k' \<and>
    (\<forall>u. u \<noteq> own \<and> u \<noteq> t \<longrightarrow> thread_at k' u = thread_at k u)"
proof -
  obtain th oth where th: "thread_at k t = Some th" "thread_at k own = Some oth" using ex by auto
  have nt: "t \<notin> set (waiters k u)" for u using links lo by (simp add: links_ok_def)
  have "\<forall>w\<in>set (waiters k own). thread_at k w \<noteq> None" using waiter_exists [OF links] by fastforce
  then obtain ws where ws: "insert_waiter k t (thread_prio k t) (waiters k own) = Some ws"
    "set ws = insert t (set (waiters k own))" "distinct ws" "sorted (map (thread_prio k) ws)"
    using insert_waiter_at [of "waiters k own" k t] srt links nt by (auto simp: waiters_sorted_def links_ok_def)
  let ?T = "(k_threads k)(own \<mapsto> oth\<lparr>th_wait_mutex_threads := ws\<rparr>, t \<mapsto> th\<lparr>th_lock_owner := Some own\<rparr>)"
  let ?k = "k\<lparr>k_threads := ?T\<rparr>"
  have "add_waiter k own t = Some ?k"
    using th ws(1) nt [of own] lo ne by (simp add: add_waiter_def upd_thread_def view_defs)
  moreover have "prio_frame k ?k"
    unfolding prio_frame_def
    by (intro exI [of _ ?T] exI [of _ "k_schedulers k"]) (use th in \<open>auto simp: strip_def\<close>)
  moreover have v: "lock_owner ?k = (lock_owner k)(t \<mapsto> own)" "waiters ?k = (waiters k)(own := ws)"
    "thread_prio ?k = thread_prio k" "is_queued ?k = is_queued k"
    using th ne by (auto simp: fun_eq_iff view_defs is_queued_def)
  moreover have "links_ok ?k" using links ws(2,3) nt unfolding links_ok_def v by auto
  moreover have "waiters_sorted ?k" using srt ws(4) unfolding waiters_sorted_def v by simp
  ultimately show ?thesis using ne by (intro exI [of _ ?k] exI [of _ ws]) simp
qed

section \<open>UpdatePriority\<close>

text \<open>The invariant without acyclicity, and with one thread whose priority may be out of date.\<close>

definition prio_inv :: "tid set \<Rightarrow> 'w Kernel \<Rightarrow> bool" where
  "prio_inv X k \<longleftrightarrow> links_ok k \<and> waiters_sorted k \<and> (\<forall>u. u \<notin> X \<longrightarrow> inherits k u) \<and> prios_ok k \<and> ready_ok k"

text \<open>The new priority of a thread, and its effect on everyone else.\<close>

lemma inherited_priority_at:
  assumes inv: "links_ok k" "prios_ok k" and th: "thread_at k t = Some th"
  shows "\<exists>p. inherited_priority k th = Some p \<and> p < 64 \<and>
    p = (case waiters k t of [] \<Rightarrow> nominal k t | w # _ \<Rightarrow> min (nominal k t) (thread_prio k w))"
proof (cases "th_wait_mutex_threads th")
  case Nil
  then show ?thesis using th inv(2) by (auto simp: inherited_priority_def view_defs prios_ok_def)
next
  case (Cons w ws)
  then have "w \<in> set (waiters k t)" using th by (simp add: waiters_def)
  then obtain wth where "thread_at k w = Some wth" using waiter_exists [OF inv(1)] by blast
  then show ?thesis using th Cons inv(2) by (auto simp: inherited_priority_def view_defs prios_ok_def min_def)
qed

lemma map_remove1_sorted:
  assumes "sorted (map f xs)"
  shows "sorted (map f (remove1 x xs))"
  using assms by (induction xs) (auto dest: set_remove1_subset [THEN subsetD])

text \<open>One thread gets a new priority: everything but the order among its owner's waiters holds.\<close>

lemma new_priority_at:
  assumes inv: "prio_inv {t} k" and th: "thread_at k t = Some th" and self: "t \<notin> set (waiters k t)"
    and p: "inherited_priority k th = Some p" "p \<noteq> th_current_priority th"
  shows "\<exists>k'. SetThreadPriority k (th_scheduler th) t p \<bind> upd_thread t (\<lambda>th. th\<lparr>th_current_priority := p\<rparr>) = Some k' \<and>
    prio_frame k k' \<and> links_ok k' \<and> prios_ok k' \<and> ready_ok k' \<and> thread_prio k' = (thread_prio k)(t := p) \<and>
    lock_owner k' = lock_owner k \<and> waiters k' = waiters k \<and>
    (\<forall>u. Some u \<noteq> lock_owner k t \<longrightarrow> inherits k' u) \<and> (\<forall>u. u \<noteq> t \<longrightarrow> thread_at k' u = thread_at k u)"
proof -
  have ok: "links_ok k" "waiters_sorted k" "prios_ok k" "ready_ok k" "\<And>u. u \<noteq> t \<Longrightarrow> inherits k u"
    using inv by (auto simp: prio_inv_def)
  have p': "p < 64" "p = (case waiters k t of [] \<Rightarrow> nominal k t | w # _ \<Rightarrow> min (nominal k t) (thread_prio k w))"
    using inherited_priority_at [OF ok(1,3) th] p(1) by auto
  obtain S where S: "SetThreadPriority k (th_scheduler th) t p = Some (k\<lparr>k_schedulers := S\<rparr>)"
    "same_but_queues (k_schedulers k) S"
    "ready_ok (k\<lparr>k_schedulers := S, k_threads := (k_threads k)(t \<mapsto> th\<lparr>th_current_priority := p\<rparr>)\<rparr>)"
    using set_current_at [OF ok(4,3) th p'(1) p(2)] by blast
  define K where "K = k\<lparr>k_schedulers := S, k_threads := (k_threads k)(t \<mapsto> th\<lparr>th_current_priority := p\<rparr>)\<rparr>"
  have e: "SetThreadPriority k (th_scheduler th) t p \<bind> upd_thread t (\<lambda>th. th\<lparr>th_current_priority := p\<rparr>) = Some K"
    using S(1) th by (simp add: upd_thread_def K_def)
  have fr: "prio_frame k K"
    unfolding prio_frame_def K_def
    by (intro exI [of _ "(k_threads k)(t \<mapsto> th\<lparr>th_current_priority := p\<rparr>)"] exI [of _ S])
      (use S(2) th in \<open>auto simp: strip_def\<close>)
  have v: "thread_prio K = (thread_prio k)(t := p)" "lock_owner K = lock_owner k" "waiters K = waiters k"
    "nominal K = nominal k" "\<And>u. u \<noteq> t \<Longrightarrow> thread_at K u = thread_at k u"
    using th by (auto simp: fun_eq_iff view_defs K_def)
  have "inherits K u" if "Some u \<noteq> lock_owner k t" for u
  proof (cases "waiters k u")
    case Nil
    then show ?thesis using ok(5) [of u] p'(2) by (cases "u = t") (simp_all add: inherits_def v)
  next
    case (Cons w ws)
    then have "w \<in> set (waiters k u)" by simp
    then have "w \<noteq> t" using ok(1) that by (auto simp: links_ok_def)
    then show ?thesis using ok(5) [of u] p'(2) Cons by (cases "u = t") (simp_all add: inherits_def v)
  qed
  moreover have "prios_ok K" using ok(3) p'(1) th by (auto simp: prios_ok_def K_def)
  moreover have "links_ok K" using ok(1) by (simp add: links_ok_def v)
  moreover have "ready_ok K" using S(3) by (simp add: K_def)
  ultimately show ?thesis using e fr v by (intro exI [of _ K]) simp
qed

text \<open>
  The recursion follows the owners of locks, along a well-founded relation \<open>R\<close>. Threads that are
  not reached that way keep their record.
\<close>

lemma UpdatePriority_same:
  assumes "thread_at k t = Some th" "inherited_priority k th = Some (th_current_priority th)"
  shows "UpdatePriority k t = Some k"
  using assms by (subst UpdatePriority.simps) simp

lemma inherited_priority_same:
  assumes "links_ok k" "prios_ok k" "inherits k t" "thread_at k t = Some th"
  shows "inherited_priority k th = Some (th_current_priority th)"
  using inherited_priority_at [OF assms(1,2,4)] assms(3,4) by (auto simp: inherits_def thread_prio_def)

definition up_post :: "(tid \<times> tid) set \<Rightarrow> tid \<Rightarrow> 'w Kernel \<Rightarrow> 'w Kernel \<Rightarrow> bool" where
  "up_post R t k k' \<longleftrightarrow> prio_inv {} k' \<and> lock_owner k' = lock_owner k \<and> prio_frame k k' \<and>
     (\<forall>u. (u, t) \<notin> R\<^sup>* \<longrightarrow> thread_at k' u = thread_at k u)"

lemma prios_ok_frame:
  assumes "prio_frame k k'" "prios_ok k" "thread_prio k' = thread_prio k"
  shows "prios_ok k'"
  unfolding prios_ok_def
proof (intro allI impI)
  fix t th
  assume th: "thread_at k' t = Some th"
  then obtain th0 where th0: "thread_at k t = Some th0" using prio_frame_thread(2) [OF assms(1), of t] by fastforce
  then have "th_current_priority th = th_current_priority th0"
    using fun_cong [OF assms(3), of t] th by (simp add: thread_prio_def)
  then show "th_current_priority th < 64 \<and> th_nominal_priority th < 64 \<and> th_scheduler th < 4"
    using prio_frame_thread(1) [OF assms(1) th0] th assms(2) th0 by (auto simp: prios_ok_def)
qed

lemma UpdatePriority_owner:
  fixes k :: "'w Kernel"
  assumes R: "wf R" "(own, t) \<in> R" and lo: "lock_owner k t = Some own"
    and k1: "links_ok k" "prios_ok k" "ready_ok k" "\<And>u. u \<noteq> own \<Longrightarrow> inherits k u"
    and srt: "\<And>o'. o' \<noteq> own \<Longrightarrow> sorted (map (thread_prio k) (waiters k o'))"
      "sorted (map (thread_prio k) (remove1 t (waiters k own)))"
    and sub: "lock_rel k \<subseteq> R"
    and IH: "\<And>k :: 'w Kernel. lock_rel k \<subseteq> R \<Longrightarrow> prio_inv {own} k \<Longrightarrow> thread_at k own \<noteq> None \<Longrightarrow>
      \<exists>k'. UpdatePriority k own = Some k' \<and> up_post R own k k'"
  shows "\<exists>k'. do { k \<leftarrow> remove_waiter k own t; k \<leftarrow> UpdatePriority k own; k \<leftarrow> add_waiter k own t;
      k \<leftarrow> UpdatePriority k own; UpdatePriority k own } = Some k' \<and> up_post R t k k'"
proof -
  have tr: "(t, own) \<notin> R\<^sup>*" using R by (meson rtrancl_into_trancl1 wf_acyclic acyclic_def)
  have ne: "own \<noteq> t" using tr by auto
  obtain k2 where k2: "remove_waiter k own t = Some k2" "prio_frame k k2" "k_schedulers k2 = k_schedulers k"
    "lock_owner k2 = (lock_owner k)(t := None)" "waiters k2 = (waiters k)(own := remove1 t (waiters k own))"
    "thread_prio k2 = thread_prio k" "is_queued k2 = is_queued k" "links_ok k2"
    "\<forall>u. u \<noteq> own \<and> u \<noteq> t \<longrightarrow> thread_at k2 u = thread_at k u" "thread_at k2 own \<noteq> None"
    using remove_waiter_at [OF k1(1) lo ne] by blast
  have "inherits k2 u" if "u \<noteq> own" for u
    using k1(4) [OF that] that by (simp add: inherits_def k2 prio_frame_nominal [OF k2(2)] split: list.splits)
  moreover have "ready_ok k2" using k1(3) ready_ok_cong [of k2 k] k2(3,7) by simp
  moreover have "waiters_sorted k2" using srt by (simp add: waiters_sorted_def k2)
  ultimately have "prio_inv {own} k2" using k2(8) prios_ok_frame [OF k2(2)] k1(2) k2(6) by (simp add: prio_inv_def)
  moreover have "lock_rel k2 \<subseteq> R" using sub k2(4) by (auto simp: lock_rel_def split: if_splits)
  ultimately obtain k3 where k3: "UpdatePriority k2 own = Some k3" "up_post R own k2 k3"
    using IH k2(10) by blast
  have p3: "prio_inv {} k3" "lock_owner k3 = lock_owner k2" "thread_at k3 t = thread_at k2 t" "thread_at k3 own \<noteq> None"
    "prio_frame k k3"
    using k3(2) tr k2(2,10) prio_frame_thread(2) [of k2 k3 own] prio_frame_trans by (auto simp: up_post_def)
  have "thread_at k2 t \<noteq> None" using thread_exists [OF lo] prio_frame_thread(2) [OF k2(2), of t] by auto
  then obtain k4 ws where k4: "add_waiter k3 own t = Some k4" "prio_frame k3 k4" "k_schedulers k4 = k_schedulers k3"
    "lock_owner k4 = (lock_owner k3)(t \<mapsto> own)" "waiters k4 = (waiters k3)(own := ws)"
    "thread_prio k4 = thread_prio k3" "is_queued k4 = is_queued k3" "links_ok k4" "waiters_sorted k4"
    "\<forall>u. u \<noteq> own \<and> u \<noteq> t \<longrightarrow> thread_at k4 u = thread_at k3 u"
    using add_waiter_at [of k3 t own] p3 k2(4) ne by (auto simp: prio_inv_def)
  have lo4: "lock_owner k4 = lock_owner k" using k4(4) p3(2) k2(4) lo by auto
  have i3: "inherits k3 u" for u using p3(1) by (simp add: prio_inv_def)
  have "inherits k4 u" if "u \<noteq> own" for u
    using that i3 [of u] by (simp add: inherits_def k4 prio_frame_nominal [OF k4(2)] split: list.splits)
  moreover have "ready_ok k4" using p3(1) ready_ok_cong [of k4 k3] k4(3,7) by (simp add: prio_inv_def)
  ultimately have "prio_inv {own} k4"
    using k4(8,9) prios_ok_frame [OF k4(2) _ k4(6)] p3(1) by (simp add: prio_inv_def)
  moreover have "thread_at k4 own \<noteq> None" using p3(4) prio_frame_thread(2) [OF k4(2)] by simp
  ultimately obtain k5 where k5: "UpdatePriority k4 own = Some k5" "up_post R own k4 k5"
    using IH [of k4] sub lo4 by (auto simp: lock_rel_def)
  obtain oth where oth: "thread_at k5 own = Some oth"
    using k5(2) \<open>thread_at k4 own \<noteq> None\<close> prio_frame_thread(2) [of k4 k5 own] by (auto simp: up_post_def)
  then have "UpdatePriority k5 own = Some k5"
    using k5(2) by (intro UpdatePriority_same inherited_priority_same) (auto simp: up_post_def prio_inv_def)
  moreover have "thread_at k5 u = thread_at k u" if "(u, t) \<notin> R\<^sup>*" for u
  proof -
    have "u \<noteq> t" "u \<noteq> own" "(u, own) \<notin> R\<^sup>*" using that R(2) by (auto intro: rtrancl_into_rtrancl)
    then show ?thesis using k5(2) k4(10) k3(2) k2(9) by (simp add: up_post_def)
  qed
  then have "up_post R t k k5"
    using k5(2) lo4 prio_frame_trans [OF prio_frame_trans [OF p3(5) k4(2)], of k5] by (simp add: up_post_def)
  ultimately show ?thesis using k2(1) k3(1) k4(1) k5(1) by simp
qed

lemma UpdatePriority_at:
  fixes k :: "'w Kernel"
  assumes R: "wf R"
  shows "lock_rel k \<subseteq> R \<Longrightarrow> prio_inv {t} k \<Longrightarrow> thread_at k t \<noteq> None \<Longrightarrow>
    \<exists>k'. UpdatePriority k t = Some k' \<and> up_post R t k k'"
  using R
proof (induction t arbitrary: k rule: wf_induct_rule)
  case (less t)
  note sub = less.prems(1) and inv = less.prems(2)
  obtain th where th: "thread_at k t = Some th" using less.prems(3) by auto
  have ok: "links_ok k" "waiters_sorted k" "prios_ok k" "ready_ok k"
    using inv by (simp_all add: prio_inv_def)
  have self: "t \<notin> set (waiters k t)"
    using ok(1) sub R wf_not_refl [of R t] by (auto simp: links_ok_def lock_rel_def)
  obtain p where p: "inherited_priority k th = Some p"
    "p = (case waiters k t of [] \<Rightarrow> nominal k t | w # _ \<Rightarrow> min (nominal k t) (thread_prio k w))"
    using inherited_priority_at [OF ok(1,3) th] by blast
  show ?case
  proof (cases "p = th_current_priority th")
    case True
    have "inherits k t" using True p(2) th by (simp add: inherits_def thread_prio_def)
    then have "up_post R t k k" using inv by (auto simp: up_post_def prio_inv_def)
    then show ?thesis using UpdatePriority_same [OF th] p(1) True by simp
  next
    case False
    obtain k1 where k1: "SetThreadPriority k (th_scheduler th) t p \<bind> upd_thread t (\<lambda>th. th\<lparr>th_current_priority := p\<rparr>) = Some k1"
      "prio_frame k k1" "links_ok k1" "prios_ok k1" "ready_ok k1" "thread_prio k1 = (thread_prio k)(t := p)"
      "lock_owner k1 = lock_owner k" "waiters k1 = waiters k"
      "\<forall>u. Some u \<noteq> lock_owner k t \<longrightarrow> inherits k1 u" "\<forall>u. u \<noteq> t \<longrightarrow> thread_at k1 u = thread_at k u"
      using new_priority_at [OF inv th self p(1) False] by blast
    have srt: "sorted (map (thread_prio k1) xs)" if "t \<notin> set xs" "sorted (map (thread_prio k) xs)" for xs
      using that by (metis fun_upd_other k1(6) map_cong)
    have up: "UpdatePriority k t = (case th_lock_owner th of None \<Rightarrow> Some k1
       | Some own \<Rightarrow> do { k \<leftarrow> remove_waiter k1 own t; k \<leftarrow> UpdatePriority k own; k \<leftarrow> add_waiter k own t;
           k \<leftarrow> UpdatePriority k own; UpdatePriority k own })"
      using th p(1) False k1(1) by (subst UpdatePriority.simps) (auto simp: bind_eq_Some_conv split: option.splits)
    show ?thesis
    proof (cases "th_lock_owner th")
      case None
      then have lo: "lock_owner k t = None" using th by (simp add: lock_owner_def)
      then have "waiters_sorted k1"
        using srt ok(1,2) by (simp add: waiters_sorted_def links_ok_def k1(8))
      then have "up_post R t k k1"
        using k1 lo by (auto simp: up_post_def prio_inv_def)
      then show ?thesis using up None by simp
    next
      case (Some own)
      then have lo: "lock_owner k1 t = Some own" using th k1(7) by (simp add: lock_owner_def)
      have R2: "(own, t) \<in> R" using sub lo k1(7) by (auto simp: lock_rel_def)
      have s1: "sorted (map (thread_prio k1) (waiters k1 o'))" if "o' \<noteq> own" for o'
        using ok(1,2) lo that by (auto simp: waiters_sorted_def links_ok_def k1(7,8) intro!: srt)
      have "sorted (map (thread_prio k) (remove1 t (waiters k own)))"
        using ok(2) by (simp add: waiters_sorted_def map_remove1_sorted)
      then have s2: "sorted (map (thread_prio k1) (remove1 t (waiters k1 own)))"
        using ok(1) by (auto simp: links_ok_def k1(8) intro!: srt)
      have inh: "inherits k1 u" if "u \<noteq> own" for u using k1(9) lo k1(7) that by auto
      have sub1: "lock_rel k1 \<subseteq> R" using sub by (simp add: lock_rel_def k1(7))
      obtain k' where k': "do { k \<leftarrow> remove_waiter k1 own t; k \<leftarrow> UpdatePriority k own; k \<leftarrow> add_waiter k own t;
           k \<leftarrow> UpdatePriority k own; UpdatePriority k own } = Some k'" "up_post R t k1 k'"
        using UpdatePriority_owner [OF R R2 lo k1(3,4,5) inh s1 s2 sub1 less.IH [OF R2]] by blast
      have "thread_at k1 u = thread_at k u" if "(u, t) \<notin> R\<^sup>*" for u using k1(10) that by fastforce
      then have "up_post R t k k'"
        using k'(2) k1(2,7) prio_frame_trans by (auto simp: up_post_def)
      then show ?thesis using up Some k'(1) by simp
    qed
  qed
qed

section \<open>The operations\<close>

lemma lock_rel_wf: "finite (lock_rel k) \<Longrightarrow> acyclic (lock_rel k) \<Longrightarrow> wf (lock_rel k)"
  by (rule finite_acyclic_wf)

lemma sched_inv_prio: "sched_inv k \<longleftrightarrow> prio_inv {} k \<and> finite (lock_rel k) \<and> acyclic (lock_rel k)"
  by (auto simp: sched_inv_def prio_inv_def)

text \<open>The priority of a thread is that of the most urgent thread that waits for it.\<close>

lemma priority_below:
  assumes inv: "prio_inv {} k" and lo: "lock_owner k u = Some t"
  shows "thread_prio k t \<le> thread_prio k u"
proof -
  have ok: "links_ok k" "waiters_sorted k" "inherits k t" using inv by (simp_all add: prio_inv_def)
  have "u \<in> set (waiters k t)" using ok(1) lo by (simp add: links_ok_def)
  then obtain w ws where w: "waiters k t = w # ws" by (cases "waiters k t") auto
  have "sorted (map (thread_prio k) (w # ws))" using ok(2) w by (metis waiters_sorted_def)
  then have "thread_prio k w \<le> thread_prio k u" using \<open>u \<in> _\<close> w by auto
  then show ?thesis using ok(3) w by (simp add: inherits_def)
qed

lemma priority_reached:
  assumes inv: "prio_inv {} k" and fin: "finite (lock_rel k)" "acyclic (lock_rel k)"
  shows "\<exists>u. (t, u) \<in> (lock_rel k)\<^sup>* \<and> thread_prio k t = nominal k u"
proof -
  have "wf ((lock_rel k)\<inverse>)" using fin by (rule finite_acyclic_wf_converse)
  then show ?thesis
  proof (induction t rule: wf_induct_rule)
    case (less t)
    have inh: "inherits k t" "links_ok k" using inv by (simp_all add: prio_inv_def)
    show ?case
    proof (cases "waiters k t")
      case Nil
      then show ?thesis using inh by (auto simp: inherits_def)
    next
      case (Cons w ws)
      then have "w \<in> set (waiters k t)" by simp
      then have "(t, w) \<in> lock_rel k" using inh(2) by (simp add: lock_rel_def links_ok_def)
      then show ?thesis
        using less.IH [of w] inh(1) Cons
        by (auto simp: inherits_def min_def intro: converse_rtrancl_into_rtrancl)
    qed
  qed
qed

lemma nominal_above:
  assumes inv: "prio_inv {} k" and r: "(t, u) \<in> (lock_rel k)\<^sup>*"
  shows "thread_prio k t \<le> nominal k u"
proof -
  have "thread_prio k t \<le> thread_prio k u"
    using r
  proof (induction rule: converse_rtrancl_induct)
    case (step t' t'')
    then show ?case using priority_below [OF inv, of t'' t'] by (auto simp: lock_rel_def)
  qed simp
  moreover have "inherits k u" using inv by (simp add: prio_inv_def)
  then have "thread_prio k u \<le> nominal k u" by (cases "waiters k u") (simp_all add: inherits_def)
  ultimately show ?thesis by simp
qed

text \<open>The most urgent nominal priority among a thread and all that wait for it, however indirectly.\<close>

definition most_urgent :: "'w Kernel \<Rightarrow> tid \<Rightarrow> nat" where
  "most_urgent k t = (LEAST p. \<exists>u. (t, u) \<in> (lock_rel k)\<^sup>* \<and> p = nominal k u)"

lemma thread_prio_most_urgent:
  assumes "sched_inv k"
  shows "thread_prio k t = most_urgent k t"
proof -
  have inv: "prio_inv {} k" "finite (lock_rel k)" "acyclic (lock_rel k)" using assms by (simp_all add: sched_inv_prio)
  have "(LEAST p. \<exists>u. (t, u) \<in> (lock_rel k)\<^sup>* \<and> p = nominal k u) = thread_prio k t"
  proof (rule Least_equality)
    show "\<exists>u. (t, u) \<in> (lock_rel k)\<^sup>* \<and> thread_prio k t = nominal k u" by (rule priority_reached [OF inv])
    show "thread_prio k t \<le> p" if "\<exists>u. (t, u) \<in> (lock_rel k)\<^sup>* \<and> p = nominal k u" for p
      using that nominal_above [OF inv(1)] by blast
  qed
  then show ?thesis by (simp add: most_urgent_def)
qed

text \<open>Running \<open>UpdatePriority\<close> on a state in which one thread may be out of date.\<close>

lemma UpdatePriority_restores:
  assumes "prio_inv {t} k" "finite (lock_rel k)" "acyclic (lock_rel k)" "thread_at k t \<noteq> None"
  shows "\<exists>k'. UpdatePriority k t = Some k' \<and> sched_inv k' \<and> lock_owner k' = lock_owner k \<and> prio_frame k k'"
proof -
  obtain k' where k': "UpdatePriority k t = Some k'" "up_post (lock_rel k) t k k'"
    using UpdatePriority_at [OF lock_rel_wf [OF assms(2,3)] subset_refl assms(1,4)] by blast
  then have "lock_rel k' = lock_rel k" by (simp add: up_post_def lock_rel_def)
  then show ?thesis using k' assms(2,3) by (auto simp: up_post_def sched_inv_prio)
qed

lemma SetPriority_at:
  assumes inv: "sched_inv k" and th: "thread_at k t = Some th" and p: "p \<le> 63"
  shows "\<exists>k'. SetPriority k t p = Some k' \<and> sched_inv k' \<and> nominal k' = (nominal k)(t := p) \<and>
    lock_owner k' = lock_owner k \<and> prio_frame (k\<lparr>k_threads := (k_threads k)(t \<mapsto> th\<lparr>th_nominal_priority := p\<rparr>)\<rparr>) k'"
proof -
  define K where "K = k\<lparr>k_threads := (k_threads k)(t \<mapsto> th\<lparr>th_nominal_priority := p\<rparr>)\<rparr>"
  have v: "lock_owner K = lock_owner k" "waiters K = waiters k" "thread_prio K = thread_prio k"
    "nominal K = (nominal k)(t := p)" "is_queued K = is_queued k" "k_schedulers K = k_schedulers k"
    using th by (auto simp: K_def fun_eq_iff view_defs is_queued_def)
  have i: "inherits k u" for u using inv by (simp add: sched_inv_def)
  have "inherits K u" if "u \<noteq> t" for u using that i [of u] by (simp add: inherits_def v split: list.splits)
  moreover have "prios_ok K" using inv th p by (auto simp: sched_inv_def prios_ok_def K_def)
  moreover have "ready_ok K" using inv ready_ok_cong [of K k] v by (simp add: sched_inv_def)
  ultimately have "prio_inv {t} K"
    using inv v by (simp add: sched_inv_def prio_inv_def links_ok_def waiters_sorted_def)
  moreover have "lock_rel K = lock_rel k" by (simp add: lock_rel_def v)
  ultimately obtain k' where "UpdatePriority K t = Some k'" "sched_inv k'" "lock_owner k' = lock_owner K" "prio_frame K k'"
    using UpdatePriority_restores [of t K] inv th by (auto simp: sched_inv_def K_def)
  moreover have "SetPriority k t p = UpdatePriority K t"
    using th p by (simp add: SetPriority_def upd_thread_def K_def THREADPRIO_HIGHEST_def THREADPRIO_LOWEST_def)
  ultimately show ?thesis using prio_frame_nominal [of K k'] v by (auto simp: K_def)
qed

lemma RemoveMutexWaiter_at:
  assumes inv: "sched_inv k" and lo: "lock_owner k t = Some own"
  shows "\<exists>k'. RemoveMutexWaiter k own t = Some k' \<and> sched_inv k' \<and> lock_owner k' = (lock_owner k)(t := None) \<and>
    prio_frame k k'"
proof -
  have inv': "links_ok k" "waiters_sorted k" "prios_ok k" "ready_ok k" "finite (lock_rel k)" "acyclic (lock_rel k)"
    "\<And>u. inherits k u"
    using inv by (simp_all add: sched_inv_def)
  have ne: "own \<noteq> t" using inv'(6) lo by (auto simp: lock_rel_def acyclic_def)
  obtain K where K: "remove_waiter k own t = Some K" "prio_frame k K" "k_schedulers K = k_schedulers k"
    "lock_owner K = (lock_owner k)(t := None)" "waiters K = (waiters k)(own := remove1 t (waiters k own))"
    "thread_prio K = thread_prio k" "is_queued K = is_queued k" "links_ok K" "thread_at K own \<noteq> None"
    using remove_waiter_at [OF inv'(1) lo ne] by blast
  have "inherits K u" if "u \<noteq> own" for u
    using inv'(7) [of u] that by (simp add: inherits_def K prio_frame_nominal [OF K(2)] split: list.splits)
  moreover have "waiters_sorted K" using inv'(2) by (simp add: waiters_sorted_def K map_remove1_sorted)
  ultimately have "prio_inv {own} K"
    using inv' K(8) prios_ok_frame [OF K(2) inv'(3) K(6)] ready_ok_cong [of K k] K(3,7) by (simp add: prio_inv_def)
  moreover have sub: "lock_rel K \<subseteq> lock_rel k" by (auto simp: lock_rel_def K split: if_splits)
  ultimately obtain k' where "UpdatePriority K own = Some k'" "sched_inv k'" "lock_owner k' = lock_owner K" "prio_frame K k'"
    using UpdatePriority_restores [of own K] inv'(5,6) K(9) finite_subset [OF sub] acyclic_subset [OF _ sub] by auto
  then show ?thesis using K prio_frame_trans [OF K(2)] by (auto simp: RemoveMutexWaiter_def)
qed

lemma AddMutexWaiter_at:
  assumes inv: "sched_inv k" and lo: "lock_owner k t = None" and no_cycle: "(t, own) \<notin> (lock_rel k)\<^sup>*"
    and ex: "thread_at k t \<noteq> None" "thread_at k own \<noteq> None"
  shows "\<exists>k'. AddMutexWaiter k own t = Some k' \<and> sched_inv k' \<and> lock_owner k' = (lock_owner k)(t \<mapsto> own) \<and>
    prio_frame k k'"
proof -
  have inv': "links_ok k" "waiters_sorted k" "prios_ok k" "ready_ok k" "finite (lock_rel k)" "acyclic (lock_rel k)"
    "\<And>u. inherits k u"
    using inv by (simp_all add: sched_inv_def)
  have ne: "own \<noteq> t" using no_cycle by auto
  obtain K ws where K: "add_waiter k own t = Some K" "prio_frame k K" "k_schedulers K = k_schedulers k"
    "lock_owner K = (lock_owner k)(t \<mapsto> own)" "waiters K = (waiters k)(own := ws)"
    "thread_prio K = thread_prio k" "is_queued K = is_queued k" "links_ok K" "waiters_sorted K"
    using add_waiter_at [OF inv'(1,2) lo ne ex] by blast
  have "inherits K u" if "u \<noteq> own" for u
    using inv'(7) [of u] that by (simp add: inherits_def K prio_frame_nominal [OF K(2)] split: list.splits)
  then have "prio_inv {own} K"
    using inv' K(8,9) prios_ok_frame [OF K(2) inv'(3) K(6)] ready_ok_cong [of K k] K(3,7) by (simp add: prio_inv_def)
  moreover have "lock_rel K = insert (own, t) (lock_rel k)" using lo by (auto simp: lock_rel_def K split: if_splits)
  ultimately obtain k' where "UpdatePriority K own = Some k'" "sched_inv k'" "lock_owner k' = lock_owner K" "prio_frame K k'"
    using UpdatePriority_restores [of own K] inv'(5,6) no_cycle ex(2) prio_frame_thread(2) [OF K(2), of own]
    by (auto simp: acyclic_insert)
  moreover have "AddMutexWaiter k own t = UpdatePriority K own"
    using K(1) ex lo by (auto simp: AddMutexWaiter_def lock_owner_def)
  ultimately show ?thesis using K prio_frame_trans [OF K(2)] by auto
qed

section \<open>Sequences of operations\<close>

text \<open>
  A thread sets a priority, comes to wait for a mutex whose holder does not wait for it, or stops
  waiting.
\<close>

inductive lock_step :: "'w Kernel \<Rightarrow> 'w Kernel \<Rightarrow> bool" where
  "SetPriority k t p = Some k' \<Longrightarrow> lock_step k k'"
| "lock_owner k t = None \<Longrightarrow> (t, own) \<notin> (lock_rel k)\<^sup>* \<Longrightarrow> AddMutexWaiter k own t = Some k' \<Longrightarrow> lock_step k k'"
| "RemoveMutexWaiter k own t = Some k' \<Longrightarrow> lock_step k k'"

lemma RemoveMutexWaiter_owner: "RemoveMutexWaiter k own t = Some k' \<Longrightarrow> lock_owner k t = Some own"
  by (auto simp: RemoveMutexWaiter_def remove_waiter_def bind_eq_Some_conv lock_owner_def)

lemma lock_step_inv:
  assumes "lock_step k k'" and inv: "sched_inv k"
  shows "sched_inv k'"
  using assms(1)
proof cases
  case (1 t p)
  then obtain th where th: "thread_at k t = Some th"
    by (auto simp: SetPriority_def upd_thread_def bind_eq_Some_conv)
  have p: "p \<le> 63" using 1 by (auto simp: SetPriority_def THREADPRIO_LOWEST_def)
  show ?thesis using SetPriority_at [OF inv th p] 1 by auto
next
  case (2 t own)
  then have "thread_at k t \<noteq> None" "thread_at k own \<noteq> None"
    by (auto simp: AddMutexWaiter_def bind_eq_Some_conv)
  then show ?thesis using AddMutexWaiter_at [OF inv 2(1,2)] 2 by auto
next
  case (3 own t)
  then show ?thesis using RemoveMutexWaiter_at [OF inv RemoveMutexWaiter_owner [OF 3]] by auto
qed

text \<open>
  \<^bold>\<open>C18\<close>. Priority inheritance is exact. In every state that is reached from one that
  satisfies the invariant by setting priorities and by entering and leaving the waiting lists of
  mutex holders, the current priority of every thread is the most urgent nominal priority among
  the thread itself and all threads that wait for it, directly or through other threads; and the
  ready queue of every core holds exactly the ready threads of that core, each once, on the level
  of its current priority.
\<close>

theorem priority_inheritance:
  assumes inv: "sched_inv k" and steps: "lock_step\<^sup>*\<^sup>* k k'"
  shows "thread_prio k' t = most_urgent k' t \<and>
    (c < 4 \<and> p < 64 \<longrightarrow> mlq_count (ready_of k' c) p t = (if is_queued k' c p t then 1 else 0))"
proof -
  have "sched_inv k'" using steps inv by (induction rule: rtranclp_induct) (auto dest: lock_step_inv)
  then show ?thesis using thread_prio_most_urgent [of k' t] by (simp add: sched_inv_def ready_ok_def)
qed

text \<open>
  \<^bold>\<open>C19\<close>. The recursion of \<open>UpdatePriority\<close> along the owners of locks comes to an end and
  trips no assertion: in a state that satisfies the invariant, \<open>SetPriority\<close> returns for every
  thread and every priority up to 63, \<open>AddMutexWaiter\<close> for every thread that waits for nothing
  yet and every holder that does not wait for it, and \<open>RemoveMutexWaiter\<close> for every waiter.
\<close>

theorem priority_updates_return:
  assumes inv: "sched_inv k" and ex: "thread_at k t \<noteq> None" "thread_at k own \<noteq> None"
  shows "((\<exists>k'. SetPriority k t p = Some k') \<longleftrightarrow> p \<le> 63) \<and>
    (lock_owner k t = None \<and> (t, own) \<notin> (lock_rel k)\<^sup>* \<longrightarrow> (\<exists>k'. AddMutexWaiter k own t = Some k')) \<and>
    ((\<exists>k'. RemoveMutexWaiter k own t = Some k') \<longleftrightarrow> lock_owner k t = Some own)"
proof (intro conjI)
  have "p \<le> 63" if "SetPriority k t p = Some k'" for k'
    using that by (auto simp: SetPriority_def THREADPRIO_LOWEST_def)
  then show "(\<exists>k'. SetPriority k t p = Some k') \<longleftrightarrow> p \<le> 63" using SetPriority_at [OF inv] ex by blast
  show "lock_owner k t = None \<and> (t, own) \<notin> (lock_rel k)\<^sup>* \<longrightarrow> (\<exists>k'. AddMutexWaiter k own t = Some k')"
    using AddMutexWaiter_at [OF inv _ _ ex] by blast
  show "(\<exists>k'. RemoveMutexWaiter k own t = Some k') \<longleftrightarrow> lock_owner k t = Some own"
    using RemoveMutexWaiter_at [OF inv] RemoveMutexWaiter_owner by blast
qed

end
