(* ===== verification/Kernel_Switch.thy ===== *)
theory Kernel_Switch
  imports Kernel_Schedule
begin

text \<open>
  Context switches: the scheduler runs a most urgent thread and keeps the invariant, and the
  registers of a thread are the same before and after it was switched out.
\<close>

section \<open>The stages of a context switch\<close>

text \<open>What a switch needs of the state besides the invariant: the pointers it follows are valid.\<close>

definition switch_ok :: "'w Kernel \<Rightarrow> nat \<Rightarrow> bool" where
  "switch_ok k c \<longleftrightarrow> c < 4 \<and> GetTicks (k_core_timing k) \<noteq> None \<and>
     (\<forall>p. k_current_process k = Some p \<longrightarrow> k_processes k p \<noteq> None) \<and>
     (\<forall>t. sc_current_thread (k_schedulers k c) = Some t \<longrightarrow>
       (\<exists>th. thread_at k t = Some th \<and> (th_status th = Running \<longrightarrow> th_scheduler th = c)))"

definition switched_out :: "Cpu \<Rightarrow> 'w Thread \<Rightarrow> 'w Thread \<Rightarrow> bool" where
  "switched_out cpu th th' \<longleftrightarrow> (\<exists>n l. th' = th\<lparr>th_total_cpu_time_ticks := n, th_last_running_ticks := l,
     th_context := cpu_context cpu, th_tpidr_el0 := cpu_tpidr_el0 cpu,
     th_status := if th_status th = Running then Ready else th_status th\<rparr>)"

text \<open>The state after the previous thread has been put away.\<close>

definition put_away :: "'w Kernel \<Rightarrow> nat \<Rightarrow> 'w Kernel \<Rightarrow> bool" where
  "put_away k c k' \<longleftrightarrow> sched_inv k' \<and> k_cpus k' = k_cpus k \<and> k_current_process k' = k_current_process k \<and>
     k_core_timing k' = k_core_timing k \<and> (\<forall>i. i \<noteq> c \<longrightarrow> k_schedulers k' i = k_schedulers k i) \<and>
     (\<forall>u. case thread_at k u of None \<Rightarrow> thread_at k' u = None
        | Some th \<Rightarrow> if sc_current_thread (k_schedulers k c) = Some u
            then \<exists>th'. thread_at k' u = Some th' \<and> switched_out (k_cpus k c) th th'
            else thread_at k' u = Some th)"

lemma switched_out_lock_view [simp]: "switched_out cpu th th' \<Longrightarrow> lock_view th' = lock_view th"
  by (auto simp: switched_out_def lock_view_def)

lemma switched_out_scheduler [simp]: "switched_out cpu th th' \<Longrightarrow> th_scheduler th' = th_scheduler th"
  by (auto simp: switched_out_def)

lemma put_awayI:
  assumes inv: "sched_inv k" and rdy: "ready_ok k'" and proc: "k_current_process k' = k_current_process k" "k_core_timing k' = k_core_timing k"
    and same: "k_cpus k' = k_cpus k" "\<And>i. i \<noteq> c \<Longrightarrow> k_schedulers k' i = k_schedulers k i"
    and cur: "sc_current_thread (k_schedulers k c) = cur"
    and out: "\<And>t. cur = Some t \<Longrightarrow> \<exists>th th'. thread_at k t = Some th \<and> thread_at k' t = Some th' \<and> switched_out (k_cpus k c) th th'"
    and other: "\<And>u. cur \<noteq> Some u \<Longrightarrow> thread_at k' u = thread_at k u"
  shows "put_away k c k'"
proof -
  have v: "map_option lock_view (thread_at k' u) = map_option lock_view (thread_at k u)" for u
    using out [of u] other [of u] by (cases "cur = Some u") auto
  have sc: "th_scheduler th < 4" if "thread_at k' u = Some th" for u th
    using out [of u] other [of u] inv that by (cases "cur = Some u") (auto simp: sched_inv_def prios_ok_def)
  have "sched_inv k'" by (rule sched_inv_upd [OF inv v sc rdy])
  moreover have "case thread_at k u of None \<Rightarrow> thread_at k' u = None
        | Some th \<Rightarrow> if cur = Some u then \<exists>th'. thread_at k' u = Some th' \<and> switched_out (k_cpus k c) th th'
            else thread_at k' u = Some th" for u
    using out [of u] other [of u] by (cases "cur = Some u") (auto split: option.split)
  ultimately show ?thesis using proc same unfolding put_away_def cur by blast
qed

lemma put_away_Some:
  assumes inv: "sched_inv k" and ok: "switch_ok k c" and cur: "sc_current_thread (k_schedulers k c) = Some t"
  shows "\<exists>k'. UpdateLastContextSwitchTime k c (Some t) (k_current_process k) \<bind> (\<lambda>k. save_previous k c t) = Some k' \<and>
    put_away k c k'"
proof -
  obtain th now where th: "thread_at k t = Some th" "th_status th = Running \<Longrightarrow> th_scheduler th = c"
    and now: "GetTicks (k_core_timing k) = Some now" and c: "c < 4"
    using ok cur by (auto simp: switch_ok_def)
  have p: "th_current_priority th < 64" using inv th(1) by (auto simp: sched_inv_def prios_ok_def)
  define S where "S = (k_schedulers k c)\<lparr>sc_last_context_switch_time := now\<rparr>"
  define th1 where "th1 = th\<lparr>th_total_cpu_time_ticks :=
    th_total_cpu_time_ticks th + (now - sc_last_context_switch_time (k_schedulers k c))\<rparr>"
  obtain P where k1: "UpdateLastContextSwitchTime k c (Some t) (k_current_process k) =
      Some (k\<lparr>k_threads := (k_threads k)(t \<mapsto> th1), k_processes := P, k_schedulers := (k_schedulers k)(c := S)\<rparr>)"
  proof (cases "k_current_process k")
    case None
    then show ?thesis using th now c that [of "k_processes k"]
      by (simp add: UpdateLastContextSwitchTime_def sched_at_def NUM_CPU_CORES_def upd_thread_def set_sched_def S_def th1_def Let_def)
  next
    case (Some pid)
    then obtain pr where "k_processes k pid = Some pr" using ok by (auto simp: switch_ok_def)
    then show ?thesis using Some th now c that
      by (auto simp: UpdateLastContextSwitchTime_def sched_at_def NUM_CPU_CORES_def upd_thread_def set_sched_def S_def th1_def Let_def)
  qed
  define th2 where "th2 = th1\<lparr>th_context := cpu_context (k_cpus k c), th_tpidr_el0 := cpu_tpidr_el0 (k_cpus k c)\<rparr>"
  show ?thesis
  proof (cases "th_status th = Running")
    case False
    define k2 where "k2 = k\<lparr>k_threads := (k_threads k)(t \<mapsto> th2), k_processes := P, k_schedulers := (k_schedulers k)(c := S)\<rparr>"
    have r: "save_previous (k\<lparr>k_threads := (k_threads k)(t \<mapsto> th1), k_processes := P, k_schedulers := (k_schedulers k)(c := S)\<rparr>) c t = Some k2"
      using False by (simp add: save_previous_def upd_thread_def k2_def th2_def th1_def)
    have "is_queued k2 i q u = is_queued k i q u" for i q u
      using th(1) by (auto simp: is_queued_def k2_def th2_def th1_def)
    then have "ready_ok k2 = ready_ok k" by (intro ready_ok_cong) (simp_all add: k2_def S_def)
    moreover have "switched_out (k_cpus k c) th th2"
      unfolding switched_out_def using False
      by (intro exI [of _ "th_total_cpu_time_ticks th1"] exI [of _ "th_last_running_ticks th"]) (simp add: th2_def th1_def)
    ultimately have "put_away k c k2"
      using inv now th(1) by (intro put_awayI [OF inv _ _ _ _ _ cur]) (auto simp: sched_inv_def k2_def)
    then show ?thesis using k1 r by simp
  next
    case True
    have rdy: "ready_ok k" using inv by (simp add: sched_inv_def)
    obtain q where q: "mlq_add 64 (ready_of k c) t (th_current_priority th) False = Some q"
      and rq: "\<And>k' th'. k_threads k' = (k_threads k)(t \<mapsto> th') \<Longrightarrow> th_status th' = Ready \<Longrightarrow> th_scheduler th' = c \<Longrightarrow>
        th_current_priority th' = th_current_priority th \<Longrightarrow>
        \<forall>i<4. ready_of k' i = (if i = c then q else ready_of k i) \<Longrightarrow> ready_ok k'"
      using ready_ok_enqueue [OF rdy th(1) _ c p, of False] True by auto
    define th3 where "th3 = th2\<lparr>th_last_running_ticks := now, th_status := Ready\<rparr>"
    define k2 where "k2 = k\<lparr>k_threads := (k_threads k)(t \<mapsto> th3), k_processes := P, k_schedulers := (k_schedulers k)(c := S\<lparr>sc_ready_queue := q\<rparr>)\<rparr>"
    have r: "save_previous (k\<lparr>k_threads := (k_threads k)(t \<mapsto> th1), k_processes := P, k_schedulers := (k_schedulers k)(c := S)\<rparr>) c t = Some k2"
      using True q c now by (simp add: save_previous_def upd_thread_def k2_def th3_def th2_def th1_def S_def sched_at_def NUM_CPU_CORES_def
          set_sched_def SetStatus_def Let_def)
    have "ready_ok k2"
      using th(2) True by (intro rq [of k2 th3]) (simp_all add: k2_def th3_def th2_def th1_def)
    moreover have "switched_out (k_cpus k c) th th3"
      unfolding switched_out_def using True
      by (intro exI [of _ "th_total_cpu_time_ticks th1"] exI [of _ now]) (simp add: th3_def th2_def th1_def)
    ultimately have "put_away k c k2"
      using now th(1) by (intro put_awayI [OF inv _ _ _ _ _ cur]) (auto simp: k2_def)
    then show ?thesis using k1 r by simp
  qed
qed

lemma put_away_None:
  assumes inv: "sched_inv k" and ok: "switch_ok k c" and cur: "sc_current_thread (k_schedulers k c) = None"
  shows "\<exists>k'. UpdateLastContextSwitchTime k c None (k_current_process k) = Some k' \<and> put_away k c k'"
proof -
  obtain now where now: "GetTicks (k_core_timing k) = Some now" and c: "c < 4"
    using ok by (auto simp: switch_ok_def)
  define S where "S = (k_schedulers k c)\<lparr>sc_last_context_switch_time := now\<rparr>"
  obtain P where k1: "UpdateLastContextSwitchTime k c None (k_current_process k) =
      Some (k\<lparr>k_processes := P, k_schedulers := (k_schedulers k)(c := S)\<rparr>)"
  proof (cases "k_current_process k")
    case None
    then show ?thesis using now c that [of "k_processes k"]
      by (simp add: UpdateLastContextSwitchTime_def sched_at_def NUM_CPU_CORES_def set_sched_def S_def Let_def)
  next
    case (Some pid)
    then obtain pr where "k_processes k pid = Some pr" using ok by (auto simp: switch_ok_def)
    then show ?thesis using Some now c that
      by (auto simp: UpdateLastContextSwitchTime_def sched_at_def NUM_CPU_CORES_def set_sched_def S_def Let_def)
  qed
  define k2 where "k2 = k\<lparr>k_processes := P, k_schedulers := (k_schedulers k)(c := S)\<rparr>"
  have "ready_ok k2 = ready_ok k" by (intro ready_ok_cong) (simp_all add: k2_def S_def is_queued_def)
  then have "put_away k c k2"
    using inv now by (intro put_awayI [OF inv _ _ _ _ _ cur]) (auto simp: sched_inv_def k2_def)
  then show ?thesis using k1 by (simp add: k2_def)
qed

text \<open>The state after the next thread has been put on the core.\<close>

definition loaded :: "'w Kernel \<Rightarrow> nat \<Rightarrow> tid \<Rightarrow> 'w Thread \<Rightarrow> 'w Kernel \<Rightarrow> bool" where
  "loaded k c n th k' \<longleftrightarrow> sched_inv k' \<and> k_threads k' = (k_threads k)(n \<mapsto> th\<lparr>th_status := Running\<rparr>) \<and>
     sc_current_thread (k_schedulers k' c) = Some n \<and>
     (\<forall>i. i \<noteq> c \<longrightarrow> k_schedulers k' i = k_schedulers k i \<and> k_cpus k' i = k_cpus k i) \<and>
     cpu_context (k_cpus k' c) = th_context th \<and> cpu_tls_address (k_cpus k' c) = th_tls_address th \<and>
     cpu_tpidr_el0 (k_cpus k' c) = th_tpidr_el0 th \<and> k_current_process k' = Some (th_owner_process th) \<and>
     ct_global_timer (k_core_timing k') = ct_global_timer (k_core_timing k)"

lemma load_next_at:
  assumes inv: "sched_inv k" and c: "c < 4" and th: "thread_at k n = Some th" "th_status th = Ready" "th_scheduler th = c"
  shows "\<exists>k'. load_next k c (k_current_process k) n = Some k' \<and> loaded k c n th k'"
proof -
  have p: "th_current_priority th < 64" using inv th(1) by (auto simp: sched_inv_def prios_ok_def)
  have rdy: "ready_ok k" using inv by (simp add: sched_inv_def)
  obtain q where q: "mlq_remove 64 (ready_of k c) n (th_current_priority th) = Some q"
    and rq: "\<And>k' th'. k_threads k' = (k_threads k)(n \<mapsto> th') \<Longrightarrow> th_status th' \<noteq> Ready \<Longrightarrow>
      \<forall>i<4. ready_of k' i = (if i = c then q else ready_of k i) \<Longrightarrow> ready_ok k'"
    using ready_ok_dequeue [OF rdy th c p] by auto
  define k' where "k' = k\<lparr>k_threads := (k_threads k)(n \<mapsto> th\<lparr>th_status := Running\<rparr>), k_current_process := Some (th_owner_process th),
    k_schedulers := (k_schedulers k)(c := (k_schedulers k c)\<lparr>sc_current_thread := Some n, sc_ready_queue := q\<rparr>),
    k_cpus := (k_cpus k)(c := (k_cpus k c)\<lparr>cpu_context := th_context th,
       cpu_tls_address := th_tls_address th, cpu_tpidr_el0 := th_tpidr_el0 th\<rparr>),
    k_core_timing := UnscheduleEventThreadsafe (k_core_timing k) (k_thread_wakeup_event_type k) (ucast (th_callback_handle th))\<rparr>"
  have "load_next k c (k_current_process k) n = Some k'"
    using th q c by (auto simp: load_next_def CancelWakeupTimer_def sched_at_def NUM_CPU_CORES_def set_sched_def SetStatus_def
        k'_def Let_def)
  moreover have "sched_inv k'"
  proof (rule sched_inv_upd [OF inv])
    show "map_option lock_view (k_threads k' u) = map_option lock_view (k_threads k u)" for u
      using th(1) by (simp add: k'_def lock_view_def)
    show "th_scheduler th' < 4" if "thread_at k' u = Some th'" for u th'
      using that inv th(1) by (auto simp: k'_def sched_inv_def prios_ok_def split: if_splits)
    show "ready_ok k'" by (rule rq [of k' "th\<lparr>th_status := Running\<rparr>"]) (simp_all add: k'_def)
  qed
  ultimately show ?thesis by (auto simp: loaded_def k'_def UnscheduleEventThreadsafe_def)
qed

section \<open>The choice of the next thread\<close>

definition runnable :: "'w Kernel \<Rightarrow> nat \<Rightarrow> tid \<Rightarrow> bool" where
  "runnable k c t \<longleftrightarrow> (case thread_at k t of None \<Rightarrow> False | Some th \<Rightarrow> th_scheduler th = c \<and>
     (th_status th = Ready \<or> th_status th = Running \<and> sc_current_thread (k_schedulers k c) = Some t))"

definition is_running :: "'w Kernel \<Rightarrow> nat \<Rightarrow> tid \<Rightarrow> bool" where
  "is_running k c t \<longleftrightarrow> sc_current_thread (k_schedulers k c) = Some t \<and>
     (case thread_at k t of None \<Rightarrow> False | Some th \<Rightarrow> th_status th = Running)"

text \<open>The thread that \<open>PopNextReadyThread\<close> chooses.\<close>

definition best_thread :: "'w Kernel \<Rightarrow> nat \<Rightarrow> tid option \<Rightarrow> bool" where
  "best_thread k c r \<longleftrightarrow> (case r of
     None \<Rightarrow> \<forall>t. \<not> runnable k c t
   | Some n \<Rightarrow> runnable k c n \<and> (\<forall>u. runnable k c u \<longrightarrow> thread_prio k n \<le> thread_prio k u \<and>
       (is_running k c u \<and> u \<noteq> n \<longrightarrow> thread_prio k n < thread_prio k u)))"

lemma ready_front:
  assumes inv: "sched_inv k" and c: "c < 4"
  shows "mlq_empty (ready_of k c) \<longleftrightarrow> (\<forall>u. \<not> is_queued k c (thread_prio k u) u)"
    and "\<not> mlq_empty (ready_of k c) \<Longrightarrow> \<exists>n. mlq_front 64 (ready_of k c) 0 = Some n \<and> is_queued k c (thread_prio k n) n \<and>
      (\<forall>u. is_queued k c (thread_prio k u) u \<longrightarrow> thread_prio k n \<le> thread_prio k u)"
proof -
  have ok: "mlq_ok 64 (ready_of k c)" and lv: "i < 64 \<Longrightarrow> 0 < mlq_count (ready_of k c) i y \<longleftrightarrow>
      is_queued k c (thread_prio k y) y \<and> thread_prio k y = i" for i y
    using inv c by (auto simp: sched_inv_def ready_ok_def is_queued_def thread_prio_def split: option.splits)
  have lt: "thread_prio k y < 64" for y
    using inv by (auto simp: sched_inv_def prios_ok_def thread_prio_def split: option.splits)
  show e: "mlq_empty (ready_of k c) \<longleftrightarrow> (\<forall>u. \<not> is_queued k c (thread_prio k u) u)"
    using rq.is_empty [OF ok] lv lt by (metis neq0_conv)
  assume "\<not> mlq_empty (ready_of k c)"
  then obtain x where "is_queued k c (thread_prio k x) x" using e by blast
  from rq.front_most_urgent(2) [OF ok lv this lt]
  show "\<exists>n. mlq_front 64 (ready_of k c) 0 = Some n \<and> is_queued k c (thread_prio k n) n \<and>
      (\<forall>u. is_queued k c (thread_prio k u) u \<longrightarrow> thread_prio k n \<le> thread_prio k u)" by blast
qed

lemma runnable_iff: "runnable k c t \<longleftrightarrow> is_queued k c (thread_prio k t) t \<or>
    is_running k c t \<and> (\<exists>th. thread_at k t = Some th \<and> th_scheduler th = c)"
  by (auto simp: runnable_def is_queued_def is_running_def thread_prio_def split: option.splits)

lemma PopNextReadyThread_at:
  assumes inv: "sched_inv k" and ok: "switch_ok k c"
  shows "\<exists>r. PopNextReadyThread k c = Some r \<and> best_thread k c r"
proof -
  have c: "c < 4" using ok by (simp add: switch_ok_def)
  note fr = ready_front [OF inv c]
  show ?thesis
  proof (cases "\<exists>t. is_running k c t")
    case True
    then obtain t th where t: "sc_current_thread (k_schedulers k c) = Some t" "thread_at k t = Some th" "th_status th = Running"
      by (auto simp: is_running_def split: option.splits)
    then have sc: "th_scheduler th = c" using ok by (auto simp: switch_ok_def)
    have run: "is_running k c u \<longleftrightarrow> u = t" for u using t by (auto simp: is_running_def)
    have rt: "runnable k c u \<longleftrightarrow> is_queued k c (thread_prio k u) u \<or> u = t" for u
      using t sc by (auto simp: runnable_iff run)
    show ?thesis
    proof (cases "mlq_empty (ready_of k c)")
      case True
      then have "best_thread k c (Some t)" using fr(1) by (auto simp: best_thread_def rt run)
      then show ?thesis using t c True by (simp add: PopNextReadyThread_def sched_at_def NUM_CPU_CORES_def GetCurrentThread_def)
    next
      case False
      then obtain n where n: "mlq_front 64 (ready_of k c) 0 = Some n" "is_queued k c (thread_prio k n) n"
        "\<And>u. is_queued k c (thread_prio k u) u \<Longrightarrow> thread_prio k n \<le> thread_prio k u" using fr(2) by blast
      then obtain nth where nth: "thread_at k n = Some nth" by (auto simp: is_queued_def split: option.splits)
      define r where "r = (if thread_prio k n \<ge> thread_prio k t then t else n)"
      have "thread_prio k r \<le> thread_prio k u" if "runnable k c u" for u
        using n(3) [of u] that by (auto simp: rt r_def)
      moreover have "runnable k c r" "t \<noteq> r \<Longrightarrow> thread_prio k r < thread_prio k t" using n(2) by (auto simp: rt r_def)
      ultimately have "best_thread k c (Some r)" by (auto simp: best_thread_def run)
      moreover have "PopNextReadyThread k c = Some (Some r)"
        using t c False n(1) nth
        by (simp add: PopNextReadyThread_def sched_at_def NUM_CPU_CORES_def GetCurrentThread_def r_def thread_prio_def)
      ultimately show ?thesis by blast
    qed
  next
    case False
    then have rt: "runnable k c u \<longleftrightarrow> is_queued k c (thread_prio k u) u" for u by (auto simp: runnable_iff)
    have pop: "PopNextReadyThread k c = (if mlq_empty (ready_of k c) then Some None
        else mlq_front 64 (ready_of k c) 0 \<bind> (\<lambda>n. Some (Some n)))"
      using False c ok by (auto simp: PopNextReadyThread_def sched_at_def NUM_CPU_CORES_def GetCurrentThread_def is_running_def
          switch_ok_def split: option.split)
    show ?thesis
    proof (cases "mlq_empty (ready_of k c)")
      case True
      then show ?thesis using fr(1) pop by (simp add: best_thread_def rt)
    next
      case ne: False
      then show ?thesis using fr(2) pop False by (auto simp: best_thread_def rt)
    qed
  qed
qed

section \<open>Rescheduling\<close>

definition context_of :: "'w Kernel \<Rightarrow> tid \<Rightarrow> (ThreadContext \<times> u64) option" where
  "context_of k t = map_option (\<lambda>th. (th_context th, th_tpidr_el0 th)) (thread_at k t)"

definition status_of :: "'w Kernel \<Rightarrow> tid \<Rightarrow> ThreadStatus option" where
  "status_of k t = map_option th_status (thread_at k t)"

text \<open>The registers a thread continues with: those of the core while it occupies it, else the saved ones.\<close>

definition registers :: "'w Kernel \<Rightarrow> nat \<Rightarrow> tid \<Rightarrow> (ThreadContext \<times> u64) option" where
  "registers k c t = (if sc_current_thread (k_schedulers k c) = Some t
     then Some (cpu_context (k_cpus k c), cpu_tpidr_el0 (k_cpus k c)) else context_of k t)"

definition switched :: "'w Kernel \<Rightarrow> nat \<Rightarrow> tid option \<Rightarrow> 'w Kernel \<Rightarrow> bool" where
  "switched k c r k' \<longleftrightarrow> sched_inv k' \<and> sc_current_thread (k_schedulers k' c) = r \<and>
     ct_global_timer (k_core_timing k') = ct_global_timer (k_core_timing k) \<and>
     (\<forall>u. registers k' c u = registers k c u) \<and>
     (\<forall>u. status_of k' u = (if r = Some u then Some Running else if is_running k c u then Some Ready else status_of k u)) \<and>
     (\<forall>i. i \<noteq> c \<longrightarrow> k_schedulers k' i = k_schedulers k i \<and> k_cpus k' i = k_cpus k i)"

lemma put_away_thread:
  assumes "put_away k c k'" "sc_current_thread (k_schedulers k c) = Some u \<Longrightarrow> thread_at k u \<noteq> None"
  shows "context_of k' u = registers k c u" "status_of k' u = (if is_running k c u then Some Ready else status_of k u)"
    "map_option th_scheduler (thread_at k' u) = map_option th_scheduler (thread_at k u)"
  using assms spec [OF conjunct2 [OF conjunct2 [OF conjunct2 [OF conjunct2 [OF conjunct2 [OF assms(1) [unfolded put_away_def]]]]]], of u]
  by (auto simp: context_of_def registers_def status_of_def is_running_def switched_out_def split: option.splits if_splits)

lemma SwitchContext_at:
  assumes inv: "sched_inv k" and ok: "switch_ok k c" and r: "\<And>n. r = Some n \<Longrightarrow> runnable k c n"
  shows "\<exists>k'. SwitchContext k c r = Some k' \<and> switched k c r k'"
proof -
  have c: "c < 4" using ok by (simp add: switch_ok_def)
  obtain k1 where k1: "UpdateLastContextSwitchTime k c (sc_current_thread (k_schedulers k c)) (k_current_process k) \<bind>
      (\<lambda>k1. case sc_current_thread (k_schedulers k c) of None \<Rightarrow> Some k1 | Some p \<Rightarrow> save_previous k1 c p) = Some k1"
    and pa: "put_away k c k1"
    using put_away_None [OF inv ok] put_away_Some [OF inv ok]
    by (cases "sc_current_thread (k_schedulers k c)") auto
  have ex: "thread_at k u \<noteq> None" if "sc_current_thread (k_schedulers k c) = Some u" for u
    using ok that by (auto simp: switch_ok_def)
  note th1 = put_away_thread [OF pa ex]
  have inv1: "sched_inv k1" and pc: "k_current_process k1 = k_current_process k" "k_cpus k1 = k_cpus k" "k_core_timing k1 = k_core_timing k"
    and other: "\<And>i. i \<noteq> c \<Longrightarrow> k_schedulers k1 i = k_schedulers k i"
    using pa by (simp_all add: put_away_def)
  have sw: "SwitchContext k c r = (case r of Some n \<Rightarrow> load_next k1 c (k_current_process k1) n
      | None \<Rightarrow> Some (set_sched c ((k_schedulers k1 c)\<lparr>sc_current_thread := None\<rparr>) k1))"
    using k1 c by (auto simp: SwitchContext_def sched_at_def NUM_CPU_CORES_def GetCurrentThread_def Let_def pc bind_assoc
        split: option.split bind_splits)
  show ?thesis
  proof (cases r)
    case None
    define k2 where "k2 = set_sched c ((k_schedulers k1 c)\<lparr>sc_current_thread := None\<rparr>) k1"
    have "ready_ok k2 = ready_ok k1" by (rule ready_ok_cong) (simp_all add: k2_def set_sched_def is_queued_def)
    then have "sched_inv k2" using inv1
      by (intro sched_inv_upd [OF inv1]) (auto simp: k2_def set_sched_def sched_inv_def prios_ok_def)
    then have "switched k c r k2"
      using None other th1(1,2) by (auto simp: switched_def k2_def set_sched_def registers_def context_of_def status_of_def pc)
    then show ?thesis using sw None by (simp add: k2_def)
  next
    case (Some n)
    then obtain th where th: "thread_at k1 n = Some th" "th_status th = Ready" "th_scheduler th = c"
      using r [OF Some] th1(2,3) [of n] by (auto simp: runnable_def status_of_def is_running_def split: option.splits if_splits)
    then obtain k2 where k2: "load_next k1 c (k_current_process k1) n = Some k2" "loaded k1 c n th k2"
      using load_next_at [OF inv1 c] by blast
    have reg: "registers k2 c u = context_of k1 u" for u
      using k2(2) th(1) by (auto simp: loaded_def registers_def context_of_def)
    have st: "status_of k2 u = (if u = n then Some Running else status_of k1 u)" for u
      using k2(2) by (simp add: loaded_def status_of_def)
    have "switched k c r k2"
      using k2(2) other Some by (simp add: switched_def reg st th1(1,2) loaded_def pc(2,3))
    then show ?thesis using sw Some k2(1) by simp
  qed
qed

text \<open>
  \<^bold>\<open>C20\<close>. \<open>Scheduler::Reschedule\<close> returns, trips no assertion and keeps the invariant. The thread that
  has the core afterwards is a runnable one of this core such that none is more urgent, and the
  thread that had it keeps it unless a strictly more urgent one is ready; the core idles exactly if
  no thread is runnable. The chosen thread is running, the thread that lost the core is ready, the
  status of all others is unchanged. The registers of every thread, those of the core for the
  thread that has it and the saved ones for all others, are the same before and after. Nothing
  changes on the other cores.
\<close>

theorem Reschedule_correct:
  assumes "sched_inv k" and "switch_ok k c"
  shows "\<exists>k' r. Reschedule k c = Some k' \<and> sched_inv k' \<and> best_thread k c r \<and> sc_current_thread (k_schedulers k' c) = r \<and>
    (\<forall>u. registers k' c u = registers k c u) \<and>
    (\<forall>u. status_of k' u = (if r = Some u then Some Running else if is_running k c u then Some Ready else status_of k u)) \<and>
    (\<forall>i. i \<noteq> c \<longrightarrow> k_schedulers k' i = k_schedulers k i \<and> k_cpus k' i = k_cpus k i)"
proof -
  obtain r where r: "PopNextReadyThread k c = Some r" "best_thread k c r" using PopNextReadyThread_at [OF assms] by blast
  then have "runnable k c n" if "r = Some n" for n using that by (simp add: best_thread_def)
  then show ?thesis
    using SwitchContext_at [OF assms, of r] r by (force simp: Reschedule_def switched_def)
qed

end
