(* ===== verification/Kernel_Resume.thy ===== *)
theory Kernel_Resume
  imports Kernel_Switch
begin

text \<open>
  Waking threads: \<open>ResumeFromWait\<close> makes a waiting thread ready on a core it may run on, asks
  that core to reschedule, and keeps the invariant.
\<close>

section \<open>What a change of core leaves alone\<close>

definition same_world :: "'w Kernel \<Rightarrow> 'w Kernel \<Rightarrow> bool" where
  "same_world k k' \<longleftrightarrow> k' = k\<lparr>k_threads := k_threads k', k_schedulers := k_schedulers k', k_cpus := k_cpus k'\<rparr> \<and>
     (\<forall>i. sc_current_thread (k_schedulers k' i) = sc_current_thread (k_schedulers k i) \<and>
          cpu_context (k_cpus k' i) = cpu_context (k_cpus k i) \<and> cpu_tpidr_el0 (k_cpus k' i) = cpu_tpidr_el0 (k_cpus k i) \<and>
          (cpu_reschedule_pending (k_cpus k i) \<longrightarrow> cpu_reschedule_pending (k_cpus k' i)))"

lemma same_world_refl [simp]: "same_world k k"
  by (simp add: same_world_def)

lemma same_world_trans: "same_world k k1 \<Longrightarrow> same_world k1 k2 \<Longrightarrow> same_world k k2"
  by (cases k; cases k1; cases k2) (auto simp: same_world_def)

lemma same_world_fields:
  assumes "same_world k k'"
  shows "k_memory k' = k_memory k" "k_processes k' = k_processes k" "k_current_process k' = k_current_process k"
    "k_events k' = k_events k" "k_waiting_threads k' = k_waiting_threads k" "k_core_timing k' = k_core_timing k"
    "k_current_core k' = k_current_core k" "k_thread_wakeup_event_type k' = k_thread_wakeup_event_type k"
    "k_thread_wakeup_callback_handle_table k' = k_thread_wakeup_callback_handle_table k"
  using assms by (cases k; cases k'; simp add: same_world_def)+

text \<open>The core a ready thread moves to.\<close>

definition target_core :: "'w Kernel \<Rightarrow> 'w Thread \<Rightarrow> int" where
  "target_core k th =
     (if th_ideal_core th \<noteq> -1 \<and> core_idle k (unat (th_ideal_core th)) then sint (th_ideal_core th)
      else case GetNextProcessorId k (th_affinity_mask th) of Some c \<Rightarrow> int c | None \<Rightarrow> th_processor_id th)"

definition placeable :: "'w Thread \<Rightarrow> bool" where
  "placeable th \<longleftrightarrow> 0 \<le> th_processor_id th \<and> th_processor_id th < 4 \<and> (th_ideal_core th = -1 \<or> th_ideal_core th < 4)"

lemma small_core:
  assumes "(w :: u32) < 4"
  shows "w = 0 \<or> w = 1 \<or> w = 2 \<or> w = 3"
proof -
  have "unat w < 4" using assms by (simp add: word_less_nat_alt)
  then consider "unat w = 0" | "unat w = 1" | "unat w = 2" | "unat w = 3" by linarith
  then show ?thesis by cases (simp_all add: word_unat_eq_iff)
qed

lemma target_core_bounds:
  assumes "placeable th"
  shows "0 \<le> target_core k th" "target_core k th < 4"
proof -
  have "c < 4" if "GetNextProcessorId k m = Some c" for c m
    using that by (auto simp: GetNextProcessorId_def find_Some_iff NUM_CPU_CORES_def)
  then show "0 \<le> target_core k th" "target_core k th < 4"
    using assms small_core [of "th_ideal_core th"]
    by (auto simp: target_core_def placeable_def split: option.split)
qed

section \<open>Moving a ready thread\<close>

text \<open>The invariant of the ready queues, except that thread \<open>t\<close> may be missing.\<close>

definition ready_but :: "'w Kernel \<Rightarrow> tid \<Rightarrow> bool" where
  "ready_but k t \<longleftrightarrow> (\<forall>c<4. mlq_ok 64 (ready_of k c) \<and>
     (\<forall>p<64. \<forall>u. mlq_count (ready_of k c) p u \<le> (if is_queued k c p u then 1 else 0) \<and>
        (u \<noteq> t \<longrightarrow> mlq_count (ready_of k c) p u = (if is_queued k c p u then 1 else 0))))"

definition moved :: "'w Kernel \<Rightarrow> tid \<Rightarrow> 'w Thread \<Rightarrow> 'w Kernel \<Rightarrow> bool" where
  "moved k t th k' \<longleftrightarrow> same_world k k' \<and> ready_ok k' \<and> cpu_reschedule_pending (k_cpus k' (nat (target_core k th))) \<and>
     k_threads k' = (k_threads k)(t \<mapsto> th\<lparr>th_processor_id := target_core k th, th_scheduler := nat (target_core k th)\<rparr>)"

lemma ready_move:
  assumes rb: "ready_but k t" and th: "thread_at k t = Some th" "th_status th = Ready" "th_scheduler th = c" "th_current_priority th = p"
    and lt: "c < 4" "d < 4" "p < 64"
  shows "\<exists>q r. mlq_remove 64 (ready_of k c) t p = Some q \<and> mlq_add 64 (if d = c then q else ready_of k d) t p True = Some r \<and>
    (\<forall>k'. (\<exists>th'. k_threads k' = (k_threads k)(t \<mapsto> th') \<and> th_status th' = Ready \<and> th_scheduler th' = d \<and> th_current_priority th' = p) \<and>
       (\<forall>i<4. ready_of k' i = (if i = d then r else if i = c then q else ready_of k i)) \<longrightarrow> ready_ok k')"
proof -
  obtain q where q: "mlq_remove 64 (ready_of k c) t p = Some q" "mlq_ok 64 q"
    "\<forall>i y. mlq_count q i y = mlq_count (ready_of k c) i y - (if i = p \<and> y = t then 1 else 0)"
    using rq.remove [OF _ lt(3), of "ready_of k c" t] rb lt(1) by (auto simp: ready_but_def)
  define D where "D = (if d = c then q else ready_of k d)"
  have "mlq_ok 64 D" using rb lt q(2) by (auto simp: ready_but_def D_def)
  then obtain r where r: "mlq_add 64 D t p True = Some r" "mlq_ok 64 r"
    "\<forall>i y. mlq_count r i y = mlq_count D i y + (if i = p \<and> y = t then 1 else 0)"
    using rq.add [OF _ lt(3), of D t True] by blast
  have cnt: "mlq_count (ready_of k i) j u = (if is_queued k i j u then 1 else 0)" if "i < 4" "j < 64" "u \<noteq> t" for i j u
    using rb that by (simp add: ready_but_def)
  have cnt': "mlq_count (ready_of k i) j t \<le> (if i = c \<and> j = p then 1 else 0)" if "i < 4" "j < 64" for i j
  proof -
    have "is_queued k i j t \<longleftrightarrow> i = c \<and> j = p" using th by (auto simp: is_queued_def)
    moreover have "mlq_count (ready_of k i) j t \<le> (if is_queued k i j t then 1 else 0)"
      using rb that unfolding ready_but_def by blast
    ultimately show ?thesis by simp
  qed
  have "ready_ok k'" if "k_threads k' = (k_threads k)(t \<mapsto> th')" "th_status th' = Ready" "th_scheduler th' = d" "th_current_priority th' = p"
    "\<forall>i<4. ready_of k' i = (if i = d then r else if i = c then q else ready_of k i)" for k' :: "'a Kernel" and th'
    unfolding ready_ok_def
  proof (intro allI impI conjI)
    fix i j :: nat and u assume i: "i < 4"
    show "mlq_ok 64 (ready_of k' i)" using that(5) i q(2) r(2) rb by (simp add: ready_but_def)
    assume j: "j < 64"
    have "is_queued k' i j u = (if u = t then i = d \<and> j = p else is_queued k i j u)"
      using that by (auto simp: is_queued_def)
    then show "mlq_count (ready_of k' i) j u = (if is_queued k' i j u then 1 else 0)"
      using that(5) i j q(3) r(3) cnt [OF i j] cnt' [OF i j] lt by (cases "u = t") (auto simp: D_def)
  qed
  then show ?thesis using q(1) r(1) unfolding D_def by blast
qed

lemma thread_lists_at:
  assumes "c < 4" "d < 4"
  shows "\<exists>S. (if b then do { k \<leftarrow> RemoveThread k c t; AddThread k d t } else Some k) = Some (k\<lparr>k_schedulers := S\<rparr>) \<and>
    (\<forall>i. sc_ready_queue (S i) = ready_of k i \<and> sc_current_thread (S i) = sc_current_thread (k_schedulers k i))"
proof (cases b)
  case False
  then show ?thesis by (intro exI [of _ "k_schedulers k"]) simp
next
  case True
  define S where "S = (k_schedulers k)(c := (k_schedulers k c)\<lparr>sc_thread_list := filter (\<lambda>x. x \<noteq> t) (sc_thread_list (k_schedulers k c))\<rparr>)"
  then show ?thesis using assms True
    by (intro exI [of _ "S(d := (S d)\<lparr>sc_thread_list := sc_thread_list (S d) @ [t]\<rparr>)"])
      (simp add: RemoveThread_def AddThread_def sched_at_def NUM_CPU_CORES_def set_sched_def)
qed

lemma ChangeScheduler_at:
  assumes rb: "ready_but k t" and th: "thread_at k t = Some th" "th_status th = Ready" "placeable th"
    and lt: "th_scheduler th < 4" "th_current_priority th < 64"
  shows "\<exists>k'. ChangeScheduler k t = Some k' \<and> moved k t th k'"
proof -
  define n where "n = target_core k th"
  have n: "0 \<le> n" "n < 4" "nat n < 4" using target_core_bounds [OF th(3), of k] by (simp_all add: n_def)
  define c d p where "c = th_scheduler th" and "d = nat n" and "p = th_current_priority th"
  have cdp: "th_scheduler th = c" "th_current_priority th = p" "c < 4" "d < 4" "p < 64"
    using lt n(3) by (simp_all add: c_def d_def p_def)
  obtain q r where q: "mlq_remove 64 (ready_of k c) t p = Some q" "mlq_add 64 (if d = c then q else ready_of k d) t p True = Some r"
    and rdy: "\<And>k' th'. k_threads k' = (k_threads k)(t \<mapsto> th') \<Longrightarrow> th_status th' = Ready \<Longrightarrow> th_scheduler th' = d \<Longrightarrow>
      th_current_priority th' = p \<Longrightarrow> \<forall>i<4. ready_of k' i = (if i = d then r else if i = c then q else ready_of k i) \<Longrightarrow> ready_ok k'"
    using ready_move [OF rb th(1,2) cdp] by blast
  obtain S where S: "(if n \<noteq> th_processor_id th then do { k \<leftarrow> RemoveThread k c t; AddThread k d t } else Some k) = Some (k\<lparr>k_schedulers := S\<rparr>)"
    "\<And>i. sc_ready_queue (S i) = ready_of k i" "\<And>i. sc_current_thread (S i) = sc_current_thread (k_schedulers k i)"
    using thread_lists_at [of c d "n \<noteq> th_processor_id th" k t] lt(1) n(3) unfolding c_def d_def by metis
  define S1 where "S1 = S(c := (S c)\<lparr>sc_ready_queue := q\<rparr>)"
  define k' where "k' = k\<lparr>k_threads := (k_threads k)(t \<mapsto> th\<lparr>th_processor_id := n, th_scheduler := d\<rparr>),
    k_schedulers := S1(d := (S1 d)\<lparr>sc_ready_queue := r\<rparr>),
    k_cpus := (k_cpus k)(d := (k_cpus k d)\<lparr>cpu_reschedule_pending := True\<rparr>)\<rparr>"
  have ideal: "sched_at k (unat (th_ideal_core th)) = Some (k_schedulers k (unat (th_ideal_core th)))" if "th_ideal_core th \<noteq> -1"
    using th(3) that by (auto simp: placeable_def sched_at_def NUM_CPU_CORES_def word_less_nat_alt)
  have "ChangeScheduler k t = Some k'"
  proof -
    have "ChangeScheduler k t = do {
         k \<leftarrow> (if n \<noteq> th_processor_id th then do { k \<leftarrow> RemoveThread k c t; AddThread k d t } else Some k);
         k \<leftarrow> upd_thread t (\<lambda>th. th\<lparr>th_processor_id := n\<rparr>) k;
         k \<leftarrow> UnscheduleThread k c t p;
         k \<leftarrow> ScheduleThread k d t p;
         k \<leftarrow> upd_thread t (\<lambda>th. th\<lparr>th_scheduler := d\<rparr>) k;
         PrepareReschedule k d }"
      using th(1,2) n(1,2) ideal
      by (cases "th_ideal_core th = -1"; cases "core_idle k (unat (th_ideal_core th))")
        (simp_all add: ChangeScheduler_def Let_def target_core_def n_def c_def d_def p_def core_idle_def)
    also have "\<dots> = Some k'"
      using th lt n(3) q S(2) unfolding S(1)
      by (auto simp: upd_thread_def UnscheduleThread_def ScheduleThread_def PrepareReschedule_def sched_at_def NUM_CPU_CORES_def
          set_sched_def k'_def S1_def c_def d_def)
    finally show ?thesis .
  qed
  moreover have "ready_ok k'"
    using th(2) S(2) by (intro rdy [of k' "th\<lparr>th_processor_id := n, th_scheduler := d\<rparr>"]) (simp_all add: k'_def S1_def p_def)
  moreover have "same_world k k'"
    using S(3) by (simp add: same_world_def k'_def S1_def)
  ultimately have "ChangeScheduler k t = Some k' \<and> moved k t th k'"
    by (simp add: moved_def k'_def d_def n_def)
  then show ?thesis by blast
qed

section \<open>Resuming a thread\<close>

definition woken :: "'w Kernel \<Rightarrow> 'w Thread \<Rightarrow> 'w Thread" where
  "woken k th = (if th_activity th = ActivityPaused then th\<lparr>th_wakeup_callback := None, th_status := Paused\<rparr>
     else th\<lparr>th_wakeup_callback := None, th_status := Ready, th_processor_id := target_core k th,
       th_scheduler := nat (target_core k th)\<rparr>)"

definition resumed :: "'w Kernel \<Rightarrow> tid \<Rightarrow> 'w Thread \<Rightarrow> 'w Kernel \<Rightarrow> bool" where
  "resumed k t th k' \<longleftrightarrow> sched_inv k' \<and> same_world k k' \<and> k_threads k' = (k_threads k)(t \<mapsto> woken k th) \<and>
     (th_activity th = ActivityNormal \<longrightarrow> cpu_reschedule_pending (k_cpus k' (nat (target_core k th))))"

definition waits :: "'w Thread \<Rightarrow> bool" where
  "waits th \<longleftrightarrow> th_status th \<noteq> Ready \<and> th_status th \<noteq> Running \<and> th_status th \<noteq> Dead"

lemma ResumeFromWait_waits:
  assumes "thread_at k t = Some th" "waits th" "th_wait_objects th = []"
  shows "ResumeFromWait k t = do {
    k \<leftarrow> upd_thread t (\<lambda>th. th\<lparr>th_wakeup_callback := None\<rparr>) k;
    if th_activity th = ActivityPaused then upd_thread t (\<lambda>th. th\<lparr>th_status := Paused\<rparr>) k
    else do { k \<leftarrow> upd_thread t (\<lambda>th. th\<lparr>th_status := Ready\<rparr>) k; ChangeScheduler k t } }"
  using assms by (cases "th_status th") (simp_all add: ResumeFromWait_def waits_def)

lemma ResumeFromWait_at:
  assumes inv: "sched_inv k" and th: "thread_at k t = Some th" "waits th" "th_wait_objects th = []" "placeable th"
  shows "\<exists>k'. ResumeFromWait k t = Some k' \<and> resumed k t th k'"
proof -
  have lt: "th_scheduler th < 4" "th_current_priority th < 64" using inv th(1) by (auto simp: sched_inv_def prios_ok_def)
  have rdy: "ready_ok k" using inv by (simp add: sched_inv_def)
  have nq: "\<not> is_queued k c p t" for c p using th(1,2) by (simp add: is_queued_def waits_def)
  have inv': "sched_inv k'" if "k_threads k' = (k_threads k)(t \<mapsto> th')" "lock_view th' = lock_view th" "th_scheduler th' < 4" "ready_ok k'"
    for k' :: "'a Kernel" and th'
    using that th(1) inv by (intro sched_inv_upd [OF inv]) (auto simp: sched_inv_def prios_ok_def split: if_splits)
  show ?thesis
  proof (cases "th_activity th")
    case ActivityPaused
    define k' where "k' = k\<lparr>k_threads := (k_threads k)(t \<mapsto> woken k th)\<rparr>"
    have r: "ResumeFromWait k t = Some k'"
      using th ActivityPaused by (simp add: ResumeFromWait_waits upd_thread_def k'_def woken_def)
    have "is_queued k' c p u = is_queued k c p u" for c p u
      using th(2) nq ActivityPaused by (auto simp: is_queued_def k'_def woken_def)
    then have "ready_ok k'" using rdy ready_ok_cong [of k' k] by (simp add: k'_def)
    then have "sched_inv k'" using lt(1) ActivityPaused by (intro inv' [of k' "woken k th"]) (simp_all add: k'_def woken_def lock_view_def)
    then show ?thesis using r ActivityPaused by (simp add: resumed_def k'_def same_world_def)
  next
    case ActivityNormal
    define th1 where "th1 = th\<lparr>th_wakeup_callback := None, th_status := Ready\<rparr>"
    define k1 where "k1 = k\<lparr>k_threads := (k_threads k)(t \<mapsto> th1)\<rparr>"
    have r: "ResumeFromWait k t = ChangeScheduler k1 t"
      using th ActivityNormal by (simp add: ResumeFromWait_waits upd_thread_def k1_def th1_def)
    have "ready_but k1 t"
      unfolding ready_but_def
    proof (intro allI impI conjI)
      fix c p :: nat and u assume c: "c < 4"
      show "mlq_ok 64 (ready_of k1 c)" using rdy c by (simp add: ready_ok_def k1_def)
      assume cp: "p < 64"
      have e: "mlq_count (ready_of k1 c) p u = (if is_queued k c p u then 1 else 0)" using rdy c cp by (simp add: ready_ok_def k1_def)
      have o: "u \<noteq> t \<Longrightarrow> is_queued k1 c p u = is_queued k c p u" by (simp add: is_queued_def k1_def)
      show "mlq_count (ready_of k1 c) p u \<le> (if is_queued k1 c p u then 1 else 0)"
        using e o nq by (cases "u = t") auto
      show "mlq_count (ready_of k1 c) p u = (if is_queued k1 c p u then 1 else 0)" if "u \<noteq> t" using e o that by simp
    qed
    moreover have "thread_at k1 t = Some th1" "th_status th1 = Ready" "placeable th1" "th_scheduler th1 < 4" "th_current_priority th1 < 64"
      using th lt by (simp_all add: k1_def th1_def placeable_def)
    ultimately obtain k' where k': "ChangeScheduler k1 t = Some k'" "moved k1 t th1 k'" using ChangeScheduler_at by blast
    have tc: "target_core k1 th1 = target_core k th"
      by (auto simp: target_core_def GetNextProcessorId_def core_idle_def k1_def th1_def split: option.split)
    have w1: "k_threads k' = (k_threads k1)(t \<mapsto> th1\<lparr>th_processor_id := target_core k th, th_scheduler := nat (target_core k th)\<rparr>)"
      using k'(2) by (simp add: moved_def tc)
    have w: "k_threads k' = (k_threads k)(t \<mapsto> woken k th)"
      unfolding w1 using ActivityNormal by (simp add: k1_def th1_def woken_def)
    then have "sched_inv k'" using k'(2) target_core_bounds [OF th(4), of k] ActivityNormal
      by (intro inv' [OF w]) (auto simp: woken_def lock_view_def moved_def)
    moreover have "same_world k k'"
      using k'(2) by (auto simp: moved_def same_world_def k1_def)
    ultimately show ?thesis using k' w r by (auto simp: resumed_def moved_def tc)
  qed
qed

end
