(* ===== verification/Kernel_Sync.thy ===== *)
theory Kernel_Sync
  imports Kernel_Thread
begin

text \<open>
  Waiting: \<^verbatim>\<open>wait_object.cpp\<close>, \<^verbatim>\<open>readable_event.cpp\<close>, \<^verbatim>\<open>writable_event.cpp\<close>, \<^verbatim>\<open>mutex.cpp\<close> and
  \<^verbatim>\<open>address_arbiter.cpp\<close> of \<^verbatim>\<open>core/hle/kernel\<close>, the callback of \<open>WaitSynchronization\<close> in
  \<^verbatim>\<open>svc.cpp\<close>, and the timer callback of \<^verbatim>\<open>kernel.cpp\<close>.
\<close>

section \<open>Wait objects\<close>

text \<open>\<open>ShouldWait\<close> and \<open>Acquire\<close> of threads and of readable events.\<close>

definition ShouldWait :: "'w Kernel \<Rightarrow> wait_object \<Rightarrow> bool option" where
  "ShouldWait k obj = (case obj of
     WThread t \<Rightarrow> do { th \<leftarrow> thread_at k t; Some (th_status th \<noteq> Dead) }
   | WEvent e \<Rightarrow> do { ev \<leftarrow> k_events k e; Some (\<not> ev_signaled ev) })"

definition Acquire :: "'w Kernel \<Rightarrow> wait_object \<Rightarrow> 'w Kernel option" where
  "Acquire k obj = do {
     w \<leftarrow> ShouldWait k obj;
     ASSERT (\<not> w);
     (case obj of
        WThread t \<Rightarrow> Some k
      | WEvent e \<Rightarrow> do {
          ev \<leftarrow> k_events k e;
          Some (if ev_reset_type ev = Automatic
                then k\<lparr>k_events := (k_events k)(e \<mapsto> ev\<lparr>ev_signaled := False\<rparr>)\<rparr> else k)
        })
   }"

definition AddWaitingThread :: "'w Kernel \<Rightarrow> wait_object \<Rightarrow> tid \<Rightarrow> 'w Kernel" where
  "AddWaitingThread k obj t =
     (if t \<in> set (k_waiting_threads k obj) then k
      else k\<lparr>k_waiting_threads := (k_waiting_threads k)(obj := k_waiting_threads k obj @ [t])\<rparr>)"

definition RemoveWaitingThread :: "'w Kernel \<Rightarrow> wait_object \<Rightarrow> tid \<Rightarrow> 'w Kernel" where
  "RemoveWaitingThread k obj t =
     k\<lparr>k_waiting_threads := (k_waiting_threads k)(obj := remove1 t (k_waiting_threads k obj))\<rparr>"

text \<open>\<open>std::none_of\<close> stops at the first object that is not available.\<close>

fun objects_ready :: "'w Kernel \<Rightarrow> wait_object list \<Rightarrow> bool option" where
  "objects_ready k [] = Some True"
| "objects_ready k (obj # objs) = do {
     w \<leftarrow> ShouldWait k obj;
     if w then Some False else objects_ready k objs
   }"

definition AllWaitObjectsReady :: "'w Kernel \<Rightarrow> tid \<Rightarrow> bool option" where
  "AllWaitObjectsReady k t = do { th \<leftarrow> thread_at k t; objects_ready k (th_wait_objects th) }"

fun highest_ready ::
    "'w Kernel \<Rightarrow> wait_object \<Rightarrow> tid list \<Rightarrow> tid option \<Rightarrow> nat \<Rightarrow> tid option option" where
  "highest_ready k obj [] candidate candidate_priority = Some candidate"
| "highest_ready k obj (t # ts) candidate candidate_priority = do {
     th \<leftarrow> thread_at k t;
     ASSERT (th_status th = WaitSynch \<or> th_status th = WaitHLEEvent);
     if th_current_priority th \<ge> candidate_priority then highest_ready k obj ts candidate candidate_priority
     else do {
       w \<leftarrow> ShouldWait k obj;
       if w then highest_ready k obj ts candidate candidate_priority
       else do {
         ready_to_run \<leftarrow> (if th_status th = WaitSynch then AllWaitObjectsReady k t else Some True);
         if ready_to_run then highest_ready k obj ts (Some t) (th_current_priority th)
         else highest_ready k obj ts candidate candidate_priority
       }
     }
   }"

definition GetHighestPriorityReadyThread :: "'w Kernel \<Rightarrow> wait_object \<Rightarrow> tid option option" where
  "GetHighestPriorityReadyThread k obj =
     highest_ready k obj (k_waiting_threads k obj) None (THREADPRIO_LOWEST + 1)"

fun acquire_all :: "'w Kernel \<Rightarrow> wait_object list \<Rightarrow> 'w Kernel option" where
  "acquire_all k [] = Some k"
| "acquire_all k (obj # objs) = do {
     w \<leftarrow> ShouldWait k obj;
     ASSERT (\<not> w);
     k \<leftarrow> Acquire k obj;
     acquire_all k objs
   }"

fun remove_from_all :: "'w Kernel \<Rightarrow> tid \<Rightarrow> wait_object list \<Rightarrow> 'w Kernel" where
  "remove_from_all k t [] = k"
| "remove_from_all k t (obj # objs) = remove_from_all (RemoveWaitingThread k obj t) t objs"

definition ClearWaitObjects :: "'w Kernel \<Rightarrow> tid \<Rightarrow> 'w Kernel option" where
  "ClearWaitObjects k t = upd_thread t (\<lambda>th. th\<lparr>th_wait_objects := []\<rparr>) k"

text \<open>
  What a wakeup callback other than that of \<open>WaitSynchronization\<close> does is a parameter: the reason,
  the thread, the object and its index, and whether to resume the thread.
\<close>

type_synonym 'w wakeup =
  "'w \<Rightarrow> ThreadWakeupReason \<Rightarrow> tid \<Rightarrow> wait_object option \<Rightarrow> int \<Rightarrow> 'w Kernel \<Rightarrow> ('w Kernel \<times> bool) option"

definition default_wakeup ::
    "ThreadWakeupReason \<Rightarrow> tid \<Rightarrow> int \<Rightarrow> 'w Kernel \<Rightarrow> ('w Kernel \<times> bool) option" where
  "default_wakeup reason t index k = do {
     th \<leftarrow> thread_at k t;
     ASSERT (th_status th = WaitSynch);
     if reason = Timeout then do {
       k \<leftarrow> SetWaitSynchronizationResult k t RESULT_TIMEOUT;
       Some (k, True)
     }
     else do {
       k \<leftarrow> SetWaitSynchronizationResult k t RESULT_SUCCESS;
       k \<leftarrow> SetWaitSynchronizationOutput k t (to_s32 index);
       Some (k, True)
     }
   }"

definition InvokeWakeupCallback ::
    "'w wakeup \<Rightarrow> 'w Kernel \<Rightarrow> ThreadWakeupReason \<Rightarrow> tid \<Rightarrow> wait_object option \<Rightarrow> int \<Rightarrow> ('w Kernel \<times> bool) option" where
  "InvokeWakeupCallback other k reason t obj index = do {
     th \<leftarrow> thread_at k t;
     callback \<leftarrow> th_wakeup_callback th;
     (case callback of
        DefaultThreadWakeupCallback \<Rightarrow> default_wakeup reason t index k
      | OtherWakeupCallback w \<Rightarrow> other w reason t obj index k)
   }"

text \<open>\<open>IsSleepingOnWait\<close> of \<^verbatim>\<open>thread.h\<close>.\<close>

definition IsSleepingOnWait :: "'w Thread \<Rightarrow> bool" where
  "IsSleepingOnWait th \<longleftrightarrow> th_status th = WaitSynch"

definition WakeupWaitingThread :: "'w wakeup \<Rightarrow> 'w Kernel \<Rightarrow> wait_object \<Rightarrow> tid \<Rightarrow> 'w Kernel option" where
  "WakeupWaitingThread other k this t = do {
     w \<leftarrow> ShouldWait k this;
     ASSERT (\<not> w);
     th \<leftarrow> thread_at k t;
     k \<leftarrow> (if IsSleepingOnWait th then acquire_all k (th_wait_objects th) else Acquire k this);
     index \<leftarrow> GetWaitObjectIndex k t this;
     let k = remove_from_all k t (th_wait_objects th);
     k \<leftarrow> ClearWaitObjects k t;
     k \<leftarrow> CancelWakeupTimer k t;
     th \<leftarrow> thread_at k t;
     (k, resume) \<leftarrow> (if th_wakeup_callback th \<noteq> None
       then InvokeWakeupCallback other k Signal t (Some this) index else Some (k, True));
     if resume then ResumeFromWait k t else Some k
   }"

partial_function (option) WakeupAllWaitingThreads ::
    "'w wakeup \<Rightarrow> wait_object \<Rightarrow> 'w Kernel \<Rightarrow> 'w Kernel option" where
  "WakeupAllWaitingThreads other this k = do {
     t \<leftarrow> GetHighestPriorityReadyThread k this;
     (case t of
        None \<Rightarrow> Some k
      | Some t \<Rightarrow> do {
          k \<leftarrow> WakeupWaitingThread other k this t;
          WakeupAllWaitingThreads other this k
        })
   }"

section \<open>Events\<close>

definition ReadableEvent_Signal :: "'w wakeup \<Rightarrow> 'w Kernel \<Rightarrow> nat \<Rightarrow> 'w Kernel option" where
  "ReadableEvent_Signal other k e = do {
     ev \<leftarrow> k_events k e;
     WakeupAllWaitingThreads other (WEvent e) (k\<lparr>k_events := (k_events k)(e \<mapsto> ev\<lparr>ev_signaled := True\<rparr>)\<rparr>)
   }"

definition ReadableEvent_Clear :: "'w Kernel \<Rightarrow> nat \<Rightarrow> 'w Kernel option" where
  "ReadableEvent_Clear k e = do {
     ev \<leftarrow> k_events k e;
     Some (k\<lparr>k_events := (k_events k)(e \<mapsto> ev\<lparr>ev_signaled := False\<rparr>)\<rparr>)
   }"

definition ReadableEvent_Reset :: "'w Kernel \<Rightarrow> nat \<Rightarrow> ('w Kernel \<times> ResultCode) option" where
  "ReadableEvent_Reset k e = do {
     ev \<leftarrow> k_events k e;
     if \<not> ev_signaled ev then Some (k, ERR_INVALID_STATE)
     else do {
       k \<leftarrow> ReadableEvent_Clear k e;
       Some (k, RESULT_SUCCESS)
     }
   }"

text \<open>\<open>e\<close> is the address of the new readable event; the writable event points to it.\<close>

definition CreateEventPair :: "'w Kernel \<Rightarrow> nat \<Rightarrow> ResetType \<Rightarrow> 'w Kernel" where
  "CreateEventPair k e reset_type =
     k\<lparr>k_events := (k_events k)(e \<mapsto> \<lparr>ev_reset_type = reset_type, ev_signaled = False\<rparr>),
       k_waiting_threads := (k_waiting_threads k)(WEvent e := [])\<rparr>"

definition WritableEvent_Signal :: "'w wakeup \<Rightarrow> 'w Kernel \<Rightarrow> nat \<Rightarrow> 'w Kernel option" where
  "WritableEvent_Signal other k readable = ReadableEvent_Signal other k readable"

definition WritableEvent_Clear :: "'w Kernel \<Rightarrow> nat \<Rightarrow> 'w Kernel option" where
  "WritableEvent_Clear k readable = ReadableEvent_Clear k readable"

definition IsSignaled :: "'w Kernel \<Rightarrow> nat \<Rightarrow> bool option" where
  "IsSignaled k readable = do { ev \<leftarrow> k_events k readable; Some (ev_signaled ev) }"

definition GetResetType :: "'w Kernel \<Rightarrow> nat \<Rightarrow> ResetType option" where
  "GetResetType k readable = do { ev \<leftarrow> k_events k readable; Some (ev_reset_type ev) }"

section \<open>Timeouts\<close>

definition RetrieveThreadFromWakeupCallbackHandleTable :: "'w Kernel \<Rightarrow> Handle \<Rightarrow> tid option" where
  "RetrieveThreadFromWakeupCallbackHandleTable k h =
     HandleTable_GetGeneric None None (k_thread_wakeup_callback_handle_table k) h"

text \<open>The parts of \<open>ThreadWakeupCallback\<close>: leave the wait objects, the mutex, the arbiter.\<close>

definition timeout_objects :: "'w wakeup \<Rightarrow> 'w Kernel \<Rightarrow> tid \<Rightarrow> ('w Kernel \<times> bool) option" where
  "timeout_objects other k t = do {
     th \<leftarrow> thread_at k t;
     if th_status th = WaitSynch \<or> th_status th = WaitHLEEvent then do {
       let k = remove_from_all k t (th_wait_objects th);
       k \<leftarrow> ClearWaitObjects k t;
       if th_wakeup_callback th \<noteq> None then InvokeWakeupCallback other k Timeout t None 0
       else Some (k, True)
     }
     else Some (k, True)
   }"

definition timeout_mutex :: "'w Kernel \<Rightarrow> tid \<Rightarrow> 'w Kernel option" where
  "timeout_mutex k t = do {
     th \<leftarrow> thread_at k t;
     if th_mutex_wait_address th \<noteq> 0 \<or> th_condvar_wait_address th \<noteq> 0 \<or> th_wait_handle th \<noteq> 0 then do {
       ASSERT (th_status th = WaitMutex \<or> th_status th = WaitCondVar);
       k \<leftarrow> upd_thread t (\<lambda>th. th\<lparr>th_mutex_wait_address := 0, th_condvar_wait_address := 0, th_wait_handle := 0\<rparr>) k;
       (case th_lock_owner th of
          None \<Rightarrow> Some k
        | Some owner \<Rightarrow> RemoveMutexWaiter k owner t)
     }
     else Some k
   }"

definition timeout_arbiter :: "'w Kernel \<Rightarrow> tid \<Rightarrow> 'w Kernel option" where
  "timeout_arbiter k t = do {
     th \<leftarrow> thread_at k t;
     if th_arb_wait_address th \<noteq> 0 then do {
       ASSERT (th_status th = WaitArb);
       upd_thread t (\<lambda>th. th\<lparr>th_arb_wait_address := 0\<rparr>) k
     }
     else Some k
   }"

definition ThreadWakeupCallback :: "'w wakeup \<Rightarrow> 'w Kernel \<Rightarrow> u64 \<Rightarrow> 'w Kernel option" where
  "ThreadWakeupCallback other k thread_handle =
     (case RetrieveThreadFromWakeupCallbackHandleTable k (ucast thread_handle) of
        None \<Rightarrow> Some k
      | Some t \<Rightarrow> do {
          (k, resume) \<leftarrow> timeout_objects other k t;
          k \<leftarrow> timeout_mutex k t;
          k \<leftarrow> timeout_arbiter k t;
          if resume then ResumeFromWait k t else Some k
        })"

section \<open>Mutexes\<close>

definition MutexHasWaitersFlag :: u32 where "MutexHasWaitersFlag = 0x40000000"

text \<open>The memory of the current process and the core whose thread is executing.\<close>

definition current_vm :: "'w Kernel \<Rightarrow> VMManager option" where
  "current_vm k = do { p \<leftarrow> k_current_process k; pr \<leftarrow> k_processes k p; Some (pr_vm_manager pr) }"

definition k_Read32 :: "gpu_cache \<Rightarrow> 'w Kernel \<Rightarrow> VAddr \<Rightarrow> ('w Kernel \<times> u32) option" where
  "k_Read32 gpu k a = do {
     vm \<leftarrow> current_vm k;
     (h, v) \<leftarrow> Read32 gpu vm (k_memory k) a;
     Some (k\<lparr>k_memory := h\<rparr>, v)
   }"

definition k_Write32 :: "gpu_cache \<Rightarrow> 'w Kernel \<Rightarrow> VAddr \<Rightarrow> u32 \<Rightarrow> 'w Kernel option" where
  "k_Write32 gpu k a v = do {
     vm \<leftarrow> current_vm k;
     h \<leftarrow> Write32 gpu vm (k_memory k) a v;
     Some (k\<lparr>k_memory := h\<rparr>)
   }"

definition current_thread_of :: "'w Kernel \<Rightarrow> tid option" where
  "current_thread_of k = do { s \<leftarrow> sched_at k (k_current_core k); GetCurrentThread s }"

text \<open>\<open>HandleTable::Get<Thread>\<close>: the handle tables of the model hold threads only.\<close>

definition get_thread :: "'w Kernel \<Rightarrow> Handle \<Rightarrow> tid option option" where
  "get_thread k h = do {
     p \<leftarrow> k_current_process k;
     pr \<leftarrow> k_processes k p;
     Some (HandleTable_GetGeneric (current_thread_of k) None (pr_handle_table pr) h)
   }"

fun highest_mutex_waiter ::
    "'w Kernel \<Rightarrow> VAddr \<Rightarrow> tid list \<Rightarrow> tid option \<Rightarrow> nat \<Rightarrow> (tid option \<times> nat) option" where
  "highest_mutex_waiter k a [] best n = Some (best, n)"
| "highest_mutex_waiter k a (t # ts) best n = do {
     th \<leftarrow> thread_at k t;
     if th_mutex_wait_address th \<noteq> a then highest_mutex_waiter k a ts best n
     else do {
       ASSERT (th_status th = WaitMutex);
       better \<leftarrow> (case best of
           None \<Rightarrow> Some True
         | Some b \<Rightarrow> do { bth \<leftarrow> thread_at k b; Some (th_current_priority th < th_current_priority bth) });
       highest_mutex_waiter k a ts (if better then Some t else best) (n + 1)
     }
   }"

definition GetHighestPriorityMutexWaitingThread ::
    "'w Kernel \<Rightarrow> tid \<Rightarrow> VAddr \<Rightarrow> (tid option \<times> nat) option" where
  "GetHighestPriorityMutexWaitingThread k current_thread mutex_addr = do {
     th \<leftarrow> thread_at k current_thread;
     highest_mutex_waiter k mutex_addr (th_wait_mutex_threads th) None 0
   }"

fun transfer_loop :: "VAddr \<Rightarrow> tid \<Rightarrow> tid \<Rightarrow> tid list \<Rightarrow> 'w Kernel \<Rightarrow> 'w Kernel option" where
  "transfer_loop a cur new_owner [] k = Some k"
| "transfer_loop a cur new_owner (t # ts) k = do {
     th \<leftarrow> thread_at k t;
     if th_mutex_wait_address th \<noteq> a then transfer_loop a cur new_owner ts k
     else do {
       ASSERT (th_lock_owner th = Some cur);
       k \<leftarrow> RemoveMutexWaiter k cur t;
       k \<leftarrow> (if new_owner \<noteq> t then AddMutexWaiter k new_owner t else Some k);
       transfer_loop a cur new_owner ts k
     }
   }"

definition TransferMutexOwnership :: "'w Kernel \<Rightarrow> VAddr \<Rightarrow> tid \<Rightarrow> tid \<Rightarrow> 'w Kernel option" where
  "TransferMutexOwnership k mutex_addr current_thread new_owner = do {
     th \<leftarrow> thread_at k current_thread;
     transfer_loop mutex_addr current_thread new_owner (th_wait_mutex_threads th) k
   }"

definition Mutex_TryAcquire ::
    "gpu_cache \<Rightarrow> 'w Kernel \<Rightarrow> VAddr \<Rightarrow> Handle \<Rightarrow> Handle \<Rightarrow> ('w Kernel \<times> ResultCode) option" where
  "Mutex_TryAcquire gpu k address holding_thread_handle requesting_thread_handle =
     (if address mod 4 \<noteq> 0 then Some (k, ERR_INVALID_ADDRESS)
      else do {
        let current_thread = current_thread_of k;
        holding_thread \<leftarrow> get_thread k holding_thread_handle;
        requesting_thread \<leftarrow> get_thread k requesting_thread_handle;
        ASSERT (requesting_thread = current_thread);
        (k, addr_value) \<leftarrow> k_Read32 gpu k address;
        if addr_value \<noteq> (holding_thread_handle OR MutexHasWaitersFlag) then Some (k, RESULT_SUCCESS)
        else
          (case holding_thread of
             None \<Rightarrow> Some (k, ERR_INVALID_HANDLE)
           | Some holder \<Rightarrow> do {
               cur \<leftarrow> current_thread;
               k \<leftarrow> upd_thread cur (\<lambda>th. th\<lparr>th_mutex_wait_address := address,
                 th_wait_handle := requesting_thread_handle\<rparr>) k;
               k \<leftarrow> SetStatus k cur WaitMutex;
               k \<leftarrow> upd_thread cur (\<lambda>th. th\<lparr>th_wakeup_callback := None\<rparr>) k;
               k \<leftarrow> AddMutexWaiter k holder cur;
               k \<leftarrow> PrepareReschedule k (k_current_core k);
               Some (k, RESULT_SUCCESS)
             })
      })"

definition Mutex_Release :: "gpu_cache \<Rightarrow> 'w Kernel \<Rightarrow> VAddr \<Rightarrow> ('w Kernel \<times> ResultCode) option" where
  "Mutex_Release gpu k address =
     (if address mod 4 \<noteq> 0 then Some (k, ERR_INVALID_ADDRESS)
      else do {
        current_thread \<leftarrow> current_thread_of k;
        (thread, num_waiters) \<leftarrow> GetHighestPriorityMutexWaitingThread k current_thread address;
        (case thread of
           None \<Rightarrow> do {
             k \<leftarrow> k_Write32 gpu k address 0;
             Some (k, RESULT_SUCCESS)
           }
         | Some thread \<Rightarrow> do {
             k \<leftarrow> TransferMutexOwnership k address current_thread thread;
             th \<leftarrow> thread_at k thread;
             let mutex_value = (if num_waiters \<ge> 2 then th_wait_handle th OR MutexHasWaitersFlag
                                else th_wait_handle th);
             k \<leftarrow> k_Write32 gpu k address mutex_value;
             th \<leftarrow> thread_at k thread;
             ASSERT (th_status th = WaitMutex);
             k \<leftarrow> ResumeFromWait k thread;
             k \<leftarrow> upd_thread thread (\<lambda>th. th\<lparr>th_lock_owner := None, th_condvar_wait_address := 0,
               th_mutex_wait_address := 0, th_wait_handle := 0\<rparr>) k;
             Some (k, RESULT_SUCCESS)
           })
      })"

end
