(* ===== verification/Kernel_Mutex.thy ===== *)
theory Kernel_Mutex
  imports Kernel_Resume Kernel_Sync Guest_Memory_Correct
begin

text \<open>
  Mutexes: releasing one hands it to the most urgent thread that waits for it, and trying to
  acquire one that is held makes the thread wait for its holder.
\<close>

section \<open>Words of guest memory\<close>

text \<open>The word at \<open>a\<close> is in memory that the current process has mapped.\<close>

definition word_mapped :: "gpu_cache \<Rightarrow> 'w Kernel \<Rightarrow> VAddr \<Rightarrow> bool" where
  "word_mapped gpu k a \<longleftrightarrow> gpu_idle gpu \<and> (\<exists>vm. current_vm k = Some vm \<and> vm_ok vm \<and>
     unat a < unat (address_space_end vm) \<and> translate vm (unat a) \<noteq> None)"

definition word_at :: "gpu_cache \<Rightarrow> 'w Kernel \<Rightarrow> VAddr \<Rightarrow> u32 \<Rightarrow> bool" where
  "word_at gpu k a v \<longleftrightarrow> k_Read32 gpu k a = Some (k, v)"

lemma k_Read32_at:
  assumes "word_mapped gpu k a"
  shows "\<exists>v. k_Read32 gpu k a = Some (k, v)"
proof -
  obtain vm p where vm: "current_vm k = Some vm" "vm_inv vm" "unat a < unat (address_space_end vm)"
    "translate vm (unat a) = Some p" "gpu_idle gpu"
    using assms by (auto simp: word_mapped_def vm_ok_def)
  then show ?thesis
    using Memory_Read_at [OF vm(2-5)] by (simp add: k_Read32_def Read32_def)
qed

lemma k_Write32_at:
  fixes k :: "'w Kernel"
  assumes "word_mapped gpu k a"
  shows "\<exists>h. k_Write32 gpu k a v = Some (k\<lparr>k_memory := h\<rparr>) \<and>
    (\<forall>k' :: 'w Kernel. k_memory k' = h \<and> current_vm k' = current_vm k \<longrightarrow> word_at gpu k' a v)"
proof -
  obtain vm p where vm: "current_vm k = Some vm" "vm_inv vm" "unat a < unat (address_space_end vm)"
    "translate vm (unat a) = Some p" "gpu_idle gpu"
    using assms by (auto simp: word_mapped_def vm_ok_def)
  have "host_read (host_write p (le_bytes 4 v) h) p 4 = le_bytes 4 v" for h
    using host_read_write [of "le_bytes 4 v"] by simp
  then show ?thesis
    using Memory_Write_at [OF vm(2-5)] Memory_Read_at [OF vm(2-5)] vm(1)
    by (auto simp: k_Write32_def Write32_def k_Read32_def Read32_def word_at_def le_value_bytes)
qed

section \<open>Handing the waiters over\<close>

definition waits_at :: "'w Kernel \<Rightarrow> VAddr \<Rightarrow> tid \<Rightarrow> bool" where
  "waits_at k a t \<longleftrightarrow> (case thread_at k t of None \<Rightarrow> False | Some th \<Rightarrow> th_mutex_wait_address th = a)"

lemma prio_frame_waits_at:
  assumes "prio_frame k k'"
  shows "waits_at k' = waits_at k"
proof (intro ext)
  show "waits_at k' a u = waits_at k a u" for a u
    using prio_frame_thread [OF assms, of u] by (cases "k_threads k u") (auto simp: waits_at_def)
qed

lemma lock_rel_root:
  assumes "(t, n) \<in> (lock_rel k)\<^sup>*" "lock_owner k n = None"
  shows "t = n"
  using assms by (auto simp: lock_rel_def elim: rtranclE)

text \<open>No circle comes about when a waiter of \<open>cur\<close> starts to wait for another one, or for none.\<close>

lemma hand_over_acyclic:
  assumes ac: "acyclic (lock_rel k)" and t: "lock_owner k t = Some cur" "t \<noteq> n"
    and n: "lock_owner k n = None \<or> lock_owner k n = Some cur" and k': "lock_owner k' = (lock_owner k)(t := None)"
  shows "(t, n) \<notin> (lock_rel k')\<^sup>*"
proof
  assume r: "(t, n) \<in> (lock_rel k')\<^sup>*"
  have sub: "lock_rel k' \<subseteq> lock_rel k" using k' by (auto simp: lock_rel_def split: if_splits)
  then have "(t, n) \<in> (lock_rel k)\<^sup>*" using r rtrancl_mono by blast
  then have "lock_owner k n = Some cur" "(t, cur) \<in> (lock_rel k)\<^sup>*"
    using t(2) n lock_rel_root [of t n k] by (auto simp: lock_rel_def elim: rtranclE)
  then have "(cur, cur) \<in> (lock_rel k)\<^sup>+" using t(1) by (auto simp: lock_rel_def intro: rtrancl_into_trancl2)
  then show False using ac by (simp add: acyclic_def)
qed

lemma transfer_loop_at:
  assumes "sched_inv k" "distinct ts" "\<forall>t\<in>set ts. lock_owner k t = Some cur"
    "thread_at k n \<noteq> None" "lock_owner k n = None \<or> lock_owner k n = Some cur"
  shows "\<exists>k'. transfer_loop a cur n ts k = Some k' \<and> sched_inv k' \<and> prio_frame k k' \<and>
    lock_owner k' = (\<lambda>u. if u \<in> set ts \<and> waits_at k a u then (if u = n then None else Some n) else lock_owner k u)"
  using assms
proof (induction ts arbitrary: k)
  case Nil
  then show ?case by simp
next
  case (Cons t ts)
  then obtain th where th: "thread_at k t = Some th" "th_lock_owner th = Some cur"
    by (auto simp: lock_owner_def split: option.splits)
  show ?case
  proof (cases "waits_at k a t")
    case False
    then have "transfer_loop a cur n (t # ts) k = transfer_loop a cur n ts k" using th by (simp add: waits_at_def)
    moreover have "(\<lambda>u. if u \<in> set ts \<and> waits_at k a u then (if u = n then None else Some n) else lock_owner k u) =
        (\<lambda>u. if u \<in> set (t # ts) \<and> waits_at k a u then (if u = n then None else Some n) else lock_owner k u)"
      using False by (intro ext) auto
    ultimately show ?thesis using Cons.IH [of k] Cons.prems by simp
  next
    case True
    obtain k1 where k1: "RemoveMutexWaiter k cur t = Some k1" "sched_inv k1" "lock_owner k1 = (lock_owner k)(t := None)" "prio_frame k k1"
      using RemoveMutexWaiter_at [OF Cons.prems(1), of t cur] Cons.prems(3) by auto
    obtain k2 where k2: "(if n \<noteq> t then AddMutexWaiter k1 n t else Some k1) = Some k2" "sched_inv k2" "prio_frame k1 k2"
      "lock_owner k2 = (lock_owner k)(t := if t = n then None else Some n)"
    proof (cases "t = n")
      case False
      have "(t, n) \<notin> (lock_rel k1)\<^sup>*"
        using Cons.prems hand_over_acyclic [OF _ _ False _ k1(3)] by (auto simp: sched_inv_def)
      then show ?thesis
        using AddMutexWaiter_at [OF k1(2), of t n] k1(3) False that Cons.prems(4) th(1) prio_frame_thread(2) [OF k1(4)] by auto
    qed (use k1 that in auto)
    have fr: "prio_frame k k2" using k1(4) k2(3) by (rule prio_frame_trans)
    have "\<forall>u\<in>set ts. lock_owner k2 u = Some cur" "thread_at k2 n \<noteq> None" "lock_owner k2 n = None \<or> lock_owner k2 n = Some cur"
      using Cons.prems k2(4) prio_frame_thread(2) [OF fr, of n] by auto
    then obtain k3 where k3: "transfer_loop a cur n ts k2 = Some k3" "sched_inv k3" "prio_frame k2 k3"
      "lock_owner k3 = (\<lambda>u. if u \<in> set ts \<and> waits_at k2 a u then (if u = n then None else Some n) else lock_owner k2 u)"
      using Cons.IH [of k2] k2(2) Cons.prems(2) by auto
    have "transfer_loop a cur n (t # ts) k = Some k3"
      using th True k1(1) k2(1) k3(1) by (simp add: waits_at_def)
    moreover have "lock_owner k3 = (\<lambda>u. if u \<in> set (t # ts) \<and> waits_at k a u then (if u = n then None else Some n) else lock_owner k u)"
      using Cons.prems(2) True by (intro ext) (simp add: k3(4) k2(4) prio_frame_waits_at [OF fr])
    ultimately show ?thesis using k3(2) prio_frame_trans [OF fr k3(3)] by blast
  qed
qed

section \<open>Releasing a mutex\<close>

definition mutex_waiters :: "'w Kernel \<Rightarrow> tid \<Rightarrow> VAddr \<Rightarrow> tid list" where
  "mutex_waiters k cur a = filter (waits_at k a) (waiters k cur)"

lemma highest_mutex_waiter_at:
  assumes "sorted (map (thread_prio k) ts)" "\<forall>t\<in>set ts. thread_at k t \<noteq> None"
    "\<forall>t\<in>set ts. waits_at k a t \<longrightarrow> status_of k t = Some WaitMutex"
    "\<And>b. best = Some b \<Longrightarrow> thread_at k b \<noteq> None \<and> (\<forall>t\<in>set ts. thread_prio k b \<le> thread_prio k t)"
  shows "highest_mutex_waiter k a ts best n = Some (case best of Some b \<Rightarrow> Some b
      | None \<Rightarrow> (case filter (waits_at k a) ts of [] \<Rightarrow> None | t # _ \<Rightarrow> Some t), n + length (filter (waits_at k a) ts))"
  using assms
proof (induction ts arbitrary: best n)
  case Nil
  then show ?case by (simp split: option.split)
next
  case (Cons t ts)
  obtain th where th: "thread_at k t = Some th" using Cons.prems(2) by auto
  show ?case
  proof (cases "waits_at k a t")
    case False
    then have "highest_mutex_waiter k a (t # ts) best n = highest_mutex_waiter k a ts best n" using th by (simp add: waits_at_def)
    moreover have "thread_at k b \<noteq> None \<and> (\<forall>t\<in>set ts. thread_prio k b \<le> thread_prio k t)" if "best = Some b" for b
      using Cons.prems(4) [OF that] by simp
    ultimately show ?thesis using False Cons.IH [of best n] Cons.prems(1-3) by (simp split: option.split)
  next
    case True
    define b where "b = (case best of None \<Rightarrow> t | Some b \<Rightarrow> b)"
    have "highest_mutex_waiter k a (t # ts) best n = highest_mutex_waiter k a ts (Some b) (n + 1)"
      using True th Cons.prems(3,4) by (auto simp: waits_at_def status_of_def b_def thread_prio_def split: option.splits)
    also have "\<dots> = Some (Some b, n + 1 + length (filter (waits_at k a) ts))"
    proof -
      have "thread_at k b \<noteq> None \<and> (\<forall>t\<in>set ts. thread_prio k b \<le> thread_prio k t)"
        using th Cons.prems(1,4) by (cases best) (auto simp: b_def)
      then show ?thesis using Cons.IH [of "Some b" "n + 1"] Cons.prems(1-3) by simp
    qed
    finally show ?thesis using True by (simp add: b_def split: option.split)
  qed
qed

text \<open>The invariant does not depend on the addresses a thread waits at.\<close>

lemma sched_inv_thread:
  assumes inv: "sched_inv k" and th: "thread_at k t = Some th" and same: "lock_view th' = lock_view th"
    "th_status th' = th_status th" "th_scheduler th' = th_scheduler th"
  shows "sched_inv (k\<lparr>k_threads := (k_threads k)(t \<mapsto> th')\<rparr>)"
proof (rule sched_inv_upd [OF inv])
  let ?k = "k\<lparr>k_threads := (k_threads k)(t \<mapsto> th')\<rparr>"
  show "map_option lock_view (k_threads ?k u) = map_option lock_view (k_threads k u)" for u using th same by simp
  show "th_scheduler ta < 4" if "thread_at ?k u = Some ta" for u ta
    using that th same(3) inv by (auto simp: sched_inv_def prios_ok_def split: if_splits)
  have "is_queued ?k c p u = is_queued k c p u" for c p u
    using th same by (auto simp: is_queued_def lock_view_def)
  then show "ready_ok ?k" using inv ready_ok_cong [of ?k k] by (simp add: sched_inv_def)
qed

lemma GetHighestPriorityMutexWaitingThread_at:
  assumes inv: "sched_inv k" and cur: "thread_at k cur \<noteq> None"
    and st: "\<forall>t\<in>set (mutex_waiters k cur a). status_of k t = Some WaitMutex"
  shows "GetHighestPriorityMutexWaitingThread k cur a =
    Some (case mutex_waiters k cur a of [] \<Rightarrow> None | t # _ \<Rightarrow> Some t, length (mutex_waiters k cur a))"
    and "sorted (map (thread_prio k) (mutex_waiters k cur a))"
proof -
  obtain th where th: "thread_at k cur = Some th" using cur by auto
  have ws: "th_wait_mutex_threads th = waiters k cur" using th by (simp add: waiters_def)
  have sorted: "sorted (map (thread_prio k) (waiters k cur))" using inv by (simp add: sched_inv_def waiters_sorted_def)
  then show "sorted (map (thread_prio k) (mutex_waiters k cur a))"
    unfolding mutex_waiters_def by (rule sorted_filter)
  have "\<forall>t\<in>set (waiters k cur). thread_at k t \<noteq> None"
    using inv waiter_exists [of k _ cur] by (auto simp: sched_inv_def)
  then show "GetHighestPriorityMutexWaitingThread k cur a =
    Some (case mutex_waiters k cur a of [] \<Rightarrow> None | t # _ \<Rightarrow> Some t, length (mutex_waiters k cur a))"
    using highest_mutex_waiter_at [OF sorted, of a None 0] st th ws
    by (simp add: GetHighestPriorityMutexWaitingThread_def mutex_waiters_def)
qed

text \<open>What the waiters of a mutex are like, and what becomes of the one that gets it.\<close>

definition mutex_waiter_ok :: "'w Thread \<Rightarrow> bool" where
  "mutex_waiter_ok th \<longleftrightarrow> th_status th = WaitMutex \<and> th_wait_objects th = [] \<and> placeable th"

definition wait_handle :: "'w Kernel \<Rightarrow> tid \<Rightarrow> Handle" where
  "wait_handle k t = (case thread_at k t of None \<Rightarrow> 0 | Some th \<Rightarrow> th_wait_handle th)"

definition has_mutex :: "'w Kernel \<Rightarrow> tid \<Rightarrow> bool" where
  "has_mutex k t \<longleftrightarrow> (case thread_at k t of None \<Rightarrow> False | Some th \<Rightarrow>
     th_status th = (if th_activity th = ActivityPaused then Paused else Ready) \<and>
     th_mutex_wait_address th = 0 \<and> th_wait_handle th = 0)"

definition handed_over :: "gpu_cache \<Rightarrow> 'w Kernel \<Rightarrow> VAddr \<Rightarrow> tid \<Rightarrow> tid list \<Rightarrow> 'w Kernel \<Rightarrow> bool" where
  "handed_over gpu k a t ws k' \<longleftrightarrow> has_mutex k' t \<and>
     word_at gpu k' a (if ws = [] then wait_handle k t else wait_handle k t OR MutexHasWaitersFlag) \<and>
     (\<forall>u. lock_owner k' u = (if u = t then None else if u \<in> set ws then Some t else lock_owner k u)) \<and>
     (\<forall>u. u \<noteq> t \<longrightarrow> status_of k' u = status_of k u)"

lemma prio_frame_world:
  assumes "prio_frame k k'"
  shows "current_vm k' = current_vm k" "k_memory k' = k_memory k" "status_of k' u = status_of k u" "wait_handle k' u = wait_handle k u"
proof -
  show "current_vm k' = current_vm k" "k_memory k' = k_memory k"
    using assms by (auto simp: prio_frame_def current_vm_def)
  show "status_of k' u = status_of k u" "wait_handle k' u = wait_handle k u"
    using prio_frame_thread [OF assms, of u] by (cases "thread_at k u"; auto simp: status_of_def wait_handle_def)+
qed

lemma hand_over_at:
  fixes k :: "'w Kernel"
  assumes inv: "sched_inv k" and t: "thread_at k t = Some th" "mutex_waiter_ok th" "lock_owner k t = None" and w: "word_mapped gpu k a"
  shows "\<exists>k'. do {
      k \<leftarrow> k_Write32 gpu k a v;
      th \<leftarrow> thread_at k t;
      ASSERT (th_status th = WaitMutex);
      k \<leftarrow> ResumeFromWait k t;
      upd_thread t (\<lambda>th. th\<lparr>th_lock_owner := None, th_condvar_wait_address := 0,
        th_mutex_wait_address := 0, th_wait_handle := 0\<rparr>) k } = Some k' \<and>
    sched_inv k' \<and> word_at gpu k' a v \<and> has_mutex k' t \<and> lock_owner k' = lock_owner k \<and> (\<forall>u. u \<noteq> t \<longrightarrow> status_of k' u = status_of k u)"
proof -
  obtain h where h: "k_Write32 gpu k a v = Some (k\<lparr>k_memory := h\<rparr>)"
    "\<And>k' :: 'w Kernel. k_memory k' = h \<Longrightarrow> current_vm k' = current_vm k \<Longrightarrow> word_at gpu k' a v"
    using k_Write32_at [OF w, of v] by blast
  define k1 where "k1 = k\<lparr>k_memory := h\<rparr>"
  have k1: "sched_inv k1" "thread_at k1 t = Some th" using inv t by (simp_all add: k1_def)
  obtain k2 where k2: "ResumeFromWait k1 t = Some k2" "resumed k1 t th k2"
    using ResumeFromWait_at [OF k1] t(2) by (auto simp: mutex_waiter_ok_def waits_def)
  define th3 where "th3 = (woken k1 th)\<lparr>th_lock_owner := None, th_condvar_wait_address := 0, th_mutex_wait_address := 0, th_wait_handle := 0\<rparr>"
  define k3 where "k3 = k2\<lparr>k_threads := (k_threads k2)(t \<mapsto> th3)\<rparr>"
  have th2: "k_threads k2 = (k_threads k)(t \<mapsto> woken k1 th)" and w2: "same_world k1 k2" "sched_inv k2"
    using k2(2) by (simp_all add: resumed_def k1_def)
  have lo: "th_lock_owner th = None" using t(1,3) by (simp add: lock_owner_def)
  have "sched_inv k3"
    unfolding k3_def using lo by (intro sched_inv_thread [OF w2(2), of t "woken k1 th"])
      (simp_all add: th2 th3_def lock_view_def woken_def)
  moreover have "word_at gpu k3 a v"
    using same_world_fields [OF w2(1)] by (intro h(2)) (simp_all add: k3_def k1_def current_vm_def)
  moreover have "has_mutex k3 t" by (simp add: has_mutex_def k3_def th3_def woken_def)
  moreover have "lock_owner k3 = lock_owner k" using lo t(1) by (auto simp: lock_owner_def k3_def th2 th3_def fun_eq_iff)
  moreover have "\<forall>u. u \<noteq> t \<longrightarrow> status_of k3 u = status_of k u" by (simp add: status_of_def k3_def th2)
  moreover have "th_status th = WaitMutex" using t(2) by (simp add: mutex_waiter_ok_def)
  ultimately show ?thesis
    using h(1) k1(2) k2(1) by (auto simp: k1_def [symmetric] upd_thread_def th2 k3_def th3_def)
qed

lemma mutex_waiters_Cons:
  assumes inv: "sched_inv k" and ws: "mutex_waiters k cur a = t # ws"
  shows "t \<in> set (waiters k cur)" "waits_at k a t"
    "u \<in> set ws \<longleftrightarrow> u \<in> set (waiters k cur) \<and> waits_at k a u \<and> u \<noteq> t"
proof -
  have "distinct (waiters k cur)" using inv by (simp add: sched_inv_def links_ok_def)
  then have "distinct (t # ws)" "set (t # ws) = {u \<in> set (waiters k cur). waits_at k a u}"
    by (simp_all flip: ws add: mutex_waiters_def)
  then show "t \<in> set (waiters k cur)" "waits_at k a t"
    "u \<in> set ws \<longleftrightarrow> u \<in> set (waiters k cur) \<and> waits_at k a u \<and> u \<noteq> t" by auto
qed

lemma Mutex_Release_waiters:
  assumes inv: "sched_inv k" and aligned: "a mod 4 = 0" and cur: "current_thread_of k = Some cur" "thread_at k cur = Some cth"
    and w: "word_mapped gpu k a" and ws: "mutex_waiters k cur a = t # ws"
    and hi: "GetHighestPriorityMutexWaitingThread k cur a = Some (Some t, length (t # ws))"
    and th: "thread_at k t = Some th" "mutex_waiter_ok th"
  shows "\<exists>k'. Mutex_Release gpu k a = Some (k', RESULT_SUCCESS) \<and> sched_inv k' \<and> handed_over gpu k a t ws k'"
proof -
  note t = mutex_waiters_Cons [OF inv ws]
  have wt: "th_wait_mutex_threads cth = waiters k cur" using cur(2) by (simp add: waiters_def)
  have lo: "\<forall>t\<in>set (waiters k cur). lock_owner k t = Some cur" and d: "distinct (waiters k cur)"
    using inv by (simp_all add: sched_inv_def links_ok_def)
  obtain k1 where k1: "transfer_loop a cur t (waiters k cur) k = Some k1" "sched_inv k1" "prio_frame k k1"
    "lock_owner k1 = (\<lambda>u. if u \<in> set (waiters k cur) \<and> waits_at k a u then (if u = t then None else Some t) else lock_owner k u)"
    using transfer_loop_at [OF inv d lo, of t a] th(1) lo t(1) by auto
  note fr = prio_frame_world [OF k1(3)]
  obtain th1 where th1: "thread_at k1 t = Some th1" "mutex_waiter_ok th1" "th_wait_handle th1 = wait_handle k t"
    using prio_frame_thread(1) [OF k1(3) th(1)] th by (auto simp: mutex_waiter_ok_def placeable_def wait_handle_def)
  have w1: "word_mapped gpu k1 a" using w fr(1) by (simp add: word_mapped_def)
  define v where "v = (if ws = [] then wait_handle k t else wait_handle k t OR MutexHasWaitersFlag)"
  have lo1: "lock_owner k1 t = None" using t(1,2) k1(4) by simp
  obtain k' where k': "do {
      k \<leftarrow> k_Write32 gpu k1 a v; th \<leftarrow> thread_at k t; ASSERT (th_status th = WaitMutex); k \<leftarrow> ResumeFromWait k t;
      upd_thread t (\<lambda>th. th\<lparr>th_lock_owner := None, th_condvar_wait_address := 0,
        th_mutex_wait_address := 0, th_wait_handle := 0\<rparr>) k } = Some k'"
    "sched_inv k'" "word_at gpu k' a v" "has_mutex k' t" "lock_owner k' = lock_owner k1" "\<forall>u. u \<noteq> t \<longrightarrow> status_of k' u = status_of k1 u"
    using hand_over_at [OF k1(2) th1(1,2) lo1 w1, of v] by blast
  have v: "v = (if 2 \<le> length (t # ws) then th_wait_handle th1 OR MutexHasWaitersFlag else th_wait_handle th1)"
    by (cases ws) (simp_all add: v_def th1(3))
  have "Mutex_Release gpu k a = Some k' \<bind> (\<lambda>k. Some (k, RESULT_SUCCESS))"
    using aligned cur hi k1(1) th1(1)
    by (simp add: Mutex_Release_def TransferMutexOwnership_def wt v Let_def bind_assoc flip: k'(1))
  moreover have "handed_over gpu k a t ws k'"
    unfolding handed_over_def using k'(3-6) k1(4) fr(3) t by (simp add: v_def)
  ultimately show ?thesis using k'(2) by simp
qed

text \<open>
  \<^bold>\<open>C23\<close>. Releasing a mutex trips no assertion and keeps the invariant, and with it exact priority
  inheritance. If no thread waits for the mutex, the word in memory becomes 0 and no thread is
  affected. Otherwise the thread that gets the mutex is one of the most urgent that wait for it:
  it is made ready, or paused if it has been paused meanwhile, waits for nothing any more, and its
  handle is stored in memory, with the flag for further waiters exactly if there are some. These
  now wait for the new holder; every other lock has the owner it had, and every other thread the
  status it had.
\<close>

theorem Mutex_Release_correct:
  assumes inv: "sched_inv k" and aligned: "a mod 4 = 0" and cur: "current_thread_of k = Some cur" "thread_at k cur \<noteq> None"
    and w: "word_mapped gpu k a"
    and waiting: "\<forall>t\<in>set (mutex_waiters k cur a). \<forall>th. thread_at k t = Some th \<longrightarrow> mutex_waiter_ok th"
  shows "\<exists>k'. Mutex_Release gpu k a = Some (k', RESULT_SUCCESS) \<and> sched_inv k' \<and>
    (case mutex_waiters k cur a of
       [] \<Rightarrow> word_at gpu k' a 0 \<and> k_threads k' = k_threads k
     | t # ws \<Rightarrow> handed_over gpu k a t ws k' \<and> (\<forall>u\<in>set ws. thread_prio k t \<le> thread_prio k u))"
proof -
  have ex: "\<exists>th. thread_at k t = Some th" if "t \<in> set (waiters k cur)" for t
    using inv waiter_exists [OF _ that] by (auto simp: sched_inv_def)
  have "\<forall>t\<in>set (mutex_waiters k cur a). status_of k t = Some WaitMutex"
    using waiting ex by (fastforce simp: status_of_def mutex_waiter_ok_def mutex_waiters_def)
  note hi = GetHighestPriorityMutexWaitingThread_at [OF inv cur(2) this]
  show ?thesis
  proof (cases "mutex_waiters k cur a")
    case Nil
    obtain h where h: "k_Write32 gpu k a 0 = Some (k\<lparr>k_memory := h\<rparr>)" "word_at gpu (k\<lparr>k_memory := h\<rparr>) a 0"
      using k_Write32_at [OF w, of 0] by (auto simp: current_vm_def)
    then show ?thesis using aligned cur(1) hi(1) Nil inv by (simp add: Mutex_Release_def)
  next
    case (Cons t ws)
    obtain th where th: "thread_at k t = Some th" "mutex_waiter_ok th"
      using ex [OF mutex_waiters_Cons(1) [OF inv Cons]] waiting Cons by auto
    obtain cth where cth: "thread_at k cur = Some cth" using cur(2) by auto
    have "GetHighestPriorityMutexWaitingThread k cur a = Some (Some t, length (t # ws))" using hi(1) Cons by simp
    from Mutex_Release_waiters [OF inv aligned cur(1) cth w Cons this th]
    show ?thesis using hi(2) Cons by auto
  qed
qed

section \<open>Waiting for a mutex\<close>

lemma holder_at_least_as_urgent:
  assumes inv: "sched_inv k" and own: "lock_owner k t = Some h"
  shows "thread_prio k h \<le> thread_prio k t"
proof -
  have t: "t \<in> set (waiters k h)" and s: "sorted (map (thread_prio k) (waiters k h))" and i: "inherits k h"
    using inv own by (auto simp: sched_inv_def links_ok_def waiters_sorted_def)
  then obtain w ws where w: "waiters k h = w # ws" by (cases "waiters k h") auto
  then have "thread_prio k h \<le> thread_prio k w" using i by (simp add: inherits_def)
  also have "\<dots> \<le> thread_prio k t" using t s w by auto
  finally show ?thesis .
qed

lemma stop_running_at:
  assumes inv: "sched_inv k" and th: "thread_at k t = Some th" "th_status th = Running"
    and th': "lock_view th' = lock_view th" "th_scheduler th' = th_scheduler th" "th_status th' \<noteq> Ready"
  shows "sched_inv (k\<lparr>k_threads := (k_threads k)(t \<mapsto> th')\<rparr>)"
proof (rule sched_inv_upd [OF inv])
  let ?k = "k\<lparr>k_threads := (k_threads k)(t \<mapsto> th')\<rparr>"
  show "map_option lock_view (k_threads ?k u) = map_option lock_view (k_threads k u)" for u using th th' by simp
  show "th_scheduler ta < 4" if "thread_at ?k u = Some ta" for u ta
    using that th th'(2) inv by (auto simp: sched_inv_def prios_ok_def split: if_splits)
  have "is_queued ?k c p u = is_queued k c p u" for c p u
    using th th' by (auto simp: is_queued_def)
  then show "ready_ok ?k" using inv ready_ok_cong [of ?k k] by (simp add: sched_inv_def)
qed

definition waits_for_mutex :: "'w Kernel \<Rightarrow> VAddr \<Rightarrow> tid \<Rightarrow> Handle \<Rightarrow> tid \<Rightarrow> 'w Kernel \<Rightarrow> bool" where
  "waits_for_mutex k a cur req h k' \<longleftrightarrow> status_of k' cur = Some WaitMutex \<and> waits_at k' a cur \<and> wait_handle k' cur = req \<and>
     lock_owner k' = (lock_owner k)(cur \<mapsto> h) \<and> thread_prio k' h \<le> thread_prio k' cur \<and>
     cpu_reschedule_pending (k_cpus k' (k_current_core k))"

lemma start_waiting_at:
  assumes inv: "sched_inv k" and cur: "thread_at k cur = Some th" "th_status th = Running" "lock_owner k cur = None"
    and h: "thread_at k h \<noteq> None" "(cur, h) \<notin> (lock_rel k)\<^sup>*" and now: "GetTicks (k_core_timing k) = Some now" and c: "k_current_core k < 4"
  shows "\<exists>k'. do {
      k \<leftarrow> upd_thread cur (\<lambda>th. th\<lparr>th_mutex_wait_address := a, th_wait_handle := req\<rparr>) k;
      k \<leftarrow> SetStatus k cur WaitMutex;
      k \<leftarrow> upd_thread cur (\<lambda>th. th\<lparr>th_wakeup_callback := None\<rparr>) k;
      k \<leftarrow> AddMutexWaiter k h cur;
      PrepareReschedule k (k_current_core k) } = Some k' \<and> sched_inv k' \<and> waits_for_mutex k a cur req h k'"
proof -
  define th1 where "th1 = th\<lparr>th_mutex_wait_address := a, th_wait_handle := req, th_last_running_ticks := now, th_status := WaitMutex,
    th_wakeup_callback := None\<rparr>"
  define k1 where "k1 = k\<lparr>k_threads := (k_threads k)(cur \<mapsto> th1)\<rparr>"
  have inv1: "sched_inv k1"
    unfolding k1_def by (rule stop_running_at [OF inv cur(1,2)]) (simp_all add: th1_def lock_view_def)
  have lo: "lock_owner k1 = lock_owner k" using cur(1) by (auto simp: lock_owner_def k1_def th1_def fun_eq_iff)
  then have lr: "lock_rel k1 = lock_rel k" by (simp add: lock_rel_def)
  have ex: "thread_at k1 cur \<noteq> None" "thread_at k1 h \<noteq> None" using h(1) by (simp_all add: k1_def)
  then obtain k2 where k2: "AddMutexWaiter k1 h cur = Some k2" "sched_inv k2" "lock_owner k2 = (lock_owner k)(cur \<mapsto> h)" "prio_frame k1 k2"
    using AddMutexWaiter_at [OF inv1, of cur h] cur(3) h(2) lo lr by auto
  have cc: "k_current_core k2 = k_current_core k" using k2(4) by (auto simp: prio_frame_def k1_def)
  obtain p ws l where th2: "thread_at k2 cur = Some (th1\<lparr>th_current_priority := p, th_wait_mutex_threads := ws, th_lock_owner := l\<rparr>)"
    using prio_frame_thread(1) [OF k2(4), of cur th1] by (auto simp: k1_def)
  define k3 where "k3 = k2\<lparr>k_cpus := (k_cpus k2)(k_current_core k := (k_cpus k2 (k_current_core k))\<lparr>cpu_reschedule_pending := True\<rparr>)\<rparr>"
  have "thread_prio k2 h \<le> thread_prio k2 cur" using holder_at_least_as_urgent [OF k2(2), of cur h] k2(3) by simp
  then have "waits_for_mutex k a cur req h k3"
    using th2 k2(3) by (auto simp: waits_for_mutex_def k3_def status_of_def waits_at_def wait_handle_def th1_def thread_prio_def lock_owner_def
        fun_eq_iff)
  moreover have "sched_inv k3" using k2(2) by (simp add: k3_def)
  ultimately show ?thesis
    using cur(1,2) now k2(1) c
    by (auto simp: upd_thread_def SetStatus_def PrepareReschedule_def NUM_CPU_CORES_def cc k3_def k1_def th1_def)
qed

text \<open>
  \<^bold>\<open>C24\<close>. Trying to acquire a mutex trips no assertion and keeps the invariant. An address that is
  not a multiple of 4 is refused; if the word in memory is not the handle of the presumed holder
  with the flag for waiters, the call returns success at once, since the mutex is not held as the
  caller thought; a handle that is not that of a thread is refused; in these three cases nothing
  changes. Otherwise the calling thread waits for the mutex, its core is asked to reschedule, and
  the holder has become at least as urgent as the caller.
\<close>

theorem Mutex_TryAcquire_correct:
  assumes inv: "sched_inv k" and cur: "current_thread_of k = Some cur" "thread_at k cur = Some th" "th_status th = Running" "lock_owner k cur = None"
    and env: "GetTicks (k_core_timing k) \<noteq> None" "k_current_core k < 4" "word_mapped gpu k a"
    and handles: "get_thread k req = Some (Some cur)" "get_thread k hold = Some holder"
    and holder: "\<forall>h. holder = Some h \<longrightarrow> thread_at k h \<noteq> None \<and> (cur, h) \<notin> (lock_rel k)\<^sup>*"
  shows "\<exists>k' rc. Mutex_TryAcquire gpu k a hold req = Some (k', rc) \<and> sched_inv k' \<and>
    (if a mod 4 \<noteq> 0 then rc = ERR_INVALID_ADDRESS \<and> k' = k
     else if \<not> word_at gpu k a (hold OR MutexHasWaitersFlag) then rc = RESULT_SUCCESS \<and> k' = k
     else case holder of None \<Rightarrow> rc = ERR_INVALID_HANDLE \<and> k' = k
       | Some h \<Rightarrow> rc = RESULT_SUCCESS \<and> waits_for_mutex k a cur req h k')"
proof -
  obtain v where v: "k_Read32 gpu k a = Some (k, v)" using k_Read32_at [OF env(3)] by blast
  have wa: "word_at gpu k a x \<longleftrightarrow> x = v" for x using v by (auto simp: word_at_def)
  show ?thesis
  proof (cases "a mod 4 = 0 \<and> v = (hold OR MutexHasWaitersFlag) \<and> holder \<noteq> None")
    case False
    then show ?thesis
      using inv cur handles v by (auto simp: Mutex_TryAcquire_def wa Let_def)
  next
    case True
    then obtain h where h: "holder = Some h" by auto
    obtain now where now: "GetTicks (k_core_timing k) = Some now" using env(1) by auto
    have hh: "thread_at k h \<noteq> None" "(cur, h) \<notin> (lock_rel k)\<^sup>*" using holder h by auto
    obtain k' where k': "do {
      k \<leftarrow> upd_thread cur (\<lambda>th. th\<lparr>th_mutex_wait_address := a, th_wait_handle := req\<rparr>) k;
      k \<leftarrow> SetStatus k cur WaitMutex;
      k \<leftarrow> upd_thread cur (\<lambda>th. th\<lparr>th_wakeup_callback := None\<rparr>) k;
      k \<leftarrow> AddMutexWaiter k h cur;
      PrepareReschedule k (k_current_core k) } = Some k'" "sched_inv k'" "waits_for_mutex k a cur req h k'"
      using start_waiting_at [OF inv cur(2-4) hh now env(2), where a = a and req = req] by blast
    have "Mutex_TryAcquire gpu k a hold req = Some k' \<bind> (\<lambda>k. Some (k, RESULT_SUCCESS))"
      using True h cur handles v by (simp add: Mutex_TryAcquire_def Let_def bind_assoc flip: k'(1))
    then show ?thesis using k'(2,3) True h by (simp add: wa)
  qed
qed

end
