(* ===== verification/Kernel_Arbiter.thy ===== *)
theory Kernel_Arbiter
  imports Kernel_Sync "HOL-Library.Multiset"
begin

text \<open>
  \<^verbatim>\<open>core/hle/kernel/address_arbiter.cpp\<close>. \<open>std::sort\<close> leaves the order of threads of equal
  priority open; the model takes the order in which they were found.
\<close>

text \<open>The two enumerations, whose values come from the guest and may be out of range.\<close>

definition WaitIfLessThan :: u32 where "WaitIfLessThan = 0"
definition DecrementAndWaitIfLessThan :: u32 where "DecrementAndWaitIfLessThan = 1"
definition WaitIfEqual :: u32 where "WaitIfEqual = 2"

definition SignalType_Signal :: u32 where "SignalType_Signal = 0"
definition IncrementAndSignalIfEqual :: u32 where "IncrementAndSignalIfEqual = 1"
definition ModifyByWaitingCountAndSignalIfEqual :: u32 where "ModifyByWaitingCountAndSignalIfEqual = 2"

fun wake_loop :: "tid list \<Rightarrow> 'w Kernel \<Rightarrow> 'w Kernel option" where
  "wake_loop [] k = Some k"
| "wake_loop (t # ts) k = do {
     th \<leftarrow> thread_at k t;
     ASSERT (th_status th = WaitArb);
     k \<leftarrow> SetWaitSynchronizationResult k t RESULT_SUCCESS;
     k \<leftarrow> upd_thread t (\<lambda>th. th\<lparr>th_arb_wait_address := 0\<rparr>) k;
     k \<leftarrow> ResumeFromWait k t;
     wake_loop ts k
   }"

definition WakeThreads :: "'w Kernel \<Rightarrow> tid list \<Rightarrow> int \<Rightarrow> 'w Kernel option" where
  "WakeThreads k waiting_threads num_to_wake =
     (let last = (if num_to_wake > 0 then min (length waiting_threads) (nat num_to_wake) else length waiting_threads)
      in wake_loop (take last waiting_threads) k)"

definition waits_on :: "'w Kernel \<Rightarrow> VAddr \<Rightarrow> tid \<Rightarrow> bool" where
  "waits_on k a t = (case thread_at k t of None \<Rightarrow> False | Some th \<Rightarrow> th_arb_wait_address th = a)"

text \<open>
  \<open>std::sort\<close> is not stable: which of several threads of one priority comes first is not
  specified. The sorting function is a parameter, and \<open>is_std_sort\<close> what is known of it.
\<close>

type_synonym sort_fun = "(tid \<Rightarrow> nat) \<Rightarrow> tid list \<Rightarrow> tid list"

definition is_std_sort :: "sort_fun \<Rightarrow> bool" where
  "is_std_sort std_sort \<longleftrightarrow> (\<forall>f xs. mset (std_sort f xs) = mset xs \<and> sorted (map f (std_sort f xs)))"

definition GetThreadsWaitingOnAddress :: "sort_fun \<Rightarrow> 'w Kernel \<Rightarrow> VAddr \<Rightarrow> tid list" where
  "GetThreadsWaitingOnAddress std_sort k address =
     std_sort (thread_prio k)
       (concat (map (\<lambda>c. filter (waits_on k address) (sc_thread_list (k_schedulers k c))) [0..<NUM_CPU_CORES]))"

definition SignalToAddressOnly :: "sort_fun \<Rightarrow> 'w Kernel \<Rightarrow> VAddr \<Rightarrow> int \<Rightarrow> ('w Kernel \<times> ResultCode) option" where
  "SignalToAddressOnly std_sort k address num_to_wake = do {
     k \<leftarrow> WakeThreads k (GetThreadsWaitingOnAddress std_sort k address) num_to_wake;
     Some (k, RESULT_SUCCESS)
   }"

definition k_IsValidVirtualAddress :: "'w Kernel \<Rightarrow> VAddr \<Rightarrow> bool option" where
  "k_IsValidVirtualAddress k address = do { vm \<leftarrow> current_vm k; IsValidVirtualAddress vm address }"

definition IncrementAndSignalToAddressIfEqual ::
    "sort_fun \<Rightarrow> gpu_cache \<Rightarrow> 'w Kernel \<Rightarrow> VAddr \<Rightarrow> int \<Rightarrow> int \<Rightarrow> ('w Kernel \<times> ResultCode) option" where
  "IncrementAndSignalToAddressIfEqual std_sort gpu k address v num_to_wake = do {
     valid \<leftarrow> k_IsValidVirtualAddress k address;
     if \<not> valid then Some (k, ERR_INVALID_ADDRESS_STATE)
     else do {
       (k, cur) \<leftarrow> k_Read32 gpu k address;
       if sint cur \<noteq> v then Some (k, ERR_INVALID_STATE)
       else do {
         v1 \<leftarrow> s32_range (v + 1);
         k \<leftarrow> k_Write32 gpu k address (word_of_int v1);
         SignalToAddressOnly std_sort k address num_to_wake
       }
     }
   }"

definition ModifyByWaitingCountAndSignalToAddressIfEqual ::
    "sort_fun \<Rightarrow> gpu_cache \<Rightarrow> 'w Kernel \<Rightarrow> VAddr \<Rightarrow> int \<Rightarrow> int \<Rightarrow> ('w Kernel \<times> ResultCode) option" where
  "ModifyByWaitingCountAndSignalToAddressIfEqual std_sort gpu k address v num_to_wake = do {
     valid \<leftarrow> k_IsValidVirtualAddress k address;
     if \<not> valid then Some (k, ERR_INVALID_ADDRESS_STATE)
     else do {
       let waiting_threads = GetThreadsWaitingOnAddress std_sort k address;
       updated_value \<leftarrow>
         (if waiting_threads = [] then s32_range (v + 1)
          else if num_to_wake \<le> 0 \<or> length waiting_threads \<le> nat num_to_wake then s32_range (v - 1)
          else Some v);
       (k, cur) \<leftarrow> k_Read32 gpu k address;
       if sint cur \<noteq> v then Some (k, ERR_INVALID_STATE)
       else do {
         k \<leftarrow> k_Write32 gpu k address (word_of_int updated_value);
         k \<leftarrow> WakeThreads k waiting_threads num_to_wake;
         Some (k, RESULT_SUCCESS)
       }
     }
   }"

definition SignalToAddress ::
    "sort_fun \<Rightarrow> gpu_cache \<Rightarrow> 'w Kernel \<Rightarrow> VAddr \<Rightarrow> u32 \<Rightarrow> int \<Rightarrow> int \<Rightarrow> ('w Kernel \<times> ResultCode) option" where
  "SignalToAddress std_sort gpu k address type v num_to_wake =
     (if type = SignalType_Signal then SignalToAddressOnly std_sort k address num_to_wake
      else if type = IncrementAndSignalIfEqual then IncrementAndSignalToAddressIfEqual std_sort gpu k address v num_to_wake
      else if type = ModifyByWaitingCountAndSignalIfEqual
      then ModifyByWaitingCountAndSignalToAddressIfEqual std_sort gpu k address v num_to_wake
      else Some (k, ERR_INVALID_ENUM_VALUE))"

definition WaitForAddressImpl :: "'w Kernel \<Rightarrow> VAddr \<Rightarrow> int \<Rightarrow> ('w Kernel \<times> ResultCode) option" where
  "WaitForAddressImpl k address timeout = do {
     t \<leftarrow> current_thread_of k;
     k \<leftarrow> upd_thread t (\<lambda>th. th\<lparr>th_arb_wait_address := address\<rparr>) k;
     k \<leftarrow> SetStatus k t WaitArb;
     k \<leftarrow> upd_thread t (\<lambda>th. th\<lparr>th_wakeup_callback := None\<rparr>) k;
     k \<leftarrow> WakeAfterDelay k t timeout;
     th \<leftarrow> thread_at k t;
     ASSERT (0 \<le> th_processor_id th);
     k \<leftarrow> PrepareReschedule k (nat (th_processor_id th));
     Some (k, RESULT_TIMEOUT)
   }"

definition WaitForAddressIfLessThan ::
    "gpu_cache \<Rightarrow> 'w Kernel \<Rightarrow> VAddr \<Rightarrow> int \<Rightarrow> int \<Rightarrow> bool \<Rightarrow> ('w Kernel \<times> ResultCode) option" where
  "WaitForAddressIfLessThan gpu k address v timeout should_decrement = do {
     valid \<leftarrow> k_IsValidVirtualAddress k address;
     if \<not> valid then Some (k, ERR_INVALID_ADDRESS_STATE)
     else do {
       (k, cur) \<leftarrow> k_Read32 gpu k address;
       let cur_value = sint cur;
       if cur_value \<ge> v then Some (k, ERR_INVALID_STATE)
       else do {
         k \<leftarrow> (if should_decrement then do {
             d \<leftarrow> s32_range (cur_value - 1);
             k_Write32 gpu k address (word_of_int d)
           } else Some k);
         if timeout = 0 then Some (k, RESULT_TIMEOUT) else WaitForAddressImpl k address timeout
       }
     }
   }"

definition WaitForAddressIfEqual ::
    "gpu_cache \<Rightarrow> 'w Kernel \<Rightarrow> VAddr \<Rightarrow> int \<Rightarrow> int \<Rightarrow> ('w Kernel \<times> ResultCode) option" where
  "WaitForAddressIfEqual gpu k address v timeout = do {
     valid \<leftarrow> k_IsValidVirtualAddress k address;
     if \<not> valid then Some (k, ERR_INVALID_ADDRESS_STATE)
     else do {
       (k, cur) \<leftarrow> k_Read32 gpu k address;
       if sint cur \<noteq> v then Some (k, ERR_INVALID_STATE)
       else if timeout = 0 then Some (k, RESULT_TIMEOUT)
       else WaitForAddressImpl k address timeout
     }
   }"

definition WaitForAddress ::
    "gpu_cache \<Rightarrow> 'w Kernel \<Rightarrow> VAddr \<Rightarrow> u32 \<Rightarrow> int \<Rightarrow> int \<Rightarrow> ('w Kernel \<times> ResultCode) option" where
  "WaitForAddress gpu k address type v timeout_ns =
     (if type = WaitIfLessThan then WaitForAddressIfLessThan gpu k address v timeout_ns False
      else if type = DecrementAndWaitIfLessThan then WaitForAddressIfLessThan gpu k address v timeout_ns True
      else if type = WaitIfEqual then WaitForAddressIfEqual gpu k address v timeout_ns
      else Some (k, ERR_INVALID_ENUM_VALUE))"

end
