(* ===== verification/Arbiter_Correct.thy ===== *)
theory Arbiter_Correct
  imports Kernel_Mutex Kernel_Arbiter
begin

text \<open>
  The address arbiter: signalling an address wakes the right number of the most urgent threads that
  wait on it, and the arbitration on the word in memory is exact.
\<close>

section \<open>Waking a list of threads\<close>

definition arb_waiter_ok :: "'w Thread \<Rightarrow> bool" where
  "arb_waiter_ok th \<longleftrightarrow> th_status th = WaitArb \<and> th_wait_objects th = [] \<and> placeable th"

text \<open>A thread that has been woken: its call returned success, and it waits on no address.\<close>

definition arb_woken :: "'w Kernel \<Rightarrow> tid \<Rightarrow> bool" where
  "arb_woken k t \<longleftrightarrow> (case thread_at k t of None \<Rightarrow> False | Some th \<Rightarrow>
     th_status th = (if th_activity th = ActivityPaused then Paused else Ready) \<and> th_arb_wait_address th = 0 \<and>
     ctx_cpu_registers (th_context th) 0 = ucast RESULT_SUCCESS)"

lemma wake_one_at:
  assumes inv: "sched_inv k" and th: "thread_at k t = Some th" "arb_waiter_ok th"
  shows "\<exists>k'. (\<forall>ts. wake_loop (t # ts) k = wake_loop ts k') \<and> sched_inv k' \<and> same_world k k' \<and> arb_woken k' t \<and>
    (\<forall>u. u \<noteq> t \<longrightarrow> thread_at k' u = thread_at k u)"
proof -
  define th1 where "th1 = th\<lparr>th_context := (th_context th)\<lparr>ctx_cpu_registers :=
    (ctx_cpu_registers (th_context th))(0 := ucast RESULT_SUCCESS)\<rparr>, th_arb_wait_address := 0\<rparr>"
  define k1 where "k1 = k\<lparr>k_threads := (k_threads k)(t \<mapsto> th1)\<rparr>"
  have k1: "sched_inv k1" "thread_at k1 t = Some th1"
    unfolding k1_def using sched_inv_thread [OF inv th(1), of th1] by (simp_all add: th1_def lock_view_def)
  obtain k2 where k2: "ResumeFromWait k1 t = Some k2" "resumed k1 t th1 k2"
    using ResumeFromWait_at [OF k1] th(2) by (auto simp: arb_waiter_ok_def waits_def th1_def placeable_def)
  have "\<forall>ts. wake_loop (t # ts) k = wake_loop ts k2"
    using th k2(1) by (simp add: SetWaitSynchronizationResult_def upd_thread_def arb_waiter_ok_def k1_def th1_def)
  moreover have "same_world k k2" using k2(2) by (auto simp: resumed_def same_world_def k1_def)
  moreover have "arb_woken k2 t" using k2(2) by (simp add: resumed_def arb_woken_def woken_def th1_def)
  moreover have "sched_inv k2" "\<forall>u. u \<noteq> t \<longrightarrow> thread_at k2 u = thread_at k u"
    using k2(2) by (simp_all add: resumed_def k1_def)
  ultimately show ?thesis by blast
qed

lemma wake_loop_at:
  assumes "sched_inv k" "distinct ts" "\<forall>t\<in>set ts. \<exists>th. thread_at k t = Some th \<and> arb_waiter_ok th"
  shows "\<exists>k'. wake_loop ts k = Some k' \<and> sched_inv k' \<and> same_world k k' \<and> (\<forall>u\<in>set ts. arb_woken k' u) \<and>
    (\<forall>u. u \<notin> set ts \<longrightarrow> thread_at k' u = thread_at k u)"
  using assms
proof (induction ts arbitrary: k)
  case Nil
  then show ?case by simp
next
  case (Cons t ts)
  obtain th where th: "thread_at k t = Some th" "arb_waiter_ok th" using Cons.prems(3) by auto
  obtain k1 where k1: "wake_loop (t # ts) k = wake_loop ts k1" "sched_inv k1" "same_world k k1" "arb_woken k1 t"
    "\<And>u. u \<noteq> t \<Longrightarrow> thread_at k1 u = thread_at k u"
    using wake_one_at [OF Cons.prems(1) th] by blast
  have "\<forall>u\<in>set ts. \<exists>th. thread_at k1 u = Some th \<and> arb_waiter_ok th"
    using Cons.prems(2,3) k1(5) by (metis distinct.simps(2) list.set_intros(2))
  then obtain k2 where k2: "wake_loop ts k1 = Some k2" "sched_inv k2" "same_world k1 k2" "\<forall>u\<in>set ts. arb_woken k2 u"
    "\<And>u. u \<notin> set ts \<Longrightarrow> thread_at k2 u = thread_at k1 u"
    using Cons.IH [OF k1(2)] Cons.prems(2) by auto
  have "wake_loop (t # ts) k = Some k2" using k1(1) k2(1) by simp
  moreover have "arb_woken k2 t" using k1(4) k2(5) [of t] Cons.prems(2) by (simp add: arb_woken_def)
  ultimately show ?case
    using k2 k1(5) same_world_trans [OF k1(3) k2(3)] by auto
qed

section \<open>Signalling an address\<close>

abbreviation all_threads :: "'w Kernel \<Rightarrow> tid list" where
  "all_threads k \<equiv> concat (map (\<lambda>c. sc_thread_list (k_schedulers k c)) [0..<4])"

definition arb_waiters :: "'w Kernel \<Rightarrow> VAddr \<Rightarrow> tid set" where
  "arb_waiters k a = {t \<in> set (all_threads k). waits_on k a t}"

text \<open>The threads \<open>W\<close> that a signal wakes: \<open>n\<close> of the most urgent ones, or all if \<open>n\<close> is not positive.\<close>

definition wakes :: "'w Kernel \<Rightarrow> VAddr \<Rightarrow> int \<Rightarrow> 'w Kernel \<Rightarrow> bool" where
  "wakes k a n k' \<longleftrightarrow> (\<exists>W. W \<subseteq> arb_waiters k a \<and>
     card W = (if 0 < n then min (nat n) (card (arb_waiters k a)) else card (arb_waiters k a)) \<and>
     (\<forall>w\<in>W. \<forall>u\<in>arb_waiters k a - W. thread_prio k w \<le> thread_prio k u) \<and>
     (\<forall>w\<in>W. arb_woken k' w) \<and> (\<forall>u. u \<notin> W \<longrightarrow> thread_at k' u = thread_at k u))"

lemma waiting_list:
  assumes "is_std_sort std_sort" "distinct (all_threads k)"
  shows "set (GetThreadsWaitingOnAddress std_sort k a) = arb_waiters k a" "distinct (GetThreadsWaitingOnAddress std_sort k a)"
    "sorted (map (thread_prio k) (GetThreadsWaitingOnAddress std_sort k a))"
    "length (GetThreadsWaitingOnAddress std_sort k a) = card (arb_waiters k a)"
proof -
  let ?L = "concat (map (\<lambda>c. filter (waits_on k a) (sc_thread_list (k_schedulers k c))) [0..<NUM_CPU_CORES])"
  let ?S = "GetThreadsWaitingOnAddress std_sort k a"
  have L: "?L = filter (waits_on k a) (all_threads k)" by (simp add: filter_concat NUM_CPU_CORES_def comp_def)
  have m: "mset ?S = mset ?L" using assms(1) by (simp add: is_std_sort_def GetThreadsWaitingOnAddress_def)
  show s: "set ?S = arb_waiters k a" using mset_eq_setD [OF m] by (auto simp: L arb_waiters_def)
  show d: "distinct ?S" using mset_eq_imp_distinct_iff [OF m] assms(2) unfolding L by simp
  show "sorted (map (thread_prio k) ?S)" using assms(1) by (simp add: is_std_sort_def GetThreadsWaitingOnAddress_def)
  show "length ?S = card (arb_waiters k a)" using distinct_card [OF d] s by simp
qed

lemma WakeThreads_at:
  assumes inv: "sched_inv k" and srt: "is_std_sort std_sort" and d: "distinct (all_threads k)"
    and ok: "\<forall>t\<in>arb_waiters k a. \<forall>th. thread_at k t = Some th \<longrightarrow> arb_waiter_ok th"
  shows "\<exists>k'. WakeThreads k (GetThreadsWaitingOnAddress std_sort k a) n = Some k' \<and> sched_inv k' \<and> same_world k k' \<and> wakes k a n k'"
proof -
  note L = waiting_list [OF srt d, of a]
  define ts where "ts = GetThreadsWaitingOnAddress std_sort k a"
  define m where "m = (if n > 0 then min (length ts) (nat n) else length ts)"
  have ex: "\<exists>th. thread_at k t = Some th \<and> arb_waiter_ok th" if "t \<in> set (take m ts)" for t
  proof -
    have "t \<in> arb_waiters k a" using that L(1) in_set_takeD unfolding ts_def by fast
    then show ?thesis using ok by (auto simp: arb_waiters_def waits_on_def split: option.splits)
  qed
  obtain k' where k': "wake_loop (take m ts) k = Some k'" "sched_inv k'" "same_world k k'" "\<forall>u\<in>set (take m ts). arb_woken k' u"
    "\<forall>u. u \<notin> set (take m ts) \<longrightarrow> thread_at k' u = thread_at k u"
    using wake_loop_at [OF inv, of "take m ts"] L(2) ex unfolding ts_def by (auto simp: distinct_take)
  have dr: "set (drop m ts) = arb_waiters k a - set (take m ts)"
  proof -
    have "set (take m ts) \<union> set (drop m ts) = arb_waiters k a" "set (take m ts) \<inter> set (drop m ts) = {}"
      using L(1,2) by (simp_all flip: set_append ts_def) (metis append_take_drop_id distinct_append ts_def)
    then show ?thesis by blast
  qed
  have "thread_prio k w \<le> thread_prio k u" if "w \<in> set (take m ts)" "u \<in> set (drop m ts)" for w u
  proof -
    have "sorted (map (thread_prio k) (take m ts @ drop m ts))" using L(3) by (simp add: ts_def)
    then show ?thesis using that unfolding map_append sorted_append by auto
  qed
  then have "\<forall>w\<in>set (take m ts). \<forall>u\<in>arb_waiters k a - set (take m ts). thread_prio k w \<le> thread_prio k u"
    using dr by blast
  moreover have "card (set (take m ts)) = (if 0 < n then min (nat n) (card (arb_waiters k a)) else card (arb_waiters k a))"
    using L(2,4) by (simp add: distinct_card ts_def m_def min.commute)
  moreover have "set (take m ts) \<subseteq> arb_waiters k a" using L(1) set_take_subset [of m ts] by (simp add: ts_def)
  ultimately have "wakes k a n k'"
    unfolding wakes_def using k'(4,5) by (intro exI [of _ "set (take m ts)"]) blast
  moreover have "WakeThreads k ts n = wake_loop (take m ts) k" by (simp add: WakeThreads_def m_def Let_def)
  ultimately show ?thesis using k'(1-3) unfolding ts_def by auto
qed

section \<open>Arbitration\<close>

lemma sint_eq_iff: "- (2 ^ 31) \<le> v \<Longrightarrow> v < 2 ^ 31 \<Longrightarrow> sint (x :: u32) = v \<longleftrightarrow> x = word_of_int v"
  by (auto simp: sint_sbintrunc' signed_take_bit_int_eq_self)

lemma word_mapped_valid:
  assumes "word_mapped gpu k a"
  shows "k_IsValidVirtualAddress k a = Some True"
proof -
  obtain vm p where vm: "current_vm k = Some vm" "vm_inv vm" "unat a < unat (address_space_end vm)" "translate vm (unat a) = Some p"
    using assms by (auto simp: word_mapped_def vm_ok_def)
  then show ?thesis using page_lookup [OF vm(2,3)] by (auto simp: k_IsValidVirtualAddress_def IsValidVirtualAddress_def)
qed

definition updated_value :: "u32 \<Rightarrow> int \<Rightarrow> int \<Rightarrow> nat \<Rightarrow> int" where
  "updated_value type v n waiting =
     (if type = IncrementAndSignalIfEqual \<or> waiting = 0 then v + 1
      else if n \<le> 0 \<or> waiting \<le> nat n then v - 1 else v)"

text \<open>The word and the threads do not disturb each other.\<close>

lemma arb_memory [simp]:
  "arb_waiters (k\<lparr>k_memory := h\<rparr>) a = arb_waiters k a" "all_threads (k\<lparr>k_memory := h\<rparr>) = all_threads k"
  "GetThreadsWaitingOnAddress srt (k\<lparr>k_memory := h\<rparr>) a = GetThreadsWaitingOnAddress srt k a"
  "wakes (k\<lparr>k_memory := h\<rparr>) a n k' = wakes k a n k'"
proof -
  have w: "waits_on (k\<lparr>k_memory := h\<rparr>) a = waits_on k a" "thread_prio (k\<lparr>k_memory := h\<rparr>) = thread_prio k"
    by (simp_all add: waits_on_def thread_prio_def fun_eq_iff)
  show "all_threads (k\<lparr>k_memory := h\<rparr>) = all_threads k" by simp
  show aw: "arb_waiters (k\<lparr>k_memory := h\<rparr>) a = arb_waiters k a" by (simp add: arb_waiters_def w)
  show "GetThreadsWaitingOnAddress srt (k\<lparr>k_memory := h\<rparr>) a = GetThreadsWaitingOnAddress srt k a"
    by (simp add: GetThreadsWaitingOnAddress_def w)
  show "wakes (k\<lparr>k_memory := h\<rparr>) a n k' = wakes k a n k'" by (simp add: wakes_def aw w)
qed

lemma store_and_wake_at:
  fixes k :: "'w Kernel"
  assumes inv: "sched_inv k" and srt: "is_std_sort std_sort" and d: "distinct (all_threads k)"
    and ok: "\<forall>t\<in>arb_waiters k a. \<forall>th. thread_at k t = Some th \<longrightarrow> arb_waiter_ok th" and w: "word_mapped gpu k a"
  shows "\<exists>k'. k_Write32 gpu k a x \<bind> (\<lambda>k1. WakeThreads k1 (GetThreadsWaitingOnAddress std_sort k1 a) n) = Some k' \<and>
    k_Write32 gpu k a x \<bind> (\<lambda>k1. WakeThreads k1 (GetThreadsWaitingOnAddress std_sort k a) n) = Some k' \<and>
    sched_inv k' \<and> wakes k a n k' \<and> word_at gpu k' a x"
proof -
  obtain h where h: "k_Write32 gpu k a x = Some (k\<lparr>k_memory := h\<rparr>)"
    "\<And>k' :: 'w Kernel. k_memory k' = h \<Longrightarrow> current_vm k' = current_vm k \<Longrightarrow> word_at gpu k' a x"
    using k_Write32_at [OF w, of x] by blast
  have "sched_inv (k\<lparr>k_memory := h\<rparr>)" "distinct (all_threads (k\<lparr>k_memory := h\<rparr>))"
    "\<forall>t\<in>arb_waiters (k\<lparr>k_memory := h\<rparr>) a. \<forall>th. thread_at (k\<lparr>k_memory := h\<rparr>) t = Some th \<longrightarrow> arb_waiter_ok th"
    using inv d ok by simp_all
  from WakeThreads_at [OF this(1) srt this(2,3), of n]
  obtain k' where k': "WakeThreads (k\<lparr>k_memory := h\<rparr>) (GetThreadsWaitingOnAddress std_sort k a) n = Some k'"
    "sched_inv k'" "same_world (k\<lparr>k_memory := h\<rparr>) k'" "wakes k a n k'" by auto
  then have "word_at gpu k' a x"
    using same_world_fields [OF k'(3)] by (intro h(2)) (simp_all add: current_vm_def)
  then show ?thesis using h(1) k' by simp
qed

text \<open>
  \<^bold>\<open>C25\<close>. \<open>SignalToAddress\<close> returns, trips no assertion and keeps the invariant. A type other than the
  three known ones is refused without an effect. A type that arbitrates fails without an effect
  unless the word at the address is the expected value; then it stores the new value: one more, or
  for \<open>ModifyByWaitingCount\<close> one more if no thread waits, one less if all are woken, and else the
  same. A signal that goes through wakes exactly \<open>num_to_wake\<close> of the threads that wait on the
  address, or all if there are not that many or the number is not positive, and none of those left
  is more urgent than one that was woken, in whichever order \<open>std::sort\<close> puts equal priorities. No
  other thread is affected.
\<close>

theorem SignalToAddress_correct:
  assumes inv: "sched_inv k" and srt: "is_std_sort std_sort" and d: "distinct (all_threads k)"
    and ok: "\<forall>t\<in>arb_waiters k a. \<forall>th. thread_at k t = Some th \<longrightarrow> arb_waiter_ok th"
    and w: "word_mapped gpu k a" and v: "- (2 ^ 31) < v" "v < 2 ^ 31 - 1"
  shows "\<exists>k' rc. SignalToAddress std_sort gpu k a type v n = Some (k', rc) \<and> sched_inv k' \<and>
    (if type \<notin> {SignalType_Signal, IncrementAndSignalIfEqual, ModifyByWaitingCountAndSignalIfEqual}
     then rc = ERR_INVALID_ENUM_VALUE \<and> k' = k
     else if type \<noteq> SignalType_Signal \<and> \<not> word_at gpu k a (word_of_int v) then rc = ERR_INVALID_STATE \<and> k' = k
     else rc = RESULT_SUCCESS \<and> wakes k a n k' \<and>
       (if type = SignalType_Signal then k_memory k' = k_memory k
        else word_at gpu k' a (word_of_int (updated_value type v n (card (arb_waiters k a))))))"
proof -
  obtain x where x: "k_Read32 gpu k a = Some (k, x)" using k_Read32_at [OF w] by blast
  have eq: "word_at gpu k a (word_of_int v) \<longleftrightarrow> sint x = v"
    using sint_eq_iff [of v x] v x by (auto simp: word_at_def)
  note val = word_mapped_valid [OF w]
  define A where "A = card (arb_waiters k a)"
  have len: "length (GetThreadsWaitingOnAddress std_sort k a) = A" using waiting_list(4) [OF srt d] by (simp add: A_def)
  note kinds = SignalType_Signal_def IncrementAndSignalIfEqual_def ModifyByWaitingCountAndSignalIfEqual_def
  consider "type = SignalType_Signal" | "type = IncrementAndSignalIfEqual" | "type = ModifyByWaitingCountAndSignalIfEqual"
    | "type \<notin> {SignalType_Signal, IncrementAndSignalIfEqual, ModifyByWaitingCountAndSignalIfEqual}" by blast
  then show ?thesis
  proof cases
    case 1
    obtain k' where k': "WakeThreads k (GetThreadsWaitingOnAddress std_sort k a) n = Some k'" "sched_inv k'" "same_world k k'" "wakes k a n k'"
      using WakeThreads_at [OF inv srt d ok] by blast
    then show ?thesis
      using 1 same_world_fields(1) [OF k'(3)] by (simp add: SignalToAddress_def SignalToAddressOnly_def)
  next
    case 2
    obtain k' where k': "k_Write32 gpu k a (word_of_int (v + 1)) \<bind> (\<lambda>k1. WakeThreads k1 (GetThreadsWaitingOnAddress std_sort k1 a) n) = Some k'"
      "sched_inv k'" "wakes k a n k'" "word_at gpu k' a (word_of_int (v + 1))"
      using store_and_wake_at [OF inv srt d ok w] by blast
    have "SignalToAddress std_sort gpu k a type v n =
        (if sint x = v then Some k' \<bind> (\<lambda>k. Some (k, RESULT_SUCCESS)) else Some (k, ERR_INVALID_STATE))"
      using 2 v x val by (simp add: SignalToAddress_def IncrementAndSignalToAddressIfEqual_def SignalToAddressOnly_def kinds s32_range_def
          bind_assoc flip: k'(1))
    then show ?thesis using 2 k' inv by (simp add: eq kinds updated_value_def)
  next
    case 3
    define y where "y = updated_value type v n A"
    obtain k' where k': "k_Write32 gpu k a (word_of_int y) \<bind> (\<lambda>k1. WakeThreads k1 (GetThreadsWaitingOnAddress std_sort k a) n) = Some k'"
      "sched_inv k'" "wakes k a n k'" "word_at gpu k' a (word_of_int y)"
      using store_and_wake_at [OF inv srt d ok w] by blast
    have "SignalToAddress std_sort gpu k a type v n =
        (if sint x = v then Some k' \<bind> (\<lambda>k. Some (k, RESULT_SUCCESS)) else Some (k, ERR_INVALID_STATE))"
      using 3 v x val by (simp add: SignalToAddress_def ModifyByWaitingCountAndSignalToAddressIfEqual_def kinds s32_range_def
          bind_assoc y_def updated_value_def Let_def len flip: k'(1) length_0_conv)
    then show ?thesis using 3 k' inv by (simp add: eq kinds A_def y_def)
  next
    case 4
    then show ?thesis using inv by (simp add: SignalToAddress_def)
  qed
qed

section \<open>Signalling address 0\<close>

text \<open>A computation that leaves thread \<open>t\<close> alone, with rules that follow the monadic code.\<close>

definition keeps :: "tid \<Rightarrow> 'w Kernel \<Rightarrow> 'w Kernel option \<Rightarrow> bool" where
  "keeps t k m \<longleftrightarrow> (\<forall>k'. m = Some k' \<longrightarrow> thread_at k' t = thread_at k t)"

lemma keeps_bind: "(\<And>x. m = Some x \<Longrightarrow> keeps t k (f x)) \<Longrightarrow> keeps t k (m \<bind> f)"
  by (auto simp: keeps_def bind_eq_Some_conv)

lemma keeps_step: "keeps t k m \<Longrightarrow> (\<And>k1. keeps t k1 (f k1)) \<Longrightarrow> keeps t k (m \<bind> f)"
  by (auto simp: keeps_def bind_eq_Some_conv)

lemma keeps_if: "keeps t k m \<Longrightarrow> keeps t k m' \<Longrightarrow> keeps t k (if b then m else m')"
  by simp

lemma keeps_Some: "keeps t k (Some k)"
  by (simp add: keeps_def)

lemma keeps_ops:
  "t \<noteq> u \<Longrightarrow> keeps t k (upd_thread u f k)" "keeps t k (RemoveThread k c u)" "keeps t k (AddThread k c u)"
  "keeps t k (UnscheduleThread k c u p)" "keeps t k (ScheduleThread k c u p)" "keeps t k (PrepareReschedule k c)"
  by (auto simp: keeps_def upd_thread_def RemoveThread_def AddThread_def UnscheduleThread_def ScheduleThread_def
      PrepareReschedule_def set_sched_def bind_eq_Some_conv split: if_splits)

lemmas keeps_rules = keeps_ops keeps_Some keeps_if keeps_step [OF keeps_ops(1)] keeps_step [OF keeps_ops(2)]
  keeps_step [OF keeps_ops(4)] keeps_step [OF keeps_ops(5)]

lemma keeps_ChangeScheduler: "t \<noteq> u \<Longrightarrow> keeps t k (ChangeScheduler k u)"
  unfolding ChangeScheduler_def Let_def
  by (rule keeps_bind, rule keeps_if, rule keeps_Some, rule keeps_bind, rule keeps_bind, rule keeps_bind, rule keeps_step)
    (assumption | rule keeps_rules)+

lemma keeps_ResumeFromWait:
  assumes "t \<noteq> u"
  shows "keeps t k (ResumeFromWait k u)"
  unfolding ResumeFromWait_def
proof (rule keeps_bind, rule keeps_bind)
  fix th
  show "keeps t k (case th_status th of
        Ready \<Rightarrow> do { ASSERT (th_wakeup_callback th = None); Some k }
      | Running \<Rightarrow> Some k
      | Dead \<Rightarrow> Some k
      | _ \<Rightarrow> do {
          k \<leftarrow> upd_thread u (\<lambda>th. th\<lparr>th_wakeup_callback := None\<rparr>) k;
          if th_activity th = ActivityPaused then upd_thread u (\<lambda>th. th\<lparr>th_status := Paused\<rparr>) k
          else do { k \<leftarrow> upd_thread u (\<lambda>th. th\<lparr>th_status := Ready\<rparr>) k; ChangeScheduler k u } })"
    using assms by (cases "th_status th") (auto intro!: keeps_rules keeps_ChangeScheduler intro: keeps_bind)
qed

lemma wake_loop_asserts:
  assumes "t \<in> set ts" "status_of k t \<noteq> Some WaitArb"
  shows "wake_loop ts k = None"
  using assms
proof (induction ts arbitrary: k)
  case (Cons u ts)
  show ?case
  proof (cases "t = u")
    case True
    then show ?thesis using Cons.prems(2) by (auto simp: status_of_def bind_eq_None_conv)
  next
    case False
    have "wake_loop ts k3 = None"
      if "SetWaitSynchronizationResult k u r = Some k1" "upd_thread u f k1 = Some k2" "ResumeFromWait k2 u = Some k3" for r f k1 k2 k3
    proof -
      have "thread_at k1 t = thread_at k t" "thread_at k2 t = thread_at k1 t" "thread_at k3 t = thread_at k2 t"
        using that keeps_ops(1) [OF False] keeps_ResumeFromWait [OF False]
        unfolding SetWaitSynchronizationResult_def keeps_def by blast+
      then show ?thesis using Cons False by (simp add: status_of_def)
    qed
    then have "wake_loop (u # ts) k \<noteq> Some k'" for k' by (force simp: bind_eq_Some_conv)
    then show ?thesis by auto
  qed
qed simp

text \<open>
  Signalling address 0 trips the assertion in \<open>WakeThreads\<close>: a thread that waits on no
  address has 0 as its arbiter address, so every such thread is taken for one that waits on address
  0, and its status is not \<open>WaitArb\<close>. The call with the type \<open>Signal\<close> does not check the address.
\<close>

theorem SignalToAddress_null:
  assumes srt: "is_std_sort std_sort" and t: "t \<in> set (all_threads k)" "thread_at k t = Some th" "th_arb_wait_address th = 0"
    "th_status th \<noteq> WaitArb" and n: "n \<le> 0"
  shows "SignalToAddress std_sort gpu k 0 SignalType_Signal v n = None"
proof -
  let ?L = "concat (map (\<lambda>c. filter (waits_on k 0) (sc_thread_list (k_schedulers k c))) [0..<NUM_CPU_CORES])"
  have "t \<in> set ?L" using t by (auto simp: waits_on_def NUM_CPU_CORES_def)
  moreover have "mset (GetThreadsWaitingOnAddress std_sort k 0) = mset ?L"
    using srt by (simp add: is_std_sort_def GetThreadsWaitingOnAddress_def)
  ultimately have "t \<in> set (GetThreadsWaitingOnAddress std_sort k 0)" using mset_eq_setD by blast
  moreover have "status_of k t \<noteq> Some WaitArb" using t(2,4) by (simp add: status_of_def)
  ultimately have "wake_loop (GetThreadsWaitingOnAddress std_sort k 0) k = None" by (rule wake_loop_asserts)
  then show ?thesis using n by (simp add: SignalToAddress_def SignalToAddressOnly_def WakeThreads_def)
qed

end
