(* ===== verification/Cpu_Core.thy ===== *)
theory Cpu_Core
  imports Arbiter_Correct Core_Timing_Correct
begin

text \<open>
  The loop of a CPU core in single-core mode (\<^verbatim>\<open>core/core_cpu.cpp\<close>, \<^verbatim>\<open>core/cpu_core_manager.cpp\<close>),
  in which core timing, the kernel and the schedulers meet: what the callbacks of timed events do to
  the kernel, and that a sleeping thread gets its core back at the time it asked for.

  The guest instructions a core executes, the callbacks of events other than the timeout of a
  thread, and the wakeup callbacks other than that of \<open>WaitSynchronization\<close> are parameters.
\<close>

section \<open>Advancing time\<close>

type_synonym 'w hook = "nat \<Rightarrow> u64 \<Rightarrow> int \<Rightarrow> 'w Kernel \<Rightarrow> 'w Kernel option"

text \<open>The kernel holds core timing: a callback sees the state of both.\<close>

definition kernel_runner :: "'w wakeup \<Rightarrow> 'w hook \<Rightarrow> ('w Kernel, kcallback) runner" where
  "kernel_runner other hook cb userdata late s = do {
     let k = (fst s)\<lparr>k_core_timing := snd s\<rparr>;
     k \<leftarrow> (case cb of
         ThreadWakeupCallbackEvent \<Rightarrow> ThreadWakeupCallback other k userdata
       | OtherEvent n \<Rightarrow> hook n userdata late k);
     Some (k, k_core_timing k)
   }"

definition kernel_Advance :: "'w wakeup \<Rightarrow> 'w hook \<Rightarrow> 'w Kernel \<Rightarrow> 'w Kernel option" where
  "kernel_Advance other hook k = do {
     (k, ct) \<leftarrow> Advance (kernel_runner other hook) (k, k_core_timing k);
     Some (k\<lparr>k_core_timing := ct\<rparr>)
   }"

definition kernel_Idle :: "'w Kernel \<Rightarrow> 'w Kernel option" where
  "kernel_Idle k = do {
     ct \<leftarrow> Idle (k_core_timing k);
     Some (k\<lparr>k_core_timing := ct\<rparr>)
   }"

section \<open>The loop\<close>

definition IsMainCore :: "nat \<Rightarrow> bool" where
  "IsMainCore c \<longleftrightarrow> c = 0"

text \<open>\<open>run\<close> is \<open>ARM_Interface::Run\<close> or \<open>Step\<close> on the core.\<close>

definition Cpu_RunLoop :: "'w wakeup \<Rightarrow> 'w hook \<Rightarrow> (nat \<Rightarrow> 'w Kernel \<Rightarrow> 'w Kernel option) \<Rightarrow> 'w Kernel \<Rightarrow> nat \<Rightarrow> 'w Kernel option" where
  "Cpu_RunLoop other hook run k c = do {
     s \<leftarrow> sched_at k c;
     k \<leftarrow> (if GetCurrentThread s = None then do {
           k \<leftarrow> (if IsMainCore c then do { k \<leftarrow> kernel_Idle k; kernel_Advance other hook k } else Some k);
           PrepareReschedule k c
         }
         else do {
           k \<leftarrow> (if IsMainCore c then kernel_Advance other hook k else Some k);
           run c k
         });
     Cpu_Reschedule k c
   }"

fun core_loop :: "'w wakeup \<Rightarrow> 'w hook \<Rightarrow> (nat \<Rightarrow> 'w Kernel \<Rightarrow> 'w Kernel option) \<Rightarrow> nat list \<Rightarrow> 'w Kernel \<Rightarrow> 'w Kernel option" where
  "core_loop other hook run [] k = Some k"
| "core_loop other hook run (c # cs) k = do {
     k \<leftarrow> Cpu_RunLoop other hook run (k\<lparr>k_current_core := c\<rparr>) c;
     core_loop other hook run cs k
   }"

text \<open>The loop over the cores without a debugger attached; with \<open>use_multi_core\<close> it ends after core 0.\<close>

definition CpuCoreManager_RunLoop ::
    "'w wakeup \<Rightarrow> 'w hook \<Rightarrow> (nat \<Rightarrow> 'w Kernel \<Rightarrow> 'w Kernel option) \<Rightarrow> 'w Kernel \<Rightarrow> 'w Kernel option" where
  "CpuCoreManager_RunLoop other hook run k = core_loop other hook run [0..<NUM_CPU_CORES] k"

section \<open>An idle core with a sleeping thread\<close>

definition sleeper :: "'w Thread \<Rightarrow> bool" where
  "sleeper th \<longleftrightarrow> th_status th = WaitSleep \<and> th_wait_objects th = [] \<and> th_activity th = ActivityNormal \<and>
     th_mutex_wait_address th = 0 \<and> th_condvar_wait_address th = 0 \<and> th_wait_handle th = 0 \<and> th_arb_wait_address th = 0 \<and>
     bit (th_affinity_mask th) 0 \<and> (th_ideal_core th = -1 \<or> th_ideal_core th = 0)"

text \<open>The earliest event is the timeout of thread \<open>t\<close>, and the slice lasts until then at most.\<close>

definition timing_until :: "'w Kernel \<Rightarrow> tid \<Rightarrow> int \<Rightarrow> bool" where
  "timing_until k t T \<longleftrightarrow> (\<exists>e es. let ct = k_core_timing k in ct_event_queue ct = e # es \<and> ev_time e = T \<and>
     (\<forall>e'\<in>set es. T < ev_time e') \<and> (\<forall>e'\<in>set es. ev_time e' < 2 ^ 62) \<and>
     (\<exists>name. ev_type e = Some name \<and> ct_event_types ct name = Some (Callback ThreadWakeupCallbackEvent)) \<and>
     RetrieveThreadFromWakeupCallbackHandleTable k (ucast (ev_userdata e)) = Some t \<and>
     ct_ts_queue ct = [] \<and> ct_unschedule_queue ct = [] \<and> 0 \<le> ct_idled_cycles ct \<and> ct_idled_cycles ct \<le> ct_global_timer ct \<and>
     ct_global_timer ct < T \<and> T < 2 ^ 61 \<and> ct_slice_length ct = min (T - ct_global_timer ct) MAX_SLICE_LENGTH \<and>
     ct_downcount ct = ct_slice_length ct)"

definition asleep :: "'w Kernel \<Rightarrow> tid \<Rightarrow> int \<Rightarrow> bool" where
  "asleep k t T \<longleftrightarrow> sched_inv k \<and> sc_current_thread (k_schedulers k 0) = None \<and> (\<forall>u. \<not> runnable k 0 u) \<and>
     (\<forall>p. k_current_process k = Some p \<longrightarrow> k_processes k p \<noteq> None) \<and>
     (\<exists>th. thread_at k t = Some th \<and> sleeper th \<and> placeable th) \<and> timing_until k t T"

lemma target_core_sleeper:
  assumes "sleeper th" "sc_current_thread (k_schedulers k 0) = None"
  shows "target_core k th = 0"
proof -
  have "GetNextProcessorId k (th_affinity_mask th) = Some 0"
    using assms by (simp add: GetNextProcessorId_def NUM_CPU_CORES_def upt_rec core_idle_def GetCurrentThread_def sleeper_def)
  then show ?thesis using assms by (auto simp: target_core_def sleeper_def)
qed

lemma ThreadWakeupCallback_sleeper:
  assumes inv: "sched_inv k" and h: "RetrieveThreadFromWakeupCallbackHandleTable k (ucast h) = Some t"
    and th: "thread_at k t = Some th" "sleeper th" "placeable th"
  shows "\<exists>k'. ThreadWakeupCallback other k h = Some k' \<and> resumed k t th k'"
proof -
  have "ThreadWakeupCallback other k h = ResumeFromWait k t"
    using h th by (simp add: ThreadWakeupCallback_def timeout_objects_def timeout_mutex_def timeout_arbiter_def sleeper_def)
  then show ?thesis using ResumeFromWait_at [OF inv th(1) _ _ th(3)] th(2) by (simp add: sleeper_def waits_def)
qed

lemma MAX_SLICE_LENGTH_pos: "0 < MAX_SLICE_LENGTH"
  by (simp add: MAX_SLICE_LENGTH_def)

lemma to_s32_slice: "0 \<le> i \<Longrightarrow> to_s32 (min i MAX_SLICE_LENGTH) = min i MAX_SLICE_LENGTH"
  by (simp add: MAX_SLICE_LENGTH_def signed_take_bit_int_eq_self)

text \<open>Core timing when an idle core has used up its slice.\<close>

definition slice_over :: "'cb CoreTiming \<Rightarrow> 'cb CoreTiming" where
  "slice_over ct = ct\<lparr>ct_idled_cycles := ct_idled_cycles ct + ct_downcount ct, ct_downcount := 0,
     ct_global_timer := ct_global_timer ct + ct_slice_length ct, ct_slice_length := MAX_SLICE_LENGTH, ct_is_global_timer_sane := True\<rparr>"

lemma idle_begin_slice:
  assumes "timing_until k t T"
  shows "Idle (k_core_timing k) \<bind> begin_slice = Some (slice_over (k_core_timing k))"
  using assms
  by (auto simp: timing_until_def Let_def Idle_def begin_slice_def MoveEvents_def slice_over_def s64_range_def s32_range_def
      MAX_SLICE_LENGTH_def)

lemma end_slice_idle:
  assumes "\<forall>e\<in>set (ct_event_queue ct). ct_global_timer ct < ev_time e \<and> ev_time e < 2 ^ 62" "0 \<le> ct_global_timer ct" "ct_slice_length ct = MAX_SLICE_LENGTH"
  shows "\<exists>l. end_slice ct = Some (ct\<lparr>ct_is_global_timer_sane := False, ct_slice_length := l, ct_downcount := l\<rparr>) \<and> 0 < l \<and> l \<le> MAX_SLICE_LENGTH \<and>
    (\<forall>e es. ct_event_queue ct = e # es \<longrightarrow> l = min (ev_time e - ct_global_timer ct) MAX_SLICE_LENGTH)"
proof (cases "ct_event_queue ct")
  case Nil
  then show ?thesis using assms(3)
    by (intro exI [of _ MAX_SLICE_LENGTH], cases ct) (simp add: end_slice_def MAX_SLICE_LENGTH_def)
next
  case (Cons e es)
  then have "s64_range (ev_time e - ct_global_timer ct) = Some (ev_time e - ct_global_timer ct)"
    using assms(1,2) by (simp add: s64_range_def)
  then show ?thesis
    using Cons assms(1) to_s32_slice [of "ev_time e - ct_global_timer ct"]
    by (simp add: end_slice_def MAX_SLICE_LENGTH_def)
qed

lemma advance_loop_not_due:
  assumes "\<forall>e\<in>set (ct_event_queue ct). ct_global_timer ct < ev_time e"
  shows "advance_loop run (k, ct) = Some (k, ct)"
  by (subst advance_loop.simps) (use assms in \<open>auto split: list.split\<close>)

lemma idle_advance_early:
  assumes tu: "timing_until k t T" and early: "MAX_SLICE_LENGTH < T - ct_global_timer (k_core_timing k)"
  shows "\<exists>ct'. kernel_Idle k \<bind> kernel_Advance other hook = Some (k\<lparr>k_core_timing := ct'\<rparr>) \<and>
    timing_until (k\<lparr>k_core_timing := ct'\<rparr>) t T \<and> ct_global_timer ct' = ct_global_timer (k_core_timing k) + MAX_SLICE_LENGTH"
proof -
  define ct where "ct = k_core_timing k"
  obtain e es where q: "ct_event_queue ct = e # es" "ev_time e = T" "\<forall>e'\<in>set es. T < ev_time e'" "\<forall>e'\<in>set es. ev_time e' < 2 ^ 62"
    and b: "0 \<le> ct_idled_cycles ct" "ct_idled_cycles ct \<le> ct_global_timer ct" "T < 2 ^ 61" "ct_slice_length ct = MAX_SLICE_LENGTH"
      "ct_downcount ct = MAX_SLICE_LENGTH"
    using tu early by (auto simp: timing_until_def Let_def ct_def)
  obtain ct1 where ct1: "Idle ct = Some ct1" "begin_slice ct1 = Some (slice_over ct)"
    using idle_begin_slice [OF tu] by (auto simp: bind_eq_Some_conv ct_def)
  have later: "\<forall>e\<in>set (ct_event_queue (slice_over ct)). ct_global_timer (slice_over ct) < ev_time e \<and> ev_time e < 2 ^ 62"
    using q b early by (auto simp: slice_over_def ct_def)
  obtain l where l: "end_slice (slice_over ct) = Some ((slice_over ct)\<lparr>ct_is_global_timer_sane := False, ct_slice_length := l, ct_downcount := l\<rparr>)"
    "l = min (T - ct_global_timer (slice_over ct)) MAX_SLICE_LENGTH"
    using end_slice_idle [OF later] q b by (auto simp: slice_over_def MAX_SLICE_LENGTH_def)
  have "advance_loop (kernel_runner other hook) (k\<lparr>k_core_timing := ct1\<rparr>, slice_over ct) = Some (k\<lparr>k_core_timing := ct1\<rparr>, slice_over ct)"
    by (rule advance_loop_not_due) (use later in blast)
  then have "kernel_Idle k \<bind> kernel_Advance other hook =
      Some (k\<lparr>k_core_timing := (slice_over ct)\<lparr>ct_is_global_timer_sane := False, ct_slice_length := l, ct_downcount := l\<rparr>\<rparr>)"
    using ct1 l(1) by (simp add: kernel_Idle_def kernel_Advance_def Advance_def ct_def [symmetric])
  moreover have "timing_until (k\<lparr>k_core_timing := (slice_over ct)\<lparr>ct_is_global_timer_sane := False, ct_slice_length := l, ct_downcount := l\<rparr>\<rparr>) t T"
    using tu q b early l(2) MAX_SLICE_LENGTH_pos
    by (auto simp: timing_until_def Let_def slice_over_def ct_def [symmetric] RetrieveThreadFromWakeupCallbackHandleTable_def)
  ultimately show ?thesis using b by (auto simp: slice_over_def ct_def)
qed

lemma idle_advance_due:
  assumes inv: "sched_inv k" and tu: "timing_until k t T" and due: "T - ct_global_timer (k_core_timing k) \<le> MAX_SLICE_LENGTH"
    and th: "thread_at k t = Some th" "sleeper th" "placeable th"
  shows "\<exists>ct0 k1 ct'. kernel_Idle k \<bind> kernel_Advance other hook = Some (k1\<lparr>k_core_timing := ct'\<rparr>) \<and>
    resumed (k\<lparr>k_core_timing := ct0\<rparr>) t th k1 \<and> ct_global_timer ct' = T \<and> GetTicks ct' \<noteq> None"
proof -
  define ct where "ct = k_core_timing k"
  obtain e es name where q: "ct_event_queue ct = e # es" "ev_time e = T" "\<forall>e'\<in>set es. T < ev_time e' \<and> ev_time e' < 2 ^ 62"
    and b: "0 \<le> T" "T < 2 ^ 61" "ct_global_timer ct + ct_slice_length ct = T"
    and e: "ev_type e = Some name" "ct_event_types ct name = Some (Callback ThreadWakeupCallbackEvent)"
      "RetrieveThreadFromWakeupCallbackHandleTable k (ucast (ev_userdata e)) = Some t"
    using tu due by (auto simp: timing_until_def Let_def ct_def)
  obtain ct1 where ct1: "Idle ct = Some ct1" "begin_slice ct1 = Some (slice_over ct)"
    using idle_begin_slice [OF tu] by (auto simp: bind_eq_Some_conv ct_def)
  define ct2 where "ct2 = (slice_over ct)\<lparr>ct_event_queue := es\<rparr>"
  define k0 where "k0 = k\<lparr>k_core_timing := ct2\<rparr>"
  have k0: "sched_inv k0" "RetrieveThreadFromWakeupCallbackHandleTable k0 (ucast (ev_userdata e)) = Some t" "thread_at k0 t = Some th"
    using inv e(3) th(1) by (simp_all add: k0_def RetrieveThreadFromWakeupCallbackHandleTable_def)
  obtain k1 where k1: "ThreadWakeupCallback other k0 (ev_userdata e) = Some k1" "resumed k0 t th k1"
    using ThreadWakeupCallback_sleeper [OF k0 th(2,3)] by blast
  have "k_core_timing k1 = ct2" using k1(2) same_world_fields(6) [of k0 k1] by (simp add: resumed_def k0_def)
  moreover have "ct_global_timer (slice_over ct) = T" "ct_event_queue (slice_over ct) = e # es" "ct_event_types ct2 = ct_event_types ct"
    using b q by (simp_all add: slice_over_def ct2_def)
  ultimately have f: "fire (kernel_runner other hook) e es (k\<lparr>k_core_timing := ct1\<rparr>, slice_over ct) = Some (k1, ct2)"
    using e k1(1) q(2) by (simp add: fire_def run_callback_def kernel_runner_def s64_range_def ct2_def [symmetric] k0_def [symmetric])
  have later: "\<forall>e\<in>set (ct_event_queue ct2). ct_global_timer ct2 < ev_time e \<and> ev_time e < 2 ^ 62"
    using q b by (simp add: ct2_def slice_over_def)
  have "advance_loop (kernel_runner other hook) (k\<lparr>k_core_timing := ct1\<rparr>, slice_over ct) = Some (k1, ct2)"
    using f q b later advance_loop_not_due [of ct2] by (subst advance_loop.simps) (simp add: slice_over_def)
  moreover obtain l where l: "end_slice ct2 = Some (ct2\<lparr>ct_is_global_timer_sane := False, ct_slice_length := l, ct_downcount := l\<rparr>)"
  proof -
    have "0 \<le> ct_global_timer ct2" "ct_slice_length ct2 = MAX_SLICE_LENGTH" using b by (simp_all add: ct2_def slice_over_def)
    then show ?thesis using end_slice_idle [OF later] that by blast
  qed
  moreover define ct3 where "ct3 = ct2\<lparr>ct_is_global_timer_sane := False, ct_slice_length := l, ct_downcount := l\<rparr>"
  ultimately have "kernel_Idle k \<bind> kernel_Advance other hook = Some (k1\<lparr>k_core_timing := ct3\<rparr>)"
    using ct1 by (simp add: kernel_Idle_def kernel_Advance_def Advance_def ct_def [symmetric])
  moreover have "GetTicks ct3 \<noteq> None" by (simp add: GetTicks_def s32_range_def ct3_def)
  moreover have "ct_global_timer ct3 = T" using b by (simp add: ct3_def ct2_def slice_over_def)
  ultimately show ?thesis using k1(2) unfolding k0_def by blast
qed

section \<open>Rescheduling an idle core\<close>

lemma idle_reschedule:
  assumes inv: "sched_inv k" and ok: "switch_ok k 0" and idle: "sc_current_thread (k_schedulers k 0) = None" "\<forall>u. \<not> runnable k 0 u"
  shows "\<exists>P S. Reschedule k 0 = Some (k\<lparr>k_processes := P, k_schedulers := (k_schedulers k)(0 := S)\<rparr>) \<and> sc_current_thread S = None \<and>
    sc_ready_queue S = ready_of k 0 \<and> (\<forall>p. P p = None \<longleftrightarrow> k_processes k p = None)"
proof -
  obtain r where r: "PopNextReadyThread k 0 = Some r" "best_thread k 0 r" using PopNextReadyThread_at [OF inv ok] by blast
  then have r0: "PopNextReadyThread k 0 = Some None" using idle(2) by (cases r) (simp_all add: best_thread_def)
  obtain now where now: "GetTicks (k_core_timing k) = Some now" using ok by (auto simp: switch_ok_def)
  define S where "S = (k_schedulers k 0)\<lparr>sc_last_context_switch_time := now, sc_current_thread := None\<rparr>"
  define f where "f pr = pr\<lparr>pr_total_process_running_time_ticks := pr_total_process_running_time_ticks pr +
    (now - sc_last_context_switch_time (k_schedulers k 0))\<rparr>" for pr :: Process
  define P where "P = (case k_current_process k of None \<Rightarrow> k_processes k
    | Some p \<Rightarrow> (k_processes k)(p \<mapsto> f (the (k_processes k p))))"
  have "Reschedule k 0 = Some (k\<lparr>k_processes := P, k_schedulers := (k_schedulers k)(0 := S)\<rparr>)"
    using r0 now idle(1) ok
    by (auto simp: Reschedule_def SwitchContext_def UpdateLastContextSwitchTime_def sched_at_def NUM_CPU_CORES_def GetCurrentThread_def
        set_sched_def Let_def P_def S_def f_def switch_ok_def split: option.split)
  moreover have "P p = None \<longleftrightarrow> k_processes k p = None" for p
    using ok by (auto simp: P_def switch_ok_def split: option.split)
  ultimately show ?thesis by (intro exI [of _ P] exI [of _ S]) (simp add: S_def)
qed

lemma runnable_cong:
  assumes "thread_at k' u = thread_at k u" "sc_current_thread (k_schedulers k' c) = sc_current_thread (k_schedulers k c)"
  shows "runnable k' c u = runnable k c u"
  using assms by (simp add: runnable_def split: option.split)

lemma Cpu_RunLoop_idle:
  assumes idle: "sc_current_thread (k_schedulers k 0) = None" and adv: "kernel_Idle k \<bind> kernel_Advance other hook = Some k1"
  shows "\<exists>C. Cpu_RunLoop other hook run k 0 = Reschedule (k1\<lparr>k_cpus := C\<rparr>) 0"
proof -
  have "Cpu_RunLoop other hook run k 0 = do { k \<leftarrow> kernel_Idle k; k \<leftarrow> kernel_Advance other hook k; k \<leftarrow> PrepareReschedule k 0; Cpu_Reschedule k 0 }"
    using idle by (simp add: Cpu_RunLoop_def sched_at_def NUM_CPU_CORES_def GetCurrentThread_def IsMainCore_def bind_assoc)
  also have "\<dots> = (kernel_Idle k \<bind> kernel_Advance other hook) \<bind> (\<lambda>k. PrepareReschedule k 0 \<bind> (\<lambda>k. Cpu_Reschedule k 0))"
    by (simp add: bind_assoc)
  finally show ?thesis by (auto simp: adv PrepareReschedule_def NUM_CPU_CORES_def Cpu_Reschedule_def)
qed

definition awake :: "'w Kernel \<Rightarrow> tid \<Rightarrow> int \<Rightarrow> bool" where
  "awake k t T \<longleftrightarrow> sched_inv k \<and> sc_current_thread (k_schedulers k 0) = Some t \<and> status_of k t = Some Running \<and>
     ct_global_timer (k_core_timing k) = T"

lemma idle_step_early:
  assumes as: "asleep k t T" and early: "MAX_SLICE_LENGTH < T - ct_global_timer (k_core_timing k)"
  shows "\<exists>k'. Cpu_RunLoop other hook run k 0 = Some k' \<and> asleep k' t T \<and>
    ct_global_timer (k_core_timing k') = ct_global_timer (k_core_timing k) + MAX_SLICE_LENGTH"
proof -
  obtain th where k: "sched_inv k" "sc_current_thread (k_schedulers k 0) = None" "\<forall>u. \<not> runnable k 0 u"
    "\<forall>p. k_current_process k = Some p \<longrightarrow> k_processes k p \<noteq> None" "thread_at k t = Some th" "sleeper th" "placeable th" "timing_until k t T"
    using as by (auto simp: asleep_def)
  obtain ct' where ct': "kernel_Idle k \<bind> kernel_Advance other hook = Some (k\<lparr>k_core_timing := ct'\<rparr>)"
    "timing_until (k\<lparr>k_core_timing := ct'\<rparr>) t T" "ct_global_timer ct' = ct_global_timer (k_core_timing k) + MAX_SLICE_LENGTH"
    using idle_advance_early [OF k(8) early] by blast
  obtain C where C: "Cpu_RunLoop other hook run k 0 = Reschedule (k\<lparr>k_core_timing := ct', k_cpus := C\<rparr>) 0"
    using Cpu_RunLoop_idle [OF k(2) ct'(1)] by auto
  define k1 where "k1 = k\<lparr>k_core_timing := ct', k_cpus := C\<rparr>"
  have "GetTicks ct' \<noteq> None" using ct'(2) by (auto simp: timing_until_def Let_def GetTicks_def s32_range_def)
  then have "switch_ok k1 0" using k by (simp add: switch_ok_def k1_def)
  moreover have "runnable k1 0 u = runnable k 0 u" for u by (rule runnable_cong) (simp_all add: k1_def)
  ultimately obtain P S where r: "Reschedule k1 0 = Some (k1\<lparr>k_processes := P, k_schedulers := (k_schedulers k1)(0 := S)\<rparr>)"
    and S: "sc_current_thread S = None" "sc_ready_queue S = ready_of k 0" "\<forall>p. P p = None \<longleftrightarrow> k_processes k p = None"
    using idle_reschedule [of k1] k by (auto simp: k1_def)
  define k' where "k' = k1\<lparr>k_processes := P, k_schedulers := (k_schedulers k1)(0 := S)\<rparr>"
  have "sched_inv k' = sched_inv k" by (rule sched_inv_cong) (simp_all add: k'_def k1_def S(2))
  moreover have "runnable k' 0 u = runnable k 0 u" for u by (rule runnable_cong) (simp_all add: k'_def k1_def S k(2))
  moreover have "timing_until k' t T"
    using ct'(2) by (simp add: timing_until_def k'_def k1_def RetrieveThreadFromWakeupCallbackHandleTable_def)
  ultimately have "asleep k' t T" using k S by (simp add: asleep_def k'_def k1_def)
  then show ?thesis using C r ct'(3) by (simp add: k1_def [symmetric] k'_def [symmetric]) (simp add: k'_def k1_def)
qed

lemma idle_step_due:
  assumes as: "asleep k t T" and due: "T - ct_global_timer (k_core_timing k) \<le> MAX_SLICE_LENGTH"
  shows "\<exists>k'. Cpu_RunLoop other hook run k 0 = Some k' \<and> awake k' t T"
proof -
  obtain th where k: "sched_inv k" "sc_current_thread (k_schedulers k 0) = None" "\<forall>u. \<not> runnable k 0 u"
    "\<forall>p. k_current_process k = Some p \<longrightarrow> k_processes k p \<noteq> None" "thread_at k t = Some th" "sleeper th" "placeable th" "timing_until k t T"
    using as by (auto simp: asleep_def)
  obtain ct0 k1 ct' where adv: "kernel_Idle k \<bind> kernel_Advance other hook = Some (k1\<lparr>k_core_timing := ct'\<rparr>)"
    and res: "resumed (k\<lparr>k_core_timing := ct0\<rparr>) t th k1" and ct': "ct_global_timer ct' = T" "GetTicks ct' \<noteq> None"
    using idle_advance_due [OF k(1,8) due k(5-7)] by blast
  define k0 where "k0 = k\<lparr>k_core_timing := ct0\<rparr>"
  obtain C where C: "Cpu_RunLoop other hook run k 0 = Reschedule (k1\<lparr>k_core_timing := ct', k_cpus := C\<rparr>) 0"
    using Cpu_RunLoop_idle [OF k(2) adv] by auto
  define k2 where "k2 = k1\<lparr>k_core_timing := ct', k_cpus := C\<rparr>"
  have w: "same_world k0 k1" "sched_inv k1" "k_threads k1 = (k_threads k)(t \<mapsto> woken k0 th)" using res by (simp_all add: resumed_def k0_def)
  note f = same_world_fields [OF w(1)]
  have cur: "sc_current_thread (k_schedulers k2 0) = None" using w(1) k(2) by (simp add: same_world_def k2_def k0_def)
  have "target_core k0 th = 0" using target_core_sleeper [OF k(6), of k0] k(2) by (simp add: k0_def)
  then have wk: "th_status (woken k0 th) = Ready" "th_scheduler (woken k0 th) = 0" using k(6) by (simp_all add: woken_def sleeper_def)
  have inv2: "sched_inv k2" using w(2) by (simp add: k2_def)
  have ok2: "switch_ok k2 0" using cur ct'(2) k(4) f by (simp add: switch_ok_def k2_def k0_def)
  have rn: "runnable k2 0 u \<longleftrightarrow> u = t" for u
  proof (cases "u = t")
    case True
    then show ?thesis using w(3) wk by (simp add: runnable_def k2_def)
  next
    case False
    then have "runnable k2 0 u = runnable k 0 u" using w(3) cur k(2) by (intro runnable_cong) (simp_all add: k2_def)
    then show ?thesis using False k(3) by simp
  qed
  obtain r where r: "PopNextReadyThread k2 0 = Some r" "best_thread k2 0 r" using PopNextReadyThread_at [OF inv2 ok2] by blast
  then have "r = Some t" using rn by (cases r) (auto simp: best_thread_def)
  then obtain k' where k': "SwitchContext k2 0 (Some t) = Some k'" "switched k2 0 (Some t) k'"
    using SwitchContext_at [OF inv2 ok2, of "Some t"] rn by auto
  have "Reschedule k2 0 = Some k'" using r(1) \<open>r = Some t\<close> k'(1) by (simp add: Reschedule_def)
  moreover have "awake k' t T" using k'(2) ct'(1) by (simp add: awake_def switched_def k2_def)
  ultimately show ?thesis using C by (simp add: k2_def [symmetric])
qed

text \<open>
  \<^bold>\<open>C21\<close>. A sleeping thread gets its core back at the very cycle at which its timeout was due. Let
  core 0 be idle with no thread to run, and let the earliest pending event be the timeout of a
  thread that sleeps and may run on core 0. Then after finitely many rounds of the loop of the core
  the thread is running there, the clock shows exactly the time of the timeout, and the invariant
  holds: idling advances the clock in slices, the timeout makes the thread ready, and the scheduler
  switches to it in the same round.
\<close>

theorem sleeping_thread_runs:
  assumes "asleep k t T"
  shows "\<exists>n k'. ((\<lambda>m. m \<bind> (\<lambda>k. Cpu_RunLoop other hook run k 0)) ^^ n) (Some k) = Some k' \<and>
    sched_inv k' \<and> sc_current_thread (k_schedulers k' 0) = Some t \<and> status_of k' t = Some Running \<and>
    ct_global_timer (k_core_timing k') = T"
  using assms
proof (induction "nat (T - ct_global_timer (k_core_timing k))" arbitrary: k rule: less_induct)
  case less
  show ?case
  proof (cases "MAX_SLICE_LENGTH < T - ct_global_timer (k_core_timing k)")
    case True
    obtain k1 where k1: "Cpu_RunLoop other hook run k 0 = Some k1" "asleep k1 t T"
      "ct_global_timer (k_core_timing k1) = ct_global_timer (k_core_timing k) + MAX_SLICE_LENGTH"
      using idle_step_early [OF less.prems True] by blast
    then have "nat (T - ct_global_timer (k_core_timing k1)) < nat (T - ct_global_timer (k_core_timing k))"
      using True MAX_SLICE_LENGTH_pos by simp
    from less.hyps [OF this k1(2)] obtain n k' where n:
      "((\<lambda>m. m \<bind> (\<lambda>k. Cpu_RunLoop other hook run k 0)) ^^ n) (Some k1) = Some k'" "sched_inv k'"
      "sc_current_thread (k_schedulers k' 0) = Some t" "status_of k' t = Some Running" "ct_global_timer (k_core_timing k') = T"
      by blast
    then have "((\<lambda>m. m \<bind> (\<lambda>k. Cpu_RunLoop other hook run k 0)) ^^ Suc n) (Some k) = Some k'"
      using k1(1) by (simp add: funpow_Suc_right del: funpow.simps)
    then show ?thesis using n by blast
  next
    case False
    then have "T - ct_global_timer (k_core_timing k) \<le> MAX_SLICE_LENGTH" by simp
    from idle_step_due [OF less.prems this] obtain k' where "Cpu_RunLoop other hook run k 0 = Some k'" "awake k' t T" by blast
    then show ?thesis by (intro exI [of _ 1] exI [of _ k']) (simp add: awake_def)
  qed
qed

section \<open>A timeout that is lost\<close>

lemma MoveEvents_unschedule_queue: "ct_unschedule_queue (MoveEvents ct) = ct_unschedule_queue ct"
proof -
  have "ct_unschedule_queue (move_events q ct) = ct_unschedule_queue ct" for q
    by (induction q ct rule: move_events.induct) (simp_all add: push_event_def)
  then show ?thesis by (simp add: MoveEvents_def)
qed

lemma begin_slice_cancels:
  assumes "begin_slice ct = Some ct'" "(ty, ud) \<in> set (ct_unschedule_queue ct)" "e \<in> set (ct_event_queue ct')"
  shows "(ev_type e, ev_userdata e) \<noteq> (ty, ud)"
  using assms by (auto simp: begin_slice_def Let_def bind_eq_Some_conv unschedule_all_at MoveEvents_unschedule_queue)

lemma WakeAfterDelay_frame:
  assumes "WakeAfterDelay k t ns = Some k'"
  shows "\<exists>ct. k' = k\<lparr>k_core_timing := ct\<rparr> \<and> ct_unschedule_queue ct = ct_unschedule_queue (k_core_timing k)"
proof (cases "ns = -1")
  case True
  then have "k' = k" using assms by (auto simp: WakeAfterDelay_def bind_eq_Some_conv)
  then show ?thesis by (intro exI [of _ "k_core_timing k"]) simp
next
  case False
  then show ?thesis using assms by (auto simp: WakeAfterDelay_def bind_eq_Some_conv ScheduleEventThreadsafe_def)
qed

text \<open>
  \<^bold>\<open>C22\<close>. Requests to cancel a timeout and to set one are not kept in order. When a thread gets a
  core, its timeout is cancelled through a queue that the next \<open>Advance\<close> empties, after it has taken
  over the events from the other queue. If the thread goes to sleep before that, as it can on the
  cores 1 to 3 in multi-core mode, then this \<open>Advance\<close> also drops the new timeout: the thread sleeps
  and no event is left that would wake it, however long it meant to sleep.
\<close>

theorem early_sleep_lost:
  assumes "load_next k c p t = Some k1" and "Sleep k1 t ns = Some k2" and "begin_slice (k_core_timing k2) = Some ct"
  shows "status_of k2 t = Some WaitSleep \<and> (\<exists>th. thread_at k2 t = Some th \<and>
    (\<forall>e\<in>set (ct_event_queue ct). (ev_type e, ev_userdata e) \<noteq> (k_thread_wakeup_event_type k2, ucast (th_callback_handle th))))"
proof -
  obtain th where th: "thread_at k t = Some th" "th_status th = Ready"
    using assms(1) by (auto simp: load_next_def bind_eq_Some_conv)
  have k1: "thread_at k1 t = Some (th\<lparr>th_status := Running\<rparr>)" "k_thread_wakeup_event_type k1 = k_thread_wakeup_event_type k"
    "(k_thread_wakeup_event_type k, ucast (th_callback_handle th)) \<in> set (ct_unschedule_queue (k_core_timing k1))"
    using assms(1) th by (auto simp: load_next_def CancelWakeupTimer_def UnscheduleEventThreadsafe_def SetStatus_def set_sched_def
        bind_eq_Some_conv Let_def split: if_splits)
  obtain now where now: "GetTicks (k_core_timing k1) = Some now"
    using assms(2) k1(1) by (auto simp: Sleep_def SetStatus_def bind_eq_Some_conv)
  define th2 where "th2 = th\<lparr>th_last_running_ticks := now, th_status := WaitSleep\<rparr>"
  have "SetStatus k1 t WaitSleep = Some (k1\<lparr>k_threads := (k_threads k1)(t \<mapsto> th2)\<rparr>)"
    using k1(1) now by (simp add: SetStatus_def th2_def)
  then obtain ct2 where "k2 = k1\<lparr>k_threads := (k_threads k1)(t \<mapsto> th2), k_core_timing := ct2\<rparr>"
    "ct_unschedule_queue ct2 = ct_unschedule_queue (k_core_timing k1)"
    using assms(2) WakeAfterDelay_frame [of "k1\<lparr>k_threads := (k_threads k1)(t \<mapsto> th2)\<rparr>" t ns k2] by (auto simp: Sleep_def)
  then have k2: "thread_at k2 t = Some th2" "k_thread_wakeup_event_type k2 = k_thread_wakeup_event_type k"
    "ct_unschedule_queue (k_core_timing k2) = ct_unschedule_queue (k_core_timing k1)"
    using k1(2) by simp_all
  then show ?thesis
    using begin_slice_cancels [OF assms(3), of "k_thread_wakeup_event_type k" "ucast (th_callback_handle th)"] k1(3)
    by (auto simp: status_of_def th2_def)
qed

end
