(* ===== verification/Handle_Table_Correct.thy ===== *)
theory Handle_Table_Correct
  imports Handle_Table
begin

text \<open>
  The handle table as a map from handles to objects. The invariant \<open>ht_ok\<close> says that the free
  slots form a linked list through the \<open>generations\<close> array; the locale \<open>handle_store\<close> is the
  contract the table offers its users, and its lemmas are what the kernel relies on.
\<close>

subsection \<open>The contract\<close>

text \<open>
  \<open>key\<close> is the part of a handle that the table looks at; \<open>lookup\<close> gives the object behind a
  handle.
\<close>

locale handle_store =
  fixes ok :: "'t \<Rightarrow> bool"
    and create :: "'t \<Rightarrow> 'o \<Rightarrow> 't \<times> Handle ResultVal"
    and close :: "'t \<Rightarrow> Handle \<Rightarrow> 't \<times> ResultCode"
    and lookup :: "'t \<Rightarrow> Handle \<Rightarrow> 'o option"
    and key :: "Handle \<Rightarrow> 'k"
  assumes create_ok: "ok t \<Longrightarrow> create t x = (t', Inr h) \<Longrightarrow>
      ok t' \<and> lookup t h = None \<and> (\<forall>h'. lookup t' h' = (if key h' = key h then Some x else lookup t h'))"
    and create_err: "ok t \<Longrightarrow> create t x = (t', Inl e) \<Longrightarrow> t' = t"
    and close_ok: "ok t \<Longrightarrow> lookup t h = Some x \<Longrightarrow> close t h = (t', r) \<Longrightarrow>
      ok t' \<and> r = RESULT_SUCCESS \<and> (\<forall>h'. lookup t' h' = (if key h' = key h then None else lookup t h'))"
    and close_err: "ok t \<Longrightarrow> lookup t h = None \<Longrightarrow> close t h = (t, ERR_INVALID_HANDLE)"
    and lookup_key: "ok t \<Longrightarrow> key h = key h' \<Longrightarrow> lookup t h = lookup t h'"
begin

text \<open>Closing a handle that was just created leaves every lookup as it was.\<close>

lemma create_close:
  assumes "ok t" and "create t x = (t', Inr h)"
  shows "\<exists>t''. close t' h = (t'', RESULT_SUCCESS) \<and> ok t'' \<and> lookup t'' = lookup t"
proof -
  obtain t'' r where c: "close t' h = (t'', r)" by force
  note cr = create_ok [OF assms]
  then have "lookup t' h = Some x" by simp
  with cr have cl: "ok t''" "r = RESULT_SUCCESS"
    "\<forall>h'. lookup t'' h' = (if key h' = key h then None else lookup t' h')"
    using close_ok [OF _ _ c] by auto
  have "lookup t'' h' = lookup t h'" for h'
  proof (cases "key h' = key h")
    case True
    then have "lookup t h' = lookup t h" using lookup_key [OF assms(1)] by blast
    then show ?thesis using True cl(3) cr by simp
  next
    case False
    then show ?thesis using cl(3) cr by simp
  qed
  then show ?thesis using c cl(1,2) by (auto simp: fun_eq_iff)
qed

text \<open>A closed handle stays closed until it is handed out again.\<close>

lemma close_twice:
  assumes "ok t" and "lookup t h = Some x"
  shows "\<exists>t'. close t h = (t', RESULT_SUCCESS) \<and> close t' h = (t', ERR_INVALID_HANDLE)"
proof -
  obtain t' r where c: "close t h = (t', r)" by force
  with close_ok [OF assms c] close_err show ?thesis by auto
qed

end

subsection \<open>The free list\<close>

fun chain :: "(nat \<Rightarrow> u16) \<Rightarrow> u16 \<Rightarrow> nat list \<Rightarrow> u16 \<Rightarrow> bool" where
  "chain g h [] e = (h = e)"
| "chain g h (x # xs) e = (unat h = x \<and> chain g (g x) xs e)"

definition free_list :: "'o HandleTable \<Rightarrow> nat list \<Rightarrow> bool" where
  "free_list t fs \<longleftrightarrow> (\<exists>e. unat (ht_table_size t) \<le> unat e \<and>
     chain (ht_generations t) (ht_next_free_slot t) fs e) \<and> distinct fs \<and>
     set fs = {i. i < unat (ht_table_size t) \<and> ht_objects t i = None}"

definition ht_ok :: "'o HandleTable \<Rightarrow> bool" where
  "ht_ok t \<longleftrightarrow> unat (ht_table_size t) \<le> MAX_COUNT \<and>
     0 < unat (ht_next_generation t) \<and> unat (ht_next_generation t) < 0x8000 \<and>
     (\<forall>i < unat (ht_table_size t). ht_objects t i \<noteq> None \<longrightarrow> unat (ht_generations t i) < 0x8000) \<and>
     (\<exists>fs. free_list t fs)"

definition ht_key :: "Handle \<Rightarrow> u16 \<times> u16" where
  "ht_key h = (GetSlot h, GetGeneration h)"

definition ht_lookup :: "'o HandleTable \<Rightarrow> Handle \<Rightarrow> 'o option" where
  "ht_lookup t h = (if HandleTable_IsValid t h then ht_objects t (unat (GetSlot h)) else None)"

definition live :: "'o HandleTable \<Rightarrow> nat set" where
  "live t = {i. i < unat (ht_table_size t) \<and> ht_objects t i \<noteq> None}"

lemma chain_cong: "(\<And>x. x \<in> set xs \<Longrightarrow> g' x = g x) \<Longrightarrow> chain g' h xs e = chain g h xs e"
  by (induction g h xs e rule: chain.induct) auto

lemma chain_upd: "x \<notin> set xs \<Longrightarrow> chain (g(x := y)) h xs e = chain g h xs e"
  by (rule chain_cong) auto

lemma handle_fields:
  assumes "unat g < 0x8000"
  shows "GetSlot (ucast g OR push_bit 15 (ucast slot)) = slot"
    and "GetGeneration (ucast g OR push_bit 15 (ucast slot)) = g"
proof -
  have g: "\<not> bit g n" if "15 \<le> n" for n
  proof -
    have "take_bit 15 (unat g) = unat g" using assms by (simp add: take_bit_nat_eq_self)
    then have "take_bit 15 g = g" by (metis unsigned_take_bit_eq unsigned_word_eqI)
    then show ?thesis using that by (metis bit_take_bit_iff not_le)
  qed
  show "GetSlot (ucast g OR push_bit 15 (ucast slot)) = slot"
    by (rule bit_word_eqI) (auto simp: GetSlot_def bit_simps g)
  have mask: "(0x7FFF :: u32) = mask 15" by (simp add: mask_eq_exp_minus_1)
  show "GetGeneration (ucast g OR push_bit 15 (ucast slot)) = g"
    unfolding GetGeneration_def mask
    by (rule bit_word_eqI) (use g in \<open>auto simp: bit_simps not_le [symmetric]\<close>)
qed

subsection \<open>The operations\<close>

lemma free_list_cases:
  assumes "free_list t fs"
  shows "unat (ht_table_size t) \<le> unat (ht_next_free_slot t) \<and> fs = [] \<or>
    (\<exists>fs'. fs = unat (ht_next_free_slot t) # fs' \<and> unat (ht_next_free_slot t) < unat (ht_table_size t) \<and>
       ht_objects t (unat (ht_next_free_slot t)) = None)"
  using assms by (cases fs) (auto simp: free_list_def)

lemma Create_full:
  assumes "ht_ok t" and "ht_table_size t \<le> ht_next_free_slot t"
  shows "live t = {..<unat (ht_table_size t)}"
proof -
  obtain fs where fs: "free_list t fs" using assms(1) by (auto simp: ht_ok_def)
  have "fs = []" using free_list_cases [OF fs] assms(2) by (auto simp: word_le_nat_alt)
  with fs show ?thesis by (auto simp: free_list_def live_def)
qed

lemma Create_at:
  assumes ok: "ht_ok t" and lt: "ht_next_free_slot t < ht_table_size t"
    and c: "HandleTable_Create t x = (t', r)"
  defines "slot \<equiv> ht_next_free_slot t" and "gen \<equiv> ht_next_generation t"
  shows "r = Inr (ucast gen OR push_bit 15 (ucast slot))" and "ht_ok t'" and "ht_objects t (unat slot) = None"
    and "ht_objects t' = (ht_objects t)(unat slot := Some x)"
    and "ht_generations t' = (ht_generations t)(unat slot := gen)" and "ht_table_size t' = ht_table_size t"
    and "unat gen < 0x8000"
    and "unat (ht_next_generation t') = unat gen mod 0x7FFF + 1"
proof -
  obtain fs where fs: "free_list t fs" using ok by (auto simp: ht_ok_def)
  obtain fs' where f': "fs = unat slot # fs'" and free: "ht_objects t (unat slot) = None"
    using free_list_cases [OF fs] lt by (auto simp: word_less_nat_alt slot_def)
  show "r = Inr (ucast gen OR push_bit 15 (ucast slot))" and o: "ht_objects t' = (ht_objects t)(unat slot := Some x)"
    and g: "ht_generations t' = (ht_generations t)(unat slot := gen)" and z: "ht_table_size t' = ht_table_size t"
    using c lt by (auto simp: HandleTable_Create_def Let_def slot_def gen_def not_le [symmetric])
  show free': "ht_objects t (unat slot) = None" by (rule free)
  have gen: "0 < unat gen" "unat gen < 0x8000" using ok by (simp_all add: ht_ok_def gen_def)
  then show "unat gen < 0x8000" by simp
  have u: "unat (gen + 1) = unat gen + 1" using gen(2) unat_add_bounded [of gen 1] by simp
  have ng: "ht_next_generation t' = (if 0x8000 \<le> gen + 1 then 1 else gen + 1)"
    using c lt by (auto simp: HandleTable_Create_def Let_def gen_def not_le [symmetric])
  show ngn: "unat (ht_next_generation t') = unat gen mod 0x7FFF + 1"
  proof (cases "unat gen = 0x7FFF")
    case False
    then have "unat gen < 0x7FFF" using gen(2) by simp
    then show ?thesis using u by (simp add: ng word_le_nat_alt)
  qed (simp add: ng word_le_nat_alt u)
  have nf: "ht_next_free_slot t' = ht_generations t (unat slot)"
    using c lt by (auto simp: HandleTable_Create_def Let_def slot_def not_le [symmetric])
  have "free_list t' fs'"
    using fs unfolding free_list_def f' o g z nf by (auto simp: chain_upd)
  then show "ht_ok t'"
    using ok gen(2) unfolding ht_ok_def o g z ngn by (auto simp: ngn)
qed

lemma ht_lookup_created:
  assumes "ht_ok t" and "ht_next_free_slot t < ht_table_size t" and "HandleTable_Create t x = (t', Inr h)"
  shows "ht_lookup t h = None" and "ht_lookup t' h' = (if ht_key h' = ht_key h then Some x else ht_lookup t h')"
proof -
  note c = Create_at [OF assms]
  have h: "h = ucast (ht_next_generation t) OR push_bit 15 (ucast (ht_next_free_slot t))" using c(1) by simp
  have k: "GetSlot h = ht_next_free_slot t" "GetGeneration h = ht_next_generation t"
    unfolding h by (rule handle_fields [OF c(7)])+
  show "ht_lookup t h = None" using c(3) by (simp add: ht_lookup_def k)
  show "ht_lookup t' h' = (if ht_key h' = ht_key h then Some x else ht_lookup t h')"
    using assms(2) c(3)
    by (auto simp: ht_lookup_def HandleTable_IsValid_def Let_def ht_key_def k c(4,5,6)
        word_unat_eq_iff [symmetric])
qed

lemma Close_at:
  assumes ok: "ht_ok t" and v: "HandleTable_IsValid t h" and c: "HandleTable_Close t h = (t', r)"
  shows "r = RESULT_SUCCESS" and "ht_ok t'"
    and "ht_lookup t' h' = (if ht_key h' = ht_key h then None else ht_lookup t h')"
proof -
  define slot where "slot = GetSlot h"
  have s: "slot < ht_table_size t" "ht_objects t (unat slot) \<noteq> None"
    using v by (simp_all add: HandleTable_IsValid_def slot_def Let_def)
  have r: "r = RESULT_SUCCESS" and o: "ht_objects t' = (ht_objects t)(unat slot := None)"
    and g: "ht_generations t' = (ht_generations t)(unat slot := ht_next_free_slot t)"
    and nf: "ht_next_free_slot t' = slot" and z: "ht_table_size t' = ht_table_size t"
    and ng: "ht_next_generation t' = ht_next_generation t"
    using c v by (auto simp: HandleTable_Close_def Let_def slot_def)
  show "r = RESULT_SUCCESS" by (rule r)
  obtain fs where fs: "free_list t fs" using ok by (auto simp: ht_ok_def)
  then have "unat slot \<notin> set fs" using s(2) by (auto simp: free_list_def)
  then have "free_list t' (unat slot # fs)"
    using fs s unfolding free_list_def o g z nf by (auto simp: chain_upd word_less_nat_alt)
  then show "ht_ok t'" using ok unfolding ht_ok_def o g z ng by auto
  show "ht_lookup t' h' = (if ht_key h' = ht_key h then None else ht_lookup t h')"
    using v by (auto simp: ht_lookup_def HandleTable_IsValid_def Let_def ht_key_def o g z slot_def
        word_unat_eq_iff [symmetric])
qed

interpretation ht: handle_store ht_ok HandleTable_Create HandleTable_Close ht_lookup ht_key
proof
  fix t t' :: "'o HandleTable" and x :: 'o and h h' e r
  assume ok: "ht_ok t"
  show "t' = t" if "HandleTable_Create t x = (t', Inl e)"
    using that by (auto simp: HandleTable_Create_def Let_def split: if_splits)
  show "ht_ok t' \<and> ht_lookup t h = None \<and>
      (\<forall>h'. ht_lookup t' h' = (if ht_key h' = ht_key h then Some x else ht_lookup t h'))"
    if c: "HandleTable_Create t x = (t', Inr h)"
  proof -
    have lt: "ht_next_free_slot t < ht_table_size t"
      using c by (auto simp: HandleTable_Create_def Let_def not_le split: if_splits)
    show ?thesis using Create_at(2) [OF ok lt c] ht_lookup_created [OF ok lt c] by blast
  qed
  show "ht_ok t' \<and> r = RESULT_SUCCESS \<and>
      (\<forall>h'. ht_lookup t' h' = (if ht_key h' = ht_key h then None else ht_lookup t h'))"
    if "ht_lookup t h = Some x" "HandleTable_Close t h = (t', r)"
  proof -
    have "HandleTable_IsValid t h" using that(1) by (simp add: ht_lookup_def split: if_splits)
    with Close_at [OF ok this that(2)] show ?thesis by blast
  qed
  show "HandleTable_Close t h = (t, ERR_INVALID_HANDLE)" if "ht_lookup t h = None"
    using that by (auto simp: ht_lookup_def HandleTable_Close_def HandleTable_IsValid_def Let_def)
  show "ht_lookup t h = ht_lookup t h'" if "ht_key h = ht_key h'"
    using that by (simp add: ht_lookup_def HandleTable_IsValid_def ht_key_def)
qed

subsection \<open>Correctness of the table\<close>

lemma chain_upt:
  assumes "\<And>i. i < m \<Longrightarrow> g i = of_nat (i + 1)" and "m < 65536" and "k \<le> m"
  shows "chain g (of_nat k) [k..<m] (of_nat m)"
  using assms(3)
proof (induction "m - k" arbitrary: k)
  case (Suc d)
  then have lt: "k < m" by simp
  moreover have "chain g (of_nat (Suc k)) [Suc k..<m] (of_nat m)"
    by (rule Suc.hyps(1)) (use Suc.hyps(2) lt in linarith)+
  moreover have "unat (of_nat k :: u16) = k" using lt assms(2) by (simp add: unat_of_nat)
  ultimately show ?case using assms(1) [OF lt] by (simp add: upt_conv_Cons)
qed simp

text \<open>A table with no objects whose slots are linked in order.\<close>

lemma fresh_ok:
  assumes "\<And>i. i < 1024 \<Longrightarrow> ht_generations t i = of_nat (i + 1) \<and> ht_objects t i = None"
    and z: "unat (ht_table_size t) \<le> 1024" and "ht_next_free_slot t = 0" and "ht_next_generation t = 1"
  shows "ht_ok t" and "live t = {}"
proof -
  have "chain (ht_generations t) (of_nat 0) [0..<unat (ht_table_size t)] (of_nat (unat (ht_table_size t)))"
    using assms by (intro chain_upt) auto
  then have "free_list t [0..<unat (ht_table_size t)]" using assms by (auto simp: free_list_def)
  then show "ht_ok t" "live t = {}" using assms by (auto simp: ht_ok_def live_def MAX_COUNT_def)
qed

lemma HandleTable_create_fresh:
  fixes t :: "'o HandleTable" and g :: "nat \<Rightarrow> u16"
  defines "t \<equiv> HandleTable_create g"
  shows "i < 1024 \<Longrightarrow> ht_generations t i = of_nat (i + 1) \<and> ht_objects t i = None"
    and "ht_next_free_slot t = 0" and "ht_next_generation t = 1" and "unat (ht_table_size t) = 1024"
  by (simp_all add: t_def HandleTable_create_def HandleTable_Clear_def MAX_COUNT_def)

text \<open>
  A newly constructed table, and one whose size is then limited by \<open>SetSize\<close>
  to a value from 1 to 1024, satisfies the invariant and holds no object; \<open>SetSize\<close> with a
  larger or a negative value fails and changes nothing.
\<close>

theorem HandleTable_initial:
  fixes t :: "'o HandleTable" and g :: "nat \<Rightarrow> u16"
  defines "t \<equiv> HandleTable_create g"
  shows "ht_ok t \<and> live t = {} \<and>
    (if unat n \<le> 1024 then snd (HandleTable_SetSize t n) = RESULT_SUCCESS \<and> ht_ok (fst (HandleTable_SetSize t n)) \<and>
       live (fst (HandleTable_SetSize t n)) = {} \<and>
       unat (ht_table_size (fst (HandleTable_SetSize t n))) = (if n = 0 then 1024 else unat n)
     else HandleTable_SetSize t n = (t, ERR_OUT_OF_MEMORY))"
proof -
  have f: "\<And>i. i < 1024 \<Longrightarrow> ht_generations t i = of_nat (i + 1) \<and> ht_objects t i = None"
    "ht_next_free_slot t = 0" "ht_next_generation t = 1" "unat (ht_table_size t) = 1024"
    unfolding t_def by (simp_all add: HandleTable_create_fresh)
  have ok: "ht_ok t" "live t = {}" by (rule fresh_ok; use f in simp)+
  have small: "snd (HandleTable_SetSize t n) = RESULT_SUCCESS \<and> ht_ok (fst (HandleTable_SetSize t n)) \<and>
       live (fst (HandleTable_SetSize t n)) = {} \<and>
       unat (ht_table_size (fst (HandleTable_SetSize t n))) = (if n = 0 then 1024 else unat n)"
    if n: "unat n \<le> 1024"
  proof (cases "n = 0")
    case True
    then show ?thesis using ok f(4) by (simp add: HandleTable_SetSize_def MAX_COUNT_def)
  next
    case False
    have "sint n = int (unat n)"
    proof -
      have "uint n \<le> 1024" using of_nat_mono [OF n, where 'a = int] by simp
      moreover have "- 2147483648 \<le> uint n" by (rule order_trans [of _ 0]) simp_all
      ultimately show ?thesis unfolding sint_uint by (subst signed_take_bit_int_eq_self) auto
    qed
    moreover have "0 < unat n" using False by (simp add: unat_gt_0)
    ultimately have "0 < sint n" by linarith
    then have eq: "HandleTable_SetSize t n = (t\<lparr>ht_table_size := ucast n\<rparr>, RESULT_SUCCESS)"
      using n by (simp add: HandleTable_SetSize_def MAX_COUNT_def del: of_nat_unat)
    have z: "unat (ucast n :: u16) = unat n" using n by (simp add: unsigned_ucast_eq take_bit_nat_eq_self)
    have "ht_ok (t\<lparr>ht_table_size := ucast n\<rparr>)" "live (t\<lparr>ht_table_size := ucast n\<rparr>) = {}"
      by (rule fresh_ok; use f z n in simp)+
    then show ?thesis using False eq z by simp
  qed
  have "HandleTable_SetSize t n = (t, ERR_OUT_OF_MEMORY)" if "\<not> unat n \<le> 1024"
    using that by (simp add: HandleTable_SetSize_def MAX_COUNT_def)
  then show ?thesis using ok small by presburger
qed

text \<open>
  \<^bold>\<open>C14\<close>. The table is a finite map from handles to objects. On a table that
  satisfies the invariant, \<open>Create\<close> fails, with \<open>ERR_HANDLE_TABLE_FULL\<close> and without an effect,
  exactly when all \<open>table_size\<close> slots are taken. Otherwise it returns a handle that did not
  refer to anything before; from then on that handle refers to the object and every other one
  to what it referred to before. \<open>Close\<close> of a valid handle takes back exactly that, and of an
  invalid one fails without an effect.
\<close>

theorem HandleTable_refines_map:
  assumes ok: "ht_ok t"
  shows "(case HandleTable_Create t x of
            (t', Inl e) \<Rightarrow> e = ERR_HANDLE_TABLE_FULL \<and> t' = t \<and> card (live t) = unat (ht_table_size t)
          | (t', Inr h) \<Rightarrow> card (live t) < unat (ht_table_size t) \<and> ht_ok t' \<and> ht_lookup t h = None \<and>
              (\<forall>h'. ht_lookup t' h' = (if ht_key h' = ht_key h then Some x else ht_lookup t h')) \<and>
              (\<exists>t''. HandleTable_Close t' h = (t'', RESULT_SUCCESS) \<and> ht_lookup t'' = ht_lookup t)) \<and>
         (case HandleTable_Close t h of
            (t', r) \<Rightarrow> ht_ok t' \<and>
              (if ht_lookup t h = None then r = ERR_INVALID_HANDLE \<and> t' = t
               else r = RESULT_SUCCESS \<and>
                 (\<forall>h'. ht_lookup t' h' = (if ht_key h' = ht_key h then None else ht_lookup t h'))))"
proof
  show "case HandleTable_Create t x of
            (t', Inl e) \<Rightarrow> e = ERR_HANDLE_TABLE_FULL \<and> t' = t \<and> card (live t) = unat (ht_table_size t)
          | (t', Inr h) \<Rightarrow> card (live t) < unat (ht_table_size t) \<and> ht_ok t' \<and> ht_lookup t h = None \<and>
              (\<forall>h'. ht_lookup t' h' = (if ht_key h' = ht_key h then Some x else ht_lookup t h')) \<and>
              (\<exists>t''. HandleTable_Close t' h = (t'', RESULT_SUCCESS) \<and> ht_lookup t'' = ht_lookup t)"
  proof (cases "ht_table_size t \<le> ht_next_free_slot t")
    case True
    then show ?thesis using Create_full [OF ok True] by (simp add: HandleTable_Create_def)
  next
    case False
    then have lt: "ht_next_free_slot t < ht_table_size t" by simp
    obtain t' r where c: "HandleTable_Create t x = (t', r)" by force
    then obtain h where h: "HandleTable_Create t x = (t', Inr h)" using Create_at(1) [OF ok lt c] by simp
    have "live t \<subset> {..<unat (ht_table_size t)}"
    proof
      show "live t \<subseteq> {..<unat (ht_table_size t)}" by (auto simp: live_def)
      show "live t \<noteq> {..<unat (ht_table_size t)}"
        using Create_at(3) [OF ok lt c] lt unfolding live_def word_less_nat_alt by blast
    qed
    then have "card (live t) < unat (ht_table_size t)"
      using psubset_card_mono [of "{..<unat (ht_table_size t)}" "live t"] by simp
    then show ?thesis
      unfolding h prod.case sum.case using ht.create_ok [OF ok h] ht.create_close [OF ok h] by blast
  qed
  show "case HandleTable_Close t h of
            (t', r) \<Rightarrow> ht_ok t' \<and>
              (if ht_lookup t h = None then r = ERR_INVALID_HANDLE \<and> t' = t
               else r = RESULT_SUCCESS \<and>
                 (\<forall>h'. ht_lookup t' h' = (if ht_key h' = ht_key h then None else ht_lookup t h')))"
  proof (cases "ht_lookup t h")
    case None
    then show ?thesis using ht.close_err [OF ok None] ok by simp
  next
    case (Some y)
    obtain t' r where c: "HandleTable_Close t h = (t', r)" by force
    with ht.close_ok [OF ok Some c] Some show ?thesis by simp
  qed
qed

subsection \<open>Reuse of handles\<close>

datatype 'o ht_op = HT_Create 'o | HT_Close Handle

text \<open>The table after a sequence of operations, and the handles created in it, in order.\<close>

fun ht_run :: "'o HandleTable \<Rightarrow> 'o ht_op list \<Rightarrow> 'o HandleTable \<times> Handle list" where
  "ht_run t [] = (t, [])"
| "ht_run t (HT_Create x # ops) =
     (case HandleTable_Create t x of
        (t', Inl e) \<Rightarrow> ht_run t' ops
      | (t', Inr h) \<Rightarrow> (case ht_run t' ops of (t'', hs) \<Rightarrow> (t'', h # hs)))"
| "ht_run t (HT_Close h # ops) = ht_run (fst (HandleTable_Close t h)) ops"

definition gen_at :: "nat \<Rightarrow> nat \<Rightarrow> nat" where
  "gen_at g k = (g - 1 + k) mod 0x7FFF + 1"

lemma mod_add_inj:
  fixes a i j m :: nat
  assumes "(a + i) mod m = (a + j) mod m" and "i < m" and "j < m"
  shows "i = j"
proof -
  have "k = l" if "k \<le> l" "l < m" "(a + k) mod m = (a + l) mod m" for k l
  proof -
    have "m dvd (a + l) - (a + k)" using that mod_eq_dvd_iff_nat [of "a + k" "a + l" m] by auto
    then show ?thesis using that by (auto dest: dvd_imp_le)
  qed
  then show ?thesis using assms by (metis nat_le_linear)
qed

lemma Close_kept:
  assumes "ht_ok t"
  shows "ht_ok (fst (HandleTable_Close t h))"
    and "ht_next_generation (fst (HandleTable_Close t h)) = ht_next_generation t"
proof -
  obtain t' r where c: "HandleTable_Close t h = (t', r)" by force
  show "ht_ok (fst (HandleTable_Close t h))"
    using Close_at(2) [OF assms _ c] assms c
    by (cases "HandleTable_IsValid t h") (simp_all add: HandleTable_Close_def)
  show "ht_next_generation (fst (HandleTable_Close t h)) = ht_next_generation t"
    by (simp add: HandleTable_Close_def Let_def)
qed

lemma ht_run_generations:
  assumes "ht_ok t"
  shows "map (\<lambda>h. unat (GetGeneration h)) (snd (ht_run t ops)) =
         map (gen_at (unat (ht_next_generation t))) [0..<length (snd (ht_run t ops))]"
  using assms
proof (induction t ops rule: ht_run.induct)
  case (2 t x ops)
  show ?case
  proof (cases "ht_table_size t \<le> ht_next_free_slot t")
    case True
    then show ?thesis using 2 by (simp add: HandleTable_Create_def)
  next
    case False
    then have lt: "ht_next_free_slot t < ht_table_size t" by simp
    obtain t' r where c: "HandleTable_Create t x = (t', r)" by force
    note at = Create_at [OF "2.prems" lt c]
    define h where "h = (ucast (ht_next_generation t) OR push_bit 15 (ucast (ht_next_free_slot t)) :: Handle)"
    have r: "r = Inr h" using at(1) by (simp add: h_def)
    have g: "unat (GetGeneration h) = unat (ht_next_generation t)"
      using handle_fields(2) [OF at(7)] by (simp add: h_def)
    have pos: "0 < unat (ht_next_generation t)" "unat (ht_next_generation t) < 0x8000"
      using "2.prems" by (simp_all add: ht_ok_def)
    have first: "gen_at (unat (ht_next_generation t)) 0 = unat (ht_next_generation t)"
      using pos by (simp add: gen_at_def)
    have rest: "gen_at (unat (ht_next_generation t')) k = gen_at (unat (ht_next_generation t)) (Suc k)" for k
    proof -
      have "unat (ht_next_generation t) - 1 + Suc k = unat (ht_next_generation t) + k" using pos by simp
      moreover have "(unat (ht_next_generation t) mod 0x7FFF + k) mod 0x7FFF = (unat (ht_next_generation t) + k) mod 0x7FFF"
        by (rule mod_add_left_eq)
      ultimately show ?thesis unfolding at(8) gen_at_def by simp
    qed
    obtain t'' hs where run: "ht_run t' ops = (t'', hs)" by force
    have "map (\<lambda>h. unat (GetGeneration h)) hs = map (gen_at (unat (ht_next_generation t'))) [0..<length hs]"
      using "2.IH"(2) [OF c [symmetric] r at(2)] run by simp
    then have "map (\<lambda>h. unat (GetGeneration h)) (h # hs) =
        map (gen_at (unat (ht_next_generation t))) (0 # map Suc [0..<length hs])"
      using g first rest by simp
    also have "0 # map Suc [0..<length hs] = [0..<length (h # hs)]" by (simp add: upt_conv_Cons map_Suc_upt del: upt_Suc)
    finally show ?thesis using c r run by simp
  qed
next
  case (3 t h ops)
  then show ?case using Close_kept [OF "3.prems", of h] by simp
qed simp

text \<open>
  \<^bold>\<open>C15\<close>. Any 32767 handles that are created one after the other, with handles closed
  at any points in between, are different from each other: a handle that was closed is not given
  out again, and so stays invalid, until the generation counter has come around.
\<close>

theorem handles_not_reused:
  assumes ok: "ht_ok t" and few: "length (snd (ht_run t ops)) \<le> 0x7FFF"
  shows "distinct (snd (ht_run t ops))"
proof -
  let ?g = "gen_at (unat (ht_next_generation t))"
  have "inj_on ?g {0..<0x7FFF}"
  proof (rule inj_onI)
    fix i j
    assume "i \<in> {0..<0x7FFF}" "j \<in> {0..<0x7FFF}" "?g i = ?g j"
    then have "i < 0x7FFF" "j < 0x7FFF" "(unat (ht_next_generation t) - 1 + i) mod 0x7FFF =
        (unat (ht_next_generation t) - 1 + j) mod 0x7FFF" by (simp_all add: gen_at_def)
    then show "i = j" by (metis mod_add_inj)
  qed
  then have "distinct (map ?g [0..<length (snd (ht_run t ops))])"
    using few by (simp add: distinct_map inj_on_subset)
  then have "distinct (map (\<lambda>h. unat (GetGeneration h)) (snd (ht_run t ops)))"
    using ht_run_generations [OF ok] by metis
  then show ?thesis by (simp add: distinct_map)
qed

end
