(* ===== verification/Kernel_Examples.thy ===== *)
theory Kernel_Examples
  imports Handle_Table_Correct Multi_Level_Queue_Correct
begin

unbundle bit_operations_syntax

text \<open>
  Concrete handle tables and multi-level queues: the properties of \<open>Handle_Table_Correct\<close> and
  \<open>Multi_Level_Queue_Correct\<close> applied to them.
\<close>

section \<open>A handle table of two slots\<close>

definition example_table :: "nat HandleTable" where
  "example_table = fst (HandleTable_SetSize (HandleTable_create (\<lambda>_. 0)) 2)"

lemma example_table_value:
  "example_table = (HandleTable_create (\<lambda>_. 0))\<lparr>ht_table_size := 2\<rparr>"
  by (simp add: example_table_def HandleTable_SetSize_def MAX_COUNT_def)

lemma example_table_ok: "ht_ok example_table"
  by (rule fresh_ok)
    (simp_all add: example_table_value HandleTable_create_def HandleTable_Clear_def MAX_COUNT_def)

lemma example_table_ops:
  "HandleTable_Create example_table x = (t1, Inr 1) \<Longrightarrow> ht_lookup t1 1 = Some x"
  "snd (HandleTable_Create example_table x) = Inr 1"
  "ht_lookup example_table h = None"
  by (auto simp: example_table_value HandleTable_create_def HandleTable_Clear_def HandleTable_Create_def Let_def
      ht_lookup_def HandleTable_IsValid_def GetSlot_def GetGeneration_def MAX_COUNT_def)

theorem HandleTable_refines_map_witness:
  "ht_ok example_table \<and> card (live example_table) < 2 \<and>
   ht_lookup (fst (HandleTable_Create example_table 7)) 1 = Some 7 \<and>
   (\<exists>t. HandleTable_Close (fst (HandleTable_Create example_table 7)) 1 = (t, RESULT_SUCCESS) \<and>
        ht_lookup t = ht_lookup example_table)"
proof -
  obtain t where t: "HandleTable_Create example_table 7 = (t, Inr 1)"
    using example_table_ops(2) [of 7] by (metis prod.collapse)
  have "unat (ht_table_size example_table) = 2" by (simp add: example_table_value)
  then show ?thesis
    using HandleTable_refines_map [OF example_table_ok, of 7 0] example_table_ok by (simp add: t)
qed

theorem handles_not_reused_witness:
  "ht_ok example_table \<and>
   snd (ht_run example_table [HT_Create 7, HT_Close 1, HT_Create 8, HT_Create 9, HT_Create 10]) = [1, 2, 0x8003] \<and>
   distinct (snd (ht_run example_table [HT_Create 7, HT_Close 1, HT_Create 8, HT_Create 9, HT_Create 10]))"
proof -
  have run: "snd (ht_run example_table [HT_Create 7, HT_Close 1, HT_Create 8, HT_Create 9, HT_Create 10]) = [1, 2, 0x8003]"
    by (simp add: example_table_value HandleTable_create_def HandleTable_Clear_def HandleTable_Create_def Let_def word_le_nat_alt
      HandleTable_Close_def HandleTable_IsValid_def GetSlot_def GetGeneration_def MAX_COUNT_def)
  then show ?thesis using handles_not_reused [OF example_table_ok] example_table_ok by simp
qed

section \<open>Queues of depth 64\<close>

definition example_queue :: "nat MultiLevelQueue" where
  "example_queue = \<lparr>mlq_levels = (\<lambda>_. [])(3 := [30, 31], 5 := [50], 7 := [70]), mlq_used = 2 ^ 3 OR 2 ^ 5 OR 2 ^ 7\<rparr>"

lemma example_queue_ok: "mlq_ok 64 example_queue"
  unfolding mlq_ok_def example_queue_def MultiLevelQueue.select_convs bit_or_iff bit_exp_iff by auto

lemma example_queue_elems: "mlq_elems 64 example_queue 0 = [30, 31, 50, 70]"
  by (simp add: mlq_elems_def example_queue_def upt_rec)

theorem mlq_queries_witness:
  "mlq_ok 64 example_queue \<and> \<not> mlq_empty example_queue \<and> mlq_size example_queue = Some 4 \<and>
   mlq_front 64 example_queue 0 = Some 30 \<and> mlq_back 64 example_queue 63 = Some 70 \<and>
   highest_priority_set 64 example_queue 4 = Some 5 \<and>
   mlq_find 64 example_queue (\<lambda>x. 40 < x) = Some (Some 50)"
proof -
  have it: "mlq_iterable example_queue" by (simp add: mlq_iterable_def example_queue_def)
  have "next_level 64 example_queue 4 = 5" by (simp add: next_level_def example_queue_def upt_rec)
  then show ?thesis
    using mlq_queries [OF example_queue_ok, of 4 "\<lambda>x. 40 < x"] example_queue_ok it
    by (simp add: example_queue_elems)
qed

theorem mlq_updates_witness:
  "mlq_ok 64 example_queue \<and> 3 < (64 :: nat) \<and> 5 < (64 :: nat) \<and>
   (\<exists>r. mlq_adjust 64 example_queue 30 3 5 False = Some r \<and> mlq_levels r 3 = [31] \<and> mlq_levels r 5 = [50, 30]) \<and>
   (\<exists>r o'. mlq_transfer_to_front 64 example_queue 30 3 example_queue = Some (r, o') \<and>
      mlq_levels r 3 = [31] \<and> mlq_levels o' 3 = [30, 30, 31])"
proof -
  have "30 \<in> set (mlq_levels example_queue 3)" by (simp add: example_queue_def)
  then show ?thesis
    using mlq_updates [OF example_queue_ok, of 3 5 30 True False 1 example_queue] example_queue_ok
    by (auto simp: example_queue_def)
qed

definition example_low_queue :: "nat MultiLevelQueue" where
  "example_low_queue = \<lparr>mlq_levels = (\<lambda>_. [])(63 := [7]), mlq_used = 2 ^ 63\<rparr>"

theorem mlq_next_undefined_witness:
  "mlq_ok 64 example_low_queue \<and> mlq_begin 64 example_low_queue 0 = Some \<lparr>it_prio = 63, it_pos = 0\<rparr> \<and>
   mlq_next 64 example_low_queue \<lparr>it_prio = 63, it_pos = 0\<rparr> = None"
proof -
  have ok: "mlq_ok 64 example_low_queue"
    unfolding mlq_ok_def example_low_queue_def MultiLevelQueue.select_convs bit_exp_iff by auto
  have "next_level 64 example_low_queue 0 = 63" by (simp add: next_level_def example_low_queue_def upt_rec)
  then have "mlq_begin 64 example_low_queue 0 = Some \<lparr>it_prio = 63, it_pos = 0\<rparr>"
    using highest_priority_set_at [OF ok, of 0] by (simp add: mlq_begin_def)
  then show ?thesis
    using ok mlq_next_undefined [of 0 example_low_queue] by (simp add: example_low_queue_def)
qed

theorem mlq_prev_skips_witness:
  "mlq_ok 64 example_queue \<and> mlq_levels example_queue 5 = [50] \<and>
   mlq_prev 64 example_queue \<lparr>it_prio = 7, it_pos = 0\<rparr> = Some \<lparr>it_prio = 3, it_pos = 1\<rparr>"
proof -
  have "next_level 64 example_queue 0 = 3" by (simp add: next_level_def example_queue_def upt_rec)
  then show ?thesis
    using mlq_prev_skips [OF example_queue_ok, of 7] example_queue_ok by (simp add: example_queue_def)
qed

end
