(* ===== verification/Thread_Examples.thy ===== *)
theory Thread_Examples
  imports Arbiter_Correct Guest_Examples Kernel_Examples
begin

text \<open>
  A concrete kernel with four threads, to which the properties of threads, schedulers, mutexes and
  the address arbiter are applied: thread 1 runs on core 0, thread 2 is ready to run there, thread 3
  is about to wait for a mutex, thread 4 waits on an address.
\<close>

unbundle bit_operations_syntax

section \<open>A kernel with four threads\<close>

definition example_context :: "u64 \<Rightarrow> ThreadContext" where
  "example_context pc = \<lparr>ctx_cpu_registers = (\<lambda>_. 0), ctx_sp = 0, ctx_pc = pc, ctx_pstate = 0,
     ctx_vector_registers = (\<lambda>_. (0, 0)), ctx_fpcr = 0, ctx_fpsr = 0, ctx_tpidr = 0\<rparr>"

definition example_thread :: "u64 \<Rightarrow> ThreadStatus \<Rightarrow> nat \<Rightarrow> nat Thread" where
  "example_thread i st p = \<lparr>th_context = example_context (0x1000 * i), th_thread_id = i, th_status = st,
     th_entry_point = 0, th_stack_top = 0, th_nominal_priority = p, th_current_priority = p,
     th_total_cpu_time_ticks = 0, th_last_running_ticks = 0, th_processor_id = 0, th_tls_address = 0,
     th_tpidr_el0 = 0, th_owner_process = 0, th_wait_objects = [], th_wait_mutex_threads = [],
     th_lock_owner = None, th_condvar_wait_address = 0, th_mutex_wait_address = 0, th_wait_handle = 0,
     th_arb_wait_address = 0, th_callback_handle = 0, th_wakeup_callback = None, th_scheduler = 0,
     th_ideal_core = 0, th_affinity_mask = 1, th_activity = ActivityNormal\<rparr>"

definition example_scheduler :: "tid option \<Rightarrow> (nat \<times> tid) list \<Rightarrow> Scheduler" where
  "example_scheduler cur ready = \<lparr>sc_thread_list = [], sc_ready_queue =
     \<lparr>mlq_levels = (\<lambda>p. map snd (filter (\<lambda>r. fst r = p) ready)), mlq_used = foldr (\<lambda>r w. w OR 2 ^ fst r) ready 0\<rparr>,
     sc_current_thread = cur, sc_last_context_switch_time = 0\<rparr>"

definition example_timing :: "kcallback CoreTiming" where
  "example_timing = CoreTiming_create\<lparr>ct_downcount := 20000, ct_slice_length := 20000, ct_is_global_timer_sane := True,
     ct_event_types := [''_lost_event'' \<mapsto> empty_timed_callback, ''wakeup'' \<mapsto> Callback ThreadWakeupCallbackEvent],
     ct_ev_lost := Some ''_lost_event''\<rparr>"

definition example_process :: Process where
  "example_process = \<lparr>pr_vm_manager = example_ram, pr_handle_table = fst (HandleTable_Create example_table 2), pr_thread_list = [],
     pr_tls_slots = [], pr_total_process_running_time_ticks = 0\<rparr>"

definition example_kernel :: "nat Kernel" where
  "example_kernel = \<lparr>
     k_threads = [1 \<mapsto> example_thread 1 Running 44, 2 \<mapsto> example_thread 2 Ready 50,
       3 \<mapsto> (example_thread 3 WaitMutex 30)\<lparr>th_mutex_wait_address := 0x8000000, th_wait_handle := 7\<rparr>,
       4 \<mapsto> (example_thread 4 WaitArb 40)\<lparr>th_arb_wait_address := 0x8000000\<rparr>],
     k_waiting_threads = (\<lambda>_. []), k_events = Map.empty, k_processes = [0 \<mapsto> example_process], k_current_process = Some 0,
     k_schedulers = (\<lambda>_. example_scheduler None [])(0 := (example_scheduler (Some 1) [(50, 2)])\<lparr>sc_thread_list := [1, 2, 3, 4]\<rparr>),
     k_cpus = (\<lambda>_. \<lparr>cpu_context = example_context 0x1040, cpu_tls_address = 0, cpu_tpidr_el0 = 0, cpu_reschedule_pending = False\<rparr>),
     k_current_core = 0, k_core_timing = example_timing, k_thread_wakeup_event_type = Some ''wakeup'',
     k_thread_wakeup_callback_handle_table = HandleTable_create (\<lambda>_. 0), k_next_thread_id = 5, k_memory = (\<lambda>_. 0)\<rparr>"

lemma example_threads:
  "thread_at example_kernel t = (if t = 1 then Some (example_thread 1 Running 44)
     else if t = 2 then Some (example_thread 2 Ready 50) 
     else if t = 3 then Some ((example_thread 3 WaitMutex 30)\<lparr>th_mutex_wait_address := 0x8000000, th_wait_handle := 7\<rparr>)
     else if t = 4 then Some ((example_thread 4 WaitArb 40)\<lparr>th_arb_wait_address := 0x8000000\<rparr>) else None)"
  by (simp add: example_kernel_def)

lemma example_locks: "lock_owner example_kernel t = None" "waiters example_kernel t = []" "lock_rel example_kernel = {}"
  by (auto simp: view_defs lock_rel_def example_threads example_thread_def)

lemma example_ready_queue:
  "mlq_ok 64 (ready_of example_kernel c)"
  "mlq_count (ready_of example_kernel c) p t = (if c = 0 \<and> p = 50 \<and> t = 2 then 1 else 0)"
proof -
  show "mlq_ok 64 (ready_of example_kernel c)"
  proof (cases "c = 0")
    case True
    then have q: "ready_of example_kernel c = \<lparr>mlq_levels = (\<lambda>p. if p = 50 then [2] else []), mlq_used = 0 OR 2 ^ 50\<rparr>"
      by (auto simp: example_kernel_def example_scheduler_def)
    show ?thesis
      unfolding mlq_ok_def q MultiLevelQueue.select_convs bit_or_iff bit_exp_iff by auto
  qed (simp add: mlq_ok_def example_kernel_def example_scheduler_def)
  show "mlq_count (ready_of example_kernel c) p t = (if c = 0 \<and> p = 50 \<and> t = 2 then 1 else 0)"
    by (auto simp: mlq_count_def example_kernel_def example_scheduler_def)
qed

lemma example_inv: "sched_inv example_kernel"
proof -
  have "ready_ok example_kernel"
    by (auto simp: ready_ok_def example_ready_queue is_queued_def example_threads example_thread_def)
  moreover have "prios_ok example_kernel"
    by (auto simp: prios_ok_def example_threads example_thread_def split: if_splits)
  moreover have "inherits example_kernel t" for t
    by (simp add: inherits_def example_locks nominal_def thread_prio_def example_threads example_thread_def)
  ultimately show ?thesis
    by (simp add: sched_inv_def links_ok_def waiters_sorted_def example_locks acyclic_def)
qed

theorem priority_inheritance_witness:
  "\<exists>k'. sched_inv example_kernel \<and> AddMutexWaiter example_kernel 1 3 = Some k' \<and>
     lock_step\<^sup>*\<^sup>* example_kernel k' \<and> thread_prio k' 1 = most_urgent k' 1"
proof -
  obtain k' where k': "AddMutexWaiter example_kernel 1 3 = Some k'"
    using AddMutexWaiter_at [OF example_inv, of 3 1] by (auto simp: example_locks example_threads)
  then have "lock_step example_kernel k'"
    by (intro lock_step.intros(2) [of _ 3 1]) (simp_all add: example_locks)
  then have "lock_step\<^sup>*\<^sup>* example_kernel k'" by blast
  then show ?thesis using priority_inheritance [OF example_inv, of k' 1] k' example_inv by blast
qed

theorem priority_updates_return_witness:
  "sched_inv example_kernel \<and> thread_at example_kernel 3 \<noteq> None \<and> thread_at example_kernel 1 \<noteq> None \<and>
   (\<exists>k'. SetPriority example_kernel 3 20 = Some k') \<and> SetPriority example_kernel 3 64 = None \<and>
   (\<exists>k'. AddMutexWaiter example_kernel 1 3 = Some k') \<and> RemoveMutexWaiter example_kernel 1 3 = None"
proof -
  have ex: "thread_at example_kernel 3 \<noteq> None" "thread_at example_kernel 1 \<noteq> None" by (simp_all add: example_threads)
  show ?thesis
    using priority_updates_return [OF example_inv ex, of 20] priority_updates_return [OF example_inv ex, of 64]
      example_inv ex by (auto simp: example_locks)
qed

section \<open>Rescheduling\<close>

lemma example_switch_ok: "switch_ok example_kernel 0"
  by (simp add: switch_ok_def example_kernel_def example_scheduler_def example_timing_def GetTicks_def CoreTiming_create_def
      example_thread_def)

theorem Reschedule_correct_witness:
  "sched_inv example_kernel \<and> switch_ok example_kernel 0 \<and> runnable example_kernel 0 2 \<and>
   (\<exists>k'. Reschedule example_kernel 0 = Some k' \<and> sched_inv k' \<and> sc_current_thread (k_schedulers k' 0) \<noteq> None)"
proof -
  have "runnable example_kernel 0 2" by (simp add: runnable_def example_threads example_thread_def)
  then show ?thesis
    using Reschedule_correct [OF example_inv example_switch_ok] example_inv example_switch_ok
    by (fastforce simp: best_thread_def split: option.splits)
qed

section \<open>Mutexes\<close>

lemma example_word_mapped: "word_mapped idle_gpu example_kernel 0x8000000"
  using idle_gpu_idle example_ram_ok(1,2) example_translate(1) [of "0x8000000"]
  by (simp add: word_mapped_def current_vm_def example_kernel_def example_process_def)

lemma prio_frame_current: "prio_frame k k' \<Longrightarrow> current_thread_of k' = current_thread_of k"
  by (auto simp: prio_frame_def same_but_queues_def current_thread_of_def sched_at_def GetCurrentThread_def)

lemma example_current: "current_thread_of example_kernel = Some 1"
  by (simp add: current_thread_of_def example_kernel_def example_scheduler_def sched_at_def NUM_CPU_CORES_def GetCurrentThread_def)

theorem Mutex_Release_correct_witness:
  "\<exists>k k' :: nat Kernel. sched_inv k \<and> mutex_waiters k 1 0x8000000 = [3] \<and>
     Mutex_Release idle_gpu k 0x8000000 = Some (k', RESULT_SUCCESS) \<and> handed_over idle_gpu k 0x8000000 3 [] k'"
proof -
  obtain k where k: "AddMutexWaiter example_kernel 1 3 = Some k" "sched_inv k" "lock_owner k = (lock_owner example_kernel)(3 \<mapsto> 1)"
    "prio_frame example_kernel k"
    using AddMutexWaiter_at [OF example_inv, of 3 1] by (auto simp: example_locks example_threads)
  have lo: "lock_owner k t = (if t = 3 then Some 1 else None)" for t by (simp add: k(3) example_locks)
  then have "set (waiters k 1) = {3}" "distinct (waiters k 1)" using k(2) by (auto simp: sched_inv_def links_ok_def split: if_splits)
  then have ws: "waiters k 1 = [3]" by (cases "waiters k 1"; cases "tl (waiters k 1)") auto
  have w3: "waits_at k 0x8000000 3"
    by (simp add: prio_frame_waits_at [OF k(4)] waits_at_def example_threads)
  then have mw: "mutex_waiters k 1 0x8000000 = [3]" unfolding mutex_waiters_def ws by simp
  obtain p w l where "thread_at k 3 = Some ((example_thread 3 WaitMutex 30)\<lparr>th_mutex_wait_address := 0x8000000, th_wait_handle := 7,
      th_current_priority := p, th_wait_mutex_threads := w, th_lock_owner := l\<rparr>)"
    using prio_frame_thread(1) [OF k(4), of 3] by (auto simp: example_threads)
  then have ok: "\<forall>t\<in>set (mutex_waiters k 1 0x8000000). \<forall>th. thread_at k t = Some th \<longrightarrow> mutex_waiter_ok th"
    unfolding mw by (simp add: mutex_waiter_ok_def placeable_def example_thread_def)
  have cur: "current_thread_of k = Some 1" "thread_at k 1 \<noteq> None"
    using prio_frame_current [OF k(4)] example_current prio_frame_thread(2) [OF k(4), of 1] by (auto simp: example_threads)
  have wm: "word_mapped idle_gpu k 0x8000000" using example_word_mapped by (simp add: word_mapped_def prio_frame_world(1) [OF k(4)])
  show ?thesis using Mutex_Release_correct [OF k(2) _ cur wm ok] mw k(2) by auto
qed

lemma example_handles: "get_thread example_kernel 0xFFFF8000 = Some (Some 1)" "get_thread example_kernel 1 = Some (Some 2)"
proof -
  show "get_thread example_kernel 0xFFFF8000 = Some (Some 1)"
    using example_current by (simp add: get_thread_def HandleTable_GetGeneric_def CurrentThread_def example_kernel_def)
  obtain t where t: "HandleTable_Create example_table 2 = (t, Inr 1)"
    using example_table_ops(2) [of 2] by (metis prod.collapse)
  then have "ht_lookup t 1 = Some 2" using example_table_ops(1) by blast
  then show "get_thread example_kernel 1 = Some (Some 2)"
    using t by (simp add: get_thread_def HandleTable_GetGeneric_def CurrentThread_def CurrentProcess_def example_kernel_def example_process_def
        ht_lookup_def split: if_splits)
qed

theorem Mutex_TryAcquire_correct_witness:
  "\<exists>k k' :: nat Kernel. sched_inv k \<and> word_at idle_gpu k 0x8000000 (1 OR MutexHasWaitersFlag) \<and>
     Mutex_TryAcquire idle_gpu k 0x8000000 1 0xFFFF8000 = Some (k', RESULT_SUCCESS) \<and>
     waits_for_mutex k 0x8000000 1 0xFFFF8000 2 k'"
proof -
  obtain h where h: "word_at idle_gpu (example_kernel\<lparr>k_memory := h\<rparr>) 0x8000000 (1 OR MutexHasWaitersFlag)"
  proof -
    obtain h where "\<forall>k' :: nat Kernel. k_memory k' = h \<and> current_vm k' = current_vm example_kernel \<longrightarrow>
        word_at idle_gpu k' 0x8000000 (1 OR MutexHasWaitersFlag)"
      using k_Write32_at [OF example_word_mapped, of "1 OR MutexHasWaitersFlag"] by blast
    then show ?thesis using that [of h] by (simp add: current_vm_def)
  qed
  define k where "k = example_kernel\<lparr>k_memory := h\<rparr>"
  have inv: "sched_inv k" using example_inv by (simp add: k_def)
  have th: "thread_at k = thread_at example_kernel" by (simp add: k_def)
  have lo: "lock_owner k = (\<lambda>_. None)" by (auto simp: fun_eq_iff k_def lock_owner_def example_threads example_thread_def)
  then have lr: "lock_rel k = {}" by (simp add: lock_rel_def)
  have cur: "current_thread_of k = Some 1" "thread_at k 1 = Some (example_thread 1 Running 44)" "th_status (example_thread 1 Running 44) = Running"
    "lock_owner k 1 = None"
  proof -
    have "current_thread_of k = current_thread_of example_kernel" by (simp add: k_def current_thread_of_def sched_at_def)
    then show "current_thread_of k = Some 1" using example_current by simp
  qed (simp_all add: th example_threads lo, simp add: example_thread_def)
  have env: "GetTicks (k_core_timing k) \<noteq> None" "k_current_core k < 4" "word_mapped idle_gpu k 0x8000000"
    using example_word_mapped
    by (simp_all add: k_def word_mapped_def current_vm_def example_kernel_def example_timing_def GetTicks_def CoreTiming_create_def)
  have gt: "get_thread k x = get_thread example_kernel x" for x
    by (simp add: get_thread_def k_def current_thread_of_def sched_at_def)
  have handles: "get_thread k 0xFFFF8000 = Some (Some 1)" "get_thread k 1 = Some (Some 2)" unfolding gt by (rule example_handles)+
  have "\<forall>h. Some 2 = Some h \<longrightarrow> thread_at k h \<noteq> None \<and> (1, h) \<notin> (lock_rel k)\<^sup>*" by (simp add: th example_threads lr)
  from Mutex_TryAcquire_correct [OF inv cur env handles this] h [folded k_def] inv
  show ?thesis by auto
qed

section \<open>The address arbiter\<close>

lemma sort_key_std_sort: "is_std_sort sort_key"
  by (simp add: is_std_sort_def)

lemma example_all_threads: "all_threads example_kernel = [1, 2, 3, 4]"
  by (simp add: example_kernel_def example_scheduler_def upt_rec)

lemma example_arb_waiters: "arb_waiters example_kernel 0x8000000 = {4}"
  by (auto simp: arb_waiters_def example_all_threads waits_on_def example_threads example_thread_def)

theorem SignalToAddress_correct_witness:
  "sched_inv example_kernel \<and> is_std_sort sort_key \<and> arb_waiters example_kernel 0x8000000 = {4} \<and>
   (\<exists>k'. SignalToAddress sort_key idle_gpu example_kernel 0x8000000 0 5 1 = Some (k', RESULT_SUCCESS) \<and> wakes example_kernel 0x8000000 1 k')"
proof -
  have ok: "\<forall>t\<in>arb_waiters example_kernel 0x8000000. \<forall>th. thread_at example_kernel t = Some th \<longrightarrow> arb_waiter_ok th"
    by (simp add: example_arb_waiters example_threads arb_waiter_ok_def placeable_def example_thread_def)
  have d: "distinct (all_threads example_kernel)" unfolding example_all_threads by simp
  from SignalToAddress_correct [OF example_inv sort_key_std_sort d ok example_word_mapped, of 5 0 1]
  show ?thesis using example_inv sort_key_std_sort example_arb_waiters
    by (auto simp: SignalType_Signal_def)
qed

theorem SignalToAddress_null_witness:
  "is_std_sort sort_key \<and> SignalToAddress sort_key idle_gpu example_kernel 0 SignalType_Signal 0 (-1) = None"
proof -
  have t: "1 \<in> set (all_threads example_kernel)" unfolding example_all_threads by simp
  have th: "thread_at example_kernel 1 = Some (example_thread 1 Running 44)" by (simp add: example_threads)
  show ?thesis
    using SignalToAddress_null [OF sort_key_std_sort t th, of "-1"] sort_key_std_sort by (simp add: example_thread_def)
qed

end
