(* ===== verification/Cpu_Examples.thy ===== *)
theory Cpu_Examples
  imports Cpu_Core Thread_Examples
begin

text \<open>The properties of \<open>Cpu_Core\<close> applied to a kernel whose only thread sleeps.\<close>

section \<open>A sleeping thread\<close>

definition sleep_timing :: "kcallback CoreTiming" where
  "sleep_timing = example_timing\<lparr>ct_is_global_timer_sane := False,
     ct_event_queue := [\<lparr>ev_time = 50000, ev_fifo_order = 0, ev_userdata = 1, ev_type = Some ''wakeup''\<rparr>]\<rparr>"

definition sleep_kernel :: "nat Kernel" where
  "sleep_kernel = example_kernel\<lparr>k_threads := [1 \<mapsto> example_thread 1 WaitSleep 44],
     k_schedulers := (\<lambda>_. example_scheduler None []), k_core_timing := sleep_timing,
     k_thread_wakeup_callback_handle_table := fst (HandleTable_Create example_table 1)\<rparr>"

lemma sleep_thread: "thread_at sleep_kernel t = (if t = 1 then Some (example_thread 1 WaitSleep 44) else None)"
  by (simp add: sleep_kernel_def)

lemma sleep_inv: "sched_inv sleep_kernel"
proof -
  have l: "lock_owner sleep_kernel t = None" "waiters sleep_kernel t = []" "lock_rel sleep_kernel = {}" for t
    by (auto simp: view_defs lock_rel_def sleep_thread example_thread_def)
  have "ready_ok sleep_kernel"
    by (auto simp: ready_ok_def mlq_ok_def mlq_count_def is_queued_def sleep_kernel_def example_scheduler_def example_thread_def)
  moreover have "prios_ok sleep_kernel"
    by (auto simp: prios_ok_def sleep_thread example_thread_def split: if_splits)
  moreover have "inherits sleep_kernel t" for t
    by (simp add: inherits_def l nominal_def thread_prio_def sleep_thread example_thread_def)
  ultimately show ?thesis
    by (simp add: sched_inv_def links_ok_def waiters_sorted_def l acyclic_def)
qed

lemma sleep_handle: "RetrieveThreadFromWakeupCallbackHandleTable sleep_kernel 1 = Some 1"
proof -
  obtain t where t: "HandleTable_Create example_table 1 = (t, Inr 1)"
    using example_table_ops(2) [of 1] by (metis prod.collapse)
  then have "ht_lookup t 1 = Some 1" using example_table_ops(1) by blast
  then show ?thesis
    using t by (simp add: RetrieveThreadFromWakeupCallbackHandleTable_def HandleTable_GetGeneric_def CurrentThread_def CurrentProcess_def
        sleep_kernel_def ht_lookup_def split: if_splits)
qed

lemma sleep_asleep: "asleep sleep_kernel 1 50000"
proof -
  have "timing_until sleep_kernel 1 50000"
    using sleep_handle by (simp add: timing_until_def Let_def sleep_kernel_def sleep_timing_def example_timing_def CoreTiming_create_def
        MAX_SLICE_LENGTH_def)
  moreover have "\<not> runnable sleep_kernel 0 u" for u
    by (simp add: runnable_def sleep_thread example_thread_def)
  moreover have "sleeper (example_thread 1 WaitSleep 44)" "placeable (example_thread 1 WaitSleep 44)"
    by (simp_all add: sleeper_def placeable_def example_thread_def)
  ultimately show ?thesis
    using sleep_inv by (simp add: asleep_def sleep_thread) (simp add: sleep_kernel_def example_kernel_def example_scheduler_def)
qed

theorem sleeping_thread_runs_witness:
  "asleep sleep_kernel 1 50000 \<and>
   (\<exists>n k'. ((\<lambda>m. m \<bind> (\<lambda>k. Cpu_RunLoop (\<lambda>_ _ _ _ _ _. None) (\<lambda>_ _ _ _. None) (\<lambda>_ k. Some k) k 0)) ^^ n) (Some sleep_kernel) = Some k' \<and>
      status_of k' 1 = Some Running \<and> ct_global_timer (k_core_timing k') = 50000)"
  using sleeping_thread_runs [OF sleep_asleep] sleep_asleep by blast

section \<open>A lost timeout\<close>

lemma load_next_timing:
  assumes "load_next k c p t = Some k1" "thread_at k t = Some th"
  shows "k_core_timing k1 = UnscheduleEventThreadsafe (k_core_timing k) (k_thread_wakeup_event_type k) (ucast (th_callback_handle th))"
    "k_thread_wakeup_event_type k1 = k_thread_wakeup_event_type k"
  using assms by (auto simp: load_next_def CancelWakeupTimer_def SetStatus_def set_sched_def bind_eq_Some_conv Let_def split: if_splits)

theorem early_sleep_lost_witness:
  "\<exists>k1 k2 ct. load_next example_kernel 0 (Some 0) 2 = Some k1 \<and> Sleep k1 2 1000 = Some k2 \<and>
     begin_slice (k_core_timing k2) = Some ct \<and> status_of k2 2 = Some WaitSleep \<and> ct_event_queue ct = []"
proof -
  have th: "thread_at example_kernel 2 = Some (example_thread 2 Ready 50)" by (simp add: example_threads)
  have "th_status (example_thread 2 Ready 50) = Ready" "th_scheduler (example_thread 2 Ready 50) = 0" "k_current_process example_kernel = Some 0"
    by (simp_all add: example_thread_def example_kernel_def)
  then obtain k1 where k1: "load_next example_kernel 0 (Some 0) 2 = Some k1" "loaded example_kernel 0 2 (example_thread 2 Ready 50) k1"
    using load_next_at [OF example_inv _ th] by auto
  define ct1 where "ct1 = example_timing\<lparr>ct_unschedule_queue := [(Some ''wakeup'', 0)]\<rparr>"
  have t1: "k_core_timing k1 = ct1" "k_thread_wakeup_event_type k1 = Some ''wakeup''"
    using load_next_timing [OF k1(1) th]
    by (simp_all add: ct1_def UnscheduleEventThreadsafe_def example_kernel_def example_timing_def CoreTiming_create_def example_thread_def)
  have th1: "thread_at k1 2 = Some ((example_thread 2 Ready 50)\<lparr>th_status := Running\<rparr>)" using k1(2) by (simp add: loaded_def)
  define ct2 where "ct2 = ct1\<lparr>ct_ts_queue := [\<lparr>ev_time = nsToCycles_s64 1000, ev_fifo_order = 0, ev_userdata = 0, ev_type = Some ''wakeup''\<rparr>]\<rparr>"
  have ns: "s64_range (nsToCycles_s64 1000) = Some (nsToCycles_s64 1000)"
    by (simp add: s64_range_def nsToCycles_s64_def MAX_VALUE_TO_MULTIPLY_def BASE_CLOCK_RATE_def)
  obtain k2 th2 where k2: "Sleep k1 2 1000 = Some k2" "k_core_timing k2 = ct2" "k_thread_wakeup_event_type k2 = Some ''wakeup''"
    "thread_at k2 2 = Some th2" "th_callback_handle th2 = 0"
    using th1 t1 ns by (simp add: Sleep_def SetStatus_def WakeAfterDelay_def ScheduleEventThreadsafe_def GetTicks_def ct2_def ct1_def example_timing_def
        CoreTiming_create_def example_thread_def)
  obtain ct where ct: "begin_slice ct2 = Some ct" "set (ct_event_queue ct) \<subseteq> {e. (ev_type e, ev_userdata e) = (Some ''wakeup'', 0)}"
    by (simp add: begin_slice_def ct2_def ct1_def example_timing_def CoreTiming_create_def MoveEvents_def push_event_def UnscheduleEvent_def
        s32_range_def s64_range_def)
  have l: "status_of k2 2 = Some WaitSleep" "\<forall>e\<in>set (ct_event_queue ct). (ev_type e, ev_userdata e) \<noteq> (Some ''wakeup'', 0)"
    using early_sleep_lost [OF k1(1) k2(1), of ct] k2 ct(1) by auto
  have "ct_event_queue ct = []"
  proof (cases "ct_event_queue ct")
    case (Cons e es)
    then have "(ev_type e, ev_userdata e) \<noteq> (Some ''wakeup'', 0)" "(ev_type e, ev_userdata e) = (Some ''wakeup'', 0)" using l(2) ct(2) by auto
    then show ?thesis by blast
  qed
  then show ?thesis using k1(1) k2(1,2) ct(1) l(1) by auto
qed

end
