(* ===== verification/Spec2Isabelle.thy ===== *)
theory Spec2Isabelle
  imports Bit_Field Gpu_Examples Svc_Examples Macro_Sound Macro_Alu Dma_Examples Core_Timing_Correct Spsc_Queue Cpu_Examples
begin

text \<open>
  A verification of the core of the yuzu emulator: its memory managers, its kernel objects, its scheduling,
  its timing, and the parts of the GPU that interpret what a guest submits.

  \<^bold>\<open>The program.\<close> The emulator runs the code of a guest on emulated CPU cores. The guest's memory is
  described by a \<^verbatim>\<open>VMManager\<close> per process, which keeps a map of areas and a page table that the CPU reads
  on its fast path; the system calls of the guest change it. Threads of the guest live in the kernel: each core
  has a scheduler with a multi-level queue of ready threads, and threads wait for each other through mutexes,
  address arbiters and events, with timeouts that core timing delivers. Objects are named by handles. The GPU
  has an address space of its own on top of guest memory and executes command lists from it; its 3D engine runs
  macros that the guest uploads.

  \<^bold>\<open>Conventions.\<close> Paths are below \<^verbatim>\<open>src/src\<close>. An operation of a class takes the state as a record and
  returns it. A function that can hit an \<^verbatim>\<open>ASSERT\<close>, \<^verbatim>\<open>UNREACHABLE\<close> or \<^verbatim>\<open>UNIMPLEMENTED\<close>, that would
  run into undefined behaviour, that throws an exception nobody catches or that may not come back is in the
  option monad, with None for all of these; so a theorem that a result is Some says that the code returns and
  that no assertion fails. Error codes are values: a \<open>ResultVal\<close> is a sum with the error on the left. Unsigned
  integers are words of their width, signed ones are integers of the logic with their overflow as None. Code
  outside the repository, such as the order \<^verbatim>\<open>std::sort\<close> gives to equal elements and the host's allocator,
  and the rasterizer behind the GPU are arguments of the definitions; where a theorem relies on them, it says so
  in a hypothesis.

  \<^bold>\<open>Foundations.\<close>
  \<^item> \<open>Yuzu_Prelude\<close>: integer types, assertions, shared lemmas on words, lists and options.
  \<^item> \<open>Bit_Field\<close> (\<^verbatim>\<open>common/bit_field.h\<close>): reading and assigning bit fields; a field reads back what was
    assigned, and the others keep their values.
  \<^item> \<open>Result_Code\<close> (\<^verbatim>\<open>core/hle/result.h\<close>, \<^verbatim>\<open>kernel/errors.h\<close>): result codes.
  \<^item> \<open>Std_Map\<close>: the operations of \<^verbatim>\<open>std::map\<close> and its iterators that the memory managers use.
  \<^item> \<open>Host_Memory\<close>: host memory as a function from addresses to bytes, and the page-wise loop that all block
    operations share.
  \<^item> \<open>Vma_Space\<close>: the code that \<^verbatim>\<open>VMManager\<close> and the GPU's \<^verbatim>\<open>MemoryManager\<close> share word for word, once,
    over an abstract type of areas. The locale \<open>vma_area\<close> and its extensions state what an area type promises;
    inside them, finding, splitting, merging and walking a range are shown to change only how the address space
    is divided. \<open>Vm_Area\<close> and \<open>Gpu_Memory_Correct\<close> interpret them on the two area types.

  \<^bold>\<open>Guest memory.\<close>
  \<^item> \<open>Page_Table\<close> (\<^verbatim>\<open>common/page_table.cpp\<close>, the mapping functions of \<^verbatim>\<open>core/memory.cpp\<close>).
  \<^item> \<open>Vm_Area\<close>, \<open>Vm_Manager\<close> (\<^verbatim>\<open>core/hle/kernel/vm_manager.h\<close>, \<^verbatim>\<open>vm_manager.cpp\<close>): the whole class.
  \<^item> \<open>Vm_Invariant\<close>: the meaning of a manager is its view, what each address is; \<open>vm_ok\<close> says that the areas
    tile the address space, that no two free ones are neighbours and that the page table agrees with them.
  \<^item> \<open>Vm_Carve\<close>, \<open>Vm_Map_Correct\<close>, \<open>Vm_Range_Correct\<close>, \<open>Vm_Reset_Correct\<close>, \<open>Vm_Mirror\<close>: every operation that
    maps, unmaps, reprotects or mirrors returns, keeps \<open>vm_ok\<close>, repaints exactly its range in the view, or fails
    without an effect.
  \<^item> \<open>Guest_Memory\<close> (\<^verbatim>\<open>core/memory.cpp\<close>), \<open>Guest_Memory_Correct\<close>, \<open>Guest_Block_Correct\<close>: accesses of all
    widths and block operations end at the host address that the areas give, on the fast path and for pages that
    the rasterizer caches; reads return what was written.
  \<^item> \<open>Svc_Memory\<close>, \<open>Svc_Shared\<close> (\<^verbatim>\<open>core/hle/kernel/svc.cpp\<close>, \<^verbatim>\<open>shared_memory.cpp\<close>,
    \<^verbatim>\<open>transfer_memory.cpp\<close>): the system calls on memory check their arguments well enough that the manager's
    assertions cannot fail, with the exceptions that the theorems state.

  \<^bold>\<open>The kernel.\<close>
  \<^item> \<open>Handle_Table\<close>, \<open>Handle_Table_Correct\<close> (\<^verbatim>\<open>handle_table.cpp\<close>): the table refines a finite map; its contract
    is the locale \<open>handle_store\<close>, from which follows that handles are not reused soon.
  \<^item> \<open>Multi_Level_Queue\<close>, \<open>Multi_Level_Queue_Correct\<close>, \<open>Ready_Queue\<close> (\<^verbatim>\<open>common/multi_level_queue.h\<close>): the queue
    against the list of its elements; the locale \<open>ready_queue\<close> is what a scheduler relies on.
  \<^item> \<open>Kernel_State\<close>, \<open>Kernel_Thread\<close>, \<open>Kernel_Sync\<close>, \<open>Kernel_Arbiter\<close> (\<^verbatim>\<open>thread.cpp\<close>, \<^verbatim>\<open>scheduler.cpp\<close>,
    \<^verbatim>\<open>wait_object.cpp\<close>, \<^verbatim>\<open>readable_event.cpp\<close>, \<^verbatim>\<open>mutex.cpp\<close>, \<^verbatim>\<open>address_arbiter.cpp\<close>): threads, schedulers and
    synchronization over a store of threads.
  \<^item> \<open>Kernel_Invariant\<close>, \<open>Kernel_Priority\<close>, \<open>Kernel_Schedule\<close>, \<open>Kernel_Switch\<close>, \<open>Kernel_Resume\<close>: the invariant
    \<open>sched_inv\<close> on ready queues, waiting and inherited priorities; priority inheritance is exact and its
    recursion ends; a context switch runs a most urgent thread.
  \<^item> \<open>Kernel_Mutex\<close>, \<open>Arbiter_Correct\<close>: mutexes and address arbiters wake the right threads and leave the right
    word in guest memory.

  \<^bold>\<open>Time.\<close>
  \<^item> \<open>Core_Timing_Util\<close> (\<^verbatim>\<open>common/uint128.cpp\<close>, \<^verbatim>\<open>core/core_timing_util.cpp\<close>): conversions between time and
    cycles, exact or saturating.
  \<^item> \<open>Core_Timing\<close>, \<open>Core_Timing_Correct\<close> (\<^verbatim>\<open>core/core_timing.cpp\<close>): events run in order and on time.
  \<^item> \<open>Cpu_Core\<close> (\<^verbatim>\<open>core/core_cpu.cpp\<close>, \<^verbatim>\<open>core/cpu_core_manager.cpp\<close>): the loop of a core, where timing, kernel
    and schedulers meet: a sleeping thread gets its core back at its time.
  \<^item> \<open>Spsc_Queue\<close> (\<^verbatim>\<open>common/threadsafe_queue.h\<close>): the lock-free queue as a step relation over a store of nodes,
    under every interleaving of a reader and a writer; the locale \<open>fifo\<close> is its contract.

  \<^bold>\<open>The GPU.\<close>
  \<^item> \<open>Gpu_Memory\<close>, \<open>Gpu_Memory_Correct\<close>, \<open>Gpu_Map_Correct\<close> (\<^verbatim>\<open>video_core/memory_manager.cpp\<close>): the GPU's address
    space translates to exactly the guest memory that was mapped.
  \<^item> \<open>Gpu_Puller\<close>, \<open>Puller_Correct\<close> (\<^verbatim>\<open>video_core/gpu.cpp\<close>): the dispatch of method calls to engines and the
    puller, with its semaphores in GPU memory.
  \<^item> \<open>Dma_Pusher\<close>, \<open>Dma_Correct\<close> (\<^verbatim>\<open>video_core/dma_pusher.cpp\<close>): command lists become the method calls that
    their commands stand for, however the stream of commands is divided into blocks.
  \<^item> \<open>Macro_Interpreter\<close> (\<^verbatim>\<open>video_core/macro_interpreter.cpp\<close>, \<^verbatim>\<open>engines/maxwell_3d.cpp\<close>): the interpreter of
    macros, how the 3D engine uploads, binds and calls them, and the writing of its registers.
  \<^item> \<open>Macro_Verifier\<close>, \<open>Macro_Sound\<close>: a type system for macro code, and that typed macros do not go wrong.
  \<^item> \<open>Macro_Alu\<close>: the arithmetic of macros.
  The theories whose names end in \<open>Examples\<close> build concrete states and apply the theorems to them.

  \<^bold>\<open>Bounds and fuel.\<close> Loops over ranges of areas and over pages are recursive functions with termination proofs,
  or partial functions of which the theorems show that they return. \<open>range_loop\<close> is a partial function: that it
  ends is part of the theorems on \<open>UnmapRange\<close> and \<open>ReprotectRange\<close>. The recursion of \<open>UpdatePriority\<close> along the
  owners of locks is a partial function too, and ends since the waits-for relation has no cycle. The interpreter
  of macros is partial, since a macro can loop; the theorem on it covers any number \<open>k\<close> of rounds of its loop.
  The only fuel is the depth to which macros call macros, and no theorem depends on its value.

  \<^bold>\<open>Not modelled.\<close> The recompiler that executes guest code and the memory model below it: the interleavings
  modelled are those at the steps that the theories name, under sequential consistency. The creation and the
  termination of threads and processes, IPC sessions and the services behind them, which mostly forward to host
  facilities. The reference counts of \<^verbatim>\<open>SharedPtr\<close>: an object lives as long as the model refers to it.
  Logging and profiling. File formats, cryptography, audio, input and the front ends. The engines of the GPU apart
  from the parts above, the shader compiler and the renderers, which consist of calls to graphics interfaces of
  the host. Conversions of time in floating point.
\<close>

end
